(* ===== verification/JsPrelude.thy ===== *)
theory JsPrelude
  imports Complex_Main "HOL-Library.Sublist" "HOL-Library.Multiset"
begin

section \<open>The JavaScript strings, sets and lists the components share\<close>

text \<open>
  This theory models what the TypeScript sources use of the language and its standard library:
  strings as lists of UTF-16 code units, \<open>trim\<close>, \<open>split\<close>, \<open>join\<close>, \<open>indexOf\<close>,
  \<open>includes\<close>, insertion-ordered \<open>Set\<close>s, decimal printing and parsing of non-negative
  integers, and the stable \<open>Array.prototype.sort\<close>.

  A string is a list of integers, one per code unit; \<open>js ''abc''\<close> is the literal
  \<open>'abc'\<close>.  Code units that are no ASCII characters (the full-width comma, the Unicode
  spaces) are written as their number.  The result \<open>-1\<close> of \<open>indexOf\<close> is \<open>None\<close>,
  and \<open>null\<close> or \<open>undefined\<close> are \<open>None\<close> as well.

  The named collections: \<open>js_lits\<close> unfolds literals to code units, \<open>js_evals\<close> collects
  the definitions a concrete evaluation needs, \<open>trim_simps\<close> the laws of \<open>trim\<close>.
\<close>

named_theorems js_lits \<open>literals as lists of code units\<close>
named_theorems js_evals \<open>definitions unfolded when a closed term is evaluated\<close>
named_theorems trim_simps \<open>laws of trim\<close>

type_synonym jschar = int
type_synonym jsstring = "jschar list"

text \<open>The operator \<open>??\<close> on an optional value.\<close>

definition nullish :: "'a option \<Rightarrow> 'a \<Rightarrow> 'a" where
  "nullish v d = (case v of None \<Rightarrow> d | Some x \<Rightarrow> x)"

lemma nullish_simps [simp]: "nullish None d = d" "nullish (Some x) d = x"
  by (simp_all add: nullish_def)

subsection \<open>Literals\<close>

definition js :: "string \<Rightarrow> jsstring" where
  "js s = map of_char s"

lemma js_Nil [js_lits, simp]: "js [] = []"
  by (simp add: js_def)

lemma js_Cons [js_lits]: "js (c # cs) = of_char c # js cs"
  by (simp add: js_def)

lemma length_js [simp]: "length (js s) = length s"
  by (simp add: js_def)

lemma js_eq_Nil [simp]: "js s = [] \<longleftrightarrow> s = []"
  by (simp add: js_def)

subsection \<open>White space and trim\<close>

text \<open>
  White space is the class that \<open>String.prototype.trim\<close> removes and that the regular
  expression escape \<open>\s\<close> matches: the ASCII blanks and line ends, the no-break space, the
  space separators of Unicode, the two line separators and the byte order mark.
\<close>

definition is_ws :: "jschar \<Rightarrow> bool" where
  "is_ws c \<longleftrightarrow> c = 32 \<or> (9 \<le> c \<and> c \<le> 13) \<or> c = 160 \<or> c = 5760 \<or> (8192 \<le> c \<and> c \<le> 8202) \<or>
     c = 8232 \<or> c = 8233 \<or> c = 8239 \<or> c = 8287 \<or> c = 12288 \<or> c = 65279"

definition trim :: "jsstring \<Rightarrow> jsstring" where
  "trim s = rev (dropWhile is_ws (rev (dropWhile is_ws s)))"

definition trimmed :: "jsstring \<Rightarrow> bool" where
  "trimmed s \<longleftrightarrow> s = [] \<or> (\<not> is_ws (hd s) \<and> \<not> is_ws (last s))"

lemma is_ws_space [simp]: "is_ws 32"
  by (simp add: is_ws_def)

lemma trim_Nil [simp]: "trim [] = []"
  by (simp add: trim_def)

lemma trim_trimmed [trim_simps]: "trimmed s \<Longrightarrow> trim s = s"
proof (cases "s = []")
  case False
  assume "trimmed s"
  with False have h: "\<not> is_ws (hd s)" and l: "\<not> is_ws (last s)"
    by (auto simp: trimmed_def)
  from False h have d: "dropWhile is_ws s = s"
    by (cases s) auto
  from False l have "dropWhile is_ws (rev s) = rev s"
    by (cases s rule: rev_cases) auto
  with d show ?thesis by (simp add: trim_def)
qed (simp add: trim_def)

lemma trimmed_trim [simp]: "trimmed (trim s)"
proof (cases "trim s = []")
  case False
  let ?d = "dropWhile is_ws s"
  let ?r = "dropWhile is_ws (rev ?d)"
  from False have r: "?r \<noteq> []" by (simp add: trim_def)
  then have d: "?d \<noteq> []" by (metis dropWhile.simps(1) rev.simps(1))
  have h: "\<not> is_ws (hd ?d)" using d by (rule hd_dropWhile)
  have "\<not> is_ws (hd ?r)" using r by (rule hd_dropWhile)
  then have l: "\<not> is_ws (last (trim s))"
    using r by (simp add: trim_def last_rev)
  have "last ?r = last (rev ?d)"
    using r by (metis dropWhile_eq_drop last_drop drop_eq_Nil not_le)
  then have "hd (trim s) = hd ?d"
    using r d by (simp add: trim_def hd_rev last_rev)
  with h l show ?thesis by (simp add: trimmed_def)
qed (simp add: trimmed_def)

lemma trim_idem [simp]: "trim (trim s) = trim s"
  by (rule trim_trimmed) (rule trimmed_trim)

lemma dropWhile_all_not: "\<forall>c\<in>set s. \<not> P c \<Longrightarrow> dropWhile P s = s"
  by (cases s) auto

lemma trim_no_ws [trim_simps]: "\<forall>c\<in>set s. \<not> is_ws c \<Longrightarrow> trim s = s"
  by (simp add: trim_def dropWhile_all_not)

lemma set_trim_subset: "set (trim s) \<subseteq> set s"
  by (auto simp: trim_def dest!: set_dropWhileD)

lemma trim_eq_Nil: "trim s = [] \<longleftrightarrow> (\<forall>c\<in>set s. is_ws c)"
proof
  assume "trim s = []"
  then have "\<forall>c\<in>set (dropWhile is_ws s). is_ws c"
    by (simp add: trim_def)
  then have "dropWhile is_ws s = []"
    by (metis hd_dropWhile list.set_sel(1))
  then show "\<forall>c\<in>set s. is_ws c" by simp
next
  assume "\<forall>c\<in>set s. is_ws c"
  then have d: "dropWhile is_ws s = []" by (simp only: dropWhile_eq_Nil_conv)
  show "trim s = []" unfolding trim_def d by simp
qed

lemma trim_trimmed_nonempty: "trim s \<noteq> [] \<Longrightarrow> \<not> is_ws (hd (trim s)) \<and> \<not> is_ws (last (trim s))"
  using trimmed_trim [of s] by (auto simp: trimmed_def)

subsection \<open>Case of ASCII letters\<close>

text \<open>\<open>toUpperCase\<close> and \<open>toLowerCase\<close> where the result is compared with ASCII words.\<close>

definition ascii_upper :: "jsstring \<Rightarrow> jsstring" where
  "ascii_upper s = map (\<lambda>c. if 97 \<le> c \<and> c \<le> 122 then c - 32 else c) s"

definition ascii_lower :: "jsstring \<Rightarrow> jsstring" where
  "ascii_lower s = map (\<lambda>c. if 65 \<le> c \<and> c \<le> 90 then c + 32 else c) s"

subsection \<open>split on one code unit, join, filter(Boolean)\<close>

fun split_on :: "'a \<Rightarrow> 'a list \<Rightarrow> 'a list list" where
  "split_on d [] = [[]]"
| "split_on d (c # s) =
     (if c = d then [] # split_on d s
      else case split_on d s of [] \<Rightarrow> [[c]] | p # ps \<Rightarrow> (c # p) # ps)"

fun join :: "'a list \<Rightarrow> 'a list list \<Rightarrow> 'a list" where
  "join sep [] = []"
| "join sep [p] = p"
| "join sep (p # q # ps) = p @ sep @ join sep (q # ps)"

definition truthy_strs :: "jsstring list \<Rightarrow> jsstring list" where
  "truthy_strs ps = filter (\<lambda>p. p \<noteq> []) ps"

lemma first_delim_unique:
  "u @ d # s = v @ d # t \<Longrightarrow> d \<notin> set u \<Longrightarrow> d \<notin> set v \<Longrightarrow> u = v \<and> s = t"
proof (induction u arbitrary: v)
  case Nil
  then show ?case by (cases v) auto
next
  case (Cons c u)
  then show ?case by (cases v) auto
qed

lemma split_on_not_Nil [simp]: "split_on d s \<noteq> []"
  by (induction s) (auto split: list.splits)

lemma split_on_no_sep: "d \<notin> set s \<Longrightarrow> split_on d s = [s]"
  by (induction s) auto

lemma split_on_append: "d \<notin> set p \<Longrightarrow> split_on d (p @ d # s) = p # split_on d s"
  by (induction p) auto

lemma split_on_pieces: "p \<in> set (split_on d s) \<Longrightarrow> d \<notin> set p \<and> set p \<subseteq> set s"
proof (induction s arbitrary: p)
  case Nil
  then show ?case by simp
next
  case (Cons c s)
  show ?case
  proof (cases "c = d")
    case True
    then show ?thesis using Cons by auto
  next
    case False
    then obtain q qs where q: "split_on d s = q # qs"
      by (cases "split_on d s") auto
    then have "p = c # q \<or> p \<in> set qs" using Cons.prems False by auto
    then show ?thesis using Cons.IH [of q] Cons.IH [of p] q False by auto
  qed
qed

lemma join_Cons: "ps \<noteq> [] \<Longrightarrow> join sep (p # ps) = p @ sep @ join sep ps"
  by (cases ps) auto

lemma split_join: "ps \<noteq> [] \<Longrightarrow> \<forall>p\<in>set ps. d \<notin> set p \<Longrightarrow> split_on d (join [d] ps) = ps"
  by (induction "[d]" ps rule: join.induct) (auto simp: split_on_no_sep split_on_append)

lemma join_split: "join [d] (split_on d s) = s"
proof (induction s)
  case Nil
  then show ?case by simp
next
  case (Cons c s)
  then obtain q qs where q: "split_on d s = q # qs" by (cases "split_on d s") auto
  with Cons show ?case by (cases qs) auto
qed

lemma set_join: "set (join sep ps) \<subseteq> \<Union>(set ` set ps) \<union> set sep"
  by (induction sep ps rule: join.induct) auto

lemma map_filter_set: "set (List.map_filter f xs) = {y. \<exists>x\<in>set xs. f x = Some y}"
  by (induction xs) (auto simp: List.map_filter_simps split: option.splits)

subsection \<open>Insertion-ordered sets: Array.from(new Set(xs))\<close>

definition set_add :: "'a list \<Rightarrow> 'a \<Rightarrow> 'a list" where
  "set_add xs x = (if x \<in> set xs then xs else xs @ [x])"

definition set_of :: "'a list \<Rightarrow> 'a list" where
  "set_of xs = foldl set_add [] xs"

lemma foldl_set_add_set: "set (foldl set_add acc xs) = set acc \<union> set xs"
  by (induction xs arbitrary: acc) (auto simp: set_add_def)

lemma foldl_set_add_distinct: "distinct acc \<Longrightarrow> distinct (foldl set_add acc xs)"
  by (induction xs arbitrary: acc) (auto simp: set_add_def)

lemma foldl_set_add_disjoint:
  "distinct xs \<Longrightarrow> set acc \<inter> set xs = {} \<Longrightarrow> foldl set_add acc xs = acc @ xs"
  by (induction xs arbitrary: acc) (auto simp: set_add_def)

lemma set_set_of [simp]: "set (set_of xs) = set xs"
  by (simp add: set_of_def foldl_set_add_set)

lemma distinct_set_of [simp]: "distinct (set_of xs)"
  by (simp add: set_of_def foldl_set_add_distinct)

lemma set_of_distinct [simp]: "distinct xs \<Longrightarrow> set_of xs = xs"
  by (simp add: set_of_def foldl_set_add_disjoint)

lemma set_of_idem [simp]: "set_of (set_of xs) = set_of xs"
  by simp

lemma length_set_of_le: "length (set_of xs) \<le> length xs"
proof -
  have "length (set_of xs) = card (set xs)"
    using distinct_card [OF distinct_set_of [of xs]] by simp
  then show ?thesis by (simp add: card_length)
qed

subsection \<open>Searching: startsWith, str_includes, indexOf, slice\<close>

text \<open>
  \<open>find_sub p s\<close> is the least offset at which \<open>p\<close> occurs in \<open>s\<close>;
  \<open>index_of s p i\<close> is \<open>s.indexOf(p, i)\<close>, and \<open>substring s i j\<close> is
  \<open>s.substring(i, j)\<close> for \<open>i \<le> j\<close>.
\<close>

fun find_sub :: "'a list \<Rightarrow> 'a list \<Rightarrow> nat option" where
  "find_sub p [] = (if p = [] then Some 0 else None)"
| "find_sub p (c # s) = (if prefix p (c # s) then Some 0 else map_option Suc (find_sub p s))"

definition index_of :: "'a list \<Rightarrow> 'a list \<Rightarrow> nat \<Rightarrow> nat option" where
  "index_of s p i = map_option (\<lambda>k. i + k) (find_sub p (drop i s))"

definition str_includes :: "'a list \<Rightarrow> 'a list \<Rightarrow> bool" where
  "str_includes s p \<longleftrightarrow> find_sub p s \<noteq> None"

definition substring :: "'a list \<Rightarrow> nat \<Rightarrow> nat \<Rightarrow> 'a list" where
  "substring s i j = take (j - i) (drop i s)"

lemma find_sub_Some:
  "find_sub p s = Some k \<Longrightarrow> k + length p \<le> length s \<and> take (length p) (drop k s) = p"
proof (induction p s arbitrary: k rule: find_sub.induct)
  case (1 p)
  then show ?case by (auto split: if_splits)
next
  case (2 p c s)
  show ?case
  proof (cases k)
    case 0
    with 2 have "prefix p (c # s)" by (auto split: if_splits)
    then obtain v where v: "c # s = p @ v" by (auto simp: prefix_def)
    then have "length p \<le> length (c # s)" by simp
    then show ?thesis unfolding 0 v by simp
  next
    case (Suc j)
    with 2 show ?thesis by (auto split: if_splits)
  qed
qed

lemma find_sub_Some_split:
  assumes "find_sub p s = Some k"
  shows "s = take k s @ p @ drop (k + length p) s"
proof -
  have "take (length p) (drop k s) = p" using find_sub_Some [OF assms] by simp
  then have "drop k s = p @ drop (k + length p) s"
    by (metis append_take_drop_id drop_drop add.commute)
  then show ?thesis by (metis append_take_drop_id)
qed

lemma find_sub_append: "find_sub p (u @ p @ v) \<noteq> None"
proof (induction u)
  case Nil
  show ?case by (cases "p @ v") (auto, metis prefixI)
qed auto

lemma find_sub_None: "find_sub p s = None \<longleftrightarrow> (\<forall>u v. s \<noteq> u @ p @ v)"
  using find_sub_append find_sub_Some_split by (metis not_Some_eq)

lemma find_sub_least:
  "find_sub p s = Some k \<Longrightarrow> j < k \<Longrightarrow> \<not> prefix p (drop j s)"
proof (induction p s arbitrary: k j rule: find_sub.induct)
  case (1 p)
  then show ?case by (auto split: if_splits)
next
  case (2 p c s)
  then show ?case by (cases j) (auto split: if_splits)
qed

lemma str_includes_iff: "str_includes s p \<longleftrightarrow> (\<exists>u v. s = u @ p @ v)"
  using find_sub_None [of p s] by (auto simp: str_includes_def)

text \<open>
  A pattern is border-free when no proper non-empty prefix of it is also a suffix.  Occurrences
  of such a pattern never overlap, so the first one in \<open>u @ p @ v\<close> is the one shown
  whenever \<open>u\<close> has none of its own.
\<close>

definition border_free :: "'a list \<Rightarrow> bool" where
  "border_free p \<longleftrightarrow> p \<noteq> [] \<and> (\<forall>n\<in>{1..<length p}. take n p \<noteq> drop (length p - n) p)"

lemma border_free_first:
  assumes bf: "border_free p" and no: "find_sub p u = None"
  shows "find_sub p (u @ p @ v) = Some (length u)"
proof (cases "find_sub p (u @ p @ v)")
  case None
  then show ?thesis using find_sub_append [of p u v] by simp
next
  case (Some k)
  let ?s = "u @ p @ v"
  have len: "k + length p \<le> length ?s" and tk: "take (length p) (drop k ?s) = p"
    using find_sub_Some [OF Some] by auto
  have pre: "prefix p (drop (length u) ?s)" by (simp add: prefix_def)
  with find_sub_least [OF Some, of "length u"] have le: "k \<le> length u" by linarith
  show ?thesis
  proof (cases "k = length u")
    case False
    with le have lt: "k < length u" by simp
    have p0: "length p > 0" using bf by (simp add: border_free_def)
    show ?thesis
    proof (cases "k + length p \<le> length u")
      case True
      then have "take (length p) (drop k u) = p" using tk by simp
      then have "u = take k u @ p @ drop (k + length p) u"
        by (metis append_take_drop_id drop_drop add.commute)
      then show ?thesis using no by (metis find_sub_append)
    next
      case over: False
      let ?n = "length p - (length u - k)"
      have n: "?n \<in> {1..<length p}" using lt over p0 by auto
      have "drop (length p - ?n) p = drop (length u - k) p"
        using over lt by (simp add: Suc_leI nat_le_linear)
      also have "\<dots> = drop (length u - k) (take (length p) (drop k ?s))" using tk by simp
      also have "\<dots> = take ?n (drop (length u - k) (drop k ?s))" by (rule drop_take)
      also have "drop (length u - k) (drop k ?s) = p @ v" using lt by simp
      also have "take ?n (p @ v) = take ?n p" using n by simp
      finally show ?thesis using bf n unfolding border_free_def by metis
    qed
  qed (simp add: Some)
qed

subsection \<open>Decimal notation of non-negative integers\<close>

definition is_digit :: "jschar \<Rightarrow> bool" where
  "is_digit c \<longleftrightarrow> 48 \<le> c \<and> c \<le> 57"

fun show_nat :: "nat \<Rightarrow> jsstring" where
  "show_nat n = (if n < 10 then [48 + int n] else show_nat (n div 10) @ [48 + int (n mod 10)])"

declare show_nat.simps [simp del]

text \<open>\<open>Number.parseInt(s, 10)\<close> on a string of digits.\<close>

definition digits_val :: "jsstring \<Rightarrow> nat" where
  "digits_val s = foldl (\<lambda>a c. a * 10 + nat (c - 48)) 0 s"

text \<open>\<open>/^\d+$/.test(s)\<close>.\<close>

definition all_digits :: "jsstring \<Rightarrow> bool" where
  "all_digits s \<longleftrightarrow> s \<noteq> [] \<and> (\<forall>c\<in>set s. is_digit c)"

lemma digits_val_snoc: "digits_val (s @ [c]) = digits_val s * 10 + nat (c - 48)"
  by (simp add: digits_val_def)

lemma digits_val_show_nat [simp]: "digits_val (show_nat n) = n"
proof (induction n rule: show_nat.induct)
  case (1 n)
  show ?case
  proof (cases "n < 10")
    case True
    then show ?thesis by (subst show_nat.simps) (simp add: digits_val_def)
  next
    case False
    with 1 show ?thesis by (subst show_nat.simps) (simp add: digits_val_snoc)
  qed
qed

lemma show_nat_digits: "c \<in> set (show_nat n) \<Longrightarrow> is_digit c"
proof (induction n arbitrary: c rule: show_nat.induct)
  case (1 n)
  show ?case
  proof (cases "n < 10")
    case True
    then show ?thesis using 1 by (subst (asm) show_nat.simps) (auto simp: is_digit_def)
  next
    case False
    then show ?thesis using 1 by (subst (asm) (2) show_nat.simps) (auto simp: is_digit_def)
  qed
qed

lemma show_nat_not_Nil [simp]: "show_nat n \<noteq> []"
  by (subst show_nat.simps) simp

lemma all_digits_show_nat [simp]: "all_digits (show_nat n)"
  using show_nat_digits by (auto simp: all_digits_def)

lemma show_nat_inject [simp]: "show_nat m = show_nat n \<longleftrightarrow> m = n"
  by (metis digits_val_show_nat)

lemma digit_not_ws: "is_digit c \<Longrightarrow> \<not> is_ws c"
  by (auto simp: is_digit_def is_ws_def)

lemma trim_show_nat [simp]: "trim (show_nat n) = show_nat n"
  by (rule trim_no_ws) (auto dest: show_nat_digits digit_not_ws)


subsection \<open>The stable sort\<close>

text \<open>
  \<open>Array.prototype.sort\<close> with a comparator is stable; for a consistent comparator its result is
  the one of insertion sort, which puts an element behind those that are not greater.
\<close>

fun sort_insert :: "('a \<Rightarrow> 'a \<Rightarrow> int) \<Rightarrow> 'a \<Rightarrow> 'a list \<Rightarrow> 'a list" where
  "sort_insert cmp x [] = [x]"
| "sort_insert cmp x (y # ys) = (if cmp x y < 0 then x # y # ys else y # sort_insert cmp x ys)"

definition js_sort :: "('a \<Rightarrow> 'a \<Rightarrow> int) \<Rightarrow> 'a list \<Rightarrow> 'a list" where
  "js_sort cmp xs = fold (sort_insert cmp) xs []"

text \<open>A consistent comparator: the sign swaps with the arguments, and it is transitive.\<close>

definition comparator :: "('a \<Rightarrow> 'a \<Rightarrow> int) \<Rightarrow> bool" where
  "comparator cmp \<longleftrightarrow> (\<forall>x y. cmp x y < 0 \<longleftrightarrow> 0 < cmp y x) \<and>
     (\<forall>x y z. cmp x y \<le> 0 \<longrightarrow> cmp y z \<le> 0 \<longrightarrow> cmp x z \<le> 0)"

lemma mset_sort_insert: "mset (sort_insert cmp x ys) = add_mset x (mset ys)"
  by (induction ys) auto

lemma mset_fold_insert: "mset (fold (sort_insert cmp) xs acc) = mset xs + mset acc"
  by (induction xs arbitrary: acc) (auto simp: mset_sort_insert)

lemma mset_js_sort [simp]: "mset (js_sort cmp xs) = mset xs"
  by (simp add: js_sort_def mset_fold_insert)

lemma set_js_sort [simp]: "set (js_sort cmp xs) = set xs"
  by (metis mset_js_sort set_mset_mset)

lemma length_js_sort [simp]: "length (js_sort cmp xs) = length xs"
  by (metis mset_js_sort size_mset)

lemma distinct_js_sort [simp]: "distinct (js_sort cmp xs) = distinct xs"
  by (metis mset_js_sort mset_eq_imp_distinct_iff)

lemma sorted_sort_insert:
  assumes "comparator cmp" "sorted_wrt (\<lambda>a b. cmp a b \<le> 0) ys"
  shows "sorted_wrt (\<lambda>a b. cmp a b \<le> 0) (sort_insert cmp x ys)"
  using assms(2)
proof (induction ys)
  case (Cons y ys)
  show ?case
  proof (cases "cmp x y < 0")
    case True
    have "cmp x z \<le> 0" if "z \<in> set ys" for z
      using assms(1) True that Cons.prems by (meson comparator_def less_imp_le sorted_wrt.simps(2))
    then show ?thesis using True Cons.prems by auto
  next
    case False
    then have "cmp y x \<le> 0" using assms(1) by (meson comparator_def not_le)
    moreover have "set (sort_insert cmp x ys) = insert x (set ys)"
      by (metis mset_sort_insert set_mset_add_mset_insert set_mset_mset)
    ultimately show ?thesis using False Cons by auto
  qed
qed simp

lemma sorted_js_sort: "comparator cmp \<Longrightarrow> sorted_wrt (\<lambda>a b. cmp a b \<le> 0) (js_sort cmp xs)"
proof -
  assume c: "comparator cmp"
  have "sorted_wrt (\<lambda>a b. cmp a b \<le> 0) acc \<Longrightarrow>
      sorted_wrt (\<lambda>a b. cmp a b \<le> 0) (fold (sort_insert cmp) xs acc)" for acc
    by (induction xs arbitrary: acc) (auto intro: sorted_sort_insert [OF c])
  then show ?thesis by (simp add: js_sort_def)
qed

lemma comparator_swap: "comparator cmp \<Longrightarrow> cmp x y = 0 \<Longrightarrow> cmp y x = 0"
proof -
  assume c: "comparator cmp" "cmp x y = 0"
  have "cmp x y < 0 \<longleftrightarrow> 0 < cmp y x" "cmp y x < 0 \<longleftrightarrow> 0 < cmp x y" using c(1) unfolding comparator_def by blast+
  then show ?thesis using c(2) by linarith
qed

lemma comparator_trans: "comparator cmp \<Longrightarrow> cmp x y \<le> 0 \<Longrightarrow> cmp y z \<le> 0 \<Longrightarrow> cmp x z \<le> 0"
  unfolding comparator_def by blast

lemma sort_insert_class:
  assumes "comparator cmp" "sorted_wrt (\<lambda>a b. cmp a b \<le> 0) ys"
  shows "filter (\<lambda>y. cmp x y = 0) (sort_insert cmp z ys) = filter (\<lambda>y. cmp x y = 0) ys @ (if cmp x z = 0 then [z] else [])"
  using assms(2)
proof (induction ys)
  case (Cons y ys)
  have "cmp x w \<noteq> 0" if "cmp z y < 0" "cmp x z = 0" "w \<in> set (y # ys)" for w
  proof
    assume "cmp x w = 0"
    then have "cmp w x \<le> 0" using comparator_swap [OF assms(1)] by force
    then have wz: "cmp w z \<le> 0" using comparator_trans [OF assms(1)] that(2) by force
    have "w = y \<or> cmp y w \<le> 0" using that(3) Cons.prems by auto
    then have "cmp y z \<le> 0" using wz comparator_trans [OF assms(1), of y w z] by blast
    then show False using that(1) assms(1) unfolding comparator_def by (metis leD)
  qed
  then have "filter (\<lambda>y. cmp x y = 0) (y # ys) = []" if "cmp z y < 0" "cmp x z = 0"
    using that unfolding filter_empty_conv by blast
  moreover have "filter (\<lambda>y. cmp x y = 0) (sort_insert cmp z ys) = filter (\<lambda>y. cmp x y = 0) ys @ (if cmp x z = 0 then [z] else [])"
    using Cons by simp
  ultimately show ?case
  proof (cases "cmp z y < 0")
    case True
    then have "sort_insert cmp z (y # ys) = z # y # ys" by simp
    then show ?thesis
      using \<open>cmp z y < 0 \<Longrightarrow> cmp x z = 0 \<Longrightarrow> filter (\<lambda>y. cmp x y = 0) (y # ys) = []\<close> [OF True]
      by (simp only: filter.simps(2) [of _ z] append_Nil append_Nil2 split: if_split) simp
  qed simp
qed simp

lemma stable_js_sort:
  assumes "comparator cmp"
  shows "filter (\<lambda>y. cmp x y = 0) (js_sort cmp xs) = filter (\<lambda>y. cmp x y = 0) xs"
proof -
  have "sorted_wrt (\<lambda>a b. cmp a b \<le> 0) acc \<Longrightarrow>
    filter (\<lambda>y. cmp x y = 0) (fold (sort_insert cmp) xs acc) = filter (\<lambda>y. cmp x y = 0) (acc @ xs)" for acc
    by (induction xs arbitrary: acc) (auto simp: sorted_sort_insert [OF assms] sort_insert_class [OF assms])
  from this [of "[]"] show ?thesis by (simp add: js_sort_def)
qed

lemma js_sort_zero [simp]: "js_sort (\<lambda>a b. 0) xs = xs"
proof -
  have "sort_insert (\<lambda>a b. 0) x ys = ys @ [x]" for x and ys :: "'a list" by (induction ys) auto
  then have "fold (sort_insert (\<lambda>a b. 0)) xs acc = acc @ xs" for acc by (induction xs arbitrary: acc) auto
  then show ?thesis by (simp add: js_sort_def)
qed

end
