(* ===== verification/StatusCodes.thy ===== *)
theory StatusCodes
  imports JsPrelude
begin

section \<open>HTTP status code rules\<close>

text \<open>
  Models \<^verbatim>\<open>web/default/src/lib/http-status-code-rules.ts\<close>: the parser of the
  administrator's retry and disable rules (\<open>"429, 500-503"\<close>), which splits the text into
  tokens, reads each as a code or a range, merges the ranges and prints them back as a normal
  form.  Codes are non-negative integers: a token consists of decimal digits only, and
  \<open>Number.parseInt\<close> of more digits than a double holds stays above 599, as it does here.

  The lemmas show that merging keeps the set of codes, that its result is canonical (sorted,
  disjoint, not even adjacent) and that the normal form parses back to itself.
\<close>

subsection \<open>Data\<close>

datatype StatusCodeRange = StatusCodeRange (range_start: nat) (range_end: nat)

text \<open>The order of the comparator that \<open>mergeRanges\<close> sorts by: start first, then end.\<close>

instantiation StatusCodeRange :: linorder
begin

definition less_eq_StatusCodeRange :: "StatusCodeRange \<Rightarrow> StatusCodeRange \<Rightarrow> bool" where
  "less_eq_StatusCodeRange a b \<longleftrightarrow>
     (if range_start a \<noteq> range_start b then range_start a < range_start b
      else range_end a \<le> range_end b)"

definition less_StatusCodeRange :: "StatusCodeRange \<Rightarrow> StatusCodeRange \<Rightarrow> bool" where
  "less_StatusCodeRange a b \<longleftrightarrow>
     (if range_start a \<noteq> range_start b then range_start a < range_start b
      else range_end a < range_end b)"

instance
proof
  fix x y z :: StatusCodeRange
  show "(x < y) = (x \<le> y \<and> \<not> y \<le> x)"
    by (auto simp: less_eq_StatusCodeRange_def less_StatusCodeRange_def)
  show "x \<le> x" by (simp add: less_eq_StatusCodeRange_def)
  show "x \<le> y \<Longrightarrow> y \<le> z \<Longrightarrow> x \<le> z"
    by (auto simp: less_eq_StatusCodeRange_def split: if_splits)
  show "x \<le> y \<Longrightarrow> y \<le> x \<Longrightarrow> x = y"
    by (cases x; cases y) (auto simp: less_eq_StatusCodeRange_def split: if_splits)
  show "x \<le> y \<or> y \<le> x"
    by (auto simp: less_eq_StatusCodeRange_def)
qed

end

record ParsedHttpStatusCodeRules =
  rules_ok :: bool
  rules_ranges :: "StatusCodeRange list"
  rules_tokens :: "jsstring list"
  rules_normalized :: jsstring
  rules_invalidTokens :: "jsstring list"

subsection \<open>Operations\<close>

definition isNumber :: "jsstring \<Rightarrow> bool" where
  "isNumber s = all_digits s"

definition isValidCode :: "nat \<Rightarrow> bool" where
  "isValidCode code \<longleftrightarrow> code \<ge> 100 \<and> code \<le> 599"

definition parseToken :: "jsstring \<Rightarrow> StatusCodeRange option" where
  "parseToken token =
     (let cleaned = filter (\<lambda>c. \<not> is_ws c) (trim token) in
      if cleaned = [] then None
      else if 45 \<in> set cleaned then
        (case split_on 45 cleaned of
           a # b # _ \<Rightarrow>
             if \<not> isNumber a \<or> \<not> isNumber b then None
             else let start = digits_val a; fin = digits_val b in
                  if \<not> isValidCode start \<or> \<not> isValidCode fin \<or> start > fin then None
                  else Some (StatusCodeRange start fin)
         | _ \<Rightarrow> None)
      else if \<not> isNumber cleaned then None
      else let code = digits_val cleaned in
           if \<not> isValidCode code then None else Some (StatusCodeRange code code))"

definition merge_step :: "StatusCodeRange list \<Rightarrow> StatusCodeRange \<Rightarrow> StatusCodeRange list" where
  "merge_step merged current =
     (if merged = [] \<or> range_start current > range_end (last merged) + 1 then merged @ [current]
      else butlast merged @
        [StatusCodeRange (range_start (last merged))
           (max (range_end (last merged)) (range_end current))])"

definition mergeRanges :: "StatusCodeRange list \<Rightarrow> StatusCodeRange list" where
  "mergeRanges rs = (if rs = [] then [] else foldl merge_step [] (sort rs))"

definition range_token :: "StatusCodeRange \<Rightarrow> jsstring" where
  "range_token r =
     (if range_start r = range_end r then show_nat (range_start r)
      else show_nat (range_start r) @ [45] @ show_nat (range_end r))"

text \<open>The segments of a rule text: full-width commas count as commas, blanks are trimmed.\<close>

definition rule_segments :: "jsstring \<Rightarrow> jsstring list" where
  "rule_segments raw =
     truthy_strs (map trim (split_on 44 (map (\<lambda>c. if c = 65292 then 44 else c) raw)))"

definition parseHttpStatusCodeRules :: "jsstring option \<Rightarrow> ParsedHttpStatusCodeRules" where
  "parseHttpStatusCodeRules input =
     (let raw = trim (case input of None \<Rightarrow> [] | Some s \<Rightarrow> s) in
      if length raw = 0 then
        \<lparr>rules_ok = True, rules_ranges = [], rules_tokens = [], rules_normalized = [],
         rules_invalidTokens = []\<rparr>
      else
        let segments = rule_segments raw;
            rs = List.map_filter parseToken segments;
            invalid = filter (\<lambda>s. parseToken s = None) segments
        in if length invalid > 0 then
             \<lparr>rules_ok = False, rules_ranges = [], rules_tokens = [], rules_normalized = raw,
              rules_invalidTokens = invalid\<rparr>
           else
             let merged = mergeRanges rs;
                 tokens = map range_token merged
             in \<lparr>rules_ok = True, rules_ranges = merged, rules_tokens = tokens,
                 rules_normalized = join [44] tokens, rules_invalidTokens = []\<rparr>)"

subsection \<open>Range lists as sets of codes\<close>

definition covers :: "StatusCodeRange list \<Rightarrow> nat \<Rightarrow> bool" where
  "covers rs c \<longleftrightarrow> (\<exists>r\<in>set rs. range_start r \<le> c \<and> c \<le> range_end r)"

definition wf_range :: "StatusCodeRange \<Rightarrow> bool" where
  "wf_range r \<longleftrightarrow> range_start r \<le> range_end r"

definition canonical :: "StatusCodeRange list \<Rightarrow> bool" where
  "canonical rs \<longleftrightarrow> (\<forall>r\<in>set rs. wf_range r) \<and>
     sorted_wrt (\<lambda>r s. range_end r + 1 < range_start s) rs"

lemma covers_Nil [simp]: "\<not> covers [] c"
  by (simp add: covers_def)

lemma covers_Cons: "covers (r # rs) c \<longleftrightarrow> (range_start r \<le> c \<and> c \<le> range_end r) \<or> covers rs c"
  by (auto simp: covers_def)

lemma covers_append: "covers (rs @ ss) c \<longleftrightarrow> covers rs c \<or> covers ss c"
  by (auto simp: covers_def)

lemma covers_sort [simp]: "covers (sort rs) c \<longleftrightarrow> covers rs c"
  by (simp add: covers_def)

lemma canonical_snoc:
  "canonical (rs @ [r]) \<longleftrightarrow>
     canonical rs \<and> wf_range r \<and> (\<forall>s\<in>set rs. range_end s + 1 < range_start r)"
  by (auto simp: canonical_def sorted_wrt_append)

text \<open>
  The loop invariant of the reduction: the accumulator is canonical, and every range still to
  come starts at or after the start of its last element.
\<close>

lemma merge_step_inv:
  assumes "canonical acc" "wf_range r" "acc \<noteq> [] \<Longrightarrow> range_start (last acc) \<le> range_start r"
  shows "canonical (merge_step acc r) \<and>
    (\<forall>c. covers (merge_step acc r) c \<longleftrightarrow> covers acc c \<or> covers [r] c) \<and>
    merge_step acc r \<noteq> [] \<and> range_start (last (merge_step acc r)) \<le> range_start r"
proof (cases acc rule: rev_cases)
  case Nil
  then show ?thesis using assms by (auto simp: merge_step_def canonical_def)
next
  case (snoc rs s)
  with assms have c: "canonical rs" and s: "wf_range s"
    and g: "\<forall>t\<in>set rs. range_end t + 1 < range_start s" and le: "range_start s \<le> range_start r"
    by (auto simp: canonical_snoc)
  show ?thesis
  proof (cases "range_start r > range_end s + 1")
    case True
    have "\<forall>t\<in>set acc. range_end t + 1 < range_start r"
      using snoc True g s by (fastforce simp: wf_range_def)
    then have "canonical (acc @ [r])"
      using assms(1,2) by (simp add: canonical_snoc)
    with snoc True show ?thesis
      by (auto simp: merge_step_def covers_append covers_Cons)
  next
    case False
    with snoc c s g le assms(2) show ?thesis
      by (auto simp: merge_step_def canonical_snoc covers_append covers_Cons wf_range_def)
  qed
qed

lemma foldl_merge_step:
  assumes "sorted rs" "\<forall>r\<in>set rs. wf_range r" "canonical acc"
    and "acc \<noteq> [] \<Longrightarrow> \<forall>r\<in>set rs. range_start (last acc) \<le> range_start r"
  shows "canonical (foldl merge_step acc rs) \<and>
    (\<forall>c. covers (foldl merge_step acc rs) c \<longleftrightarrow> covers acc c \<or> covers rs c)"
  using assms
proof (induction rs arbitrary: acc)
  case (Cons r rs)
  have step: "canonical (merge_step acc r) \<and>
    (\<forall>c. covers (merge_step acc r) c \<longleftrightarrow> covers acc c \<or> covers [r] c) \<and>
    merge_step acc r \<noteq> [] \<and> range_start (last (merge_step acc r)) \<le> range_start r"
    by (rule merge_step_inv) (use Cons.prems in auto)
  have le: "\<forall>s\<in>set rs. range_start r \<le> range_start s"
    using Cons.prems(1) by (fastforce simp: less_eq_StatusCodeRange_def split: if_splits)
  have "canonical (foldl merge_step (merge_step acc r) rs) \<and>
    (\<forall>c. covers (foldl merge_step (merge_step acc r) rs) c \<longleftrightarrow>
       covers (merge_step acc r) c \<or> covers rs c)"
    by (rule Cons.IH) (use Cons.prems step le in \<open>auto intro: order_trans\<close>)
  with step show ?case by (auto simp: covers_Cons)
qed simp

lemma mergeRanges_spec:
  assumes "\<forall>r\<in>set rs. wf_range r"
  shows "canonical (mergeRanges rs)" and "covers (mergeRanges rs) c \<longleftrightarrow> covers rs c"
  using foldl_merge_step [of "sort rs" "[]"] assms
  by (auto simp: mergeRanges_def canonical_def)

subsection \<open>Canonical lists are determined by what they cover\<close>

lemma canonical_Cons:
  "canonical (r # rs) \<longleftrightarrow>
     wf_range r \<and> (\<forall>s\<in>set rs. range_end r + 1 < range_start s) \<and> canonical rs"
  by (auto simp: canonical_def)

lemma canonical_tail_covers:
  "canonical (r # rs) \<Longrightarrow> covers rs c \<Longrightarrow> range_end r + 1 < c"
  by (auto simp: canonical_Cons covers_def)

lemma canonical_start_least:
  "canonical (r # rs) \<Longrightarrow> covers (r # rs) c \<Longrightarrow> range_start r \<le> c"
  using canonical_tail_covers [of r rs c] by (auto simp: covers_Cons canonical_Cons wf_range_def)

lemma canonical_head_unique:
  assumes r: "canonical (r # rs)" and s: "canonical (s # ss)"
    and eq: "\<And>c. covers (r # rs) c \<longleftrightarrow> covers (s # ss) c"
  shows "r = s"
proof -
  have wr: "range_start r \<le> range_end r" and ws: "range_start s \<le> range_end s"
    using r s by (auto simp: canonical_Cons wf_range_def)
  have "range_start s \<le> range_start r"
    using canonical_start_least [OF s, of "range_start r"] eq [of "range_start r"] wr
    by (simp add: covers_Cons)
  moreover have "range_start r \<le> range_start s"
    using canonical_start_least [OF r, of "range_start s"] eq [of "range_start s"] ws
    by (simp add: covers_Cons)
  ultimately have st: "range_start r = range_start s" by simp
  have nr: "\<not> covers (r # rs) (range_end r + 1)"
    using canonical_tail_covers [OF r, of "range_end r + 1"] by (auto simp: covers_Cons)
  have ns: "\<not> covers (s # ss) (range_end s + 1)"
    using canonical_tail_covers [OF s, of "range_end s + 1"] by (auto simp: covers_Cons)
  have "\<not> range_end r < range_end s"
    using nr eq [of "range_end r + 1"] st wr by (auto simp: covers_Cons)
  moreover have "\<not> range_end s < range_end r"
    using ns eq [of "range_end s + 1"] st ws by (auto simp: covers_Cons)
  ultimately show ?thesis using st by (cases r; cases s) auto
qed

lemma canonical_unique:
  "canonical rs \<Longrightarrow> canonical ss \<Longrightarrow> (\<And>c. covers rs c \<longleftrightarrow> covers ss c) \<Longrightarrow> rs = ss"
proof (induction rs arbitrary: ss)
  case Nil
  then show ?case
    by (cases ss) (auto simp: covers_Cons canonical_Cons wf_range_def)
next
  case (Cons r rs)
  obtain s ss' where ss: "ss = s # ss'"
    using Cons.prems(1,3) by (cases ss) (auto simp: covers_Cons canonical_Cons wf_range_def)
  have rs: "r = s"
    using canonical_head_unique [of r rs s ss'] Cons.prems unfolding ss by blast
  have "covers rs c \<longleftrightarrow> covers ss' c" for c
    using Cons.prems(3) [of c] canonical_tail_covers [OF Cons.prems(1), of c]
      canonical_tail_covers [of s ss' c] Cons.prems(2)
    unfolding ss rs by (auto simp: covers_Cons)
  then have "rs = ss'"
    using Cons.IH [of ss'] Cons.prems(1,2) unfolding ss by (auto simp: canonical_Cons)
  with ss rs show ?case by simp
qed

subsection \<open>The interface between the parser and the merge\<close>

text \<open>
  What the rule parser relies on: merging well-formed ranges keeps the covered codes and gives
  a canonical list.  Everything the parser promises of its normal form follows from these laws.
\<close>

locale range_merger =
  fixes merge :: "StatusCodeRange list \<Rightarrow> StatusCodeRange list"
  assumes merge_canonical: "\<forall>r\<in>set rs. wf_range r \<Longrightarrow> canonical (merge rs)"
    and merge_covers: "\<forall>r\<in>set rs. wf_range r \<Longrightarrow> covers (merge rs) c \<longleftrightarrow> covers rs c"
begin

lemma merge_id: "canonical rs \<Longrightarrow> merge rs = rs"
proof -
  assume c: "canonical rs"
  then have wf: "\<forall>r\<in>set rs. wf_range r" by (simp add: canonical_def)
  show ?thesis by (rule canonical_unique [OF merge_canonical [OF wf] c]) (rule merge_covers [OF wf])
qed

lemma merge_idem: "\<forall>r\<in>set rs. wf_range r \<Longrightarrow> merge (merge rs) = merge rs"
  by (rule merge_id) (rule merge_canonical)

lemma merge_determined:
  assumes "\<forall>r\<in>set rs. wf_range r" "\<forall>r\<in>set ss. wf_range r"
  shows "merge rs = merge ss \<longleftrightarrow> (\<forall>c. covers rs c \<longleftrightarrow> covers ss c)"
proof
  assume "merge rs = merge ss"
  then show "\<forall>c. covers rs c \<longleftrightarrow> covers ss c"
    using assms by (metis merge_covers)
next
  assume "\<forall>c. covers rs c \<longleftrightarrow> covers ss c"
  then show "merge rs = merge ss"
    using assms by (intro canonical_unique) (auto simp: merge_canonical merge_covers)
qed

lemma merge_bounds:
  assumes "\<forall>r\<in>set rs. wf_range r \<and> lo \<le> range_start r \<and> range_end r \<le> hi" "r \<in> set (merge rs)"
  shows "lo \<le> range_start r \<and> range_start r \<le> range_end r \<and> range_end r \<le> hi"
proof -
  have wf: "\<forall>r\<in>set rs. wf_range r" using assms(1) by blast
  then have c: "canonical (merge rs)" by (rule merge_canonical)
  then have w: "range_start r \<le> range_end r"
    using assms(2) by (auto simp: canonical_def wf_range_def)
  have "covers (merge rs) (range_start r)" "covers (merge rs) (range_end r)"
    using assms(2) w by (auto simp: covers_def)
  then have "covers rs (range_start r)" "covers rs (range_end r)"
    using merge_covers [OF wf] by auto
  then show ?thesis using assms(1) w by (fastforce simp: covers_def)
qed

end

interpretation mr: range_merger mergeRanges
  by unfold_locales (auto simp: mergeRanges_spec)

subsection \<open>Tokens\<close>

lemma parseToken_Some:
  "parseToken t = Some r \<Longrightarrow> wf_range r \<and> 100 \<le> range_start r \<and> range_end r \<le> 599"
  by (auto simp: parseToken_def Let_def isValidCode_def wf_range_def
      split: if_splits list.splits)

lemma show_nat_no_sep: "c \<in> set (show_nat n) \<Longrightarrow> c \<noteq> 44 \<and> c \<noteq> 45 \<and> c \<noteq> 65292 \<and> \<not> is_ws c"
  by (drule show_nat_digits) (auto simp: is_digit_def is_ws_def)

lemma range_token_chars: "c \<in> set (range_token r) \<Longrightarrow> c \<noteq> 44 \<and> c \<noteq> 65292 \<and> \<not> is_ws c"
  using show_nat_no_sep by (auto simp: range_token_def is_ws_def split: if_splits)

lemma range_token_not_Nil [simp]: "range_token r \<noteq> []"
  by (simp add: range_token_def)

lemma trim_range_token [simp]: "trim (range_token r) = range_token r"
  by (rule trim_no_ws) (use range_token_chars in blast)

lemma filter_ws_range_token [simp]:
  "filter (\<lambda>c. \<not> is_ws c) (range_token r) = range_token r"
  using range_token_chars by (simp add: filter_id_conv)

lemma parse_range_token:
  assumes "wf_range r" "100 \<le> range_start r" "range_end r \<le> 599"
  shows "parseToken (range_token r) = Some r"
proof (cases "range_start r = range_end r")
  case True
  then have tok: "range_token r = show_nat (range_end r)" by (simp add: range_token_def)
  have no: "45 \<notin> set (range_token r)" unfolding tok using show_nat_no_sep by blast
  from True assms have "parseToken (range_token r) = Some (StatusCodeRange (range_end r) (range_end r))"
    using no by (simp add: parseToken_def Let_def isNumber_def isValidCode_def) (simp add: tok)
  with True show ?thesis by (cases r) simp
next
  case False
  have no: "45 \<notin> set (show_nat n)" for n using show_nat_no_sep by blast
  from False have tok: "range_token r = show_nat (range_start r) @ 45 # show_nat (range_end r)"
    by (simp add: range_token_def)
  have sp: "split_on 45 (range_token r) = [show_nat (range_start r), show_nat (range_end r)]"
    unfolding tok by (simp add: split_on_append no split_on_no_sep)
  have "45 \<in> set (range_token r)" by (simp add: tok)
  with sp assms show ?thesis
    by (cases r) (simp add: parseToken_def Let_def isNumber_def isValidCode_def wf_range_def)
qed

lemma map_filter_range_token:
  "\<forall>r\<in>set rs. wf_range r \<and> 100 \<le> range_start r \<and> range_end r \<le> 599 \<Longrightarrow>
   List.map_filter parseToken (map range_token rs) = rs"
  by (induction rs) (auto simp: List.map_filter_simps parse_range_token)

lemma join_tokens_chars: "c \<in> set (join [44] (map range_token rs)) \<Longrightarrow> c \<noteq> 65292 \<and> \<not> is_ws c"
  using set_join [of "[44]" "map range_token rs"] range_token_chars by (fastforce simp: is_ws_def)

lemma rule_segments_join:
  "rs \<noteq> [] \<Longrightarrow> rule_segments (join [44] (map range_token rs)) = map range_token rs"
proof -
  assume "rs \<noteq> []"
  have id: "map (\<lambda>c. if c = 65292 then 44 else c) (join [44] (map range_token rs)) =
      join [44] (map range_token rs)"
    using join_tokens_chars by (intro map_idI) auto
  have sp: "split_on 44 (join [44] (map range_token rs)) = map range_token rs"
    using \<open>rs \<noteq> []\<close> range_token_chars by (intro split_join) auto
  have "map trim (map range_token rs) = map range_token rs" by simp
  then show ?thesis
    unfolding rule_segments_def id sp by (simp add: truthy_strs_def filter_id_conv)
qed

subsection \<open>The parser\<close>

text \<open>The raw text of an input: the trimmed string, empty for null or undefined.\<close>

definition raw_rules :: "jsstring option \<Rightarrow> jsstring" where
  "raw_rules input = trim (case input of None \<Rightarrow> [] | Some s \<Rightarrow> s)"

definition parsed_segments :: "jsstring option \<Rightarrow> StatusCodeRange list" where
  "parsed_segments input = List.map_filter parseToken (rule_segments (raw_rules input))"

lemma rule_segments_Nil [simp]: "rule_segments [] = []"
  by (simp add: rule_segments_def truthy_strs_def)

lemma parsed_segments_wf:
  "r \<in> set (parsed_segments input) \<Longrightarrow> wf_range r \<and> 100 \<le> range_start r \<and> range_end r \<le> 599"
  by (auto simp: parsed_segments_def map_filter_set dest: parseToken_Some)

lemma rules_ok_iff:
  "rules_ok (parseHttpStatusCodeRules input) \<longleftrightarrow>
     (\<forall>s\<in>set (rule_segments (raw_rules input)). parseToken s \<noteq> None)"
  by (auto simp: parseHttpStatusCodeRules_def Let_def raw_rules_def [symmetric] filter_empty_conv)

lemma rules_ranges_ok:
  "rules_ok (parseHttpStatusCodeRules input) \<Longrightarrow>
     rules_ranges (parseHttpStatusCodeRules input) = mergeRanges (parsed_segments input)"
  by (auto simp: parseHttpStatusCodeRules_def Let_def raw_rules_def [symmetric]
      parsed_segments_def mergeRanges_def List.map_filter_simps split: if_splits)

lemma rules_ranges_not_ok:
  "\<not> rules_ok (parseHttpStatusCodeRules input) \<Longrightarrow>
     rules_ranges (parseHttpStatusCodeRules input) = []"
  by (auto simp: parseHttpStatusCodeRules_def Let_def split: if_splits)

lemma rules_ok_result:
  assumes "rules_ok (parseHttpStatusCodeRules input)"
  shows "parseHttpStatusCodeRules input =
    (let rs = mergeRanges (parsed_segments input) in
     \<lparr>rules_ok = True, rules_ranges = rs, rules_tokens = map range_token rs,
      rules_normalized = join [44] (map range_token rs), rules_invalidTokens = []\<rparr>)"
  using assms
  by (auto simp: parseHttpStatusCodeRules_def Let_def raw_rules_def [symmetric]
      parsed_segments_def mergeRanges_def List.map_filter_simps split: if_splits)

lemma rules_bounds:
  assumes "r \<in> set (mergeRanges (parsed_segments input))"
  shows "wf_range r \<and> 100 \<le> range_start r \<and> range_end r \<le> 599"
  using mr.merge_bounds [of "parsed_segments input" 100 599 r] parsed_segments_wf assms
  by (auto simp: wf_range_def)

lemma parse_normal_form:
  assumes c: "canonical rs"
    and b: "\<forall>r\<in>set rs. wf_range r \<and> 100 \<le> range_start r \<and> range_end r \<le> 599"
  shows "rules_ok (parseHttpStatusCodeRules (Some (join [44] (map range_token rs)))) \<and>
    parsed_segments (Some (join [44] (map range_token rs))) = rs"
proof (cases "rs = []")
  case True
  then show ?thesis
    by (simp add: rules_ok_iff parsed_segments_def raw_rules_def List.map_filter_simps)
next
  case False
  have "trim (join [44] (map range_token rs)) = join [44] (map range_token rs)"
    by (rule trim_no_ws) (use join_tokens_chars in blast)
  then have seg: "rule_segments (raw_rules (Some (join [44] (map range_token rs)))) =
      map range_token rs"
    using rule_segments_join [OF False] by (simp add: raw_rules_def)
  then show ?thesis
    using b by (auto simp: rules_ok_iff parsed_segments_def map_filter_range_token parse_range_token)
qed

subsection \<open>Properties\<close>

text \<open>
  Claim C37.  Whatever the administrator typed, the ranges the parser returns are canonical:
  well-formed, sorted, pairwise disjoint and not even adjacent, and every code lies between
  100 and 599.
\<close>

theorem rules_ranges_canonical:
  "canonical (rules_ranges (parseHttpStatusCodeRules input)) \<and>
   (\<forall>r\<in>set (rules_ranges (parseHttpStatusCodeRules input)).
      100 \<le> range_start r \<and> range_start r \<le> range_end r \<and> range_end r \<le> 599)"
proof (cases "rules_ok (parseHttpStatusCodeRules input)")
  case True
  then show ?thesis
    using rules_bounds [of _ input] mr.merge_canonical [of "parsed_segments input"]
      parsed_segments_wf [of _ input]
    by (auto simp: rules_ranges_ok wf_range_def)
next
  case False
  then show ?thesis by (simp add: rules_ranges_not_ok canonical_def)
qed

theorem rules_ranges_canonical_witness:
  "canonical (rules_ranges (parseHttpStatusCodeRules (Some (js ''503, 429,500-502'')))) \<and>
   rules_ranges (parseHttpStatusCodeRules (Some (js ''503, 429,500-502''))) =
     [StatusCodeRange 429 429, StatusCodeRange 500 503]"
  using rules_ranges_canonical [of "Some (js ''503, 429,500-502'')"] by (intro conjI) (blast, code_simp)

text \<open>
  Claim C38.  Merging loses and invents nothing: when every token is readable, a code is covered
  by the returned ranges exactly when some token of the input covers it.
\<close>

theorem rules_cover_exactly_the_tokens:
  assumes "rules_ok (parseHttpStatusCodeRules input)"
  shows "covers (rules_ranges (parseHttpStatusCodeRules input)) c \<longleftrightarrow>
    (\<exists>s\<in>set (rule_segments (raw_rules input)). \<exists>r. parseToken s = Some r \<and>
       range_start r \<le> c \<and> c \<le> range_end r)"
proof -
  have "covers (rules_ranges (parseHttpStatusCodeRules input)) c \<longleftrightarrow>
      covers (parsed_segments input) c"
    using mr.merge_covers [of "parsed_segments input"] parsed_segments_wf
    by (simp add: rules_ranges_ok [OF assms])
  also have "\<dots> \<longleftrightarrow> (\<exists>s\<in>set (rule_segments (raw_rules input)). \<exists>r. parseToken s = Some r \<and>
       range_start r \<le> c \<and> c \<le> range_end r)"
    unfolding covers_def parsed_segments_def map_filter_set by blast
  finally show ?thesis .
qed

theorem rules_cover_exactly_the_tokens_witness:
  "covers (rules_ranges (parseHttpStatusCodeRules (Some (js ''500-502,501-510'')))) 505 \<longleftrightarrow>
    (\<exists>s\<in>set (rule_segments (raw_rules (Some (js ''500-502,501-510'')))). \<exists>r.
       parseToken s = Some r \<and> range_start r \<le> 505 \<and> 505 \<le> range_end r)"
  by (rule rules_cover_exactly_the_tokens) code_simp

text \<open>
  The normal form is a fixed point: parsing the text the parser normalised to gives
  the same ranges, tokens and text again.
\<close>

theorem rules_normal_form_roundtrip:
  assumes "rules_ok (parseHttpStatusCodeRules input)"
  shows "parseHttpStatusCodeRules (Some (rules_normalized (parseHttpStatusCodeRules input))) =
    parseHttpStatusCodeRules input"
proof -
  let ?rs = "mergeRanges (parsed_segments input)"
  have c: "canonical ?rs" using mr.merge_canonical parsed_segments_wf by blast
  have n: "rules_normalized (parseHttpStatusCodeRules input) = join [44] (map range_token ?rs)"
    by (subst rules_ok_result [OF assms]) (simp add: Let_def)
  have p: "rules_ok (parseHttpStatusCodeRules (Some (join [44] (map range_token ?rs))))"
      "parsed_segments (Some (join [44] (map range_token ?rs))) = ?rs"
    using parse_normal_form [OF c] rules_bounds by blast+
  show ?thesis
    using rules_ok_result [OF p(1)] rules_ok_result [OF assms]
    unfolding n p(2) mr.merge_id [OF c] by simp
qed

theorem rules_normal_form_roundtrip_witness:
  "parseHttpStatusCodeRules (Some (js ''429,500-503'')) =
    parseHttpStatusCodeRules (Some (js '' 503, 429,500-502''))"
proof -
  have ok: "rules_ok (parseHttpStatusCodeRules (Some (js '' 503, 429,500-502'')))" by code_simp
  have n: "rules_normalized (parseHttpStatusCodeRules (Some (js '' 503, 429,500-502''))) =
      js ''429,500-503''" by code_simp
  show ?thesis using rules_normal_form_roundtrip [OF ok] unfolding n .
qed

text \<open>
  The normal form is canonical: two readable rule texts normalise to the same text
  exactly when they cover the same codes.
\<close>

theorem rules_normal_form_canonical:
  assumes "rules_ok (parseHttpStatusCodeRules i)" "rules_ok (parseHttpStatusCodeRules j)"
  shows "rules_normalized (parseHttpStatusCodeRules i) =
      rules_normalized (parseHttpStatusCodeRules j) \<longleftrightarrow>
    (\<forall>c. covers (rules_ranges (parseHttpStatusCodeRules i)) c \<longleftrightarrow>
          covers (rules_ranges (parseHttpStatusCodeRules j)) c)"
proof
  assume "rules_normalized (parseHttpStatusCodeRules i) =
    rules_normalized (parseHttpStatusCodeRules j)"
  then have "parsed_segments (Some (join [44] (map range_token (mergeRanges (parsed_segments i))))) =
      parsed_segments (Some (join [44] (map range_token (mergeRanges (parsed_segments j)))))"
    unfolding rules_ok_result [OF assms(1)] rules_ok_result [OF assms(2)] by (simp add: Let_def)
  moreover have "parsed_segments (Some (join [44] (map range_token (mergeRanges (parsed_segments k))))) =
      mergeRanges (parsed_segments k)" for k
    using parse_normal_form mr.merge_canonical parsed_segments_wf rules_bounds by blast
  ultimately show "\<forall>c. covers (rules_ranges (parseHttpStatusCodeRules i)) c \<longleftrightarrow>
      covers (rules_ranges (parseHttpStatusCodeRules j)) c"
    using assms by (simp add: rules_ranges_ok)
next
  assume "\<forall>c. covers (rules_ranges (parseHttpStatusCodeRules i)) c \<longleftrightarrow>
      covers (rules_ranges (parseHttpStatusCodeRules j)) c"
  then have "mergeRanges (parsed_segments i) = mergeRanges (parsed_segments j)"
    using assms parsed_segments_wf
    by (simp add: rules_ranges_ok mr.merge_determined mr.merge_covers)
  then show "rules_normalized (parseHttpStatusCodeRules i) =
      rules_normalized (parseHttpStatusCodeRules j)"
    unfolding rules_ok_result [OF assms(1)] rules_ok_result [OF assms(2)] by (simp add: Let_def)
qed

theorem rules_normal_form_canonical_witness:
  "rules_normalized (parseHttpStatusCodeRules (Some (js ''500,501''))) =
      rules_normalized (parseHttpStatusCodeRules (Some (js ''500-501''))) \<longleftrightarrow>
    (\<forall>c. covers (rules_ranges (parseHttpStatusCodeRules (Some (js ''500,501'')))) c \<longleftrightarrow>
          covers (rules_ranges (parseHttpStatusCodeRules (Some (js ''500-501'')))) c)"
  by (rule rules_normal_form_canonical) code_simp+

text \<open>
  Error reporting: the parser refuses a text exactly when one of its segments is no
  valid code or range; it then reports precisely the unreadable segments, in their order, and
  hands back the trimmed input with no ranges at all.
\<close>

theorem rules_error_reporting:
  "(rules_ok (parseHttpStatusCodeRules input) \<longleftrightarrow>
      (\<forall>s\<in>set (rule_segments (raw_rules input)). parseToken s \<noteq> None)) \<and>
   rules_invalidTokens (parseHttpStatusCodeRules input) =
      filter (\<lambda>s. parseToken s = None) (rule_segments (raw_rules input)) \<and>
   (\<not> rules_ok (parseHttpStatusCodeRules input) \<longrightarrow>
      rules_normalized (parseHttpStatusCodeRules input) = raw_rules input \<and>
      rules_ranges (parseHttpStatusCodeRules input) = [])"
  by (auto simp: rules_ok_iff rules_ranges_not_ok)
    (auto simp: parseHttpStatusCodeRules_def Let_def raw_rules_def [symmetric] filter_empty_conv)

theorem rules_error_reporting_witness:
  "\<not> rules_ok (parseHttpStatusCodeRules (Some (js ''429, 5xx''))) \<and>
   rules_invalidTokens (parseHttpStatusCodeRules (Some (js ''429, 5xx''))) = [js ''5xx''] \<and>
   rules_normalized (parseHttpStatusCodeRules (Some (js ''429, 5xx''))) = js ''429, 5xx''"
proof -
  have bad: "\<not> rules_ok (parseHttpStatusCodeRules (Some (js ''429, 5xx'')))" by code_simp
  have raw: "raw_rules (Some (js ''429, 5xx'')) = js ''429, 5xx''" by code_simp
  have inv: "filter (\<lambda>s. parseToken s = None) (rule_segments (js ''429, 5xx'')) = [js ''5xx'']"
    by code_simp
  show ?thesis
    using rules_error_reporting [of "Some (js ''429, 5xx'')"] bad unfolding raw inv by blast
qed

text \<open>
  A token may contain more than one dash; everything after the second number is dropped, so the
  text \<open>"200-300-400"\<close> is read as the range from 200 to 300.
\<close>

lemma parseToken_ignores_third_part:
  "parseToken (js ''200-300-xyz'') = Some (StatusCodeRange 200 300)"
  by code_simp

end
