(* ===== verification/Json.thy ===== *)
theory Json
  imports JsPrelude
begin

section \<open>JSON values, JSON.parse and JSON.stringify\<close>

text \<open>
  The sources keep structured settings (model mappings, status code mappings, sidebar modules,
  chat messages, string literals of billing expressions) as JSON text and read them with
  \<open>JSON.parse\<close>.  This theory models that part of the standard library: the values, the
  order in which an object enumerates its own keys, the parser with every syntax error as
  \<open>None\<close>, and the printer of strings and values.

  Numbers are exact rationals; rounding to binary64 is not modelled.  The parser takes fuel,
  and \<open>parse_fuel_enough\<close> shows that the fuel \<open>JSON_parse\<close> starts with, twice the
  length of the text plus two, never runs out: more fuel gives the same answer.
\<close>

datatype jsval =
    JNull
  | JBool bool
  | JNum rat
  | JStr jsstring
  | JArr "jsval list"
  | JObj "(jsstring \<times> jsval) list"

subsection \<open>Objects: insertion order, array indices first\<close>

text \<open>
  \<open>Object.keys\<close>, \<open>Object.values\<close> and \<open>Object.entries\<close> list the keys that are array
  indices in ascending order before all others, which follow in the order of insertion.
  Assigning to a key that exists keeps its place.
\<close>

definition is_index_key :: "jsstring \<Rightarrow> bool" where
  "is_index_key k \<longleftrightarrow> all_digits k \<and> show_nat (digits_val k) = k \<and> digits_val k < 4294967295"

fun obj_get :: "(jsstring \<times> 'v) list \<Rightarrow> jsstring \<Rightarrow> 'v option" where
  "obj_get [] k = None"
| "obj_get ((k', v) # ps) k = (if k' = k then Some v else obj_get ps k)"

fun obj_replace :: "jsstring \<Rightarrow> 'v \<Rightarrow> (jsstring \<times> 'v) list \<Rightarrow> (jsstring \<times> 'v) list" where
  "obj_replace k v [] = []"
| "obj_replace k v ((k', w) # ps) = (if k' = k then (k, v) # ps else (k', w) # obj_replace k v ps)"

fun obj_insert_index :: "jsstring \<Rightarrow> 'v \<Rightarrow> (jsstring \<times> 'v) list \<Rightarrow> (jsstring \<times> 'v) list" where
  "obj_insert_index k v [] = [(k, v)]"
| "obj_insert_index k v ((k', w) # ps) =
     (if is_index_key k' \<and> digits_val k' < digits_val k then (k', w) # obj_insert_index k v ps
      else (k, v) # (k', w) # ps)"

definition obj_put :: "jsstring \<Rightarrow> 'v \<Rightarrow> (jsstring \<times> 'v) list \<Rightarrow> (jsstring \<times> 'v) list" where
  "obj_put k v ps =
     (if obj_get ps k \<noteq> None then obj_replace k v ps
      else if is_index_key k then obj_insert_index k v ps
      else ps @ [(k, v)])"

definition obj_of :: "(jsstring \<times> 'v) list \<Rightarrow> (jsstring \<times> 'v) list" where
  "obj_of kvs = foldl (\<lambda>ps (k, v). obj_put k v ps) [] kvs"

definition obj_delete :: "jsstring \<Rightarrow> (jsstring \<times> 'v) list \<Rightarrow> (jsstring \<times> 'v) list" where
  "obj_delete k ps = filter (\<lambda>(k', v). k' \<noteq> k) ps"

lemma obj_get_None: "obj_get ps k = None \<longleftrightarrow> k \<notin> fst ` set ps"
  by (induction ps k rule: obj_get.induct) auto

lemma obj_get_map_of: "obj_get ps k = map_of ps k"
  by (induction ps) auto

lemma obj_get_replace:
  "obj_get ps k \<noteq> None \<Longrightarrow> obj_get (obj_replace k v ps) j = (if j = k then Some v else obj_get ps j)"
  by (induction k v ps rule: obj_replace.induct) auto

lemma obj_get_insert_index:
  "obj_get ps k = None \<Longrightarrow>
   obj_get (obj_insert_index k v ps) j = (if j = k then Some v else obj_get ps j)"
  by (induction k v ps rule: obj_insert_index.induct) (auto split: if_splits)

lemma obj_get_snoc:
  "obj_get ps k = None \<Longrightarrow>
   obj_get (ps @ [(k, v)]) j = (if j = k then Some v else obj_get ps j)"
  by (induction ps) (auto split: if_splits)

lemma obj_get_put [simp]: "obj_get (obj_put k v ps) j = (if j = k then Some v else obj_get ps j)"
  by (simp add: obj_put_def obj_get_replace obj_get_insert_index obj_get_snoc)

lemma obj_get_delete [simp]:
  "obj_get (obj_delete k ps) j = (if j = k then None else obj_get ps j)"
  by (induction ps) (auto simp: obj_delete_def)

lemma keys_replace: "map fst (obj_replace k v ps) = map fst ps"
  by (induction k v ps rule: obj_replace.induct) auto

lemma keys_insert_index: "set (map fst (obj_insert_index k v ps)) = insert k (set (map fst ps))"
  by (induction k v ps rule: obj_insert_index.induct) auto

lemma distinct_insert_index:
  "distinct (map fst ps) \<Longrightarrow> k \<notin> fst ` set ps \<Longrightarrow> distinct (map fst (obj_insert_index k v ps))"
proof (induction k v ps rule: obj_insert_index.induct)
  case (2 k v k' w ps)
  then show ?case using keys_insert_index [of k v ps] by auto
qed simp

lemma keys_put: "set (map fst (obj_put k v ps)) = insert k (set (map fst ps))"
proof (cases "obj_get ps k = None")
  case False
  then have "k \<in> set (map fst ps)" by (simp add: obj_get_None)
  then have i: "insert k (set (map fst ps)) = set (map fst ps)" by (rule insert_absorb)
  have "map fst (obj_put k v ps) = map fst ps" using False by (simp add: obj_put_def keys_replace)
  then show ?thesis unfolding i by (rule arg_cong)
next
  case True
  then show ?thesis
    using keys_insert_index [of k v ps] unfolding obj_put_def by simp
qed

lemma distinct_put: "distinct (map fst ps) \<Longrightarrow> distinct (map fst (obj_put k v ps))"
  by (auto simp: obj_put_def obj_get_None keys_replace distinct_insert_index)

lemma distinct_obj_of [simp]: "distinct (map fst (obj_of kvs))"
proof -
  have "distinct (map fst ps) \<Longrightarrow> distinct (map fst (foldl (\<lambda>ps (k, v). obj_put k v ps) ps kvs))"
    for ps by (induction kvs arbitrary: ps) (auto simp: distinct_put)
  then show ?thesis by (simp add: obj_of_def)
qed

subsection \<open>Strings\<close>

definition hex_digit :: "jschar \<Rightarrow> int option" where
  "hex_digit c =
     (if 48 \<le> c \<and> c \<le> 57 then Some (c - 48)
      else if 97 \<le> c \<and> c \<le> 102 then Some (c - 87)
      else if 65 \<le> c \<and> c \<le> 70 then Some (c - 55)
      else None)"

definition hex4 :: "jschar \<Rightarrow> jschar \<Rightarrow> jschar \<Rightarrow> jschar \<Rightarrow> jschar option" where
  "hex4 a b c d =
     (case (hex_digit a, hex_digit b, hex_digit c, hex_digit d) of
        (Some w, Some x, Some y, Some z) \<Rightarrow> Some (w * 4096 + x * 256 + y * 16 + z)
      | _ \<Rightarrow> None)"

definition unescape :: "jschar \<Rightarrow> jschar option" where
  "unescape e =
     (if e = 34 \<or> e = 92 \<or> e = 47 then Some e
      else if e = 98 then Some 8
      else if e = 102 then Some 12
      else if e = 110 then Some 10
      else if e = 114 then Some 13
      else if e = 116 then Some 9
      else None)"

text \<open>The characters of a string literal after its opening quote, up to the closing one.\<close>

fun parse_chars :: "jsstring \<Rightarrow> (jsstring \<times> jsstring) option" where
  "parse_chars [] = None"
| "parse_chars (c # s) =
     (if c = 34 then Some ([], s)
      else if c = 92 then
        (case s of
           [] \<Rightarrow> None
         | e # s1 \<Rightarrow>
             if e = 117 then
               (case s1 of
                  x1 # x2 # x3 # x4 # s2 \<Rightarrow>
                    (case hex4 x1 x2 x3 x4 of
                       None \<Rightarrow> None
                     | Some v \<Rightarrow> map_option (apfst (Cons v)) (parse_chars s2))
                | _ \<Rightarrow> None)
             else
               (case unescape e of
                  None \<Rightarrow> None
                | Some v \<Rightarrow> map_option (apfst (Cons v)) (parse_chars s1)))
      else if c < 32 then None
      else map_option (apfst (Cons c)) (parse_chars s))"

definition hex_char :: "int \<Rightarrow> jschar" where
  "hex_char d = (if d < 10 then 48 + d else 87 + d)"

definition escape_u :: "jschar \<Rightarrow> jsstring" where
  "escape_u c = [92, 117, hex_char (c div 4096), hex_char (c div 256 mod 16),
     hex_char (c div 16 mod 16), hex_char (c mod 16)]"

definition escape_char :: "jschar \<Rightarrow> jsstring" where
  "escape_char c =
     (if c = 34 then [92, 34]
      else if c = 92 then [92, 92]
      else if c = 8 then [92, 98]
      else if c = 12 then [92, 102]
      else if c = 10 then [92, 110]
      else if c = 13 then [92, 114]
      else if c = 9 then [92, 116]
      else if c < 32 then escape_u c
      else [c])"

definition high_surrogate :: "jschar \<Rightarrow> bool" where
  "high_surrogate c \<longleftrightarrow> 55296 \<le> c \<and> c \<le> 56319"

definition low_surrogate :: "jschar \<Rightarrow> bool" where
  "low_surrogate c \<longleftrightarrow> 56320 \<le> c \<and> c \<le> 57343"

text \<open>\<open>JSON.stringify\<close> of the characters of a string: lone surrogates are escaped.\<close>

fun quote_chars :: "jsstring \<Rightarrow> jsstring" where
  "quote_chars [] = []"
| "quote_chars [c] = (if high_surrogate c \<or> low_surrogate c then escape_u c else escape_char c)"
| "quote_chars (c # d # s) =
     (if high_surrogate c \<and> low_surrogate d then c # d # quote_chars s
      else (if high_surrogate c \<or> low_surrogate c then escape_u c else escape_char c) @
        quote_chars (d # s))"

definition quote :: "jsstring \<Rightarrow> jsstring" where
  "quote s = [34] @ quote_chars s @ [34]"

text \<open>The code units of a JavaScript string are 16 bits wide.\<close>

definition utf16 :: "jsstring \<Rightarrow> bool" where
  "utf16 s \<longleftrightarrow> (\<forall>c\<in>set s. 0 \<le> c \<and> c < 65536)"

lemma hex_digit_hex_char [simp]: "0 \<le> d \<Longrightarrow> d < 16 \<Longrightarrow> hex_digit (hex_char d) = Some d"
  by (auto simp: hex_digit_def hex_char_def)

lemma hex4_value:
  fixes c :: int
  shows "c div 4096 * 4096 + c div 256 mod 16 * 256 + c div 16 mod 16 * 16 + c mod 16 = c"
proof -
  have "c = c div 16 * 16 + c mod 16" by simp
  moreover have "c div 16 = c div 256 * 16 + c div 16 mod 16"
    using zdiv_zmult2_eq [of 16 c 16] div_mult_mod_eq [of "c div 16" 16] by simp
  moreover have "c div 256 = c div 4096 * 16 + c div 256 mod 16"
    using zdiv_zmult2_eq [of 16 c 256] div_mult_mod_eq [of "c div 256" 16] by simp
  ultimately show ?thesis by linarith
qed

lemma hex4_hex_chars:
  assumes "0 \<le> c" "c < 65536"
  shows "hex4 (hex_char (c div 4096)) (hex_char (c div 256 mod 16)) (hex_char (c div 16 mod 16))
    (hex_char (c mod 16)) = Some c"
proof -
  have "0 \<le> c div 4096" "c div 4096 < 16" using assms by auto
  then have d: "hex_digit (hex_char (c div 4096)) = Some (c div 4096)" by simp
  have m: "hex_digit (hex_char (x mod 16)) = Some (x mod 16)" for x by simp
  show ?thesis unfolding hex4_def d m by (simp only: prod.case option.case hex4_value)
qed

lemma parse_chars_plain:
  "c \<noteq> 34 \<Longrightarrow> c \<noteq> 92 \<Longrightarrow> 32 \<le> c \<Longrightarrow>
   parse_chars (c # s) = map_option (apfst (Cons c)) (parse_chars s)"
  by simp

lemma parse_chars_esc:
  "e \<noteq> 117 \<Longrightarrow> unescape e = Some v \<Longrightarrow>
   parse_chars (92 # e # s) = map_option (apfst (Cons v)) (parse_chars s)"
  by simp

lemma parse_chars_u:
  "hex4 a b c d = Some v \<Longrightarrow>
   parse_chars (92 # 117 # a # b # c # d # s) = map_option (apfst (Cons v)) (parse_chars s)"
  by simp

lemma parse_chars_close: "parse_chars (34 # s) = Some ([], s)"
  by simp

declare parse_chars.simps(2) [simp del]

lemma parse_chars_escape_u:
  "0 \<le> c \<Longrightarrow> c < 65536 \<Longrightarrow>
   parse_chars (escape_u c @ t) = map_option (apfst (Cons c)) (parse_chars t)"
  by (simp add: escape_u_def parse_chars_u [OF hex4_hex_chars])

lemma parse_chars_escape_char:
  "0 \<le> c \<Longrightarrow> c < 65536 \<Longrightarrow>
   parse_chars (escape_char c @ t) = map_option (apfst (Cons c)) (parse_chars t)"
  by (simp add: escape_char_def parse_chars_escape_u parse_chars_plain parse_chars_esc unescape_def)

lemma parse_chars_quote_chars:
  "utf16 s \<Longrightarrow> parse_chars (quote_chars s @ 34 # t) = Some (s, t)"
proof (induction s rule: quote_chars.induct)
  case 1
  then show ?case by (simp add: parse_chars_close)
next
  case (2 c)
  then show ?case
    by (simp add: utf16_def parse_chars_escape_u parse_chars_escape_char parse_chars_close)
next
  case (3 c d s)
  show ?case
  proof (cases "high_surrogate c \<and> low_surrogate d")
    case True
    then have "parse_chars (quote_chars s @ 34 # t) = Some (s, t)"
      using 3 by (simp add: utf16_def)
    with True show ?thesis
      by (simp add: high_surrogate_def low_surrogate_def parse_chars_plain)
  next
    case False
    then have "parse_chars (quote_chars (d # s) @ 34 # t) = Some (d # s, t)"
      using 3 by (simp add: utf16_def)
    moreover have "quote_chars (c # d # s) =
        (if high_surrogate c \<or> low_surrogate c then escape_u c else escape_char c) @
          quote_chars (d # s)"
      using False by auto
    ultimately show ?thesis
      using "3.prems" by (simp add: utf16_def parse_chars_escape_u parse_chars_escape_char
          del: quote_chars.simps)
  qed
qed

lemma parse_chars_length: "parse_chars s = Some (v, r) \<Longrightarrow> length r < length s"
proof (induction s arbitrary: v r rule: length_induct)
  case (1 s)
  then have IH: "\<And>t v r. length t < length s \<Longrightarrow> parse_chars t = Some (v, r) \<Longrightarrow> length r < length s"
    by (meson less_trans)
  obtain c t where s: "s = c # t" using 1 by (cases s) auto
  show ?case
    using 1(2) unfolding s parse_chars.simps(2)
    by (auto split: if_splits list.splits option.splits dest!: IH [rotated] simp: s)
qed

subsection \<open>Numbers\<close>

definition pow10 :: "int \<Rightarrow> rat" where
  "pow10 e = (if 0 \<le> e then 10 ^ nat e else 1 / 10 ^ nat (- e))"

text \<open>The optional exponent part of a number: its value and the rest of the text.\<close>

definition parse_exponent :: "jsstring \<Rightarrow> (int \<times> jsstring) option" where
  "parse_exponent s =
     (case s of
        [] \<Rightarrow> Some (0, [])
      | e # s1 \<Rightarrow>
          if e = 101 \<or> e = 69 then
            (let neg = (s1 \<noteq> [] \<and> hd s1 = 45);
                 s2 = (if s1 \<noteq> [] \<and> (hd s1 = 43 \<or> hd s1 = 45) then tl s1 else s1);
                 ds = takeWhile is_digit s2
             in if ds = [] then None
                else Some ((if neg then - int (digits_val ds) else int (digits_val ds)),
                  dropWhile is_digit s2))
          else Some (0, s))"

definition parse_number :: "jsstring \<Rightarrow> (rat \<times> jsstring) option" where
  "parse_number s =
     (let neg = (s \<noteq> [] \<and> hd s = 45);
          s1 = (if neg then tl s else s);
          ds = takeWhile is_digit s1;
          r1 = dropWhile is_digit s1;
          fs = (if r1 \<noteq> [] \<and> hd r1 = 46 then takeWhile is_digit (tl r1) else []);
          r2 = (if r1 \<noteq> [] \<and> hd r1 = 46 then dropWhile is_digit (tl r1) else r1)
      in if ds = [] \<or> (hd ds = 48 \<and> length ds > 1) \<or> (r1 \<noteq> [] \<and> hd r1 = 46 \<and> fs = []) then None
         else case parse_exponent r2 of
                None \<Rightarrow> None
              | Some (e, r3) \<Rightarrow>
                  Some ((if neg then - 1 else 1) * of_nat (digits_val (ds @ fs)) *
                    pow10 (e - int (length fs)), r3))"

text \<open>
  \<open>String(x)\<close> of a number with a finite decimal expansion: the digits of the value, laid
  out plainly between \<open>1e-7\<close> and \<open>1e21\<close> and with an exponent outside.  \<open>scale\<close>
  finds the number of decimal places; a rational with no finite expansion has none, but no
  number of the language is one.
\<close>

fun scale_from :: "nat \<Rightarrow> nat \<Rightarrow> rat \<Rightarrow> nat" where
  "scale_from 0 k r = k"
| "scale_from (Suc n) k r = (if snd (quotient_of r) = 1 then k else scale_from n (Suc k) (10 * r))"

definition scale :: "rat \<Rightarrow> nat" where
  "scale r = scale_from (nat (snd (quotient_of r))) 0 r"

definition strip_zeros :: "jsstring \<Rightarrow> jsstring" where
  "strip_zeros s = rev (dropWhile (\<lambda>c. c = 48) (rev s))"

definition pos_num_str :: "rat \<Rightarrow> jsstring" where
  "pos_num_str r =
     (let k = scale r;
          ds = show_nat (nat \<lfloor>r * 10 ^ k\<rfloor>);
          n = int (length ds) - int k;
          sg = strip_zeros ds;
          e = n - 1;
          es = (if e < 0 then [45] else [43]) @ show_nat (nat \<bar>e\<bar>)
      in if k = 0 \<and> n \<le> 21 then ds
         else if 0 < n \<and> n \<le> 21 then take (nat n) ds @ [46] @ drop (nat n) ds
         else if - 6 < n \<and> n \<le> 0 then [48, 46] @ replicate (nat (- n)) 48 @ ds
         else if length sg = 1 then sg @ [101] @ es
         else take 1 sg @ [46] @ drop 1 sg @ [101] @ es)"

definition num_str :: "rat \<Rightarrow> jsstring" where
  "num_str r = (if r = 0 then [48] else if r < 0 then [45] @ pos_num_str (- r) else pos_num_str r)"

text \<open>\<open>toFixed\<close>: the nearest multiple, the larger one on a tie, with the sign in front.\<close>

definition to_fixed :: "nat \<Rightarrow> rat \<Rightarrow> jsstring" where
  "to_fixed f x =
     (let n = nat \<lfloor>\<bar>x\<bar> * 10 ^ f + 1 / 2\<rfloor>;
          s = show_nat n;
          padded = replicate (Suc f - length s) 48 @ s;
          whole = take (length padded - f) padded;
          body = (if f = 0 then padded else whole @ [46] @ drop (length padded - f) padded)
      in if x < 0 then 45 # body else body)"

subsection \<open>The parser\<close>

definition json_ws :: "jschar \<Rightarrow> bool" where
  "json_ws c \<longleftrightarrow> c = 32 \<or> c = 9 \<or> c = 10 \<or> c = 13"

definition skip_ws :: "jsstring \<Rightarrow> jsstring" where
  "skip_ws s = dropWhile json_ws s"

fun parse_value :: "nat \<Rightarrow> jsstring \<Rightarrow> (jsval \<times> jsstring) option"
  and parse_elems :: "nat \<Rightarrow> jsstring \<Rightarrow> (jsval list \<times> jsstring) option"
  and parse_members :: "nat \<Rightarrow> jsstring \<Rightarrow> ((jsstring \<times> jsval) list \<times> jsstring) option" where
  "parse_value 0 s = None"
| "parse_value (Suc n) s =
     (case skip_ws s of
        [] \<Rightarrow> None
      | c # r \<Rightarrow>
          if c = 123 then
            (case skip_ws r of
               [] \<Rightarrow> None
             | d # r1 \<Rightarrow> if d = 125 then Some (JObj [], r1)
                         else map_option (apfst (\<lambda>kvs. JObj (obj_of kvs))) (parse_members n r))
          else if c = 91 then
            (case skip_ws r of
               [] \<Rightarrow> None
             | d # r1 \<Rightarrow> if d = 93 then Some (JArr [], r1)
                         else map_option (apfst JArr) (parse_elems n r))
          else if c = 34 then map_option (apfst JStr) (parse_chars r)
          else if prefix (js ''true'') (c # r) then Some (JBool True, drop 4 (c # r))
          else if prefix (js ''false'') (c # r) then Some (JBool False, drop 5 (c # r))
          else if prefix (js ''null'') (c # r) then Some (JNull, drop 4 (c # r))
          else map_option (apfst JNum) (parse_number (c # r)))"
| "parse_elems 0 s = None"
| "parse_elems (Suc n) s =
     (case parse_value n s of
        None \<Rightarrow> None
      | Some (v, r) \<Rightarrow>
          (case skip_ws r of
             [] \<Rightarrow> None
           | c # r1 \<Rightarrow> if c = 44 then map_option (apfst (Cons v)) (parse_elems n r1)
                       else if c = 93 then Some ([v], r1)
                       else None))"
| "parse_members 0 s = None"
| "parse_members (Suc n) s =
     (case skip_ws s of
        [] \<Rightarrow> None
      | q # r \<Rightarrow>
          if q \<noteq> 34 then None
          else (case parse_chars r of
                  None \<Rightarrow> None
                | Some (k, r1) \<Rightarrow>
                    (case skip_ws r1 of
                       [] \<Rightarrow> None
                     | d # r2 \<Rightarrow>
                         if d \<noteq> 58 then None
                         else (case parse_value n r2 of
                                 None \<Rightarrow> None
                               | Some (v, r3) \<Rightarrow>
                                   (case skip_ws r3 of
                                      [] \<Rightarrow> None
                                    | c # r4 \<Rightarrow>
                                        if c = 44 then
                                          map_option (apfst (Cons (k, v))) (parse_members n r4)
                                        else if c = 125 then Some ([(k, v)], r4)
                                        else None)))))"

definition JSON_parse :: "jsstring \<Rightarrow> jsval option" where
  "JSON_parse s =
     (case parse_value (2 * length s + 2) s of
        Some (v, r) \<Rightarrow> if skip_ws r = [] then Some v else None
      | None \<Rightarrow> None)"

subsection \<open>The printer\<close>

fun JSON_stringify :: "jsval \<Rightarrow> jsstring" where
  "JSON_stringify JNull = js ''null''"
| "JSON_stringify (JBool b) = (if b then js ''true'' else js ''false'')"
| "JSON_stringify (JNum x) = num_str x"
| "JSON_stringify (JStr s) = quote s"
| "JSON_stringify (JArr vs) = [91] @ join [44] (map JSON_stringify vs) @ [93]"
| "JSON_stringify (JObj ps) =
     [123] @ join [44] (map (\<lambda>(k, v). quote k @ [58] @ JSON_stringify v) ps) @ [125]"

text \<open>\<open>JSON.stringify(v, null, 2)\<close>: every element on a line of its own, indented by two more spaces
  than its container.\<close>

fun JSON_pretty :: "jsstring \<Rightarrow> jsval \<Rightarrow> jsstring" where
  "JSON_pretty ind JNull = js ''null''"
| "JSON_pretty ind (JBool b) = (if b then js ''true'' else js ''false'')"
| "JSON_pretty ind (JNum x) = num_str x"
| "JSON_pretty ind (JStr s) = quote s"
| "JSON_pretty ind (JArr vs) =
     (if vs = [] then [91, 93]
      else [91, 10] @ (ind @ [32, 32]) @
        join ([44, 10] @ ind @ [32, 32]) (map (JSON_pretty (ind @ [32, 32])) vs) @ [10] @ ind @ [93])"
| "JSON_pretty ind (JObj ps) =
     (if ps = [] then [123, 125]
      else [123, 10] @ (ind @ [32, 32]) @
        join ([44, 10] @ ind @ [32, 32])
          (map (\<lambda>(k, v). quote k @ [58, 32] @ JSON_pretty (ind @ [32, 32]) v) ps) @ [10] @ ind @ [125])"

subsection \<open>The fuel is enough\<close>

lemma skip_ws_length: "length (skip_ws s) \<le> length s"
  by (simp add: skip_ws_def length_dropWhile_le)

lemma skip_ws_Cons_length: "skip_ws s = c # r \<Longrightarrow> length r < length s"
  using skip_ws_length [of s] by simp

lemma parse_exponent_length: "parse_exponent s = Some (e, r) \<Longrightarrow> length r \<le> length s"
  by (auto simp: parse_exponent_def Let_def split: list.splits if_splits)
    (metis le_SucI length_dropWhile_le length_tl diff_le_self order_trans)+

lemma parse_number_length:
  assumes "parse_number s = Some (x, r)"
  shows "length r < length s"
proof -
  define s1 where "s1 = (if s \<noteq> [] \<and> hd s = 45 then tl s else s)"
  define r1 where "r1 = dropWhile is_digit s1"
  define r2 where "r2 = (if r1 \<noteq> [] \<and> hd r1 = 46 then dropWhile is_digit (tl r1) else r1)"
  from assms obtain e where e: "parse_exponent r2 = Some (e, r)" and ds: "takeWhile is_digit s1 \<noteq> []"
    by (auto simp: parse_number_def Let_def s1_def r1_def r2_def split: if_splits option.splits)
  have "length r \<le> length r2" using e by (rule parse_exponent_length)
  also have "length r2 \<le> length r1"
    using length_dropWhile_le [of is_digit "tl r1"] by (auto simp: r2_def)
  also have "length r1 < length s1"
    using ds length_append [of "takeWhile is_digit s1" "dropWhile is_digit s1"]
    unfolding r1_def takeWhile_dropWhile_id by (simp only: length_greater_0_conv [symmetric])
  also have "length s1 \<le> length s" by (simp add: s1_def)
  finally show ?thesis .
qed

lemma parse_length_all:
  "(\<forall>s v r. parse_value n s = Some (v, r) \<longrightarrow> length r < length s) \<and>
   (\<forall>s vs r. parse_elems n s = Some (vs, r) \<longrightarrow> length r < length s) \<and>
   (\<forall>s kvs r. parse_members n s = Some (kvs, r) \<longrightarrow> length r < length s)"
proof (induction n)
  case (Suc n)
  note lens = skip_ws_Cons_length parse_chars_length parse_number_length
  have V: "length r < length s" if "parse_value (Suc n) s = Some (v, r)" for s v r
  proof -
    from that obtain c r0 where c: "skip_ws s = c # r0" by (auto split: list.splits)
    have "length r < length (c # r0)"
      using that Suc.IH c
      by (auto split: if_splits list.splits dest: lens simp: less_Suc_eq_le)
        (fastforce dest: lens less_imp_le)+
    then show ?thesis using skip_ws_length [of s] c by simp
  qed
  have E: "length r < length s" if "parse_elems (Suc n) s = Some (vs, r)" for s vs r
  proof -
    from that obtain v r0 where v: "parse_value n s = Some (v, r0)" by (auto split: option.splits)
    then have "length r0 < length s" using Suc.IH by blast
    moreover have "length r < length r0"
      using that v Suc.IH
      by (auto split: list.splits if_splits dest!: skip_ws_Cons_length) (meson less_trans)
    ultimately show ?thesis by simp
  qed
  have M: "length r < length s" if "parse_members (Suc n) s = Some (kvs, r)" for s kvs r
  proof -
    from that obtain q0 r0 k r1 d r2 v r3 where
      "skip_ws s = q0 # r0" "parse_chars r0 = Some (k, r1)" "skip_ws r1 = d # r2"
      "parse_value n r2 = Some (v, r3)" and
      last: "(case skip_ws r3 of [] \<Rightarrow> None
        | c # r4 \<Rightarrow> if c = 44 then map_option (apfst (Cons (k, v))) (parse_members n r4)
            else if c = 125 then Some ([(k, v)], r4) else None) = Some (kvs, r)"
      by (auto split: list.splits option.splits if_splits)
    then have "length r0 < length s" "length r1 < length r0" "length r2 < length r1"
      "length r3 < length r2"
      using Suc.IH by (auto dest: lens)
    moreover have "length r < length r3"
      using last Suc.IH
      by (auto split: list.splits if_splits dest!: skip_ws_Cons_length) (meson less_trans)
    ultimately show ?thesis by simp
  qed
  show ?case using V E M by blast
qed simp

lemmas parse_step = parse_value.simps(2) parse_elems.simps(2) parse_members.simps(2)

declare parse_step [simp del]

lemmas parse_value_length = parse_length_all [THEN conjunct1, rule_format]

lemma parse_fuel_all:
  "(\<forall>s. 2 * length s + 1 \<le> n \<longrightarrow> parse_value (Suc n) s = parse_value n s) \<and>
   (\<forall>s. 2 * length s + 2 \<le> n \<longrightarrow> parse_elems (Suc n) s = parse_elems n s) \<and>
   (\<forall>s. 2 * length s + 2 \<le> n \<longrightarrow> parse_members (Suc n) s = parse_members n s)"
proof (induction n)
  case (Suc n)
  have V: "parse_value (Suc (Suc n)) s = parse_value (Suc n) s" if "2 * length s + 1 \<le> Suc n" for s
  proof (cases "skip_ws s")
    case (Cons c r)
    then have "2 * length r + 2 \<le> n" using that skip_ws_Cons_length [of s c r] by simp
    then have "parse_elems (Suc n) r = parse_elems n r" "parse_members (Suc n) r = parse_members n r"
      using Suc.IH by blast+
    then show ?thesis
      unfolding parse_value.simps(2) [of "Suc n"] parse_value.simps(2) [of n] Cons
      by (simp split: list.splits)
  qed (simp add: parse_step)
  have E: "parse_elems (Suc (Suc n)) s = parse_elems (Suc n) s" if "2 * length s + 2 \<le> Suc n" for s
  proof -
    have v: "parse_value (Suc n) s = parse_value n s" using that Suc.IH by simp
    have "parse_elems (Suc n) r1 = parse_elems n r1"
      if "parse_value n s = Some (x, r)" "skip_ws r = c # r1" for x r c r1
    proof -
      have "length r1 < length s"
        using parse_value_length [OF that(1)] skip_ws_Cons_length [OF that(2)] by simp
      then show ?thesis using \<open>2 * length s + 2 \<le> Suc n\<close> Suc.IH by simp
    qed
    then show ?thesis
      unfolding parse_elems.simps(2) [of "Suc n" s] parse_elems.simps(2) [of n s] v
      by (simp split: option.splits list.splits)
  qed
  have M: "parse_members (Suc (Suc n)) s = parse_members (Suc n) s"
    if b: "2 * length s + 2 \<le> Suc n" for s
  proof -
    have step: "parse_value (Suc n) r2 = parse_value n r2 \<and>
        (\<forall>v r3 c r4. parse_value n r2 = Some (v, r3) \<longrightarrow> skip_ws r3 = c # r4 \<longrightarrow>
           parse_members (Suc n) r4 = parse_members n r4)"
      if "skip_ws s = q # r" "parse_chars r = Some (k, r1)" "skip_ws r1 = d # r2" for q r k r1 d r2
    proof -
      have l: "length r2 < length s"
        using skip_ws_Cons_length [OF that(1)] parse_chars_length [OF that(2)]
          skip_ws_Cons_length [OF that(3)] by simp
      have "2 * length r4 + 2 \<le> n" if "parse_value n r2 = Some (v, r3)" "skip_ws r3 = c # r4"
        for v r3 c r4
        using parse_value_length [OF that(1)] skip_ws_Cons_length [OF that(2)] l b by simp
      then show ?thesis using b l Suc.IH by auto
    qed
    show ?thesis
      unfolding parse_members.simps(2) [of "Suc n" s] parse_members.simps(2) [of n s]
      using step by (simp split: option.splits list.splits)
  qed
  show ?case using V E M by blast
qed simp

lemma parse_fuel_enough: "2 * length s + 1 \<le> m \<Longrightarrow> m \<le> n \<Longrightarrow> parse_value n s = parse_value m s"
proof (induction n)
  case (Suc n)
  then show ?case using parse_fuel_all [of n] by (cases "m = Suc n") auto
qed simp

lemma JSON_parse_fuel:
  assumes "\<exists>n0. \<forall>n\<ge>n0. parse_value n s = Some (v, r)" "skip_ws r = []"
  shows "JSON_parse s = Some v"
proof -
  from assms(1) obtain n0 where n0: "\<forall>n\<ge>n0. parse_value n s = Some (v, r)" by blast
  have "parse_value (max n0 (2 * length s + 2)) s = parse_value (2 * length s + 2) s"
    by (rule parse_fuel_enough) auto
  then have "parse_value (2 * length s + 2) s = Some (v, r)" using n0 by simp
  then show ?thesis using assms(2) by (simp add: JSON_parse_def)
qed

subsection \<open>Printing and parsing back\<close>

lemma skip_ws_quote [simp]: "skip_ws (34 # s) = 34 # s"
  by (simp add: skip_ws_def json_ws_def)

lemma parse_value_quote:
  "utf16 s \<Longrightarrow> parse_value (Suc n) (quote s @ t) = Some (JStr s, t)"
  by (simp add: quote_def parse_chars_quote_chars parse_step)

lemma JSON_parse_quote: "utf16 s \<Longrightarrow> JSON_parse (quote s) = Some (JStr s)"
  using parse_value_quote [of s "2 * length (quote s) + 1" "[]"]
  by (simp add: JSON_parse_def skip_ws_def)

text \<open>The numbers with a finite decimal expansion: those that \<open>scale\<close> makes whole.\<close>

definition decimal :: "rat \<Rightarrow> bool" where
  "decimal r \<longleftrightarrow> snd (quotient_of (r * 10 ^ scale r)) = 1"

text \<open>
  The values for which printing and parsing are inverse: strings of 16-bit code units, objects
  whose keys are in enumeration order, and the decimal numbers, that is all numbers of the language.
\<close>

fun json_rt :: "jsval \<Rightarrow> bool" where
  "json_rt JNull = True"
| "json_rt (JBool b) = True"
| "json_rt (JNum x) = decimal x"
| "json_rt (JStr s) = utf16 s"
| "json_rt (JArr vs) = list_all json_rt vs"
| "json_rt (JObj ps) =
     (list_all (\<lambda>(k, v). utf16 k \<and> json_rt v) ps \<and> obj_of ps = ps)"

text \<open>What may follow a value inside a JSON text: nothing, a comma, a closing bracket or a
  line end.\<close>

definition value_end :: "jsstring \<Rightarrow> bool" where
  "value_end t \<longleftrightarrow> t = [] \<or> hd t = 44 \<or> hd t = 93 \<or> hd t = 125 \<or> hd t = 10"

lemma length_show_nat: "n < 10 ^ Suc k \<Longrightarrow> length (show_nat n) \<le> Suc k"
proof (induction k arbitrary: n)
  case 0
  then show ?case by (subst show_nat.simps) simp
next
  case (Suc k)
  have "n div 10 < 10 ^ Suc k" using Suc.prems by (simp add: less_mult_imp_div_less mult.commute)
  then have "length (show_nat (n div 10)) \<le> Suc k" by (rule Suc.IH)
  then show ?case by (subst show_nat.simps) simp
qed

lemma quotient_of_int_rat:
  assumes "snd (quotient_of x) = 1" "0 \<le> x"
  obtains n where "x = of_nat n"
proof -
  have "x = of_int (fst (quotient_of x)) / of_int (snd (quotient_of x))"
    by (rule quotient_of_div) simp
  then have x: "x = of_int (fst (quotient_of x))" using assms(1) by simp
  then have "0 \<le> fst (quotient_of x)" using assms(2) by (metis of_int_0_le_iff)
  then have "x = of_nat (nat (fst (quotient_of x)))" using x by simp
  then show ?thesis by (rule that)
qed

lemma num_str_nat: "n < 10 ^ 21 \<Longrightarrow> num_str (of_nat n) = show_nat n"
proof -
  assume n: "n < 10 ^ 21"
  have "length (show_nat n) \<le> Suc 20" by (rule length_show_nat) (use n in simp)
  moreover have q: "quotient_of (of_nat n) = (int n, 1)"
    using quotient_of_int [of "int n"] by (simp add: Rat.of_int_def)
  moreover have "show_nat 0 = [48]" by (subst show_nat.simps) simp
  ultimately show ?thesis
    by (auto simp: num_str_def pos_num_str_def scale_def Let_def)
qed

lemma show_nat_hd_zero: "hd (show_nat n) = 48 \<Longrightarrow> length (show_nat n) = 1"
proof (induction n rule: show_nat.induct)
  case (1 n)
  show ?case
  proof (cases "n < 10")
    case True
    then show ?thesis by (subst show_nat.simps) simp
  next
    case False
    then have "hd (show_nat (n div 10)) = 48"
      using 1(2) by (subst (asm) show_nat.simps) simp
    then have "length (show_nat (n div 10)) = 1" using 1(1) False by simp
    then obtain c where c: "show_nat (n div 10) = [c]" by (cases "show_nat (n div 10)") auto
    then have "c = 48" using \<open>hd (show_nat (n div 10)) = 48\<close> by simp
    then have "digits_val (show_nat (n div 10)) = 0" unfolding c by (simp add: digits_val_def)
    then show ?thesis using False by simp
  qed
qed

subsection \<open>Decimal numbers\<close>

lemma pow10_powi: "pow10 e = 10 powi e"
  by (auto simp: pow10_def power_int_def inverse_eq_divide power_one_over)

lemma decimal_whole:
  assumes "decimal r" "0 < r"
  shows "r * 10 ^ scale r = of_nat (nat \<lfloor>r * 10 ^ scale r\<rfloor>)" "0 < nat \<lfloor>r * 10 ^ scale r\<rfloor>"
proof -
  have "0 \<le> r * 10 ^ scale r" using assms(2) by simp
  then obtain n where n: "r * 10 ^ scale r = of_nat n"
    using quotient_of_int_rat assms(1) unfolding decimal_def by blast
  then show "r * 10 ^ scale r = of_nat (nat \<lfloor>r * 10 ^ scale r\<rfloor>)" by simp
  have "0 < r * 10 ^ scale r" using assms(2) by simp
  then show "0 < nat \<lfloor>r * 10 ^ scale r\<rfloor>" unfolding n by simp
qed

lemma decimal_of_nat [simp]: "decimal (of_nat n)"
proof -
  have q: "quotient_of (of_nat n) = (int n, 1)"
    using quotient_of_int [of "int n"] by (simp add: Rat.of_int_def)
  then show ?thesis by (simp add: decimal_def scale_def)
qed

lemma decimal_numeral [simp]: "decimal 0" "decimal 1" "decimal (numeral k)"
  using decimal_of_nat [of 0] decimal_of_nat [of 1] decimal_of_nat [of "numeral k"] by simp_all

lemma scale_from_minus: "scale_from n k (- r) = scale_from n k r"
proof (induction n arbitrary: k r)
  case (Suc n)
  have "snd (quotient_of (- r)) = snd (quotient_of r)"
    by (simp add: rat_uminus_code Let_def split_def)
  moreover have "scale_from n (Suc k) (- (10 * r)) = scale_from n (Suc k) (10 * r)" by (rule Suc.IH)
  ultimately show ?case by simp
qed simp

lemma decimal_minus [simp]: "decimal (- r) \<longleftrightarrow> decimal r"
proof -
  have q: "snd (quotient_of (- x)) = snd (quotient_of x)" for x
    by (simp add: rat_uminus_code Let_def split_def)
  then have "scale (- r) = scale r" by (simp add: scale_def scale_from_minus)
  then show ?thesis using q [of "r * 10 ^ scale r"] by (simp add: decimal_def)
qed

lemma decimal_of_int [simp]: "decimal (of_int n)"
proof (cases "0 \<le> n")
  case True
  then show ?thesis using decimal_of_nat [of "nat n"] by simp
next
  case False
  then show ?thesis using decimal_of_nat [of "nat (- n)"] decimal_minus [of "of_int n"] by simp
qed

lemma digits_val_append: "digits_val (s @ t) = digits_val s * 10 ^ length t + digits_val t"
proof (induction t rule: rev_induct)
  case (snoc c t)
  then show ?case using digits_val_snoc [of "s @ t" c] digits_val_snoc [of t c] by (simp add: algebra_simps)
qed (simp add: digits_val_def)

lemma digits_val_zeros [simp]: "digits_val (replicate n 48) = 0"
proof (induction n)
  case (Suc n)
  then show ?case using digits_val_snoc [of "replicate n 48" 48]
    by (simp add: replicate_append_same [symmetric])
qed (simp add: digits_val_def)

lemma strip_zeros: "\<exists>n. s = strip_zeros s @ replicate n 48"
proof -
  have "rev s = takeWhile (\<lambda>c. c = 48) (rev s) @ dropWhile (\<lambda>c. c = 48) (rev s)" by simp
  then have "s = rev (dropWhile (\<lambda>c. c = 48) (rev s)) @ rev (takeWhile (\<lambda>c. c = 48) (rev s))"
    by (metis rev_append rev_rev_ident)
  moreover have "rev (takeWhile (\<lambda>c. c = 48) (rev s)) = replicate (length (takeWhile (\<lambda>c. c = 48) (rev s))) 48"
    by (rule replicate_eqI) (auto dest: set_takeWhileD)
  ultimately show ?thesis unfolding strip_zeros_def by metis
qed

text \<open>
  The layout of a printed number: digits, a fraction and an exponent.
\<close>

definition exponent_str :: "int option \<Rightarrow> jsstring" where
  "exponent_str e = (case e of None \<Rightarrow> [] | Some e \<Rightarrow> 101 # (if e < 0 then 45 else 43) # show_nat (nat \<bar>e\<bar>))"

definition layout :: "jsstring \<Rightarrow> jsstring \<Rightarrow> int option \<Rightarrow> jsstring" where
  "layout a fs e = a @ (if fs = [] then [] else 46 # fs) @ exponent_str e"

definition layout_val :: "jsstring \<Rightarrow> jsstring \<Rightarrow> int option \<Rightarrow> rat" where
  "layout_val a fs e = of_nat (digits_val (a @ fs)) * pow10 (nullish e 0 - int (length fs))"

lemma pow10_add: "pow10 (a + b) = pow10 a * pow10 b"
  by (simp add: pow10_powi power_int_add)

lemma pow10_nat [simp]: "pow10 (int n) = 10 ^ n" "pow10 0 = 1"
  by (simp_all add: pow10_def)

lemma show_pos: "0 < n \<Longrightarrow> hd (show_nat n) \<noteq> 48"
proof
  assume n: "0 < n" and h: "hd (show_nat n) = 48"
  then obtain c where c: "show_nat n = [c]" using show_nat_hd_zero [OF h] by (cases "show_nat n") auto
  then have "digits_val (show_nat n) = 0" using h by (simp add: digits_val_def)
  then show False using n by simp
qed

definition good_layout :: "jsstring \<Rightarrow> jsstring \<Rightarrow> bool" where
  "good_layout a fs \<longleftrightarrow> all_digits a \<and> (hd a = 48 \<longrightarrow> length a = 1) \<and> (\<forall>c\<in>set fs. is_digit c)"

lemma pos_layout:
  assumes "decimal r" "0 < r"
  shows "\<exists>a fs e. pos_num_str r = layout a fs e \<and> good_layout a fs \<and> layout_val a fs e = r"
proof -
  define k where "k = scale r"
  define N where "N = nat \<lfloor>r * 10 ^ k\<rfloor>"
  define ds where "ds = show_nat N"
  define n where "n = int (length ds) - int k"
  define sg where "sg = strip_zeros ds"
  have N: "r * 10 ^ k = of_nat N" "0 < N" using decimal_whole [OF assms] by (simp_all add: N_def k_def)
  then have r: "r = of_nat N * pow10 (- int k)" by (simp add: pow10_powi power_int_minus field_simps)
  have ds: "digits_val ds = N" "ds \<noteq> []" "\<forall>c\<in>set ds. is_digit c" "hd ds \<noteq> 48"
    using show_nat_digits show_pos [OF N(2)] by (auto simp: ds_def)
  obtain z where z: "ds = sg @ replicate z 48" using strip_zeros unfolding sg_def by blast
  have sg: "sg \<noteq> []" "\<forall>c\<in>set sg. is_digit c" "digits_val ds = digits_val sg * 10 ^ z"
    using ds z N(2) by (auto simp: digits_val_append intro: gr0I)
  have str: "pos_num_str r =
      (if k = 0 \<and> n \<le> 21 then ds
       else if 0 < n \<and> n \<le> 21 then take (nat n) ds @ [46] @ drop (nat n) ds
       else if - 6 < n \<and> n \<le> 0 then [48, 46] @ replicate (nat (- n)) 48 @ ds
       else if length sg = 1 then sg @ exponent_str (Some (n - 1))
       else take 1 sg @ [46] @ drop 1 sg @ exponent_str (Some (n - 1)))"
    unfolding pos_num_str_def Let_def k_def [symmetric] N_def [symmetric] ds_def [symmetric] n_def [symmetric]
      sg_def [symmetric] by (simp add: exponent_str_def)
  consider (A) "k = 0" "n \<le> 21" | (B) "0 < n" "n \<le> 21" "0 < k" | (C) "n \<le> 0" "- 6 < n"
    | (D) "\<not> (k = 0 \<and> n \<le> 21)" "\<not> (0 < n \<and> n \<le> 21)" "\<not> (- 6 < n \<and> n \<le> 0)"
    by linarith
  then show ?thesis
  proof cases
    case A
    then show ?thesis using ds r str
      by (intro exI [of _ ds] exI [of _ "[]"] exI [of _ None])
        (simp add: layout_def exponent_str_def good_layout_def layout_val_def all_digits_def)
  next
    case B
    then have l: "length (drop (nat n) ds) = k" "take (nat n) ds \<noteq> []" using ds(2) by (auto simp: n_def)
    have "pos_num_str r = layout (take (nat n) ds) (drop (nat n) ds) None"
      using B l(1) str by (auto simp: layout_def exponent_str_def)
    moreover have "hd (take (nat n) ds) \<noteq> 48" using ds(2,4) l(2) by (cases ds; cases "nat n") auto
    moreover have "layout_val (take (nat n) ds) (drop (nat n) ds) None = r"
      using ds(1) l(1) r by (simp only: layout_val_def append_take_drop_id nullish_simps) simp
    ultimately show ?thesis
      using ds(3) l(2) by (intro exI conjI) (auto simp: good_layout_def all_digits_def dest: in_set_takeD in_set_dropD)
  next
    case C
    let ?f = "replicate (nat (- n)) 48 @ ds"
    have p: "pos_num_str r = layout [48] ?f None"
    proof -
      have "k \<noteq> 0" using C(1) ds(2) by (cases ds) (auto simp: n_def)
      then show ?thesis using C ds(2) str by (simp add: layout_def exponent_str_def)
    qed
    have "int (length ?f) = int k" using C by (simp add: n_def)
    moreover have "digits_val (replicate (Suc (nat (- n))) 48 @ ds) = N"
      unfolding digits_val_append digits_val_zeros using ds(1) by simp
    ultimately have "layout_val [48] ?f None = r" using r by (simp add: layout_val_def)
    then show ?thesis
      using ds(3) p by (intro exI conjI) (auto simp: good_layout_def all_digits_def is_digit_def)
  next
    case D
    have len: "int (length ds) = int (length sg) + int z" using arg_cong [OF z, of length] by simp
    have v: "layout_val a fs (Some (n - 1)) = r" if "a @ fs = sg" "length a = 1" for a fs
    proof -
      have "int (length sg) = 1 + int (length fs)" using arg_cong [OF that(1), of length] that(2) by simp
      then have "n - 1 - int (length fs) = int z + - int k" using len by (simp add: n_def)
      moreover have "pow10 (int z + - int k) = 10 ^ z * pow10 (- int k)" unfolding pow10_add by simp
      ultimately show ?thesis
        using r sg(3) ds(1) by (simp add: layout_val_def that(1))
    qed
    obtain c s where c: "sg = c # s" using sg(1) by (cases sg) auto
    have "pos_num_str r = layout [c] s (Some (n - 1))"
      using D str c by (auto simp: layout_def)
    then show ?thesis
      using v [of "[c]" s] c sg(2) by (intro exI conjI) (auto simp: good_layout_def all_digits_def)
  qed
qed


lemma take_digits:
  "\<forall>c\<in>set a. is_digit c \<Longrightarrow> t = [] \<or> \<not> is_digit (hd t) \<Longrightarrow>
   takeWhile is_digit (a @ t) = a \<and> dropWhile is_digit (a @ t) = t"
  by (cases t) (auto simp: takeWhile_append dropWhile_append)

lemma value_end_facts:
  "value_end t \<Longrightarrow> (t = [] \<or> \<not> is_digit (hd t)) \<and> (t \<noteq> [] \<longrightarrow> hd t \<noteq> 46) \<and> parse_exponent t = Some (0, t)"
  by (cases t) (auto simp: value_end_def is_digit_def parse_exponent_def)

lemma parse_exponent_layout:
  assumes "value_end t"
  shows "parse_exponent (exponent_str e @ t) = Some (nullish e 0, t)"
    "exponent_str e @ t = [] \<or> \<not> is_digit (hd (exponent_str e @ t))"
    "exponent_str e @ t \<noteq> [] \<longrightarrow> hd (exponent_str e @ t) \<noteq> 46"
proof -
  have "\<forall>c\<in>set (show_nat m). is_digit c" for m using show_nat_digits by blast
  then have "takeWhile is_digit (show_nat m @ t) = show_nat m \<and> dropWhile is_digit (show_nat m @ t) = t" for m
    using take_digits value_end_facts [OF assms] by blast
  then have d: "takeWhile is_digit (show_nat m @ t) = show_nat m" "dropWhile is_digit (show_nat m @ t) = t" for m
    by blast+
  show "parse_exponent (exponent_str e @ t) = Some (nullish e 0, t)"
  proof (cases e)
    case None
    then show ?thesis using value_end_facts [OF assms] by (simp add: exponent_str_def)
  next
    case (Some x)
    then show ?thesis unfolding parse_exponent_def exponent_str_def Let_def by (simp add: d)
  qed
  show "exponent_str e @ t = [] \<or> \<not> is_digit (hd (exponent_str e @ t))"
    "exponent_str e @ t \<noteq> [] \<longrightarrow> hd (exponent_str e @ t) \<noteq> 46"
    using value_end_facts [OF assms] by (auto simp: exponent_str_def is_digit_def split: option.splits)
qed

lemma parse_number_minus:
  "hd s \<noteq> 45 \<Longrightarrow> s \<noteq> [] \<Longrightarrow> parse_number (45 # s) = map_option (\<lambda>(x, r). (- x, r)) (parse_number s)"
  by (auto simp: parse_number_def Let_def split: option.splits)

lemma parse_number_layout:
  assumes "good_layout a fs" "value_end t"
  shows "parse_number (layout a fs e @ t) = Some (layout_val a fs e, t)"
    "parse_number (45 # layout a fs e @ t) = Some (- layout_val a fs e, t)"
proof -
  define x where "x = exponent_str e @ t"
  define r where "r = (if fs = [] then [] else 46 # fs) @ x"
  note x = parse_exponent_layout [OF assms(2), of e, folded x_def]
  have a: "a \<noteq> []" "hd a \<noteq> 45" "\<not> (hd a = 48 \<and> 1 < length a)"
    using assms(1) by (cases a; auto simp: good_layout_def all_digits_def is_digit_def)+
  have "r = [] \<or> \<not> is_digit (hd r)" using x(2) by (auto simp: is_digit_def r_def)
  moreover have "\<forall>c\<in>set a. is_digit c" using assms(1) by (simp add: good_layout_def all_digits_def)
  ultimately have "takeWhile is_digit (a @ r) = a \<and> dropWhile is_digit (a @ r) = r" by (intro take_digits)
  then have ad: "takeWhile is_digit (a @ r) = a" "dropWhile is_digit (a @ r) = r" by blast+
  have "takeWhile is_digit (fs @ x) = fs \<and> dropWhile is_digit (fs @ x) = x"
    using assms(1) by (intro take_digits x(2)) (simp add: good_layout_def)
  then have fd: "takeWhile is_digit (fs @ x) = fs" "dropWhile is_digit (fs @ x) = x" by blast+
  have r: "(r \<noteq> [] \<and> hd r = 46) = (fs \<noteq> [])" "fs = [] \<Longrightarrow> r = x" "fs \<noteq> [] \<Longrightarrow> tl r = fs @ x"
    using x(3) by (auto simp: r_def)
  have l: "layout a fs e @ t = a @ r" by (simp add: layout_def r_def x_def)
  have x3: "x = [] \<or> hd x \<noteq> 46" using x(3) by blast
  have h: "(a @ r \<noteq> [] \<and> hd (a @ r) = 45) = False" using a by simp
  show "parse_number (layout a fs e @ t) = Some (layout_val a fs e, t)"
    unfolding l parse_number_def Let_def h if_False ad r(1)
    using a(1,3) fd x(1) x3 r(2,3) by (cases "fs = []") (simp_all add: layout_val_def)
  then show "parse_number (45 # layout a fs e @ t) = Some (- layout_val a fs e, t)"
    using parse_number_minus [of "layout a fs e @ t"] h by (simp add: l a(1))
qed

lemma parse_number_num_str:
  assumes "decimal r" "value_end t"
  shows "parse_number (num_str r @ t) = Some (r, t)"
proof -
  consider "r = 0" | "0 < r" | "r < 0" by linarith
  then show ?thesis
  proof cases
    case 1
    then show ?thesis using parse_number_layout(1) [of "[48]" "[]" t None] assms(2)
      by (simp add: num_str_def layout_def exponent_str_def good_layout_def all_digits_def is_digit_def
          layout_val_def digits_val_def)
  next
    case 2
    then show ?thesis using pos_layout [OF assms(1)] parse_number_layout(1) [OF _ assms(2)]
      by (auto simp: num_str_def)
  next
    case 3
    then show ?thesis using pos_layout [of "- r"] assms(1) parse_number_layout(2) [OF _ assms(2)]
      by (fastforce simp: num_str_def)
  qed
qed

subsection \<open>Texts that read as a value\<close>

text \<open>
  A text reads as a value when the parser returns the value and what follows, for enough fuel.
  The two printers differ only in the white space around the elements, so the lemmas are stated
  for texts with white space \<open>g\<close> before the elements, \<open>h\<close> after the last, and \<open>c\<close> after a colon.
\<close>

definition reads :: "jsstring \<Rightarrow> jsval \<Rightarrow> bool" where
  "reads s v \<longleftrightarrow> s \<noteq> [] \<and> \<not> json_ws (hd s) \<and> hd s \<noteq> 93 \<and>
     (\<exists>n0. \<forall>n\<ge>n0. \<forall>t. value_end t \<longrightarrow> parse_value n (s @ t) = Some (v, t))"

definition line_end :: "jsstring \<Rightarrow> bool" where
  "line_end h \<longleftrightarrow> list_all json_ws h \<and> (h = [] \<or> hd h = 10)"

lemma readsE:
  assumes "reads s v"
  obtains n0 where "\<And>n t. n0 \<le> n \<Longrightarrow> value_end t \<Longrightarrow> parse_value n (s @ t) = Some (v, t)"
  using assms unfolding reads_def by blast

lemma readsI:
  assumes "s \<noteq> []" "\<not> json_ws (hd s)" "hd s \<noteq> 93"
    "\<And>n t. n0 \<le> n \<Longrightarrow> value_end t \<Longrightarrow> parse_value (Suc n) (s @ t) = Some (v, t)"
  shows "reads s v"
proof -
  have "parse_value n (s @ t) = Some (v, t)" if "Suc n0 \<le> n" "value_end t" for n t
    using assms(4) [of "n - 1" t] that by (cases n) auto
  then show ?thesis using assms(1-3) unfolding reads_def by blast
qed

lemma skip_ws_all: "list_all json_ws g \<Longrightarrow> skip_ws (g @ s) = skip_ws s"
  by (induction g) (auto simp: skip_ws_def)

lemma skip_ws_noop [simp]: "skip_ws (91 # s) = 91 # s" "skip_ws (93 # s) = 93 # s"
  "skip_ws (123 # s) = 123 # s" "skip_ws (125 # s) = 125 # s"
  "skip_ws (44 # s) = 44 # s" "skip_ws (58 # s) = 58 # s" "skip_ws [] = []"
  by (simp_all add: skip_ws_def json_ws_def)

lemma skip_ws_head: "s \<noteq> [] \<Longrightarrow> \<not> json_ws (hd s) \<Longrightarrow> skip_ws (s @ t) = s @ t"
  by (cases s) (auto simp: skip_ws_def)

lemma parse_value_ws: "list_all json_ws g \<Longrightarrow> parse_value n (g @ s) = parse_value n s"
  by (cases n) (simp_all add: parse_step skip_ws_all)

lemma value_end_line [simp]:
  "line_end h \<Longrightarrow> value_end (h @ 93 # t)" "line_end h \<Longrightarrow> value_end (h @ 125 # t)" "value_end (44 # t)"
  by (cases h; simp add: line_end_def value_end_def)+

lemma line_end_ws: "line_end h \<Longrightarrow> list_all json_ws h"
  by (simp add: line_end_def)

lemma parse_elems_reads:
  assumes "vs \<noteq> []" "\<forall>v\<in>set vs. reads (pr v) v" "list_all json_ws g" "line_end h"
  shows "\<exists>n0. \<forall>n\<ge>n0. \<forall>t.
    parse_elems n (g @ join (44 # g) (map pr vs) @ h @ 93 # t) = Some (vs, t)"
  using assms(1,2)
proof (induction vs)
  case (Cons v vs)
  then have "reads (pr v) v" by simp
  then obtain n1 where n1: "\<And>n t. n1 \<le> n \<Longrightarrow> value_end t \<Longrightarrow> parse_value n (pr v @ t) = Some (v, t)"
    by (rule readsE) blast
  note ws = skip_ws_all [OF line_end_ws [OF assms(4)]] parse_value_ws [OF assms(3)]
  show ?case
  proof (cases "vs = []")
    case True
    have "parse_elems n (g @ pr v @ h @ 93 # t) = Some ([v], t)" if "Suc n1 \<le> n" for n t
      using that n1 [of "n - 1" "h @ 93 # t"] assms(4) by (cases n) (auto simp: parse_step ws)
    with True show ?thesis by auto
  next
    case False
    let ?j = "join (44 # g) (map pr vs)"
    from False Cons obtain n2 where n2: "\<And>n t. n2 \<le> n \<Longrightarrow>
        parse_elems n (g @ ?j @ h @ 93 # t) = Some (vs, t)" by auto
    have "parse_elems n (g @ pr v @ 44 # g @ ?j @ h @ 93 # t) = Some (v # vs, t)"
      if "Suc (max n1 n2) \<le> n" for n t
      using that n1 [of "n - 1" "44 # g @ ?j @ h @ 93 # t"] n2 [of "n - 1" t]
      by (cases n) (auto simp: parse_step ws)
    with False show ?thesis by (auto simp: join_Cons)
  qed
qed simp

lemma parse_members_reads:
  assumes "ps \<noteq> []" "\<forall>(k, v)\<in>set ps. utf16 k \<and> reads (pr v) v"
    "list_all json_ws g" "list_all json_ws c" "line_end h"
  shows "\<exists>n0. \<forall>n\<ge>n0. \<forall>t.
    parse_members n (g @ join (44 # g) (map (\<lambda>(k, v). quote k @ 58 # c @ pr v) ps) @ h @ 125 # t) =
      Some (ps, t)"
  using assms(1,2)
proof (induction ps)
  case (Cons p ps)
  obtain k v where p: "p = (k, v)" by (cases p)
  have u: "utf16 k" using Cons.prems p by simp
  have "reads (pr v) v" using Cons.prems p by simp
  then obtain n1 where n1: "\<And>n t. n1 \<le> n \<Longrightarrow> value_end t \<Longrightarrow> parse_value n (pr v @ t) = Some (v, t)"
    by (rule readsE) blast
  note ws = skip_ws_all [OF line_end_ws [OF assms(5)]] skip_ws_all [OF assms(3)]
    parse_value_ws [OF assms(4)]
  note read = parse_step ws quote_def parse_chars_quote_chars [OF u]
  show ?case
  proof (cases "ps = []")
    case True
    have "parse_members n (g @ quote k @ 58 # c @ pr v @ h @ 125 # t) = Some ([(k, v)], t)"
      if "Suc n1 \<le> n" for n t
      using that n1 [of "n - 1" "h @ 125 # t"] assms(5) by (cases n) (auto simp: read)
    with True p show ?thesis by auto
  next
    case False
    let ?j = "join (44 # g) (map (\<lambda>(k, v). quote k @ 58 # c @ pr v) ps)"
    from False Cons obtain n2 where n2: "\<And>n t. n2 \<le> n \<Longrightarrow>
        parse_members n (g @ ?j @ h @ 125 # t) = Some (ps, t)" by auto
    have "parse_members n (g @ quote k @ 58 # c @ pr v @ 44 # g @ ?j @ h @ 125 # t) = Some ((k, v) # ps, t)"
      if "Suc (max n1 n2) \<le> n" for n t
      using that n1 [of "n - 1" "44 # g @ ?j @ h @ 125 # t"] n2 [of "n - 1" t]
      by (cases n) (auto simp: read)
    with False p show ?thesis by (auto simp: join_Cons)
  qed
qed simp

lemma join_hd: "ps \<noteq> [] \<Longrightarrow> hd ps \<noteq> [] \<Longrightarrow> join sep ps \<noteq> [] \<and> hd (join sep ps) = hd (hd ps)"
  by (induction sep ps rule: join.induct) auto

lemma reads_arr:
  assumes "vs \<noteq> []" "\<forall>v\<in>set vs. reads (pr v) v" "list_all json_ws g" "line_end h"
  shows "reads (91 # g @ join (44 # g) (map pr vs) @ h @ [93]) (JArr vs)"
proof -
  let ?j = "join (44 # g) (map pr vs)"
  have "reads (pr (hd vs)) (hd vs)" using assms(1,2) by simp
  then have h: "?j \<noteq> [] \<and> \<not> json_ws (hd ?j) \<and> hd ?j \<noteq> 93"
    using assms(1) join_hd [of "map pr vs" "44 # g"] by (auto simp: hd_map reads_def)
  then obtain d r where d: "?j = d # r" "d \<noteq> 93" by (cases ?j) auto
  have sk: "skip_ws (g @ d # r @ u) = d # r @ u" for u
    using skip_ws_head [of ?j u] h skip_ws_all [OF assms(3)] unfolding d(1) by simp
  from parse_elems_reads [OF assms] obtain n0 where
    "\<And>n t. n0 \<le> n \<Longrightarrow> parse_elems n (g @ ?j @ h @ 93 # t) = Some (vs, t)" by blast
  then show ?thesis
    using d sk by (intro readsI [of _ n0]) (auto simp: parse_step json_ws_def)
qed

lemma reads_obj:
  assumes "ps \<noteq> []" "\<forall>(k, v)\<in>set ps. utf16 k \<and> reads (pr v) v" "obj_of ps = ps"
    "list_all json_ws g" "list_all json_ws c" "line_end h"
  shows "reads (123 # g @ join (44 # g) (map (\<lambda>(k, v). quote k @ 58 # c @ pr v) ps) @ h @ [125]) (JObj ps)"
proof -
  let ?j = "join (44 # g) (map (\<lambda>(k, v). quote k @ 58 # c @ pr v) ps)"
  have "hd ?j = 34 \<and> ?j \<noteq> []"
    using assms(1) join_hd [of "map (\<lambda>(k, v). quote k @ 58 # c @ pr v) ps" "44 # g"]
    by (cases ps) (auto simp: quote_def)
  then obtain r where r: "?j = 34 # r" by (cases ?j) auto
  from parse_members_reads [OF assms(1,2,4-6)] obtain n0 where
    "\<And>n t. n0 \<le> n \<Longrightarrow> parse_members n (g @ ?j @ h @ 125 # t) = Some (ps, t)" by blast
  then show ?thesis
    using r assms(3) skip_ws_all [OF assms(4)]
    by (intro readsI [of _ n0]) (auto simp: parse_step json_ws_def)
qed

lemma num_str_hd:
  assumes "decimal x"
  shows "\<exists>c r. num_str x = c # r \<and> (is_digit c \<or> c = 45)"
proof -
  have pos: "\<exists>c r. pos_num_str y = c # r \<and> is_digit c" if "decimal y" "0 < y" for y
  proof -
    obtain a fs e where "pos_num_str y = layout a fs e" "good_layout a fs"
      using pos_layout [of y] \<open>decimal y\<close> \<open>0 < y\<close> by blast
    then show ?thesis by (cases a) (auto simp: layout_def good_layout_def all_digits_def)
  qed
  consider "x = 0" | "0 < x" | "x < 0" by linarith
  then show ?thesis
    by cases (use assms pos [of x] in \<open>auto simp: num_str_def is_digit_def\<close>)
qed

lemma num_str_chars:
  assumes "decimal x" "c \<in> set (num_str x)"
  shows "is_digit c \<or> c \<in> {45, 46, 101, 43}"
proof -
  have pos: "is_digit c \<or> c \<in> {45, 46, 101, 43}" if "decimal y" "0 < y" "c \<in> set (pos_num_str y)" for y
  proof -
    obtain a fs e where "pos_num_str y = layout a fs e" "good_layout a fs"
      using pos_layout [of y] \<open>decimal y\<close> \<open>0 < y\<close> by blast
    then show ?thesis
      using \<open>c \<in> set (pos_num_str y)\<close> show_nat_digits
      by (auto simp: layout_def good_layout_def all_digits_def exponent_str_def split: if_splits option.splits)
  qed
  consider "x = 0" | "0 < x" | "x < 0" by linarith
  then show ?thesis
    by cases (use assms pos [of x] pos [of "- x"] in \<open>auto simp: num_str_def is_digit_def\<close>)
qed

lemma reads_num:
  assumes "json_rt (JNum x)"
  shows "reads (num_str x) (JNum x)"
proof -
  have x: "decimal x" using assms by simp
  then obtain c r where c: "num_str x = c # r" and digit: "is_digit c \<or> c = 45" using num_str_hd by blast
  then have "parse_value (Suc m) (num_str x @ t) = map_option (apfst JNum) (parse_number (num_str x @ t))"
    for m t
    unfolding c by (auto simp: parse_step skip_ws_def json_ws_def is_digit_def js_Cons)
  then show ?thesis
    using digit parse_number_num_str [OF x] c
    by (intro readsI [of _ 0]) (auto simp: json_ws_def is_digit_def)
qed

lemma reads_atoms:
  "reads (js ''null'') JNull" "reads (js ''true'') (JBool True)" "reads (js ''false'') (JBool False)"
  "utf16 s \<Longrightarrow> reads (quote s) (JStr s)" "reads [91, 93] (JArr [])" "reads [123, 125] (JObj [])"
proof -
  show "utf16 s \<Longrightarrow> reads (quote s) (JStr s)"
    by (rule readsI [of _ 0]) (simp_all add: parse_value_quote, simp_all add: quote_def json_ws_def)
qed (rule readsI [of _ 0], auto simp: parse_step js_Cons skip_ws_def json_ws_def prefix_def)+

lemma JSON_parse_reads:
  assumes "reads s v"
  shows "JSON_parse s = Some v"
proof -
  obtain n0 where "\<And>n t. n0 \<le> n \<Longrightarrow> value_end t \<Longrightarrow> parse_value n (s @ t) = Some (v, t)"
    using assms by (rule readsE) blast
  then have "\<forall>n\<ge>n0. parse_value n s = Some (v, [])" by (metis append_Nil2 value_end_def)
  then show ?thesis by (intro JSON_parse_fuel) auto
qed

theorem json_roundtrip: "json_rt v \<Longrightarrow> reads (JSON_stringify v) v"
proof (induction v)
  case (JArr vs)
  then show ?case using reads_arr [of vs JSON_stringify "[]" "[]"] reads_atoms(5)
    by (cases "vs = []") (auto simp: list_all_iff line_end_def)
next
  case (JObj ps)
  then have "\<forall>(k, v)\<in>set ps. utf16 k \<and> reads (JSON_stringify v) v" by (fastforce simp: list_all_iff)
  then show ?case using JObj.prems reads_obj [of ps JSON_stringify "[]" "[]" "[]"] reads_atoms(6)
    by (cases "ps = []") (auto simp: line_end_def)
qed (simp_all add: reads_num reads_atoms del: json_rt.simps(3))

text \<open>The printer with an indentation of two spaces.\<close>

lemma pretty_roundtrip: "json_rt v \<Longrightarrow> list_all json_ws ind \<Longrightarrow> reads (JSON_pretty ind v) v"
proof (induction v arbitrary: ind)
  case (JArr vs)
  let ?ind = "ind @ [32, 32]"
  have sp: "json_ws 10" "json_ws 32" by (simp_all add: json_ws_def)
  have ws: "list_all json_ws (10 # ?ind)" "line_end (10 # ind)"
    using JArr.prems sp by (auto simp: line_end_def)
  have "\<forall>v\<in>set vs. reads (JSON_pretty ?ind v) v"
    using JArr ws by (auto simp: list_all_iff)
  then show ?case using reads_arr [of vs "JSON_pretty ?ind", OF _ _ ws] reads_atoms(5)
    by (cases "vs = []") auto
next
  case (JObj ps)
  let ?ind = "ind @ [32, 32]"
  have sp: "json_ws 10" "json_ws 32" by (simp_all add: json_ws_def)
  have ws: "list_all json_ws (10 # ?ind)" "list_all json_ws [32]" "line_end (10 # ind)"
    using JObj.prems sp by (auto simp: line_end_def)
  have "\<forall>(k, v)\<in>set ps. utf16 k \<and> reads (JSON_pretty ?ind v) v"
    using JObj ws by (fastforce simp: list_all_iff)
  then show ?case using JObj.prems reads_obj [of ps "JSON_pretty ?ind", OF _ _ _ ws] reads_atoms(6)
    by (cases "ps = []") auto
qed (simp_all add: reads_num reads_atoms del: json_rt.simps(3))

lemma JSON_parse_stringify: "json_rt v \<Longrightarrow> JSON_parse (JSON_stringify v) = Some v"
  by (intro JSON_parse_reads json_roundtrip)

lemma JSON_parse_pretty: "json_rt v \<Longrightarrow> JSON_parse (JSON_pretty [] v) = Some v"
  by (intro JSON_parse_reads pretty_roundtrip) simp_all

lemma JSON_parse_blank: "trim s = [] \<Longrightarrow> JSON_parse s = None"
proof -
  assume s: "trim s = []"
  have "parse_value (Suc n) s = None" for n
  proof (cases "skip_ws s")
    case (Cons c r)
    then have "c \<in> set s" unfolding skip_ws_def by (metis list.set_intros(1) set_dropWhileD)
    then have c: "is_ws c" using s by (simp add: trim_eq_Nil)
    then have "\<not> is_digit c" using digit_not_ws by blast
    moreover have "c \<noteq> 45" using c by (auto simp: is_ws_def)
    ultimately have "parse_number (c # r) = None" by (simp add: parse_number_def Let_def)
    moreover have "c \<noteq> 123" "c \<noteq> 91" "c \<noteq> 34" "c \<noteq> 116" "c \<noteq> 102" "c \<noteq> 110"
      using c by (auto simp: is_ws_def)
    ultimately show ?thesis using Cons by (simp add: parse_step js_lits)
  qed (simp add: parse_step)
  then show ?thesis by (simp add: JSON_parse_def)
qed

text \<open>An object literal whose keys are distinct and no array indices keeps its written order.\<close>

lemma obj_of_plain:
  assumes "distinct (map fst ps)" "\<forall>k\<in>fst ` set ps. \<not> is_index_key k"
  shows "obj_of ps = ps"
proof -
  have "foldl (\<lambda>ps (k, v). obj_put k v ps) acc ps = acc @ ps"
    if "distinct (map fst (acc @ ps))" "\<forall>k\<in>fst ` set ps. \<not> is_index_key k" for acc
    using that
  proof (induction ps arbitrary: acc)
    case (Cons p ps)
    obtain k v where p: "p = (k, v)" by (cases p)
    have "obj_get acc k = None" using Cons.prems p by (auto simp: obj_get_None)
    then have "obj_put k v acc = acc @ [p]" using Cons.prems p by (simp add: obj_put_def)
    then show ?case using Cons.IH [of "acc @ [p]"] Cons.prems p by simp
  qed simp
  from this [of "[]"] assms show ?thesis by (simp add: obj_of_def)
qed

subsection \<open>Conversions\<close>

definition truthy :: "jsval \<Rightarrow> bool" where
  "truthy v =
     (case v of JNull \<Rightarrow> False | JBool b \<Rightarrow> b | JNum x \<Rightarrow> x \<noteq> 0 | JStr s \<Rightarrow> s \<noteq> []
      | JArr _ \<Rightarrow> True | JObj _ \<Rightarrow> True)"

definition truthy_opt :: "jsval option \<Rightarrow> bool" where
  "truthy_opt v = (case v of None \<Rightarrow> False | Some w \<Rightarrow> truthy w)"

text \<open>\<open>String(v)\<close>, also used by template literals; \<open>null\<close> inside an array prints as nothing.\<close>

fun to_str :: "jsval \<Rightarrow> jsstring" where
  "to_str JNull = js ''null''"
| "to_str (JBool b) = (if b then js ''true'' else js ''false'')"
| "to_str (JNum x) = num_str x"
| "to_str (JStr s) = s"
| "to_str (JArr vs) = join [44] (map (\<lambda>v. case v of JNull \<Rightarrow> [] | _ \<Rightarrow> to_str v) vs)"
| "to_str (JObj ps) = js ''[object Object]''"

text \<open>The entries of a value that is an object and neither null nor an array.\<close>

definition json_object :: "jsval option \<Rightarrow> (jsstring \<times> jsval) list option" where
  "json_object v = (case v of Some (JObj ps) \<Rightarrow> Some ps | _ \<Rightarrow> None)"

text \<open>Property access on a value that is not \<open>null\<close>.  The property names the sources use are
  not those of the prototypes of strings, numbers and arrays.\<close>

definition js_prop :: "jsval \<Rightarrow> jsstring \<Rightarrow> jsval option" where
  "js_prop v k = (case v of JObj ps \<Rightarrow> obj_get ps k | _ \<Rightarrow> None)"

text \<open>The operator \<open>||\<close> on a value that may be missing.\<close>

definition or_val :: "jsval option \<Rightarrow> jsval \<Rightarrow> jsval" where
  "or_val v d = (if truthy_opt v then nullish v d else d)"

subsection \<open>Enumeration order\<close>

text \<open>The objects whose entries are listed in enumeration order; assigning and deleting keep the
  order, so a value that survives printing still does after its properties were edited.\<close>

lemma js_inject [simp]: "js s = js t \<longleftrightarrow> s = t"
  by (auto simp: js_def inj_map_eq_map inj_def)

definition key_before :: "jsstring \<Rightarrow> jsstring \<Rightarrow> bool" where
  "key_before j k \<longleftrightarrow>
     (if is_index_key k then is_index_key j \<and> digits_val j < digits_val k else j \<noteq> k)"

definition key_order :: "(jsstring \<times> 'v) list \<Rightarrow> bool" where
  "key_order ps \<longleftrightarrow> sorted_wrt key_before (map fst ps)"

lemma index_key_inj: "is_index_key j \<Longrightarrow> is_index_key k \<Longrightarrow> digits_val j = digits_val k \<longleftrightarrow> j = k"
  unfolding is_index_key_def by metis

lemma obj_insert_index_last:
  "is_index_key k \<Longrightarrow> \<forall>j\<in>fst ` set ps. key_before j k \<Longrightarrow> obj_insert_index k v ps = ps @ [(k, v)]"
  by (induction ps) (auto simp: key_before_def)

lemma key_order_obj_of: "key_order ps \<Longrightarrow> obj_of ps = ps"
proof -
  have "foldl (\<lambda>ps (k, v). obj_put k v ps) acc ps = acc @ ps" if "key_order (acc @ ps)" for acc
    using that
  proof (induction ps arbitrary: acc)
    case (Cons p ps)
    obtain k v where p: "p = (k, v)" by (cases p)
    have before: "\<forall>j\<in>fst ` set acc. key_before j k"
      using Cons.prems p by (auto simp: key_order_def sorted_wrt_append)
    then have "k \<notin> fst ` set acc" by (auto simp: key_before_def split: if_splits)
    then have "obj_put k v acc = acc @ [p]"
      using before p by (simp add: obj_put_def obj_get_None obj_insert_index_last)
    then show ?case using Cons.IH [of "acc @ [p]"] Cons.prems p by simp
  qed simp
  from this [of "[]"] show "key_order ps \<Longrightarrow> obj_of ps = ps" by (simp add: obj_of_def)
qed

lemma key_order_insert_index:
  "is_index_key k \<Longrightarrow> k \<notin> fst ` set ps \<Longrightarrow> key_order ps \<Longrightarrow> key_order (obj_insert_index k v ps)"
proof (induction k v ps rule: obj_insert_index.induct)
  case (2 k v k' w ps)
  show ?case
  proof (cases "is_index_key k' \<and> digits_val k' < digits_val k")
    case True
    then have "key_before k' k" using 2(2) by (simp add: key_before_def)
    moreover have "set (map fst (obj_insert_index k v ps)) = insert k (set (map fst ps))"
      by (rule keys_insert_index)
    ultimately show ?thesis using 2 True by (auto simp: key_order_def)
  next
    case False
    have ne: "k \<noteq> k'" using 2(3) by auto
    have k: "key_before k k'"
    proof (cases "is_index_key k'")
      case True
      then have "digits_val k \<noteq> digits_val k'" using ne 2(2) index_key_inj by blast
      then show ?thesis using True False 2(2) by (simp add: key_before_def)
    qed (use ne in \<open>simp add: key_before_def\<close>)
    have "key_before k j" if "key_before k' j" for j
    proof (cases "is_index_key j")
      case True
      then have j: "is_index_key k'" "digits_val k' < digits_val j" using that by (auto simp: key_before_def)
      then have "digits_val k < digits_val k'" using k by (simp add: key_before_def)
      then show ?thesis using j True 2(2) by (simp add: key_before_def)
    next
      case False
      then show ?thesis using 2(2) by (auto simp: key_before_def)
    qed
    moreover have "obj_insert_index k v ((k', w) # ps) = (k, v) # (k', w) # ps"
      using False by (simp only: obj_insert_index.simps if_False)
    ultimately show ?thesis using k 2(4) by (auto simp: key_order_def)
  qed
qed (simp add: key_order_def)

lemma key_order_put: "key_order ps \<Longrightarrow> key_order (obj_put k v ps)"
proof -
  assume ps: "key_order ps"
  have "key_before j k" if "\<not> is_index_key k" "k \<notin> fst ` set ps" "j \<in> fst ` set ps" for j
    using that by (auto simp: key_before_def)
  then show ?thesis
    using ps key_order_insert_index [of k ps v]
    by (auto simp: obj_put_def obj_get_None key_order_def keys_replace sorted_wrt_append)
qed

lemma obj_of_iff: "obj_of ps = ps \<longleftrightarrow> key_order ps"
proof -
  have "key_order (foldl (\<lambda>ps (k, v). obj_put k v ps) acc kvs)" if "key_order acc"
    for acc kvs :: "(jsstring \<times> 'a) list"
    using that by (induction kvs arbitrary: acc) (auto simp: key_order_put)
  from this [of "[]" ps] have "key_order (obj_of ps)" by (simp add: obj_of_def key_order_def)
  then show ?thesis using key_order_obj_of [of ps] by metis
qed

lemma set_replace_subset: "set (obj_replace k v ps) \<subseteq> insert (k, v) (set ps)"
  by (induction k v ps rule: obj_replace.induct) auto

lemma set_insert_index: "set (obj_insert_index k v ps) = insert (k, v) (set ps)"
  by (induction k v ps rule: obj_insert_index.induct) auto

lemma set_put_subset: "set (obj_put k v ps) \<subseteq> insert (k, v) (set ps)"
  using set_replace_subset [of k v ps] by (simp add: obj_put_def set_insert_index)

lemma key_order_delete: "key_order ps \<Longrightarrow> key_order (obj_delete k ps)"
  unfolding key_order_def obj_delete_def by (induction ps) auto

lemma json_rt_put [simp]:
  "json_rt (JObj ps) \<Longrightarrow> utf16 k \<Longrightarrow> json_rt v \<Longrightarrow> json_rt (JObj (obj_put k v ps))"
  using set_put_subset [of k v ps]
  by (force simp: obj_of_iff key_order_put list_all_iff subset_iff)

lemma json_rt_delete [simp]: "json_rt (JObj ps) \<Longrightarrow> json_rt (JObj (obj_delete k ps))"
  using key_order_delete [of ps k] by (auto simp: obj_of_iff list_all_iff obj_delete_def)

lemma of_char_range: "0 \<le> (of_char c :: int)" "(of_char c :: int) < 256"
  using pos_mod_bound [of 256 "of_char c :: int"] pos_mod_sign [of 256 "of_char c :: int"] by simp_all

lemma utf16_js [simp]: "utf16 (js s)"
  using of_char_range order_less_trans [OF of_char_range(2), of 65536] by (auto simp: utf16_def js_def)

end
