(* ===== verification/StatusRisk.thy ===== *)
theory StatusRisk
  imports StatusCodes Json "HOL-Library.List_Lexorder"
begin

section \<open>Guarding risky status code redirects\<close>

text \<open>
  Models \<^verbatim>\<open>web/default/src/features/channels/lib/status-code-risk-guard.ts\<close>: a channel may
  map upstream status codes to others by a JSON object; redirecting 504 or 524 needs the
  administrator's confirmation.  The default \<open>sort()\<close> of strings compares code units, which is
  the lexicographic order of lists.
\<close>

definition NON_REDIRECTABLE_STATUS_CODES :: "nat list" where
  "NON_REDIRECTABLE_STATUS_CODES = [504, 524]"

text \<open>\<open>/^[1-5]\d{2}$/\<close>\<close>

definition three_digit_code :: "jsstring \<Rightarrow> bool" where
  "three_digit_code s \<longleftrightarrow> length s = 3 \<and> 49 \<le> hd s \<and> hd s \<le> 53 \<and> (\<forall>c\<in>set (tl s). is_digit c)"

definition parseStatusCodeKey :: "jsstring \<Rightarrow> nat option" where
  "parseStatusCodeKey rawKey =
     (let normalized = trim rawKey in
      if \<not> three_digit_code normalized then None else Some (digits_val normalized))"

definition parseStatusCodeMappingTarget :: "jsval \<Rightarrow> nat option" where
  "parseStatusCodeMappingTarget rawValue =
     (case rawValue of
        JNum x \<Rightarrow>
          if snd (quotient_of x) = 1 then
            (if x \<ge> 100 \<and> x \<le> 599 then Some (nat \<lfloor>x\<rfloor>) else None)
          else None
      | JStr s \<Rightarrow>
          let normalized = trim s in
          if \<not> three_digit_code normalized then None
          else let code = digits_val normalized in
               if code \<ge> 100 \<and> code \<le> 599 then Some code else None
      | _ \<Rightarrow> None)"

definition mapping_entries :: "jsstring \<Rightarrow> (jsstring \<times> jsval) list" where
  "mapping_entries str =
     (if trim str = [] then []
      else case json_object (JSON_parse str) of None \<Rightarrow> [] | Some ps \<Rightarrow> ps)"

definition collectInvalidStatusCodeEntries :: "jsstring \<Rightarrow> jsstring list" where
  "collectInvalidStatusCodeEntries str =
     List.map_filter
       (\<lambda>(rawKey, rawValue).
          if parseStatusCodeKey rawKey = None \<or> parseStatusCodeMappingTarget rawValue = None
          then Some (rawKey @ [32, 8594, 32] @ to_str rawValue)
          else None)
       (mapping_entries str)"

definition risky_mapping :: "jsstring \<times> jsval \<Rightarrow> jsstring option" where
  "risky_mapping = (\<lambda>(rawFrom, rawTo).
     case (parseStatusCodeKey rawFrom, parseStatusCodeMappingTarget rawTo) of
       (Some fromCode, Some toCode) \<Rightarrow>
         if fromCode \<notin> set NON_REDIRECTABLE_STATUS_CODES then None
         else if fromCode = toCode then None
         else Some (show_nat fromCode @ js '' -> '' @ show_nat toCode)
     | _ \<Rightarrow> None)"

definition collectDisallowedStatusCodeRedirects :: "jsstring \<Rightarrow> jsstring list" where
  "collectDisallowedStatusCodeRedirects str =
     sort (set_of (List.map_filter risky_mapping (mapping_entries str)))"

definition collectNewDisallowedStatusCodeRedirects :: "jsstring \<Rightarrow> jsstring \<Rightarrow> jsstring list" where
  "collectNewDisallowedStatusCodeRedirects originalStr currentStr =
     (let currentRisky = collectDisallowedStatusCodeRedirects currentStr in
      if length currentRisky = 0 then []
      else let originalRiskySet = set_of (collectDisallowedStatusCodeRedirects originalStr) in
           filter (\<lambda>mapping. mapping \<notin> set originalRiskySet) currentRisky)"

subsection \<open>Lemmas\<close>

lemma three_digit_code_value:
  assumes "three_digit_code s"
  shows "100 \<le> digits_val s \<and> digits_val s \<le> 599"
proof -
  obtain a b c where s: "s = [a, b, c]"
    using assms by (cases s rule: list.exhaust; cases "tl s"; cases "tl (tl s)")
      (auto simp: three_digit_code_def)
  then have "49 \<le> a" "a \<le> 53" "48 \<le> b" "b \<le> 57" "48 \<le> c" "c \<le> 57"
    using assms by (auto simp: three_digit_code_def is_digit_def)
  then have "1 \<le> nat (a - 48)" "nat (a - 48) \<le> 5" "nat (b - 48) \<le> 9" "nat (c - 48) \<le> 9"
    by auto
  then show ?thesis unfolding s digits_val_def foldl.simps by simp
qed

lemma parseStatusCodeKey_bounds: "parseStatusCodeKey k = Some n \<Longrightarrow> 100 \<le> n \<and> n \<le> 599"
  by (auto simp: parseStatusCodeKey_def Let_def three_digit_code_value split: if_splits)

lemma risky_mapping_Some:
  "risky_mapping (k, v) = Some t \<longleftrightarrow>
     (\<exists>f c. parseStatusCodeKey k = Some f \<and> parseStatusCodeMappingTarget v = Some c \<and>
        (f = 504 \<or> f = 524) \<and> c \<noteq> f \<and> t = show_nat f @ js '' -> '' @ show_nat c)"
  by (auto simp: risky_mapping_def NON_REDIRECTABLE_STATUS_CODES_def split: option.splits)

lemma set_disallowed:
  "set (collectDisallowedStatusCodeRedirects str) =
     {t. \<exists>k v. (k, v) \<in> set (mapping_entries str) \<and> risky_mapping (k, v) = Some t}"
  by (auto simp: collectDisallowedStatusCodeRedirects_def map_filter_set)

subsection \<open>Properties\<close>

text \<open>
  The guard reports exactly the redirects of 504 and 524 to a different valid code,
  sorted and without repetition.
\<close>

theorem disallowed_redirects_exact:
  "sorted (collectDisallowedStatusCodeRedirects str) \<and>
   distinct (collectDisallowedStatusCodeRedirects str) \<and>
   set (collectDisallowedStatusCodeRedirects str) =
     {t. \<exists>k v f c. (k, v) \<in> set (mapping_entries str) \<and> parseStatusCodeKey k = Some f \<and>
        parseStatusCodeMappingTarget v = Some c \<and> (f = 504 \<or> f = 524) \<and> c \<noteq> f \<and>
        t = show_nat f @ js '' -> '' @ show_nat c}"
proof (intro conjI)
  show "sorted (collectDisallowedStatusCodeRedirects str)"
    "distinct (collectDisallowedStatusCodeRedirects str)"
    by (simp_all add: collectDisallowedStatusCodeRedirects_def)
qed (unfold set_disallowed risky_mapping_Some, blast)

text \<open>
  Only new risks ask for confirmation: the report is the current risky redirects
  that the saved mapping did not have, so an unchanged mapping asks for nothing, and a risk is
  never lost: each current one is either reported or was there before.
\<close>

theorem new_disallowed_redirects:
  "set (collectNewDisallowedStatusCodeRedirects old new) =
     set (collectDisallowedStatusCodeRedirects new) - set (collectDisallowedStatusCodeRedirects old) \<and>
   collectNewDisallowedStatusCodeRedirects new new = []"
  by (auto simp: collectNewDisallowedStatusCodeRedirects_def Let_def filter_empty_conv)

text \<open>
  An entry is reported as invalid exactly when its key or its target is no status
  code, and every target accepted lies between 100 and 599.
\<close>

theorem invalid_entries_exact:
  "(collectInvalidStatusCodeEntries str = [] \<longleftrightarrow>
     list_all (\<lambda>(k, v). parseStatusCodeKey k \<noteq> None \<and> parseStatusCodeMappingTarget v \<noteq> None)
       (mapping_entries str)) \<and>
   parseStatusCodeMappingTarget v \<in> insert None (Some ` {100..599})"
proof
  have "collectInvalidStatusCodeEntries str = [] \<longleftrightarrow> set (collectInvalidStatusCodeEntries str) = {}"
    by simp
  also have "\<dots> \<longleftrightarrow> list_all (\<lambda>(k, v). parseStatusCodeKey k \<noteq> None \<and> parseStatusCodeMappingTarget v \<noteq> None)
       (mapping_entries str)"
    unfolding collectInvalidStatusCodeEntries_def map_filter_set list_all_iff
    by (fastforce split: if_splits)
  finally show "collectInvalidStatusCodeEntries str = [] \<longleftrightarrow>
     list_all (\<lambda>(k, v). parseStatusCodeKey k \<noteq> None \<and> parseStatusCodeMappingTarget v \<noteq> None)
       (mapping_entries str)" .
  have "parseStatusCodeMappingTarget v = Some n \<Longrightarrow> 100 \<le> n \<and> n \<le> 599" for n
    by (auto simp: parseStatusCodeMappingTarget_def Let_def le_nat_iff le_floor_iff nat_le_iff floor_le_iff
        split: jsval.splits if_splits)
  then show "parseStatusCodeMappingTarget v \<in> insert None (Some ` {100..599})"
    by (cases "parseStatusCodeMappingTarget v") auto
qed

end
