(* ===== verification/ModelMapping.thy ===== *)
theory ModelMapping
  imports Json
begin

section \<open>Model lists and model mappings\<close>

text \<open>
  Models \<^verbatim>\<open>web/default/src/features/channels/lib/model-mapping-validation.ts\<close> and the list
  parsers of \<^verbatim>\<open>channel-utils.ts\<close> and \<^verbatim>\<open>channel-form.ts\<close>.  A channel lists its
  models as comma-separated text and may carry a JSON object that maps requested model names to
  upstream names.

  The four list parsers share one contract, the locale \<open>comma_codec\<close>: a list of clean names
  (non-empty, trimmed, without comma) survives printing and parsing, and parsing yields clean
  names only.  The properties below say what the mapping checks report: exactly the source names
  missing from the list, and exactly the upstream names exposed in it.

  A string argument that may be null or undefined is an \<open>option\<close>; the mapping arguments are
  plain strings as their types say, and the guard \<open>typeof x !== 'string'\<close> is always false.
\<close>

subsection \<open>Comma-separated lists\<close>

definition parseModelsString :: "jsstring \<Rightarrow> jsstring list" where
  "parseModelsString modelsStr =
     (if modelsStr \<noteq> [] then truthy_strs (map trim (split_on 44 modelsStr)) else [])"

definition formatModelsArray :: "jsstring list \<Rightarrow> jsstring" where
  "formatModelsArray models = join [44] (set_of models)"

definition parseModelsList :: "jsstring \<Rightarrow> jsstring list" where
  "parseModelsList models =
     (if models = [] then []
      else filter (\<lambda>m. length m > 0) (map trim (split_on 44 models)))"

definition formatModelsString :: "jsstring list \<Rightarrow> jsstring" where
  "formatModelsString models = join [44] models"

definition formatGroupsString :: "jsstring list \<Rightarrow> jsstring" where
  "formatGroupsString groups = join [44] groups"

definition parseModels :: "jsstring \<Rightarrow> jsstring list" where
  "parseModels models =
     (if models = [] then []
      else filter (\<lambda>m. length m > 0) (map trim (split_on 44 models)))"

definition parseGroups :: "jsstring \<Rightarrow> jsstring list" where
  "parseGroups groups =
     (if groups = [] then []
      else filter (\<lambda>g. length g > 0) (map trim (split_on 44 groups)))"

definition formatModels :: "jsstring list \<Rightarrow> jsstring" where
  "formatModels models = join [44] models"

definition formatGroups :: "jsstring list \<Rightarrow> jsstring" where
  "formatGroups groups = join [44] groups"

definition clean_name :: "jsstring \<Rightarrow> bool" where
  "clean_name s \<longleftrightarrow> s \<noteq> [] \<and> trimmed s \<and> 44 \<notin> set s"

locale comma_codec =
  fixes parse :: "jsstring \<Rightarrow> jsstring list"
  assumes parse_join: "list_all clean_name xs \<Longrightarrow> parse (join [44] xs) = xs"
    and parse_clean: "list_all clean_name (parse s)"
begin

lemma parse_normal: "parse (join [44] (parse s)) = parse s"
  by (rule parse_join) (rule parse_clean)

lemma parse_unique_names: "parse (join [44] (set_of (parse s))) = set_of (parse s)"
  by (rule parse_join) (use parse_clean in \<open>simp add: list_all_iff\<close>)

lemma join_inject:
  assumes "list_all clean_name xs" "list_all clean_name ys" "join [44] xs = join [44] ys"
  shows "xs = ys"
  using assms by (metis parse_join)

lemma parse_surj: "list_all clean_name xs \<longleftrightarrow> (\<exists>s. parse s = xs)"
  using parse_join parse_clean by blast

end

lemma comma_pieces_clean:
  "list_all clean_name (filter (\<lambda>p. p \<noteq> []) (map trim (split_on 44 s)))"
  using split_on_pieces set_trim_subset by (fastforce simp: list_all_iff clean_name_def)

lemma comma_pieces_join:
  assumes "xs \<noteq> []" "list_all clean_name xs"
  shows "filter (\<lambda>p. p \<noteq> []) (map trim (split_on 44 (join [44] xs))) = xs"
proof -
  have "split_on 44 (join [44] xs) = xs"
    using assms by (intro split_join) (auto simp: list_all_iff clean_name_def)
  moreover have "map trim xs = xs"
    using assms(2) by (intro map_idI) (auto simp: list_all_iff clean_name_def trim_trimmed)
  ultimately show ?thesis
    using assms(2) by (auto simp: list_all_iff clean_name_def filter_id_conv)
qed

lemma join_clean_eq_Nil: "list_all clean_name xs \<Longrightarrow> join [44] xs = [] \<longleftrightarrow> xs = []"
  by (cases xs rule: remdups_adj.cases) (auto simp: clean_name_def)

lemma comma_codecI:
  assumes "\<And>s. parse s = (if s = [] then [] else filter (\<lambda>p. p \<noteq> []) (map trim (split_on 44 s)))"
  shows "comma_codec parse"
proof
  fix xs assume "list_all clean_name xs"
  then show "parse (join [44] xs) = xs"
    by (auto simp: assms comma_pieces_join join_clean_eq_Nil)
next
  fix s show "list_all clean_name (parse s)"
    by (simp add: assms comma_pieces_clean)
qed

interpretation models_string: comma_codec parseModelsString
  by (rule comma_codecI) (simp add: parseModelsString_def truthy_strs_def)

interpretation models_list: comma_codec parseModelsList
  by (rule comma_codecI) (simp add: parseModelsList_def)

interpretation form_models: comma_codec parseModels
  by (rule comma_codecI) (simp add: parseModels_def)

interpretation form_groups: comma_codec parseGroups
  by (rule comma_codecI) (simp add: parseGroups_def)

subsection \<open>Reading the mapping\<close>

definition normalizeModelName :: "jsstring \<Rightarrow> jsstring" where
  "normalizeModelName model = trim model"

definition extractMappingSourceModels :: "jsstring \<Rightarrow> jsstring list" where
  "extractMappingSourceModels modelMapping =
     (let trimmed = trim modelMapping in
      if trimmed = [] then []
      else case json_object (JSON_parse trimmed) of
             None \<Rightarrow> []
           | Some parsed \<Rightarrow> set_of (truthy_strs (map trim (map fst parsed))))"

definition string_value :: "jsval \<Rightarrow> jsstring option" where
  "string_value v = (case v of JStr s \<Rightarrow> Some (trim s) | _ \<Rightarrow> None)"

definition extractRedirectModels :: "jsstring \<Rightarrow> jsstring list" where
  "extractRedirectModels modelMapping =
     (let trimmed = trim modelMapping in
      if trimmed = [] then []
      else case json_object (JSON_parse trimmed) of
             None \<Rightarrow> []
           | Some parsed \<Rightarrow>
               set_of (truthy_strs (List.map_filter string_value (map snd parsed))))"

fun lists_differ :: "jsstring list \<Rightarrow> jsstring list \<Rightarrow> bool" where
  "lists_differ (a # as) (b # bs) = (a \<noteq> b \<or> lists_differ as bs)"
| "lists_differ as bs = False"

definition hasModelConfigChanged ::
  "jsstring list \<Rightarrow> jsstring \<Rightarrow> jsstring list \<Rightarrow> jsstring \<Rightarrow> bool" where
  "hasModelConfigChanged currentModels currentModelMapping initialModels initialModelMapping =
     (if length initialModels = 0 \<and> initialModelMapping = [] then True
      else if length currentModels \<noteq> length initialModels then True
      else if lists_differ currentModels initialModels then True
      else trim currentModelMapping \<noteq> trim initialModelMapping)"

definition findMissingModelsInMapping :: "jsstring \<Rightarrow> jsstring list \<Rightarrow> jsstring list" where
  "findMissingModelsInMapping modelMapping currentModels =
     (if modelMapping = [] \<or> trim modelMapping = [] then []
      else case json_object (JSON_parse modelMapping) of
             None \<Rightarrow> []
           | Some parsed \<Rightarrow>
               let modelSet = set_of (map normalizeModelName currentModels) in
               set_of (filter (\<lambda>key. key \<noteq> [] \<and> key \<notin> set modelSet)
                 (map normalizeModelName (map fst parsed))))"

datatype mapping_check = MappingValid | MappingError jsstring

definition validateModelMappingJson :: "jsstring \<Rightarrow> mapping_check" where
  "validateModelMappingJson modelMapping =
     (if modelMapping = [] \<or> trim modelMapping = [] then MappingValid
      else case JSON_parse modelMapping of
             None \<Rightarrow> MappingError (js ''Model mapping must be valid JSON format'')
           | Some v \<Rightarrow>
               (case json_object (Some v) of
                  None \<Rightarrow> MappingError (js ''Model mapping must be a valid JSON object'')
                | Some parsed \<Rightarrow>
                    if list_ex (\<lambda>w. string_value w = None) (map snd parsed)
                    then MappingError (js ''Model mapping values must be strings'')
                    else MappingValid))"

definition findExposedTargetModels :: "jsstring \<Rightarrow> jsstring list \<Rightarrow> jsstring list" where
  "findExposedTargetModels modelMapping currentModels =
     (let redirectModels = extractRedirectModels modelMapping in
      if length redirectModels = 0 then []
      else let modelSet = set_of (map normalizeModelName currentModels) in
           filter (\<lambda>model. normalizeModelName model \<in> set modelSet) redirectModels)"

record model_categories =
  normalizedCurrentModels :: "jsstring list"
  normalizedRedirectModels :: "jsstring list"
  classificationSet :: "jsstring list"
  redirectOnlySet :: "jsstring list"

definition categorizeModelsWithRedirect :: "jsstring list \<Rightarrow> jsstring list \<Rightarrow> model_categories" where
  "categorizeModelsWithRedirect currentModels redirectModels =
     (let cur = set_of (truthy_strs (map normalizeModelName currentModels));
          red = set_of (truthy_strs (map normalizeModelName redirectModels))
      in \<lparr>normalizedCurrentModels = cur,
          normalizedRedirectModels = red,
          classificationSet = set_of (cur @ red),
          redirectOnlySet = set_of (filter (\<lambda>m. m \<notin> set cur) red)\<rparr>)"

subsection \<open>Lemmas\<close>

lemma set_truthy_strs [simp]: "set (truthy_strs ps) = {p \<in> set ps. p \<noteq> []}"
  by (simp add: truthy_strs_def)

lemma lists_differ_iff: "length as = length bs \<Longrightarrow> lists_differ as bs \<longleftrightarrow> as \<noteq> bs"
  by (induction as bs rule: list_induct2) auto

lemma string_value_Some: "string_value v = Some t \<longleftrightarrow> (\<exists>s. v = JStr s \<and> t = trim s)"
  by (auto simp: string_value_def split: jsval.splits)

lemma set_extractRedirectModels:
  "set (extractRedirectModels m) =
     {t. t \<noteq> [] \<and> (\<exists>ps k s. json_object (JSON_parse (trim m)) = Some ps \<and> (k, JStr s) \<in> set ps \<and>
       t = trim s)}"
proof (cases "trim m = []")
  case True
  have "JSON_parse [] = None" by code_simp
  with True show ?thesis by (simp add: extractRedirectModels_def json_object_def)
next
  case False
  show ?thesis
  proof (cases "json_object (JSON_parse (trim m))")
    case None
    with False show ?thesis by (simp add: extractRedirectModels_def)
  next
    case (Some ps)
    with False show ?thesis
      by (force simp: extractRedirectModels_def Let_def map_filter_set string_value_Some)
  qed
qed

lemma redirect_models_trimmed: "t \<in> set (extractRedirectModels m) \<Longrightarrow> trim t = t"
  by (auto simp: set_extractRedirectModels)

lemma set_findExposed:
  "set (findExposedTargetModels m models) =
     {t \<in> set (extractRedirectModels m). t \<in> normalizeModelName ` set models}"
  by (auto simp: findExposedTargetModels_def Let_def normalizeModelName_def redirect_models_trimmed)

lemma set_findMissing:
  "set (findMissingModelsInMapping m models) =
     {t. t \<noteq> [] \<and> t \<notin> normalizeModelName ` set models \<and> trim m \<noteq> [] \<and>
       (\<exists>ps k v. json_object (JSON_parse m) = Some ps \<and> (k, v) \<in> set ps \<and> t = trim k)}"
  by (force simp: findMissingModelsInMapping_def Let_def normalizeModelName_def
      split: option.splits)

subsection \<open>Properties\<close>

text \<open>
  A list of clean model names survives the form: printing it (with duplicates
  removed) and parsing the text again gives the list without its duplicates.
\<close>

theorem models_text_roundtrip:
  assumes "list_all clean_name models"
  shows "parseModelsString (formatModelsArray models) = set_of models"
  unfolding formatModelsArray_def
  by (rule models_string.parse_join) (use assms in \<open>simp add: list_all_iff\<close>)

theorem models_text_roundtrip_witness:
  "parseModelsString (formatModelsArray [js ''gpt-4'', js ''o1'', js ''gpt-4'']) =
     [js ''gpt-4'', js ''o1'']"
proof -
  have c: "list_all clean_name [js ''gpt-4'', js ''o1'', js ''gpt-4'']" by code_simp
  have "set_of [js ''gpt-4'', js ''o1'', js ''gpt-4''] = [js ''gpt-4'', js ''o1'']" by code_simp
  with models_text_roundtrip [OF c] show ?thesis by simp
qed

text \<open>
  The four list parsers agree on every text, return clean names only, and parsing is
  idempotent through the printers that the form uses.
\<close>

theorem list_parsers_agree:
  "parseModelsString s = parseModelsList s \<and> parseModelsList s = parseModels s \<and>
   parseModels s = parseGroups s \<and>
   list_all clean_name (parseModels s) \<and>
   parseModels (formatModels (parseModels s)) = parseModels s \<and>
   parseModelsList (formatModelsString (parseModelsList s)) = parseModelsList s \<and>
   parseGroups (formatGroups (parseGroups s)) = parseGroups s"
proof (intro conjI)
  show "parseModels (formatModels (parseModels s)) = parseModels s"
    unfolding formatModels_def by (rule form_models.parse_normal)
  show "parseModelsList (formatModelsString (parseModelsList s)) = parseModelsList s"
    unfolding formatModelsString_def by (rule models_list.parse_normal)
  show "parseGroups (formatGroups (parseGroups s)) = parseGroups s"
    unfolding formatGroups_def by (rule form_groups.parse_normal)
qed (simp_all add: parseModelsString_def parseModelsList_def parseModels_def parseGroups_def
    truthy_strs_def comma_pieces_clean)

text \<open>
  Missing models: the check reports, without repetition, exactly the trimmed and
  non-empty source names of the mapping that the model list lacks; once they are appended to
  the list the check reports nothing.
\<close>

theorem missing_models_exact:
  "distinct (findMissingModelsInMapping m models) \<and>
   set (findMissingModelsInMapping m models) =
     {t. t \<noteq> [] \<and> t \<notin> normalizeModelName ` set models \<and> trim m \<noteq> [] \<and>
       (\<exists>ps k v. json_object (JSON_parse m) = Some ps \<and> (k, v) \<in> set ps \<and> t = trim k)} \<and>
   findMissingModelsInMapping m (models @ findMissingModelsInMapping m models) = []"
proof -
  have d: "distinct (findMissingModelsInMapping m models)"
    by (auto simp: findMissingModelsInMapping_def Let_def split: option.splits)
  have "t \<notin> set (findMissingModelsInMapping m (models @ findMissingModelsInMapping m models))" for t
  proof
    assume t: "t \<in> set (findMissingModelsInMapping m (models @ findMissingModelsInMapping m models))"
    then have "t \<in> set (findMissingModelsInMapping m models)" and "normalizeModelName t = t"
      unfolding set_findMissing by (auto simp: normalizeModelName_def)
    then have "t \<in> normalizeModelName ` set (models @ findMissingModelsInMapping m models)" by force
    then show False using t unfolding set_findMissing by blast
  qed
  then have "findMissingModelsInMapping m (models @ findMissingModelsInMapping m models) = []"
    by (metis list.set_intros(1) neq_Nil_conv)
  then show ?thesis using d set_findMissing [of m models] by blast
qed

text \<open>
  Exposed targets: the check reports exactly the upstream names of the mapping that
  also appear (up to blanks) in the model list; removing them from the list leaves nothing to
  report.
\<close>

theorem exposed_targets_exact:
  "set (findExposedTargetModels m models) =
     {t \<in> set (extractRedirectModels m). t \<in> normalizeModelName ` set models} \<and>
   findExposedTargetModels m
     (filter (\<lambda>x. normalizeModelName x \<notin> set (findExposedTargetModels m models)) models) = []"
proof -
  have "set (findExposedTargetModels m
     (filter (\<lambda>x. normalizeModelName x \<notin> set (findExposedTargetModels m models)) models)) = {}"
    unfolding set_findExposed by auto
  then have "findExposedTargetModels m
     (filter (\<lambda>x. normalizeModelName x \<notin> set (findExposedTargetModels m models)) models) = []"
    by (simp only: set_empty)
  then show ?thesis using set_findExposed by blast
qed

text \<open>
  Change detection: for a channel being edited the configuration counts as unchanged
  exactly when the model lists are equal and the mappings are equal up to surrounding blanks;
  for a new channel it always counts as changed.
\<close>

theorem model_config_changed_iff:
  "\<not> hasModelConfigChanged cm cmap im imap \<longleftrightarrow>
     \<not> (im = [] \<and> imap = []) \<and> cm = im \<and> trim cmap = trim imap"
  by (auto simp: hasModelConfigChanged_def lists_differ_iff)

text \<open>
  Categories: the classification set is the union of the current and the redirect
  names, the redirect-only set is the redirect names that are not current, all four sets are
  without duplicates or empty names.
\<close>

theorem categories_partition:
  "let c = categorizeModelsWithRedirect cur red in
     set (classificationSet c) = set (normalizedCurrentModels c) \<union> set (normalizedRedirectModels c) \<and>
     set (normalizedRedirectModels c) - set (normalizedCurrentModels c) = set (redirectOnlySet c) \<and>
     set (normalizedCurrentModels c) = normalizeModelName ` set cur - {[]} \<and>
     distinct (classificationSet c) \<and> distinct (redirectOnlySet c) \<and> [] \<notin> set (classificationSet c)"
  by (auto simp: categorizeModelsWithRedirect_def Let_def)

end
