(* ===== verification/ThinkTags.thy ===== *)
theory ThinkTags
  imports JsPrelude
begin

section \<open>Separating reasoning from visible text\<close>

text \<open>
  Models \<open>parseThinkTags\<close> of \<^verbatim>\<open>web/default/src/features/playground/lib/message-utils.ts\<close>:
  the loop over \<open>indexOf\<close> that cuts a reply into the text outside and the text inside
  \<open><think>\<close> and \<open></think>\<close>.  The loop is a function with a termination proof: each round
  moves the position past a closing tag.

  The specification is a grammar: a reply is visible text, followed by any number of complete
  thought blocks each followed by visible text, and perhaps one thought that is still open.
  \<open>think_decomposition\<close> shows that every reply has this shape, \<open>think_loop_render\<close> that the loop
  finds its parts.
\<close>

definition OPEN_TAG :: jsstring where
  "OPEN_TAG = js ''<think>''"

definition CLOSE_TAG :: jsstring where
  "CLOSE_TAG = js ''</think>''"

record think_result =
  visibleContent :: jsstring
  think_reasoning :: jsstring
  hasUnclosedTag :: bool

lemma index_of_bounds:
  "index_of s p i = Some k \<Longrightarrow> i \<le> length s \<Longrightarrow> i \<le> k \<and> k + length p \<le> length s"
  using find_sub_Some [of p "drop i s"] by (auto simp: index_of_def)

lemma tag_lengths [simp]: "length OPEN_TAG = 7" "length CLOSE_TAG = 8"
  by (simp_all add: OPEN_TAG_def CLOSE_TAG_def)

lemma think_progress:
  assumes "index_of s OPEN_TAG pos = Some o1" "index_of s CLOSE_TAG (o1 + 7) = Some c1"
  shows "length s - (c1 + 8) < length s - pos"
proof -
  have "drop pos s \<noteq> []"
  proof
    assume "drop pos s = []"
    then have "find_sub OPEN_TAG (drop pos s) = None" by (simp add: OPEN_TAG_def)
    with assms(1) show False by (simp add: index_of_def)
  qed
  then have p: "pos < length s" by (simp add: not_le)
  then have "pos \<le> o1 \<and> o1 + 7 \<le> length s"
    using index_of_bounds [OF assms(1)] by simp
  moreover from this have "o1 + 7 \<le> c1"
    using index_of_bounds [OF assms(2)] by simp
  ultimately show ?thesis using p by arith
qed

function think_loop ::
  "jsstring \<Rightarrow> nat \<Rightarrow> jsstring list \<Rightarrow> jsstring list \<Rightarrow> jsstring list \<times> jsstring list \<times> bool" where
  "think_loop content currentPos visibleParts reasoningParts =
     (case index_of content OPEN_TAG currentPos of
        None \<Rightarrow>
          (if currentPos < length content then visibleParts @ [drop currentPos content]
           else visibleParts, reasoningParts, False)
      | Some openPos \<Rightarrow>
          let visibleParts' =
                (if openPos > currentPos then visibleParts @ [substring content currentPos openPos]
                 else visibleParts)
          in case index_of content CLOSE_TAG (openPos + 7) of
               None \<Rightarrow> (visibleParts', reasoningParts @ [drop (openPos + 7) content], True)
             | Some closePos \<Rightarrow>
                 think_loop content (closePos + 8) visibleParts'
                   (reasoningParts @ [substring content (openPos + 7) closePos]))"
  by pat_completeness auto
termination
  by (relation "measure (\<lambda>(content, pos, vis, rea). length content - pos)")
    (auto dest: think_progress)

declare think_loop.simps [simp del]

definition parseThinkTags :: "jsstring \<Rightarrow> think_result" where
  "parseThinkTags content =
     (if \<not> str_includes content OPEN_TAG then
        \<lparr>visibleContent = content, think_reasoning = [], hasUnclosedTag = False\<rparr>
      else
        (case think_loop content 0 [] [] of
           (visibleParts, reasoningParts, hasUnclosed) \<Rightarrow>
             \<lparr>visibleContent = trim (join [] visibleParts),
              think_reasoning = trim (join [10, 10] reasoningParts),
              hasUnclosedTag = hasUnclosed\<rparr>))"

subsection \<open>The grammar of replies\<close>

definition think_render :: "jsstring \<Rightarrow> (jsstring \<times> jsstring) list \<Rightarrow> jsstring option \<Rightarrow> jsstring" where
  "think_render v blocks tail =
     v @ concat (map (\<lambda>(r, w). OPEN_TAG @ r @ CLOSE_TAG @ w) blocks) @
     (case tail of None \<Rightarrow> [] | Some r \<Rightarrow> OPEN_TAG @ r)"

definition think_wf :: "jsstring \<Rightarrow> (jsstring \<times> jsstring) list \<Rightarrow> jsstring option \<Rightarrow> bool" where
  "think_wf v blocks tail \<longleftrightarrow>
     \<not> str_includes v OPEN_TAG \<and>
     (\<forall>(r, w)\<in>set blocks. \<not> str_includes r CLOSE_TAG \<and> \<not> str_includes w OPEN_TAG) \<and>
     (case tail of None \<Rightarrow> True | Some r \<Rightarrow> \<not> str_includes r CLOSE_TAG)"

lemma border_free_tags: "border_free OPEN_TAG" "border_free CLOSE_TAG"
  by code_simp+

lemma join_Nil: "join [] ps = concat ps"
  by (induction "[] :: 'a list" ps rule: join.induct) auto

lemma find_open:
  "\<not> str_includes v OPEN_TAG \<Longrightarrow> find_sub OPEN_TAG (v @ OPEN_TAG @ t) = Some (length v)"
  by (rule border_free_first) (simp_all add: border_free_tags str_includes_def)

lemma find_close:
  "\<not> str_includes r CLOSE_TAG \<Longrightarrow> find_sub CLOSE_TAG (r @ CLOSE_TAG @ t) = Some (length r)"
  by (rule border_free_first) (simp_all add: border_free_tags str_includes_def)

lemma index_of_append: "index_of (u @ s) p (length u) = map_option (\<lambda>k. length u + k) (find_sub p s)"
  by (simp add: index_of_def)

text \<open>The loop, started behind a prefix, finds the parts of the reply that follows it.\<close>

lemma think_loop_render:
  assumes "think_wf v blocks tail"
  shows "\<exists>vs. think_loop (u @ think_render v blocks tail) (length u) vis rea =
    (vis @ vs, rea @ map fst blocks @ (case tail of None \<Rightarrow> [] | Some r \<Rightarrow> [r]), tail \<noteq> None) \<and>
    concat vs = concat (v # map snd blocks)"
  using assms
proof (induction blocks arbitrary: u v vis rea)
  case Nil
  show ?case
  proof (cases tail)
    case None
    have "find_sub OPEN_TAG v = None"
      using Nil by (simp add: think_wf_def str_includes_def)
    then show ?thesis
      using None
      by (subst think_loop.simps) (auto simp: think_render_def index_of_append)
  next
    case (Some r)
    have o: "index_of (u @ v @ OPEN_TAG @ r) OPEN_TAG (length u) = Some (length u + length v)"
      using find_open [of v r] Nil by (simp add: think_wf_def index_of_append)
    have "find_sub CLOSE_TAG r = None"
      using Nil Some by (simp add: think_wf_def str_includes_def)
    then have c: "index_of (u @ v @ OPEN_TAG @ r) CLOSE_TAG (length u + length v + 7) = None"
      by (simp add: index_of_def)
    have "think_render v [] tail = v @ OPEN_TAG @ r" by (simp add: think_render_def Some)
    then show ?thesis
      by (subst think_loop.simps) (auto simp: o c Some substring_def Let_def)
  qed
next
  case (Cons b blocks)
  obtain r w where b: "b = (r, w)" by (cases b)
  let ?rest = "think_render w blocks tail"
  define X where "X = u @ v @ OPEN_TAG @ r @ CLOSE_TAG @ ?rest"
  have wf: "think_wf w blocks tail" "\<not> str_includes v OPEN_TAG" "\<not> str_includes r CLOSE_TAG"
    using Cons.prems b by (auto simp: think_wf_def)
  have eq: "u @ think_render v (b # blocks) tail = X"
    by (simp add: think_render_def b X_def)
  have o: "index_of X OPEN_TAG (length u) = Some (length u + length v)"
    using find_open [OF wf(2), of "r @ CLOSE_TAG @ ?rest"] by (simp add: index_of_append X_def)
  have "index_of ((u @ v @ OPEN_TAG) @ r @ CLOSE_TAG @ ?rest) CLOSE_TAG (length (u @ v @ OPEN_TAG)) =
      Some (length (u @ v @ OPEN_TAG) + length r)"
    using find_close [OF wf(3), of ?rest] by (simp only: index_of_append) simp
  then have c: "index_of X CLOSE_TAG (length u + length v + 7) =
      Some (length u + length v + 7 + length r)"
    by (simp add: add.assoc X_def)
  have sub: "substring X (length u) (length u + length v) = v"
    "substring X (length u + length v + 7) (length u + length v + 7 + length r) = r"
    by (simp_all add: substring_def X_def)
  let ?vis = "if v \<noteq> [] then vis @ [v] else vis"
  let ?tl = "map fst blocks @ (case tail of None \<Rightarrow> [] | Some r \<Rightarrow> [r])"
  have step: "think_loop X (length u) vis rea =
      think_loop X (length u + length v + 7 + length r + 8) ?vis (rea @ [r])"
    by (subst think_loop.simps) (simp add: o c sub)
  obtain vs where vs: "think_loop X (length u + length v + 7 + length r + 8) ?vis (rea @ [r]) =
      (?vis @ vs, (rea @ [r]) @ ?tl, tail \<noteq> None)"
      and cvs: "concat vs = concat (w # map snd blocks)"
    using Cons.IH [OF wf(1), of "u @ v @ OPEN_TAG @ r @ CLOSE_TAG" ?vis "rea @ [r]"]
    by (auto simp: X_def add.assoc)
  have "think_loop X (length u) vis rea =
      (vis @ ((if v \<noteq> [] then [v] else []) @ vs), rea @ map fst (b # blocks) @
        (case tail of None \<Rightarrow> [] | Some r \<Rightarrow> [r]), tail \<noteq> None)"
    unfolding step vs by (simp add: b)
  moreover have "concat ((if v \<noteq> [] then [v] else []) @ vs) = concat (v # map snd (b # blocks))"
    using cvs by (simp add: b)
  ultimately show ?case unfolding eq by blast
qed

text \<open>Every reply is generated by the grammar.\<close>

lemma find_sub_before: "find_sub p s = Some k \<Longrightarrow> border_free p \<Longrightarrow> find_sub p (take k s) = None"
proof (rule ccontr)
  assume k: "find_sub p s = Some k" and bf: "border_free p" and "find_sub p (take k s) \<noteq> None"
  then obtain j where j: "find_sub p (take k s) = Some j" by auto
  have jl: "j + length p \<le> length (take k s)" "take (length p) (drop j (take k s)) = p"
    using find_sub_Some [OF j] by auto
  have "length p \<le> k - j" using jl(1) by (simp, arith)
  then have "take (length p) (drop j s) = p"
    using jl(2) by (simp add: drop_take min.absorb1)
  then have "prefix p (drop j s)" by (metis take_is_prefix)
  moreover have "0 < length p" using bf by (simp add: border_free_def)
  then have "j < k" using \<open>length p \<le> k - j\<close> by arith
  ultimately show False using find_sub_least [OF k] by blast
qed

lemma think_decomposition: "\<exists>v blocks tail. think_wf v blocks tail \<and> s = think_render v blocks tail"
proof (induction s rule: length_induct)
  case (1 s)
  show ?case
  proof (cases "find_sub OPEN_TAG s")
    case None
    then have "think_wf s [] None" "s = think_render s [] None"
      by (simp_all add: think_wf_def think_render_def str_includes_def)
    then show ?thesis by blast
  next
    case (Some o1)
    let ?v = "take o1 s" and ?t = "drop (o1 + 7) s"
    have s: "s = ?v @ OPEN_TAG @ ?t" using find_sub_Some_split [OF Some] by simp
    have v: "\<not> str_includes ?v OPEN_TAG"
      using find_sub_before [OF Some] border_free_tags by (simp add: str_includes_def)
    show ?thesis
    proof (cases "find_sub CLOSE_TAG ?t")
      case None
      then have "think_wf ?v [] (Some ?t)" using v by (simp add: think_wf_def str_includes_def)
      moreover have "s = think_render ?v [] (Some ?t)" using s by (simp add: think_render_def)
      ultimately show ?thesis by blast
    next
      case c: (Some c1)
      let ?r = "take c1 ?t" and ?s = "drop (c1 + 8) ?t"
      have t: "?t = ?r @ CLOSE_TAG @ ?s" using find_sub_Some_split [OF c] by simp
      have r: "\<not> str_includes ?r CLOSE_TAG"
        using find_sub_before [OF c] border_free_tags by (simp add: str_includes_def)
      have "o1 + 7 \<le> length s" using find_sub_Some [OF Some] by simp
      then have "length ?s < length s" unfolding length_drop by arith
      then obtain w blocks tail where w: "think_wf w blocks tail" "?s = think_render w blocks tail"
        using 1 by blast
      have "think_wf ?v ((?r, w) # blocks) tail" using v r w(1) by (auto simp: think_wf_def)
      moreover have "s = ?v @ OPEN_TAG @ ?r @ CLOSE_TAG @ ?s" using s t by metis
      then have "s = think_render ?v ((?r, w) # blocks) tail"
        unfolding w(2) by (simp add: think_render_def)
      ultimately show ?thesis by blast
    qed
  qed
qed

lemma think_render_includes:
  "think_wf v blocks tail \<Longrightarrow>
   str_includes (think_render v blocks tail) OPEN_TAG \<longleftrightarrow> blocks \<noteq> [] \<or> tail \<noteq> None"
proof -
  assume wf: "think_wf v blocks tail"
  have "str_includes (v @ OPEN_TAG @ t) OPEN_TAG" for t by (auto simp: str_includes_iff)
  then show ?thesis
    using wf by (cases blocks; cases tail) (auto simp: think_render_def think_wf_def)
qed

subsection \<open>Properties\<close>

text \<open>
  \<open>parseThinkTags\<close> implements the grammar: for a reply made of visible text,
  complete thought blocks and perhaps an open thought, the visible content is the text outside
  the tags and the reasoning is the thoughts joined by blank lines, both trimmed, and the flag
  says whether a thought is still open; a reply without a tag is returned untouched.
\<close>

theorem parseThinkTags_grammar:
  assumes "think_wf v blocks tail"
  shows "parseThinkTags (think_render v blocks tail) =
    (if blocks = [] \<and> tail = None
     then \<lparr>visibleContent = v, think_reasoning = [], hasUnclosedTag = False\<rparr>
     else \<lparr>visibleContent = trim (concat (v # map snd blocks)),
           think_reasoning =
             trim (join [10, 10] (map fst blocks @ (case tail of None \<Rightarrow> [] | Some r \<Rightarrow> [r]))),
           hasUnclosedTag = (tail \<noteq> None)\<rparr>)"
proof (cases "blocks = [] \<and> tail = None")
  case True
  then show ?thesis
    using assms think_render_includes [OF assms]
    by (simp add: parseThinkTags_def) (simp add: think_render_def)
next
  case False
  obtain vs where "think_loop (think_render v blocks tail) 0 [] [] =
      (vs, map fst blocks @ (case tail of None \<Rightarrow> [] | Some r \<Rightarrow> [r]), tail \<noteq> None)"
    "concat vs = concat (v # map snd blocks)"
    using think_loop_render [OF assms, of "[]" "[]" "[]"] by auto
  then show ?thesis
    using False think_render_includes [OF assms] by (auto simp: parseThinkTags_def join_Nil)
qed

theorem parseThinkTags_grammar_witness:
  "parseThinkTags (js ''Hi <think>a</think> there'') =
     \<lparr>visibleContent = js ''Hi  there'', think_reasoning = js ''a'', hasUnclosedTag = False\<rparr>"
proof -
  have wf: "think_wf (js ''Hi '') [(js ''a'', js '' there'')] None" by code_simp
  have r: "think_render (js ''Hi '') [(js ''a'', js '' there'')] None = js ''Hi <think>a</think> there''"
    by code_simp
  have t: "trim (concat (js ''Hi '' # map snd [(js ''a'', js '' there'')])) = js ''Hi  there''"
    "trim (join [10, 10] (map fst [(js ''a'', js '' there'')] @ (case None of None \<Rightarrow> [] | Some r \<Rightarrow> [r]))) =
      js ''a''"
    by code_simp+
  show ?thesis using parseThinkTags_grammar [OF wf] unfolding r t by simp
qed

text \<open>
  The grammar covers everything: every reply has such a decomposition, so the
  previous property determines the result of \<open>parseThinkTags\<close> on every input.
\<close>

theorem every_reply_decomposes:
  "\<exists>v blocks tail. think_wf v blocks tail \<and> content = think_render v blocks tail \<and>
     (hasUnclosedTag (parseThinkTags content) \<longleftrightarrow> tail \<noteq> None)"
proof -
  obtain v blocks tail where wf: "think_wf v blocks tail" and s: "content = think_render v blocks tail"
    using think_decomposition by blast
  obtain vs where "think_loop content 0 [] [] =
      (vs, map fst blocks @ (case tail of None \<Rightarrow> [] | Some r \<Rightarrow> [r]), tail \<noteq> None)"
    using think_loop_render [OF wf, of "[]" "[]" "[]"] s by auto
  then have "hasUnclosedTag (parseThinkTags content) \<longleftrightarrow> tail \<noteq> None"
    using think_render_includes [OF wf] s by (auto simp: parseThinkTags_def)
  then show ?thesis using wf s by blast
qed

end
