(* ===== verification/Playground.thy ===== *)
theory Playground
  imports ThinkTags Json
begin

section \<open>Playground messages and the streaming chat\<close>

text \<open>
  Models, under \<^verbatim>\<open>web/default/src/features/playground\<close>, the message types
  (\<^verbatim>\<open>types.ts\<close>), the pure message operations (\<^verbatim>\<open>lib/message-utils.ts\<close>), the payload
  builder (\<^verbatim>\<open>lib/payload-builder.ts\<close>), the chat handlers (\<^verbatim>\<open>hooks/use-chat-handler.ts\<close>)
  and the event source client (\<^verbatim>\<open>hooks/use-stream-request.ts\<close>).

  React state is passed explicitly: every handler is a function from the old message list, or
  from the record \<open>chat_state\<close> of messages and refs, to the new one.  Identifiers from
  \<open>nanoid\<close> are arguments.  Toasts and console output are left out.  The event source library
  is the environment: it delivers \<open>sse_event\<close>s, and the step relation \<open>chat_step\<close> only relies
  on its not delivering message events once the source is closed.
\<close>

subsection \<open>Messages\<close>

datatype MessageRole = RoleUser | RoleAssistant | RoleSystem

datatype MessageStatus = StatusLoading | StatusStreaming | StatusComplete | StatusError

record MessageVersion =
  ver_id :: "jsstring option"
  ver_content :: jsstring

record Reasoning =
  rs_content :: jsstring
  rs_duration :: rat

record Message =
  msg_key :: jsstring
  msg_from :: MessageRole
  msg_versions :: "MessageVersion list"
  msg_sources :: "(jsstring \<times> jsstring) list option"
  msg_reasoning :: "Reasoning option"
  msg_isReasoningStreaming :: "bool option"
  msg_isReasoningComplete :: "bool option"
  msg_isContentComplete :: "bool option"
  msg_status :: "MessageStatus option"
  msg_errorCode :: "jsval option"

definition API_REQUEST_ERROR :: jsstring where
  "API_REQUEST_ERROR = js ''Request error occurred''"

definition PARSE_ERROR :: jsstring where
  "PARSE_ERROR = js ''Error parsing response data''"

definition STREAM_START_ERROR :: jsstring where
  "STREAM_START_ERROR = js ''Error establishing connection''"

definition CONNECTION_CLOSED :: jsstring where
  "CONNECTION_CLOSED = js ''Connection closed''"

definition INTERRUPTED :: jsstring where
  "INTERRUPTED = js ''Generation was interrupted''"

definition createMessageVersion :: "jsstring \<Rightarrow> jsstring \<Rightarrow> MessageVersion" where
  "createMessageVersion nano content = \<lparr>ver_id = Some nano, ver_content = content\<rparr>"

definition getCurrentVersion :: "Message \<Rightarrow> MessageVersion" where
  "getCurrentVersion message =
     (case msg_versions message of
        v # _ \<Rightarrow> v
      | [] \<Rightarrow> \<lparr>ver_id = Some (js ''default''), ver_content = []\<rparr>)"

definition updateCurrentVersionContent :: "Message \<Rightarrow> jsstring \<Rightarrow> Message" where
  "updateCurrentVersionContent message content =
     message\<lparr>msg_versions := [(getCurrentVersion message)\<lparr>ver_content := content\<rparr>]\<rparr>"

definition createUserMessage :: "jsstring \<Rightarrow> jsstring \<Rightarrow> jsstring \<Rightarrow> Message" where
  "createUserMessage k nano content =
     \<lparr>msg_key = k, msg_from = RoleUser, msg_versions = [createMessageVersion nano content],
      msg_sources = None, msg_reasoning = None, msg_isReasoningStreaming = None,
      msg_isReasoningComplete = None, msg_isContentComplete = None, msg_status = None,
      msg_errorCode = None\<rparr>"

definition createLoadingAssistantMessage :: "jsstring \<Rightarrow> jsstring \<Rightarrow> Message" where
  "createLoadingAssistantMessage k nano =
     \<lparr>msg_key = k, msg_from = RoleAssistant, msg_versions = [createMessageVersion nano []],
      msg_sources = None, msg_reasoning = None, msg_isReasoningStreaming = Some False,
      msg_isReasoningComplete = Some False, msg_isContentComplete = Some False,
      msg_status = Some StatusLoading, msg_errorCode = None\<rparr>"

datatype ContentPart = TextPart jsstring | ImagePart jsstring
datatype MessageContent = PlainContent jsstring | PartsContent "ContentPart list"

definition buildMessageContent :: "jsstring \<Rightarrow> jsstring list \<Rightarrow> MessageContent" where
  "buildMessageContent text imageUrls =
     (let validImages = filter (\<lambda>url. trim url \<noteq> []) imageUrls in
      if length validImages = 0 then PlainContent text
      else PartsContent (TextPart text # map (\<lambda>url. ImagePart (trim url)) validImages))"

definition getTextContent :: "MessageContent \<Rightarrow> jsstring" where
  "getTextContent content =
     (case content of
        PlainContent s \<Rightarrow> s
      | PartsContent parts \<Rightarrow>
          (case List.find (\<lambda>p. case p of TextPart _ \<Rightarrow> True | ImagePart _ \<Rightarrow> False) parts of
             Some (TextPart s) \<Rightarrow> s
           | _ \<Rightarrow> []))"

record ChatCompletionMessage =
  api_role :: MessageRole
  api_content :: MessageContent

definition formatMessageForAPI :: "Message \<Rightarrow> ChatCompletionMessage" where
  "formatMessageForAPI message =
     \<lparr>api_role = msg_from message,
      api_content = PlainContent (ver_content (getCurrentVersion message))\<rparr>"

definition isValidMessage :: "Message \<Rightarrow> bool" where
  "isValidMessage message =
     (case msg_versions message of
        [] \<Rightarrow> False
      | v # _ \<Rightarrow> \<not> (msg_from message = RoleAssistant \<and> trim (ver_content v) = []))"

definition updateLastAssistantMessage :: "Message list \<Rightarrow> (Message \<Rightarrow> Message) \<Rightarrow> Message list" where
  "updateLastAssistantMessage messages updater =
     (if length messages = 0 then messages
      else if msg_from (last messages) \<noteq> RoleAssistant then messages
      else butlast messages @ [updater (last messages)])"

definition error_message :: "jsstring \<Rightarrow> jsstring" where
  "error_message errorMessage = API_REQUEST_ERROR @ js '': '' @ errorMessage"

definition updateAssistantMessageWithError ::
  "Message list \<Rightarrow> jsstring \<Rightarrow> jsval option \<Rightarrow> Message list" where
  "updateAssistantMessageWithError messages errorMessage errorCode =
     updateLastAssistantMessage messages (\<lambda>message.
       (updateCurrentVersionContent message (error_message errorMessage))
         \<lparr>msg_status := Some StatusError, msg_isReasoningStreaming := Some False,
          msg_errorCode := (if truthy_opt errorCode then errorCode else None)\<rparr>)"

definition processStreamingContent :: "Message \<Rightarrow> jsstring option \<Rightarrow> Message" where
  "processStreamingContent message contentChunk =
     (let currentVersion = getCurrentVersion message;
          fullContent = (case contentChunk of
                           Some chunk \<Rightarrow> ver_content currentVersion @ chunk
                         | None \<Rightarrow> ver_content currentVersion);
          parsed = parseThinkTags fullContent;
          finalReasoning =
            (if think_reasoning parsed \<noteq> []
             then Some \<lparr>rs_content = think_reasoning parsed, rs_duration = 0\<rparr>
             else msg_reasoning message)
      in (updateCurrentVersionContent message fullContent)
           \<lparr>msg_reasoning := finalReasoning,
            msg_isReasoningStreaming := Some (hasUnclosedTag parsed)\<rparr>)"

text \<open>The first non-empty string of a chain of \<open>||\<close>.\<close>

fun first_nonempty :: "jsstring list \<Rightarrow> jsstring" where
  "first_nonempty [] = []"
| "first_nonempty (s # ss) = (if s \<noteq> [] then s else first_nonempty ss)"

definition reasoning_text :: "Message \<Rightarrow> jsstring" where
  "reasoning_text message = (case msg_reasoning message of None \<Rightarrow> [] | Some r \<Rightarrow> rs_content r)"

definition finalizeMessage :: "Message \<Rightarrow> jsstring option \<Rightarrow> Message" where
  "finalizeMessage message apiReasoningContent =
     (let parsed = parseThinkTags (ver_content (getCurrentVersion message));
          finalReasoning =
            first_nonempty [(case apiReasoningContent of None \<Rightarrow> [] | Some s \<Rightarrow> s),
              reasoning_text message, think_reasoning parsed]
      in (updateCurrentVersionContent message (visibleContent parsed))
           \<lparr>msg_reasoning :=
              (if finalReasoning \<noteq> []
               then Some \<lparr>rs_content = finalReasoning,
                      rs_duration = (case msg_reasoning message of
                                       None \<Rightarrow> 0 | Some r \<Rightarrow> rs_duration r)\<rparr>
               else None),
            msg_isReasoningStreaming := Some False\<rparr>)"

definition is_stuck :: "Message \<Rightarrow> bool" where
  "is_stuck m \<longleftrightarrow> msg_from m = RoleAssistant \<and>
     (msg_status m = Some StatusLoading \<or> msg_status m = Some StatusStreaming)"

text \<open>The loop of \<open>sanitizeMessagesOnLoad\<close> from the end: the index of the last stuck message.\<close>

fun last_stuck :: "Message list \<Rightarrow> nat \<Rightarrow> nat option" where
  "last_stuck messages 0 = None"
| "last_stuck messages (Suc i) =
     (if is_stuck (messages ! i) then Some i else last_stuck messages i)"

definition sanitize_message :: "Message \<Rightarrow> Message" where
  "sanitize_message m =
     (let finalized = finalizeMessage m None;
          hasContent = trim (ver_content (getCurrentVersion finalized)) \<noteq> [];
          hasReasoning = trim (reasoning_text finalized) \<noteq> []
      in if hasContent \<or> hasReasoning
         then finalized\<lparr>msg_status := Some StatusComplete, msg_isReasoningStreaming := Some False\<rparr>
         else (updateCurrentVersionContent finalized (error_message INTERRUPTED))
                \<lparr>msg_status := Some StatusError, msg_isReasoningStreaming := Some False\<rparr>)"

definition sanitizeMessagesOnLoad :: "Message list \<Rightarrow> Message list" where
  "sanitizeMessagesOnLoad messages =
     (case last_stuck messages (length messages) of
        None \<Rightarrow> messages
      | Some targetIndex \<Rightarrow> messages[targetIndex := sanitize_message (messages ! targetIndex)])"

subsection \<open>The request payload\<close>

record PlaygroundConfig =
  cfg_model :: jsstring
  cfg_group :: jsstring
  cfg_temperature :: "rat option"
  cfg_top_p :: "rat option"
  cfg_max_tokens :: "rat option"
  cfg_frequency_penalty :: "rat option"
  cfg_presence_penalty :: "rat option"
  cfg_seed :: "rat option"
  cfg_stream :: bool

record ParameterEnabled =
  en_temperature :: bool
  en_top_p :: bool
  en_max_tokens :: bool
  en_frequency_penalty :: bool
  en_presence_penalty :: bool
  en_seed :: bool

record ChatCompletionRequest =
  req_model :: jsstring
  req_group :: jsstring
  req_messages :: "ChatCompletionMessage list"
  req_stream :: bool
  req_temperature :: "rat option"
  req_top_p :: "rat option"
  req_max_tokens :: "rat option"
  req_frequency_penalty :: "rat option"
  req_presence_penalty :: "rat option"
  req_seed :: "rat option"

definition enabled_param :: "bool \<Rightarrow> rat option \<Rightarrow> rat option" where
  "enabled_param en v = (if en then v else None)"

definition buildChatCompletionPayload ::
  "Message list \<Rightarrow> PlaygroundConfig \<Rightarrow> ParameterEnabled \<Rightarrow> ChatCompletionRequest" where
  "buildChatCompletionPayload messages config pe =
     \<lparr>req_model = cfg_model config,
      req_group = cfg_group config,
      req_messages = map formatMessageForAPI (filter isValidMessage messages),
      req_stream = cfg_stream config,
      req_temperature = enabled_param (en_temperature pe) (cfg_temperature config),
      req_top_p = enabled_param (en_top_p pe) (cfg_top_p config),
      req_max_tokens = enabled_param (en_max_tokens pe) (cfg_max_tokens config),
      req_frequency_penalty = enabled_param (en_frequency_penalty pe) (cfg_frequency_penalty config),
      req_presence_penalty = enabled_param (en_presence_penalty pe) (cfg_presence_penalty config),
      req_seed = enabled_param (en_seed pe) (cfg_seed config)\<rparr>"

subsection \<open>Chat handlers\<close>

datatype update_type = UpdateReasoning | UpdateContent

definition stream_update_message :: "update_type \<Rightarrow> jsstring \<Rightarrow> Message \<Rightarrow> Message" where
  "stream_update_message ty chunk message =
     (if msg_status message = Some StatusError then message
      else case ty of
             UpdateReasoning \<Rightarrow>
               message\<lparr>msg_reasoning :=
                   Some \<lparr>rs_content = reasoning_text message @ chunk, rs_duration = 0\<rparr>,
                 msg_isReasoningStreaming := Some True, msg_status := Some StatusStreaming\<rparr>
           | UpdateContent \<Rightarrow>
               (processStreamingContent message (Some chunk))\<lparr>msg_status := Some StatusStreaming\<rparr>)"

definition handleStreamUpdate :: "update_type \<Rightarrow> jsstring \<Rightarrow> Message list \<Rightarrow> Message list" where
  "handleStreamUpdate ty chunk prev =
     updateLastAssistantMessage prev (stream_update_message ty chunk)"

definition stream_complete_message :: "Message \<Rightarrow> Message" where
  "stream_complete_message message =
     (if msg_status message = Some StatusComplete \<or> msg_status message = Some StatusError
      then message
      else (finalizeMessage message None)\<lparr>msg_status := Some StatusComplete\<rparr>)"

definition handleStreamComplete :: "Message list \<Rightarrow> Message list" where
  "handleStreamComplete prev = updateLastAssistantMessage prev stream_complete_message"

definition handleStreamError :: "jsstring \<Rightarrow> jsval option \<Rightarrow> Message list \<Rightarrow> Message list" where
  "handleStreamError err errorCode prev = updateAssistantMessageWithError prev err errorCode"

definition stop_message :: "Message \<Rightarrow> Message" where
  "stop_message message =
     (if msg_status message = Some StatusLoading \<or> msg_status message = Some StatusStreaming
      then (finalizeMessage message None)\<lparr>msg_status := Some StatusComplete\<rparr>
      else message)"

text \<open>The outcome of the non-streaming request: a choice, no choice, or a failure.\<close>

datatype completion_outcome =
    OutcomeChoice "jsstring option" "jsstring option"
  | OutcomeNoChoice
  | OutcomeFailure "jsstring option" "jsstring option" "jsval option"

definition nonstream_message :: "jsstring option \<Rightarrow> jsstring option \<Rightarrow> Message \<Rightarrow> Message" where
  "nonstream_message content reasoning message =
     (finalizeMessage
        (message\<lparr>msg_versions :=
           [\<lparr>ver_id = (case msg_versions message of [] \<Rightarrow> None | v # _ \<Rightarrow> ver_id v),
             ver_content = (case content of None \<Rightarrow> [] | Some s \<Rightarrow> s)\<rparr>]\<rparr>)
        reasoning)\<lparr>msg_status := Some StatusComplete\<rparr>"

definition sendNonStreamingChat :: "completion_outcome \<Rightarrow> Message list \<Rightarrow> Message list" where
  "sendNonStreamingChat outcome prev =
     (case outcome of
        OutcomeNoChoice \<Rightarrow> prev
      | OutcomeChoice content reasoning \<Rightarrow>
          updateLastAssistantMessage prev (nonstream_message content reasoning)
      | OutcomeFailure dataMessage errMessage code \<Rightarrow>
          handleStreamError
            (first_nonempty [(case dataMessage of None \<Rightarrow> [] | Some s \<Rightarrow> s),
               (case errMessage of None \<Rightarrow> [] | Some s \<Rightarrow> s), API_REQUEST_ERROR])
            code prev)"

end
