(* ===== verification/Machine.thy ===== *)
theory Machine
  imports Main
begin

section \<open>Reachable states of a program driven by events\<close>

text \<open>
  Several components are state machines: user actions, network events and timers call a handler
  that replaces the state.  Such a component is a predicate \<open>init\<close> on its states and a step
  relation \<open>step s e s'\<close> on states and events.  The locale \<open>machine_invariant\<close> is the
  interface: whoever provides a machine shows that its invariant holds at first and that every
  step keeps it, and gets the invariant of every reachable state and of every run.
\<close>

inductive reachable :: "('s \<Rightarrow> bool) \<Rightarrow> ('s \<Rightarrow> 'e \<Rightarrow> 's \<Rightarrow> bool) \<Rightarrow> 's \<Rightarrow> bool"
  for init step where
  start: "init s \<Longrightarrow> reachable init step s"
| event: "reachable init step s \<Longrightarrow> step s e s' \<Longrightarrow> reachable init step s'"

inductive run :: "('s \<Rightarrow> 'e \<Rightarrow> 's \<Rightarrow> bool) \<Rightarrow> 's \<Rightarrow> 'e list \<Rightarrow> 's \<Rightarrow> bool" for step where
  run_Nil: "run step s [] s"
| run_Cons: "step s e s' \<Longrightarrow> run step s' es s'' \<Longrightarrow> run step s (e # es) s''"

inductive_cases run_NilE: "run step s [] s'"
inductive_cases run_ConsE: "run step s (e # es) s'"

lemma reachable_run: "run step s es s' \<Longrightarrow> reachable init step s \<Longrightarrow> reachable init step s'"
  by (induction rule: run.induct) (auto intro: reachable.event)

lemma run_append: "run step s es s' \<Longrightarrow> run step s' fs s'' \<Longrightarrow> run step s (es @ fs) s''"
  by (induction rule: run.induct) (auto intro: run.intros)

lemma reachable_iff_run:
  "reachable init step s' \<longleftrightarrow> (\<exists>s es. init s \<and> run step s es s')"
proof
  show "reachable init step s' \<Longrightarrow> \<exists>s es. init s \<and> run step s es s'"
  proof (induction rule: reachable.induct)
    case (start s)
    then show ?case by (blast intro: run_Nil)
  next
    case (event s e s')
    then show ?case by (meson run_Cons run_Nil run_append)
  qed
next
  show "\<exists>s es. init s \<and> run step s es s' \<Longrightarrow> reachable init step s'"
    by (blast intro: reachable.start reachable_run)
qed

locale machine_invariant =
  fixes init :: "'s \<Rightarrow> bool" and step :: "'s \<Rightarrow> 'e \<Rightarrow> 's \<Rightarrow> bool" and inv :: "'s \<Rightarrow> bool"
  assumes init_inv: "init s \<Longrightarrow> inv s"
    and step_inv: "inv s \<Longrightarrow> step s e s' \<Longrightarrow> inv s'"
begin

lemma reachable_inv: "reachable init step s \<Longrightarrow> inv s"
  by (induction rule: reachable.induct) (auto intro: init_inv step_inv)

lemma run_inv: "run step s es s' \<Longrightarrow> inv s \<Longrightarrow> inv s'"
  by (induction rule: run.induct) (auto intro: step_inv)

lemma reachable_step_inv: "reachable init step s \<Longrightarrow> step s e s' \<Longrightarrow> inv s'"
  by (blast intro: reachable_inv step_inv)

end

end
