(* ===== verification/ChatMachine.thy ===== *)
theory ChatMachine
  imports Playground Machine
begin

section \<open>The streaming chat as a state machine\<close>

text \<open>
  Models \<^verbatim>\<open>hooks/use-stream-request.ts\<close>, the streaming half of
  \<^verbatim>\<open>hooks/use-chat-handler.ts\<close> and the conversation handlers of \<^verbatim>\<open>index.tsx\<close> of the
  playground.  The state holds the messages, whether \<open>sseSourceRef\<close> holds a source, and
  \<open>isStreamCompleteRef\<close>.  The event source library is the environment: message events come
  only while the source is open, error and ready state events at any time, also after the
  source was closed.  The input and the message actions are disabled while a stream is open,
  which is the guard of the user's steps (an edit that was opened before the stream started and
  is saved while it runs is left out).
\<close>

subsection \<open>Reading the data of an event\<close>

text \<open>Index access \<open>v?.[0]\<close>, on an array, an object or a string.\<close>

definition js_first :: "jsval \<Rightarrow> jsval option" where
  "js_first v =
     (case v of
        JArr (x # _) \<Rightarrow> Some x
      | JObj ps \<Rightarrow> obj_get ps (js ''0'')
      | JStr (c # _) \<Rightarrow> Some (JStr [c])
      | _ \<Rightarrow> None)"

definition chunk_delta :: "jsval \<Rightarrow> jsval option" where
  "chunk_delta chunk =
     Option.bind (js_prop chunk (js ''choices'')) (\<lambda>choices.
     Option.bind (js_first choices) (\<lambda>choice. js_prop choice (js ''delta'')))"

definition delta_updates :: "jsval option \<Rightarrow> (update_type \<times> jsstring) list" where
  "delta_updates delta =
     (case delta of
        None \<Rightarrow> []
      | Some d \<Rightarrow>
          (case js_prop d (js ''reasoning_content'') of
             Some r \<Rightarrow> if truthy r then [(UpdateReasoning, to_str r)] else []
           | None \<Rightarrow> []) @
          (case js_prop d (js ''content'') of
             Some c \<Rightarrow> if truthy c then [(UpdateContent, to_str c)] else []
           | None \<Rightarrow> []))"

text \<open>The body of the \<open>try\<close>: \<open>None\<close> when the text is no JSON or reading a property of
  \<open>null\<close> throws.\<close>

definition chunk_updates :: "jsstring \<Rightarrow> (update_type \<times> jsstring) list option" where
  "chunk_updates data =
     (case JSON_parse data of
        None \<Rightarrow> None
      | Some JNull \<Rightarrow> None
      | Some chunk \<Rightarrow> Some (delta_updates (chunk_delta chunk)))"

definition error_details :: "jsstring option \<Rightarrow> jsstring \<times> jsval option" where
  "error_details data =
     (case data of
        None \<Rightarrow> (API_REQUEST_ERROR, None)
      | Some d \<Rightarrow>
          if d = [] then (API_REQUEST_ERROR, None)
          else case Option.bind (JSON_parse d) (\<lambda>parsed. js_prop parsed (js ''error'')) of
                 Some err \<Rightarrow>
                   if truthy err
                   then ((case js_prop err (js ''message'') of
                            Some m \<Rightarrow> if truthy m then to_str m else d
                          | None \<Rightarrow> d),
                         (if truthy_opt (js_prop err (js ''code''))
                          then js_prop err (js ''code'') else None))
                   else (d, None)
               | None \<Rightarrow> (d, None))"

subsection \<open>State and handlers\<close>

record chat_state =
  cs_messages :: "Message list"
  cs_source :: bool
  cs_complete :: bool

definition closeSource :: "chat_state \<Rightarrow> chat_state" where
  "closeSource st = st\<lparr>cs_source := False\<rparr>"

definition handleError :: "jsstring \<Rightarrow> jsval option \<Rightarrow> chat_state \<Rightarrow> chat_state" where
  "handleError errorMessage errorCode st =
     (if \<not> cs_complete st
      then closeSource (st\<lparr>cs_messages := handleStreamError errorMessage errorCode (cs_messages st)\<rparr>)
      else st)"

definition apply_update :: "update_type \<times> jsstring \<Rightarrow> chat_state \<Rightarrow> chat_state" where
  "apply_update u st =
     st\<lparr>cs_messages := handleStreamUpdate (fst u) (snd u) (cs_messages st)\<rparr>"

definition DONE_DATA :: jsstring where
  "DONE_DATA = js ''[DONE]''"

definition on_message :: "jsstring \<Rightarrow> chat_state \<Rightarrow> chat_state" where
  "on_message data st =
     (if data = DONE_DATA
      then (closeSource (st\<lparr>cs_complete := True\<rparr>))
             \<lparr>cs_messages := handleStreamComplete (cs_messages st)\<rparr>
      else case chunk_updates data of
             Some us \<Rightarrow> fold apply_update us st
           | None \<Rightarrow> handleError PARSE_ERROR None st)"

definition on_error :: "nat \<Rightarrow> jsstring option \<Rightarrow> chat_state \<Rightarrow> chat_state" where
  "on_error readyState data st =
     (if readyState \<noteq> 2
      then handleError (fst (error_details data)) (snd (error_details data)) st
      else st)"

definition on_readystatechange :: "nat option \<Rightarrow> nat option \<Rightarrow> chat_state \<Rightarrow> chat_state" where
  "on_readystatechange readyState status st =
     (case (readyState, status) of
        (Some r, Some c) \<Rightarrow>
          if 2 \<le> r \<and> c \<noteq> 200
          then handleError (js ''HTTP '' @ show_nat c @ js '': '' @ CONNECTION_CLOSED) None st
          else st
      | _ \<Rightarrow> st)"

text \<open>\<open>sendStreamRequest\<close> on the messages already shown; \<open>started\<close> tells whether
  \<open>source.stream()\<close> returned without throwing.\<close>

definition sendStreamRequest :: "bool \<Rightarrow> chat_state \<Rightarrow> chat_state" where
  "sendStreamRequest started st =
     (let st' = st\<lparr>cs_source := True, cs_complete := False\<rparr> in
      if started then st'
      else st'\<lparr>cs_messages := handleStreamError STREAM_START_ERROR None (cs_messages st'),
               cs_source := False\<rparr>)"

definition stopStream :: "chat_state \<Rightarrow> chat_state" where
  "stopStream st = (if cs_source st then st\<lparr>cs_source := False\<rparr> else st)"

definition stopGeneration :: "chat_state \<Rightarrow> chat_state" where
  "stopGeneration st =
     (let st' = stopStream st in
      st'\<lparr>cs_messages := updateLastAssistantMessage (cs_messages st') stop_message\<rparr>)"

definition handleSendMessage ::
  "jsstring \<times> jsstring \<Rightarrow> jsstring \<times> jsstring \<Rightarrow> jsstring \<Rightarrow> bool \<Rightarrow> chat_state \<Rightarrow> chat_state" where
  "handleSendMessage uid aid text started st =
     sendStreamRequest started
       (st\<lparr>cs_messages := cs_messages st @
             [createUserMessage (fst uid) (snd uid) text,
              createLoadingAssistantMessage (fst aid) (snd aid)]\<rparr>)"

fun findIndex :: "('a \<Rightarrow> bool) \<Rightarrow> 'a list \<Rightarrow> nat option" where
  "findIndex P [] = None"
| "findIndex P (x # xs) = (if P x then Some 0 else map_option Suc (findIndex P xs))"

definition handleRegenerateMessage ::
  "jsstring \<times> jsstring \<Rightarrow> jsstring \<Rightarrow> bool \<Rightarrow> chat_state \<Rightarrow> chat_state" where
  "handleRegenerateMessage aid key started st =
     (case findIndex (\<lambda>m. msg_key m = key) (cs_messages st) of
        None \<Rightarrow> st
      | Some messageIndex \<Rightarrow>
          sendStreamRequest started
            (st\<lparr>cs_messages := take messageIndex (cs_messages st) @
                  [createLoadingAssistantMessage (fst aid) (snd aid)]\<rparr>))"

definition edit_message :: "jsstring \<Rightarrow> jsstring \<Rightarrow> Message \<Rightarrow> Message" where
  "edit_message key newContent m =
     (if msg_key m = key
      then m\<lparr>msg_versions :=
               [\<lparr>ver_id = (case msg_versions m of [] \<Rightarrow> None | v # _ \<Rightarrow> ver_id v),
                 ver_content = newContent\<rparr>]\<rparr>
      else m)"

definition applyEdit ::
  "jsstring \<times> jsstring \<Rightarrow> jsstring \<Rightarrow> jsstring \<Rightarrow> bool \<Rightarrow> bool \<Rightarrow> chat_state \<Rightarrow> chat_state" where
  "applyEdit aid key newContent submit started st =
     (if key = [] then st
      else case findIndex (\<lambda>m. msg_key m = key) (cs_messages st) of
        None \<Rightarrow> st
      | Some index \<Rightarrow>
          let updated = map (edit_message key newContent) (cs_messages st) in
          if \<not> submit \<or> msg_from (updated ! index) \<noteq> RoleUser
          then st\<lparr>cs_messages := updated\<rparr>
          else sendStreamRequest started
                 (st\<lparr>cs_messages := take (index + 1) updated @
                       [createLoadingAssistantMessage (fst aid) (snd aid)]\<rparr>))"

definition handleDeleteMessage :: "jsstring \<Rightarrow> chat_state \<Rightarrow> chat_state" where
  "handleDeleteMessage key st =
     st\<lparr>cs_messages := filter (\<lambda>m. msg_key m \<noteq> key) (cs_messages st)\<rparr>"

text \<open>Leaving the page and loading it again: the saved messages are sanitised.\<close>

definition reload :: "chat_state \<Rightarrow> chat_state" where
  "reload st =
     \<lparr>cs_messages = sanitizeMessagesOnLoad (cs_messages st), cs_source = False, cs_complete = False\<rparr>"

subsection \<open>Steps\<close>

datatype chat_event =
    SendMessage "jsstring \<times> jsstring" "jsstring \<times> jsstring" jsstring bool
  | Regenerate "jsstring \<times> jsstring" jsstring bool
  | ApplyEdit "jsstring \<times> jsstring" jsstring jsstring bool bool
  | DeleteMessage jsstring
  | SseMessage jsstring
  | SseError nat "jsstring option"
  | SseReadyState "nat option" "nat option"
  | StopGeneration
  | Reload

inductive chat_step :: "chat_state \<Rightarrow> chat_event \<Rightarrow> chat_state \<Rightarrow> bool" where
  send: "\<not> cs_source st \<Longrightarrow>
    chat_step st (SendMessage uid aid text ok) (handleSendMessage uid aid text ok st)"
| regenerate: "\<not> cs_source st \<Longrightarrow>
    chat_step st (Regenerate aid key ok) (handleRegenerateMessage aid key ok st)"
| edit: "\<not> cs_source st \<Longrightarrow>
    chat_step st (ApplyEdit aid key content submit ok) (applyEdit aid key content submit ok st)"
| delete: "\<not> cs_source st \<Longrightarrow> chat_step st (DeleteMessage key) (handleDeleteMessage key st)"
| message: "cs_source st \<Longrightarrow> chat_step st (SseMessage data) (on_message data st)"
| error: "chat_step st (SseError ready data) (on_error ready data st)"
| ready: "chat_step st (SseReadyState ready status) (on_readystatechange ready status st)"
| stop: "cs_source st \<Longrightarrow> chat_step st StopGeneration (stopGeneration st)"
| reload: "chat_step st Reload (reload st)"

inductive_simps chat_step_simps [simp]:
  "chat_step st (SendMessage uid aid text ok) st'"
  "chat_step st (Regenerate aid key ok) st'"
  "chat_step st (ApplyEdit aid key content submit ok) st'"
  "chat_step st (DeleteMessage key) st'"
  "chat_step st (SseMessage data) st'"
  "chat_step st (SseError r data) st'"
  "chat_step st (SseReadyState rs status) st'"
  "chat_step st StopGeneration st'"
  "chat_step st Reload st'"

inductive_cases chat_stepE: "chat_step st e st'"

definition chat_init :: "chat_state \<Rightarrow> bool" where
  "chat_init st \<longleftrightarrow> st = \<lparr>cs_messages = [], cs_source = False, cs_complete = False\<rparr>"

text \<open>The invariant: only the last message can be in progress, and only while a stream is open.\<close>

definition chat_inv :: "chat_state \<Rightarrow> bool" where
  "chat_inv st \<longleftrightarrow>
     (\<forall>m \<in> set (butlast (cs_messages st)). \<not> is_stuck m) \<and>
     (cs_source st \<longrightarrow> \<not> cs_complete st \<and> cs_messages st \<noteq> [] \<and> is_stuck (last (cs_messages st))) \<and>
     (\<not> cs_source st \<longrightarrow> cs_messages st = [] \<or> \<not> is_stuck (last (cs_messages st)))"


subsection \<open>The invariant holds\<close>

lemma ula_Nil_iff [simp]: "updateLastAssistantMessage ms f = [] \<longleftrightarrow> ms = []"
  by (simp add: updateLastAssistantMessage_def)

lemma butlast_ula [simp]: "butlast (updateLastAssistantMessage ms f) = butlast ms"
  by (simp add: updateLastAssistantMessage_def)

lemma length_ula [simp]: "length (updateLastAssistantMessage ms f) = length ms"
  by (simp add: updateLastAssistantMessage_def)

lemma last_ula:
  "ms \<noteq> [] \<Longrightarrow> last (updateLastAssistantMessage ms f) =
     (if msg_from (last ms) = RoleAssistant then f (last ms) else last ms)"
  by (simp add: updateLastAssistantMessage_def)

lemma from_updateCurrentVersionContent [simp]:
  "msg_from (updateCurrentVersionContent m c) = msg_from m"
  "msg_status (updateCurrentVersionContent m c) = msg_status m"
  by (simp_all add: updateCurrentVersionContent_def)

lemma from_finalizeMessage [simp]:
  "msg_from (finalizeMessage m r) = msg_from m"
  "msg_status (finalizeMessage m r) = msg_status m"
  by (simp_all add: finalizeMessage_def Let_def)

lemma from_processStreamingContent [simp]:
  "msg_from (processStreamingContent m c) = msg_from m"
  by (simp add: processStreamingContent_def Let_def)

lemma not_stuck_not_assistant: "msg_from m \<noteq> RoleAssistant \<Longrightarrow> \<not> is_stuck m"
  by (simp add: is_stuck_def)

lemma stuck_assistant: "is_stuck m \<Longrightarrow> msg_from m = RoleAssistant"
  by (simp add: is_stuck_def)

lemma stuck_loading [simp]: "is_stuck (createLoadingAssistantMessage k n)"
  by (simp add: is_stuck_def createLoadingAssistantMessage_def)

lemma not_stuck_user [simp]: "\<not> is_stuck (createUserMessage k n c)"
  by (simp add: is_stuck_def createUserMessage_def)

lemma stuck_stream_update: "is_stuck m \<Longrightarrow> is_stuck (stream_update_message ty chunk m)"
  by (cases ty) (auto simp: is_stuck_def stream_update_message_def)

lemma not_stuck_complete: "\<not> is_stuck (stream_complete_message m)"
  by (auto simp: is_stuck_def stream_complete_message_def)

lemma not_stuck_stop: "\<not> is_stuck (stop_message m)"
  by (auto simp: is_stuck_def stop_message_def)

lemma not_stuck_sanitized: "\<not> is_stuck (sanitize_message m)"
  by (auto simp: is_stuck_def sanitize_message_def Let_def)

lemma stuck_edit [simp]: "is_stuck (edit_message key c m) \<longleftrightarrow> is_stuck m"
  by (simp add: is_stuck_def edit_message_def)

lemma handleStreamError_last:
  "ms \<noteq> [] \<Longrightarrow> \<not> is_stuck (last (handleStreamError e c ms))"
  by (auto simp: handleStreamError_def updateAssistantMessageWithError_def last_ula is_stuck_def)

lemma handleStreamError_shape [simp]:
  "butlast (handleStreamError e c ms) = butlast ms"
  "handleStreamError e c ms = [] \<longleftrightarrow> ms = []"
  by (simp_all add: handleStreamError_def updateAssistantMessageWithError_def)

text \<open>All messages are at rest: the invariant of a state with no open stream.\<close>

definition at_rest :: "Message list \<Rightarrow> bool" where
  "at_rest ms \<longleftrightarrow> (\<forall>m\<in>set ms. \<not> is_stuck m)"

definition tail_busy :: "Message list \<Rightarrow> bool" where
  "tail_busy ms \<longleftrightarrow> ms \<noteq> [] \<and> at_rest (butlast ms) \<and> is_stuck (last ms)"

lemma at_rest_butlast: "ms \<noteq> [] \<Longrightarrow> at_rest ms \<longleftrightarrow> at_rest (butlast ms) \<and> \<not> is_stuck (last ms)"
  unfolding at_rest_def by (cases ms rule: rev_cases) auto

lemma at_rest_Nil [simp]: "at_rest []"
  by (simp add: at_rest_def)

lemma chat_inv_cases:
  "chat_inv st \<longleftrightarrow> (if cs_source st then \<not> cs_complete st \<and> tail_busy (cs_messages st)
                   else at_rest (cs_messages st))"
  unfolding chat_inv_def tail_busy_def at_rest_def
  by (cases "cs_messages st" rule: rev_cases) auto

lemma tail_busy_update: "tail_busy ms \<Longrightarrow> tail_busy (handleStreamUpdate ty chunk ms)"
  by (auto simp: tail_busy_def handleStreamUpdate_def last_ula stuck_stream_update)

lemma rest_of_ula:
  "tail_busy ms \<Longrightarrow> (\<And>m. \<not> is_stuck (f m)) \<Longrightarrow> at_rest (updateLastAssistantMessage ms f)"
  using stuck_assistant by (subst at_rest_butlast) (auto simp: tail_busy_def last_ula)

lemma rest_of_error:
  assumes "tail_busy ms \<or> at_rest ms"
  shows "at_rest (handleStreamError e c ms)"
proof (cases "ms = []")
  case False
  with assms have "at_rest (butlast ms)" by (auto simp: tail_busy_def at_rest_butlast)
  with False show ?thesis by (simp add: at_rest_butlast handleStreamError_last)
qed (simp add: handleStreamError_def updateAssistantMessageWithError_def
       updateLastAssistantMessage_def)

lemma tail_busy_snoc: "at_rest ms \<Longrightarrow> tail_busy (ms @ [createLoadingAssistantMessage k n])"
  by (simp add: tail_busy_def at_rest_def)

lemma handleError_inv: "chat_inv st \<Longrightarrow> chat_inv (handleError e c st)"
  by (auto simp: chat_inv_cases handleError_def closeSource_def rest_of_error split: if_splits)

lemma apply_update_inv: "chat_inv st \<Longrightarrow> cs_source st \<Longrightarrow> chat_inv (apply_update u st)"
  by (simp add: chat_inv_cases apply_update_def tail_busy_update)

lemma apply_updates_inv:
  "chat_inv st \<Longrightarrow> cs_source st \<Longrightarrow>
     chat_inv (fold apply_update us st) \<and> cs_source (fold apply_update us st)"
proof (induction us arbitrary: st)
  case (Cons u us)
  have "cs_source (apply_update u st)" using Cons.prems by (simp add: apply_update_def)
  then show ?case using Cons by (simp add: apply_update_inv)
qed simp

lemma on_message_inv: "chat_inv st \<Longrightarrow> cs_source st \<Longrightarrow> chat_inv (on_message data st)"
  by (auto simp: on_message_def apply_updates_inv handleError_inv split: option.splits)
    (auto simp: chat_inv_cases closeSource_def handleStreamComplete_def rest_of_ula
       not_stuck_complete)

lemma sendStreamRequest_inv:
  "at_rest ms \<Longrightarrow>
   chat_inv (sendStreamRequest ok (st\<lparr>cs_messages := ms @ [createLoadingAssistantMessage k n]\<rparr>))"
  by (cases ok) (simp_all add: sendStreamRequest_def Let_def chat_inv_cases tail_busy_snoc rest_of_error)

lemma at_rest_take: "at_rest ms \<Longrightarrow> at_rest (take i ms)"
  by (auto simp: at_rest_def dest: in_set_takeD)

lemma at_rest_edit: "at_rest ms \<Longrightarrow> at_rest (map (edit_message key c) ms)"
  by (simp add: at_rest_def)

lemma last_stuck_Some:
  "last_stuck ms n = Some i \<Longrightarrow> i < n \<and> is_stuck (ms ! i) \<and> (\<forall>j. i < j \<and> j < n \<longrightarrow> \<not> is_stuck (ms ! j))"
  by (induction n) (auto simp: less_Suc_eq split: if_splits)

lemma last_stuck_None: "last_stuck ms n = None \<longleftrightarrow> (\<forall>j<n. \<not> is_stuck (ms ! j))"
  by (induction n) (auto simp: less_Suc_eq)

lemma sanitize_at_rest: "at_rest ms \<Longrightarrow> sanitizeMessagesOnLoad ms = ms"
proof -
  assume "at_rest ms"
  then have "last_stuck ms (length ms) = None"
    by (simp add: last_stuck_None at_rest_def)
  then show ?thesis by (simp add: sanitizeMessagesOnLoad_def)
qed

lemma sanitize_tail_busy:
  assumes "tail_busy ms"
  shows "sanitizeMessagesOnLoad ms = butlast ms @ [sanitize_message (last ms)]"
proof (cases ms rule: rev_cases)
  case (snoc ys y)
  with assms have "is_stuck y" by (simp add: tail_busy_def)
  with snoc show ?thesis by (simp add: sanitizeMessagesOnLoad_def)
qed (use assms in \<open>simp add: tail_busy_def\<close>)

lemma reload_at_rest:
  "chat_inv st \<Longrightarrow> at_rest (sanitizeMessagesOnLoad (cs_messages st))"
  by (auto simp: chat_inv_cases sanitize_at_rest sanitize_tail_busy at_rest_butlast
        not_stuck_sanitized split: if_splits) (simp add: tail_busy_def)

lemma on_error_inv: "chat_inv st \<Longrightarrow> chat_inv (on_error r d st)"
  by (simp add: on_error_def handleError_inv)

lemma on_readystatechange_inv: "chat_inv st \<Longrightarrow> chat_inv (on_readystatechange r c st)"
  by (simp add: on_readystatechange_def handleError_inv split: option.splits)

lemma stopGeneration_inv: "chat_inv st \<Longrightarrow> cs_source st \<Longrightarrow> chat_inv (stopGeneration st)"
  by (simp add: stopGeneration_def stopStream_def chat_inv_cases rest_of_ula not_stuck_stop)

lemma rest_inv: "\<not> cs_source st \<Longrightarrow> chat_inv st \<longleftrightarrow> at_rest (cs_messages st)"
  by (simp add: chat_inv_cases)

lemma handleSendMessage_inv:
  assumes "chat_inv st" "\<not> cs_source st"
  shows "chat_inv (handleSendMessage uid aid text ok st)"
proof -
  from assms have "at_rest (cs_messages st @ [createUserMessage (fst uid) (snd uid) text])"
    by (simp add: chat_inv_cases at_rest_def)
  from sendStreamRequest_inv [OF this, where ok = ok and st = st and k = "fst aid" and n = "snd aid"]
  show ?thesis by (simp add: handleSendMessage_def)
qed

lemma handleRegenerateMessage_inv:
  "chat_inv st \<Longrightarrow> \<not> cs_source st \<Longrightarrow> chat_inv (handleRegenerateMessage aid key ok st)"
  by (auto simp: handleRegenerateMessage_def rest_inv sendStreamRequest_inv at_rest_take
        split: option.splits)

lemma applyEdit_inv:
  "chat_inv st \<Longrightarrow> \<not> cs_source st \<Longrightarrow> chat_inv (applyEdit aid key c submit ok st)"
  by (auto simp: applyEdit_def Let_def rest_inv sendStreamRequest_inv at_rest_take at_rest_edit
        split: option.splits)

lemma handleDeleteMessage_inv:
  "chat_inv st \<Longrightarrow> \<not> cs_source st \<Longrightarrow> chat_inv (handleDeleteMessage key st)"
  by (simp add: handleDeleteMessage_def rest_inv at_rest_def)

lemma reload_inv: "chat_inv st \<Longrightarrow> chat_inv (reload st)"
  by (simp add: rest_inv reload_def reload_at_rest)

lemmas chat_handler_invs =
  handleSendMessage_inv handleRegenerateMessage_inv applyEdit_inv handleDeleteMessage_inv
  on_message_inv on_error_inv on_readystatechange_inv stopGeneration_inv reload_inv

lemma chat_step_inv: "chat_inv st \<Longrightarrow> chat_step st e st' \<Longrightarrow> chat_inv st'"
  by (erule chat_stepE) (simp_all add: chat_handler_invs)

interpretation chat: machine_invariant chat_init chat_step chat_inv
proof
  show "chat_init s \<Longrightarrow> chat_inv s" for s by (simp add: chat_init_def chat_inv_cases)
qed (rule chat_step_inv)

lemma chat_inv_stuck:
  "chat_inv st \<Longrightarrow>
     (if cs_source st then \<exists>ms m. cs_messages st = ms @ [m] \<and> is_stuck m \<and> filter is_stuck ms = []
      else filter is_stuck (cs_messages st) = [])"
  by (auto simp: chat_inv_cases tail_busy_def at_rest_def filter_empty_conv split: if_splits)
    (metis append_butlast_last_id)

subsection \<open>What a stream leaves in the message\<close>

definition stream_updates :: "(update_type \<times> jsstring) list \<Rightarrow> Message \<Rightarrow> Message" where
  "stream_updates us m = fold (\<lambda>u. stream_update_message (fst u) (snd u)) us m"

definition chunks_of :: "update_type \<Rightarrow> (update_type \<times> jsstring) list \<Rightarrow> jsstring" where
  "chunks_of ty us = concat (map snd (filter (\<lambda>u. fst u = ty) us))"

lemma chunks_of_simps [simp]:
  "chunks_of ty [] = []"
  "chunks_of ty (u # us) = (if fst u = ty then snd u @ chunks_of ty us else chunks_of ty us)"
  by (simp_all add: chunks_of_def)

lemma current_content_update [simp]:
  "ver_content (getCurrentVersion (updateCurrentVersionContent m c)) = c"
  by (simp add: getCurrentVersion_def updateCurrentVersionContent_def)

lemma getCurrentVersion_other [simp]:
  "getCurrentVersion (m\<lparr>msg_status := s\<rparr>) = getCurrentVersion m"
  "getCurrentVersion (m\<lparr>msg_reasoning := r\<rparr>) = getCurrentVersion m"
  "getCurrentVersion (m\<lparr>msg_isReasoningStreaming := b\<rparr>) = getCurrentVersion m"
  "getCurrentVersion (m\<lparr>msg_errorCode := c\<rparr>) = getCurrentVersion m"
  by (simp_all add: getCurrentVersion_def)

lemma reasoning_text_other [simp]:
  "reasoning_text (m\<lparr>msg_status := s\<rparr>) = reasoning_text m"
  "reasoning_text (m\<lparr>msg_isReasoningStreaming := b\<rparr>) = reasoning_text m"
  "reasoning_text (updateCurrentVersionContent m c) = reasoning_text m"
  by (simp_all add: reasoning_text_def updateCurrentVersionContent_def)

lemma current_content_stream_update:
  "msg_status m \<noteq> Some StatusError \<Longrightarrow>
   ver_content (getCurrentVersion (stream_update_message ty c m)) =
     ver_content (getCurrentVersion m) @ (if ty = UpdateContent then c else [])"
  by (cases ty) (simp_all add: stream_update_message_def processStreamingContent_def Let_def)

lemma stream_update_status:
  "msg_status (stream_update_message ty c m) =
     (if msg_status m = Some StatusError then Some StatusError else Some StatusStreaming)"
  by (cases ty) (simp_all add: stream_update_message_def)

lemma stream_updates_Nil [simp]: "stream_updates [] m = m"
  by (simp add: stream_updates_def)

lemma stream_updates_Cons [simp]:
  "stream_updates (u # us) m = stream_updates us (stream_update_message (fst u) (snd u) m)"
  by (simp add: stream_updates_def)

lemma stream_updates_snoc:
  "stream_updates (us @ [u]) m = stream_update_message (fst u) (snd u) (stream_updates us m)"
  by (simp add: stream_updates_def)

lemma stream_updates_error: "msg_status m = Some StatusError \<Longrightarrow> stream_updates us m = m"
  by (induction us) (simp_all add: stream_update_message_def)

lemma stream_updates_status:
  "msg_status m \<noteq> Some StatusError \<Longrightarrow>
   msg_status (stream_updates us m) = (if us = [] then msg_status m else Some StatusStreaming)"
  by (induction us arbitrary: m) (auto simp: stream_update_status)

lemma stream_updates_content:
  "msg_status m \<noteq> Some StatusError \<Longrightarrow>
   ver_content (getCurrentVersion (stream_updates us m)) =
     ver_content (getCurrentVersion m) @ chunks_of UpdateContent us"
  by (induction us arbitrary: m) (auto simp: stream_update_status current_content_stream_update)

lemma stream_updates_from:
  "msg_from (stream_updates us m) = msg_from m \<and> msg_key (stream_updates us m) = msg_key m"
proof (induction us arbitrary: m)
  case (Cons u us)
  have "msg_from (stream_update_message ty c m) = msg_from m \<and>
      msg_key (stream_update_message ty c m) = msg_key m" for ty c m
    by (cases ty) (simp_all add: stream_update_message_def processStreamingContent_def Let_def
          updateCurrentVersionContent_def)
  with Cons show ?case by simp
qed simp

lemma str_includes_append: "str_includes a p \<Longrightarrow> str_includes (a @ b) p"
  unfolding str_includes_iff by (metis append.assoc)

lemma parseThinkTags_plain:
  "\<not> str_includes s OPEN_TAG \<Longrightarrow>
   parseThinkTags s = \<lparr>visibleContent = s, think_reasoning = [], hasUnclosedTag = False\<rparr>"
  by (simp add: parseThinkTags_def)

lemma stream_update_reasoning:
  "msg_status m \<noteq> Some StatusError \<Longrightarrow>
   reasoning_text (stream_update_message ty c m) =
     (case ty of
        UpdateReasoning \<Rightarrow> reasoning_text m @ c
      | UpdateContent \<Rightarrow>
          let r = think_reasoning (parseThinkTags (ver_content (getCurrentVersion m) @ c))
          in if r \<noteq> [] then r else reasoning_text m)"
  by (cases ty)
    (simp_all add: stream_update_message_def processStreamingContent_def Let_def reasoning_text_def
       updateCurrentVersionContent_def)

text \<open>Without a tag in the text, only the reasoning channel adds to the reasoning.\<close>

lemma stream_updates_reasoning_plain:
  "msg_status m \<noteq> Some StatusError \<Longrightarrow>
   \<not> str_includes (ver_content (getCurrentVersion m) @ chunks_of UpdateContent us) OPEN_TAG \<Longrightarrow>
   reasoning_text (stream_updates us m) = reasoning_text m @ chunks_of UpdateReasoning us"
proof (induction us arbitrary: m)
  case (Cons u us)
  obtain ty c where u: "u = (ty, c)" by (cases u)
  let ?m = "stream_update_message ty c m"
  have ok: "msg_status ?m \<noteq> Some StatusError" using Cons.prems by (simp add: stream_update_status)
  have full: "ver_content (getCurrentVersion ?m) @ chunks_of UpdateContent us =
      ver_content (getCurrentVersion m) @ chunks_of UpdateContent (u # us)"
    using Cons.prems u by (simp add: current_content_stream_update)
  have "\<not> str_includes (ver_content (getCurrentVersion ?m)) OPEN_TAG"
    using str_includes_append Cons.prems(2) full by metis
  then have "reasoning_text ?m = reasoning_text m @ (if ty = UpdateReasoning then c else [])"
    using Cons.prems
    by (cases ty) (simp_all add: stream_update_reasoning current_content_stream_update
          parseThinkTags_plain)
  then show ?case using Cons.IH [OF ok] Cons.prems(2) full u by auto
qed simp

text \<open>Once the text has reasoning in tags, the last content chunk decides.\<close>

lemma stream_updates_reasoning_tags:
  assumes "msg_status m \<noteq> Some StatusError" and "us \<noteq> []"
    and "\<forall>u\<in>set us. fst u = UpdateContent"
    and "think_reasoning (parseThinkTags (ver_content (getCurrentVersion m) @ chunks_of UpdateContent us)) \<noteq> []"
  shows "reasoning_text (stream_updates us m) =
    think_reasoning (parseThinkTags (ver_content (getCurrentVersion m) @ chunks_of UpdateContent us))"
proof -
  obtain vs v where us: "us = vs @ [v]" using assms(2) by (cases us rule: rev_cases) auto
  then have "fst v = UpdateContent" using assms(3) by simp
  moreover have "msg_status (stream_updates vs m) \<noteq> Some StatusError"
    using assms(1) by (simp add: stream_updates_status)
  moreover have "chunks_of UpdateContent us = chunks_of UpdateContent vs @ snd v"
    using calculation(1) us by (simp add: chunks_of_def)
  ultimately show ?thesis
    using assms(1,4) us
    by (simp add: stream_updates_snoc stream_update_reasoning stream_updates_content)
qed

lemma fold_apply_update:
  "msg_from m = RoleAssistant \<Longrightarrow> cs_messages st = ms @ [m] \<Longrightarrow>
   fold apply_update us st = st\<lparr>cs_messages := ms @ [stream_updates us m]\<rparr>"
proof (induction us arbitrary: st m)
  case (Cons u us)
  then have "apply_update u st = st\<lparr>cs_messages := ms @ [stream_update_message (fst u) (snd u) m]\<rparr>"
    by (simp add: apply_update_def handleStreamUpdate_def updateLastAssistantMessage_def)
  moreover have "msg_from (stream_update_message (fst u) (snd u) m) = RoleAssistant"
    using stream_updates_from [of "[u]" m] Cons.prems by simp
  ultimately show ?case
    using Cons.IH [of "stream_update_message (fst u) (snd u) m" "apply_update u st"] by simp
qed simp

lemma first_nonempty_def': "first_nonempty [a, b, c] = (if a \<noteq> [] then a else if b \<noteq> [] then b else c)"
  by simp

lemma finalize_content [simp]:
  "ver_content (getCurrentVersion (finalizeMessage m r)) =
     visibleContent (parseThinkTags (ver_content (getCurrentVersion m)))"
  by (simp add: finalizeMessage_def Let_def)

lemma finalize_reasoning:
  "reasoning_text (finalizeMessage m None) =
     (if reasoning_text m \<noteq> [] then reasoning_text m
      else think_reasoning (parseThinkTags (ver_content (getCurrentVersion m))))"
  by (simp add: finalizeMessage_def Let_def reasoning_text_def updateCurrentVersionContent_def)

lemma finalize_key [simp]: "msg_key (finalizeMessage m r) = msg_key m"
  by (simp add: finalizeMessage_def Let_def updateCurrentVersionContent_def)

lemma done_after_updates:
  assumes "cs_messages st = ms @ [m]" "is_stuck m"
  shows "on_message DONE_DATA (fold apply_update us st) =
    \<lparr>cs_messages = ms @ [stream_complete_message (stream_updates us m)],
     cs_source = False, cs_complete = True\<rparr>"
  using assms stream_updates_from [of us m] stuck_assistant [of m]
  by (simp add: on_message_def closeSource_def handleStreamComplete_def fold_apply_update
        updateLastAssistantMessage_def)

lemma stuck_not_error: "is_stuck m \<Longrightarrow> msg_status m \<noteq> Some StatusError"
  by (auto simp: is_stuck_def)

lemma complete_stream_updates:
  "is_stuck m \<Longrightarrow>
   stream_complete_message (stream_updates us m) =
     (finalizeMessage (stream_updates us m) None)\<lparr>msg_status := Some StatusComplete\<rparr>"
  using stream_updates_status [of m us]
  by (auto simp: stream_complete_message_def is_stuck_def split: if_splits)

subsection \<open>Properties\<close>


definition demo_chat :: chat_state where
  "demo_chat = handleSendMessage (js ''u'', js ''1'') (js ''a'', js ''2'') (js ''Hello'') True
     \<lparr>cs_messages = [], cs_source = False, cs_complete = False\<rparr>"

lemma demo_reachable: "reachable chat_init chat_step demo_chat"
proof (rule reachable.event)
  show "reachable chat_init chat_step \<lparr>cs_messages = [], cs_source = False, cs_complete = False\<rparr>"
    by (rule reachable.start) (simp add: chat_init_def)
  show "chat_step \<lparr>cs_messages = [], cs_source = False, cs_complete = False\<rparr>
      (SendMessage (js ''u'', js ''1'') (js ''a'', js ''2'') (js ''Hello'') True) demo_chat"
    by (simp add: demo_chat_def)
qed

lemma demo_chat_fields:
  "cs_messages demo_chat =
     [createUserMessage (js ''u'') (js ''1'') (js ''Hello''),
      createLoadingAssistantMessage (js ''a'') (js ''2'')]"
  "cs_source demo_chat" "\<not> cs_complete demo_chat"
  by (simp_all add: demo_chat_def handleSendMessage_def sendStreamRequest_def Let_def)






text \<open>
  Claim C4.  The first outcome stands: after the end marker no error event, of whatever kind,
  changes anything, and once a message is an error no later data chunk and no end marker
  changes the messages.
\<close>

theorem first_outcome_stands:
  assumes "cs_messages st = ms @ [m]" "msg_status m = Some StatusError" "chunk_updates d \<noteq> None"
  shows "on_error r e (on_message DONE_DATA st') = on_message DONE_DATA st' \<and>
    on_readystatechange rs c (on_message DONE_DATA st') = on_message DONE_DATA st' \<and>
    cs_messages (on_message d st) = cs_messages st \<and>
    cs_messages (on_message DONE_DATA st) = cs_messages st"
proof -
  have "fold apply_update us st = st" for us
  proof (cases "msg_from m = RoleAssistant")
    case True
    then show ?thesis using fold_apply_update [OF _ assms(1)] assms
      by (simp add: stream_updates_error)
  next
    case False
    then have "apply_update u st = st" for u
      using assms(1) by (simp add: apply_update_def handleStreamUpdate_def updateLastAssistantMessage_def)
    then show ?thesis by (induction us) auto
  qed
  then show ?thesis
    using assms
    by (auto simp: on_error_def on_readystatechange_def on_message_def closeSource_def
          handleError_def handleStreamComplete_def updateLastAssistantMessage_def
          stream_complete_message_def split: option.splits)
qed

text \<open>A witness: the stream failed with a parse error, then a late chunk arrives.\<close>

theorem first_outcome_stands_witness:
  "cs_messages (on_message (js ''{}'') (handleError PARSE_ERROR None demo_chat)) =
     cs_messages (handleError PARSE_ERROR None demo_chat)"
proof -
  let ?st = "handleError PARSE_ERROR None demo_chat"
  have m: "cs_messages ?st = [createUserMessage (js ''u'') (js ''1'') (js ''Hello'')] @ [last (cs_messages ?st)]"
    "msg_status (last (cs_messages ?st)) = Some StatusError"
    by (simp_all add: handleError_def demo_chat_fields closeSource_def handleStreamError_def
        updateAssistantMessageWithError_def updateLastAssistantMessage_def
        createLoadingAssistantMessage_def)
  have "chunk_updates (js ''{}'') \<noteq> None" by code_simp
  from first_outcome_stands [OF m this] show ?thesis by blast
qed

lemma sanitize_key: "msg_key (sanitize_message m) = msg_key m \<and> msg_from (sanitize_message m) = msg_from m"
  by (simp add: sanitize_message_def Let_def updateCurrentVersionContent_def finalizeMessage_def)

lemma sanitize_status:
  "msg_status (sanitize_message m) =
     (if trim (ver_content (getCurrentVersion (finalizeMessage m None))) \<noteq> [] \<or>
         trim (reasoning_text (finalizeMessage m None)) \<noteq> []
      then Some StatusComplete else Some StatusError)"
  by (simp add: sanitize_message_def Let_def)

lemma unique_stuck_sanitized:
  assumes "last_stuck ms (length ms) = Some i" "\<forall>j<length ms. is_stuck (ms ! j) \<longrightarrow> j = i"
  shows "at_rest (ms[i := sanitize_message (ms ! i)])"
  unfolding at_rest_def
proof
  fix m assume "m \<in> set (ms[i := sanitize_message (ms ! i)])"
  then obtain j where "j < length ms" "m = ms[i := sanitize_message (ms ! i)] ! j"
    by (metis in_set_conv_nth length_list_update)
  then show "\<not> is_stuck m"
    using assms not_stuck_sanitized by (cases "j = i") auto
qed

lemma length_filter_nth: "length (filter P xs) \<le> 1 \<Longrightarrow> i < length xs \<Longrightarrow> j < length xs \<Longrightarrow>
    P (xs ! i) \<Longrightarrow> P (xs ! j) \<Longrightarrow> i = j"
proof -
  assume le: "length (filter P xs) \<le> 1" and "i < length xs" "j < length xs" "P (xs ! i)" "P (xs ! j)"
  then have sub: "{i, j} \<subseteq> {k. k < length xs \<and> P (xs ! k)}" by blast
  have "card {i, j} \<le> 1"
    using card_mono [OF _ sub] le by (simp add: length_filter_conv_card)
  then show ?thesis by (cases "i = j") auto
qed

text \<open>
  Loading repairs an interrupted conversation: the number of messages, and every message
  but the last one in progress, stay as they were; that one keeps its key, becomes complete
  when it has visible text or reasoning, and an error that says so otherwise; with at most one
  message in progress none is left, and loading a second time changes nothing.
\<close>

theorem sanitize_repairs:
  assumes "length (filter is_stuck ms) \<le> 1"
  shows "length (sanitizeMessagesOnLoad ms) = length ms \<and>
    (\<forall>i<length ms. sanitizeMessagesOnLoad ms ! i =
        (if is_stuck (ms ! i) then sanitize_message (ms ! i) else ms ! i)) \<and>
    filter is_stuck (sanitizeMessagesOnLoad ms) = [] \<and>
    sanitizeMessagesOnLoad (sanitizeMessagesOnLoad ms) = sanitizeMessagesOnLoad ms"
proof (cases "last_stuck ms (length ms)")
  case None
  then have "at_rest ms" by (auto simp: last_stuck_None at_rest_def in_set_conv_nth)
  then show ?thesis
    using None by (simp add: sanitize_at_rest last_stuck_None filter_empty_conv at_rest_def)
next
  case (Some i)
  note i = last_stuck_Some [OF Some]
  then have u: "\<forall>j<length ms. is_stuck (ms ! j) \<longrightarrow> j = i"
    using length_filter_nth [OF assms] by blast
  from unique_stuck_sanitized [OF Some u] have "at_rest (sanitizeMessagesOnLoad ms)"
    by (simp add: sanitizeMessagesOnLoad_def Some)
  moreover have "\<forall>j<length ms. sanitizeMessagesOnLoad ms ! j =
      (if is_stuck (ms ! j) then sanitize_message (ms ! j) else ms ! j)"
    using u i by (auto simp: sanitizeMessagesOnLoad_def Some nth_list_update)
  ultimately show ?thesis
    by (simp add: sanitize_at_rest filter_empty_conv at_rest_def)
      (simp add: sanitizeMessagesOnLoad_def Some)
qed

theorem sanitize_repairs_witness:
  "sanitizeMessagesOnLoad (cs_messages demo_chat) ! 1 =
     sanitize_message (createLoadingAssistantMessage (js ''a'') (js ''2'')) \<and>
   filter is_stuck (sanitizeMessagesOnLoad (cs_messages demo_chat)) = []"
proof -
  have "length (filter is_stuck (cs_messages demo_chat)) \<le> 1"
    by (simp add: demo_chat_fields)
  from sanitize_repairs [OF this] show ?thesis by (simp add: demo_chat_fields)
qed

text \<open>
  The payload: the messages sent are those with a version and, for the assistant, with
  text, in order, each as its role and the text of its current version, and a parameter
  is sent exactly when it is enabled and has a value; an assistant placeholder that was just
  added is never part of the request.
\<close>

theorem payload_contents:
  "req_messages (buildChatCompletionPayload (ms @ [createLoadingAssistantMessage k n]) cfg pe) =
     req_messages (buildChatCompletionPayload ms cfg pe) \<and>
   req_messages (buildChatCompletionPayload ms cfg pe) =
     [\<lparr>api_role = msg_from m, api_content = PlainContent (ver_content v)\<rparr>.
        (m, v) \<leftarrow> [(m, hd (msg_versions m)). m \<leftarrow> ms, msg_versions m \<noteq> []],
        msg_from m = RoleAssistant \<longrightarrow> trim (ver_content v) \<noteq> []] \<and>
   (let p = buildChatCompletionPayload ms cfg pe in
    [req_temperature p, req_top_p p, req_max_tokens p, req_frequency_penalty p,
     req_presence_penalty p, req_seed p] =
    map (\<lambda>(enabled, v). if enabled then v else None)
      [(en_temperature pe, cfg_temperature cfg), (en_top_p pe, cfg_top_p cfg),
       (en_max_tokens pe, cfg_max_tokens cfg), (en_frequency_penalty pe, cfg_frequency_penalty cfg),
       (en_presence_penalty pe, cfg_presence_penalty cfg), (en_seed pe, cfg_seed cfg)])"
proof -
  have "map formatMessageForAPI (filter isValidMessage ms) =
     [\<lparr>api_role = msg_from m, api_content = PlainContent (ver_content v)\<rparr>.
        (m, v) \<leftarrow> [(m, hd (msg_versions m)). m \<leftarrow> ms, msg_versions m \<noteq> []],
        msg_from m = RoleAssistant \<longrightarrow> trim (ver_content v) \<noteq> []]"
    by (induction ms) (auto simp: isValidMessage_def formatMessageForAPI_def getCurrentVersion_def
        split: list.splits)
  moreover have "\<not> isValidMessage (createLoadingAssistantMessage k n)"
    by (simp add: isValidMessage_def createLoadingAssistantMessage_def createMessageVersion_def)
  ultimately show ?thesis by (simp add: buildChatCompletionPayload_def enabled_param_def Let_def)
qed

text \<open>A concrete payload: the greeting is sent, the placeholder is not.\<close>

theorem payload_contents_witness:
  "req_messages (buildChatCompletionPayload (cs_messages demo_chat)
      \<lparr>cfg_model = js ''m'', cfg_group = js ''g'', cfg_temperature = Some 1, cfg_top_p = None,
       cfg_max_tokens = None, cfg_frequency_penalty = None, cfg_presence_penalty = None,
       cfg_seed = None, cfg_stream = True\<rparr>
      \<lparr>en_temperature = True, en_top_p = False, en_max_tokens = False, en_frequency_penalty = False,
       en_presence_penalty = False, en_seed = False\<rparr>) =
     [\<lparr>api_role = RoleUser, api_content = PlainContent (js ''Hello'')\<rparr>]"
  using payload_contents [of "[createUserMessage (js ''u'') (js ''1'') (js ''Hello'')]" "js ''a''" "js ''2''"]
  by (simp add: demo_chat_fields createUserMessage_def createMessageVersion_def)

subsection \<open>Where the code differs from its intent\<close>

text \<open>
  \<open>processStreamingContent\<close> keeps an earlier reasoning when the new text has none.  When the
  closing tag is cut between two chunks, the fragment of the tag was taken for reasoning by
  the earlier chunk, and it stays: the completed message has the reasoning
  \<^verbatim>\<open></\<close> although the whole text has an empty thought.
\<close>

lemma stale_reasoning_after_split_tag:
  "let us = [(UpdateContent, js ''<think>''), (UpdateContent, js ''</''), (UpdateContent, js ''think>hi'')];
       m = stream_complete_message (stream_updates us (createLoadingAssistantMessage k n))
   in think_reasoning (parseThinkTags (chunks_of UpdateContent us)) = [] \<and>
      reasoning_text m = js ''</''"
proof -
  let ?us = "[(UpdateContent, js ''<think>''), (UpdateContent, js ''</''), (UpdateContent, js ''think>hi'')]"
  let ?l = "createLoadingAssistantMessage k n"
  have p: "think_reasoning (parseThinkTags (js ''<think>'')) = []"
    "think_reasoning (parseThinkTags (js ''<think></'')) = js ''</''"
    "think_reasoning (parseThinkTags (js ''<think></think>hi'')) = []" by code_simp+
  have c: "js ''<think>'' @ js ''</'' = js ''<think></''"
    "js ''<think></'' @ js ''think>hi'' = js ''<think></think>hi''"
    "chunks_of UpdateContent ?us = js ''<think></think>hi''" by code_simp+
  have l: "msg_status ?l \<noteq> Some StatusError" "ver_content (getCurrentVersion ?l) = []" "reasoning_text ?l = []"
    by (simp_all add: createLoadingAssistantMessage_def getCurrentVersion_def createMessageVersion_def
        reasoning_text_def)
  have "reasoning_text (stream_updates ?us ?l) = js ''</''"
    using l p c by (simp add: stream_update_reasoning stream_update_status current_content_stream_update)
  then have "reasoning_text (stream_complete_message (stream_updates ?us ?l)) = js ''</''"
    by (simp add: complete_stream_updates finalize_reasoning del: stream_updates_Cons)
  then show ?thesis unfolding Let_def c(3) p(3) by blast
qed

text \<open>
  A completion without a choice leaves the placeholder in progress, and a second such request
  leaves two: \<open>sanitizeMessagesOnLoad\<close> repairs only the last of them when the page is loaded.
\<close>

lemma no_choice_leaves_placeholder:
  "sendNonStreamingChat OutcomeNoChoice (ms @ [createLoadingAssistantMessage k n]) =
     ms @ [createLoadingAssistantMessage k n]"
  by (simp add: sendNonStreamingChat_def)

lemma sanitize_leaves_earlier_stuck:
  "sanitizeMessagesOnLoad [createLoadingAssistantMessage a b, createLoadingAssistantMessage c d] ! 0 =
     createLoadingAssistantMessage a b"
  by (simp add: sanitizeMessagesOnLoad_def)

end
