(* ===== verification/Regex.thy ===== *)
theory Regex
  imports JsPrelude
begin

section \<open>Backtracking regular expressions\<close>

text \<open>
  The sources match strings with JavaScript regular expressions that use captures, greedy
  repetition and alternatives.  A pattern is the function from a string to the list of all its
  matches at the start of that string, in the order in which the backtracking matcher tries
  them: each match is the captured value and the rest of the string.  Sequencing passes the
  captured value on, so a back reference is a literal made of it.

  \<open>rx_full\<close> is a pattern between \<^verbatim>\<open>^\<close> and \<^verbatim>\<open>$\<close>: the first match that uses the whole
  string.  \<open>rx_search\<close> is the loop over \<open>exec\<close> of a global pattern: the leftmost match, and
  then the search goes on behind it.
\<close>

type_synonym 'a rx = "jsstring \<Rightarrow> ('a \<times> jsstring) list"

definition rx_return :: "'a \<Rightarrow> 'a rx" where
  "rx_return a s = [(a, s)]"

definition rx_bind :: "'a rx \<Rightarrow> ('a \<Rightarrow> 'b rx) \<Rightarrow> 'b rx" where
  "rx_bind p f s = concat (map (\<lambda>(a, r). f a r) (p s))"

definition rx_lit :: "jsstring \<Rightarrow> unit rx" where
  "rx_lit t s = (if prefix t s then [((), drop (length t) s)] else [])"

definition rx_seq :: "jsstring \<Rightarrow> 'b rx \<Rightarrow> 'b rx" where
  "rx_seq t p = rx_bind (rx_lit t) (\<lambda>_. p)"

definition rx_alt :: "'a rx \<Rightarrow> 'a rx \<Rightarrow> 'a rx" where
  "rx_alt p q s = p s @ q s"

text \<open>The alternatives of a list of literals, with the literal that matched.\<close>

definition rx_one_of :: "jsstring list \<Rightarrow> jsstring rx" where
  "rx_one_of ts s = concat (map (\<lambda>t. if prefix t s then [(t, drop (length t) s)] else []) ts)"

text \<open>Greedy repetition of a character class: the longest match first.\<close>

definition rx_star :: "(jschar \<Rightarrow> bool) \<Rightarrow> jsstring rx" where
  "rx_star P s = map (\<lambda>k. (take k s, drop k s)) (rev [0..<Suc (length (takeWhile P s))])"

definition rx_plus :: "(jschar \<Rightarrow> bool) \<Rightarrow> jsstring rx" where
  "rx_plus P s = filter (\<lambda>(a, r). a \<noteq> []) (rx_star P s)"

definition rx_opt :: "'a rx \<Rightarrow> 'a option rx" where
  "rx_opt p s = map (\<lambda>(a, r). (Some a, r)) (p s) @ [(None, s)]"

text \<open>The text a pattern consumed, together with its value.\<close>

definition rx_capture :: "'a rx \<Rightarrow> jsstring rx" where
  "rx_capture p s = map (\<lambda>(a, r). (take (length s - length r) s, r)) (p s)"

definition rx_full :: "'a rx \<Rightarrow> jsstring \<Rightarrow> 'a option" where
  "rx_full p s = map_option fst (List.find (\<lambda>(a, r). r = []) (p s))"

definition rx_test :: "'a rx \<Rightarrow> jsstring \<Rightarrow> bool" where
  "rx_test p s \<longleftrightarrow> rx_full p s \<noteq> None"

text \<open>
  All matches of a global pattern.  The pattern also sees the code unit before its position,
  which word boundaries need.  A match that consumed something continues at its end.
\<close>

function rx_search :: "(jschar option \<Rightarrow> 'a rx) \<Rightarrow> jschar option \<Rightarrow> jsstring \<Rightarrow> 'a list" where
  "rx_search p b [] = (case p b [] of [] \<Rightarrow> [] | (a, r) # _ \<Rightarrow> [a])"
| "rx_search p b (c # s) =
     (case p b (c # s) of
        [] \<Rightarrow> rx_search p (Some c) s
      | (a, r) # _ \<Rightarrow>
          if length r < length (c # s)
          then a # rx_search p (Some (last (c # take (length s - length r) s))) r
          else a # rx_search p (Some c) s)"
  by pat_completeness auto
termination
  by (relation "measure (\<lambda>(p, b, s). length s)") auto

subsection \<open>Character classes\<close>

definition numeric_char :: "jschar \<Rightarrow> bool" where
  "numeric_char c \<longleftrightarrow> is_digit c \<or> c = 46 \<or> c = 101 \<or> c = 69 \<or> c = 43 \<or> c = 45"

text \<open>The class of \<^verbatim>\<open>[^"]\<close>.\<close>

definition not_quote :: "jschar \<Rightarrow> bool" where
  "not_quote c \<longleftrightarrow> c \<noteq> 34"

text \<open>The class of \<^verbatim>\<open>.\<close>, which excludes the line terminators.\<close>

definition rx_dot :: "jschar \<Rightarrow> bool" where
  "rx_dot c \<longleftrightarrow> c \<noteq> 10 \<and> c \<noteq> 13 \<and> c \<noteq> 8232 \<and> c \<noteq> 8233"

definition word_char :: "jschar \<Rightarrow> bool" where
  "word_char c \<longleftrightarrow> is_digit c \<or> (65 \<le> c \<and> c \<le> 90) \<or> (97 \<le> c \<and> c \<le> 122) \<or> c = 95"

text \<open>The word boundary \<^verbatim>\<open>\b\<close> between the code unit before and the rest.\<close>

definition word_boundary :: "jschar option \<Rightarrow> jsstring \<Rightarrow> bool" where
  "word_boundary b s \<longleftrightarrow>
     (case b of None \<Rightarrow> False | Some c \<Rightarrow> word_char c) \<noteq> (case s of [] \<Rightarrow> False | c # _ \<Rightarrow> word_char c)"

subsection \<open>Laws\<close>

lemma rx_bind_return [simp]: "rx_bind (rx_return a) f = f a"
  by (rule ext) (simp add: rx_bind_def rx_return_def)

lemma rx_bind_assoc: "rx_bind (rx_bind p f) g = rx_bind p (\<lambda>a. rx_bind (f a) g)"
proof
  fix s
  have "concat (map (\<lambda>(b, r). g b r) (concat (map (\<lambda>(a, r). f a r) xs))) =
      concat (map (\<lambda>(a, r). concat (map (\<lambda>(b, r). g b r) (f a r))) xs)" for xs
    by (induction xs) auto
  then show "rx_bind (rx_bind p f) g s = rx_bind p (\<lambda>a. rx_bind (f a) g) s"
    by (simp add: rx_bind_def)
qed

lemma rx_bind_seq: "rx_bind (rx_seq t p) g = rx_seq t (rx_bind p g)"
  by (simp add: rx_seq_def rx_bind_assoc)

lemma rx_bind_Nil [simp]: "p s = [] \<Longrightarrow> rx_bind p f s = []"
  by (simp add: rx_bind_def)

lemma rx_seq_app [simp]: "rx_seq t p (t @ s) = p s"
  by (simp add: rx_seq_def rx_bind_def rx_lit_def)

lemma rx_seq_no [simp]: "\<not> prefix t s \<Longrightarrow> rx_seq t p s = []"
  by (simp add: rx_seq_def rx_bind_def rx_lit_def)

lemma rx_seq_Nil [simp]: "rx_seq [] p s = p s"
  by (simp add: rx_seq_def rx_bind_def rx_lit_def)

lemma rx_seq_Cons [simp]: "rx_seq (c # t) p (d # s) = (if c = d then rx_seq t p s else [])"
  by (simp add: rx_seq_def rx_bind_def rx_lit_def)

lemma rx_seq_empty [simp]: "rx_seq (c # t) p [] = []"
  by (simp add: rx_seq_def rx_bind_def rx_lit_def)

lemma rx_full_append_Nil: "p s = [] \<Longrightarrow> rx_full p s = None"
  by (simp add: rx_full_def)

lemma rx_full_cong: "p s = q t \<Longrightarrow> rx_full p s = rx_full q t"
  by (simp add: rx_full_def)

lemma rx_full_single: "p s = [(a, [])] \<Longrightarrow> rx_full p s = Some a"
  by (simp add: rx_full_def)

lemma rx_full_return: "rx_full (rx_return a) s = (if s = [] then Some a else None)"
  by (simp add: rx_full_def rx_return_def)

text \<open>A repetition followed by a pattern that cannot start inside the class is deterministic.\<close>

lemma takeWhile_stop:
  "\<forall>c\<in>set u. P c \<Longrightarrow> (t = [] \<or> \<not> P (hd t)) \<Longrightarrow> takeWhile P (u @ t) = u"
  by (induction u) (auto simp: neq_Nil_conv, cases t, auto)

lemma rx_star_unfold:
  assumes "\<forall>c\<in>set u. P c" "t = [] \<or> \<not> P (hd t)"
  shows "rx_star P (u @ t) = map (\<lambda>k. (take k u, drop k u @ t)) (rev [0..<Suc (length u)])"
proof -
  have "takeWhile P (u @ t) = u" using assms by (rule takeWhile_stop)
  then show ?thesis by (auto simp: rx_star_def)
qed

lemma concat_rev_upt_last:
  assumes "\<And>k. k < n \<Longrightarrow> f k = []"
  shows "concat (map f (rev [0..<Suc n])) = f n"
  using assms by (simp add: concat_eq_Nil_conv)

lemma rx_star_bind_in:
  assumes "\<forall>c\<in>set u. P c" "t = [] \<or> \<not> P (hd t)" and stop: "\<And>a c s. c \<in> set u \<Longrightarrow> f a (c # s) = []"
  shows "rx_bind (rx_star P) f (u @ t) = f u t"
proof -
  have none: "f (take k u) (drop k u @ t) = []" if "k < length u" for k
  proof -
    have "drop k u = u ! k # drop (Suc k) u" using that by (simp add: Cons_nth_drop_Suc)
    then show ?thesis using stop that by (simp add: nth_mem)
  qed
  have "rx_bind (rx_star P) f (u @ t) =
      concat (map (\<lambda>k. f (take k u) (drop k u @ t)) (rev [0..<Suc (length u)]))"
    unfolding rx_bind_def rx_star_unfold [OF assms(1,2)] map_map comp_def by simp
  also have "\<dots> = f (take (length u) u) (drop (length u) u @ t)"
    by (rule concat_rev_upt_last) (rule none)
  finally show ?thesis by simp
qed

lemma rx_star_bind:
  assumes "\<forall>c\<in>set u. P c" "t = [] \<or> \<not> P (hd t)"
    and stop: "\<And>a c s. P c \<Longrightarrow> f a (c # s) = []"
  shows "rx_bind (rx_star P) f (u @ t) = f u t"
  using assms by (intro rx_star_bind_in) auto

lemma rx_plus_bind_filter:
  "rx_bind (rx_plus P) f s = rx_bind (rx_star P) (\<lambda>a. if a = [] then (\<lambda>_. []) else f a) s"
proof -
  have "concat (map (\<lambda>(a, r). f a r) (filter (\<lambda>(a, r). a \<noteq> []) xs)) =
      concat (map (\<lambda>(a, r). (if a = [] then (\<lambda>_. []) else f a) r) xs)" for xs
    by (induction xs) auto
  then show ?thesis by (simp add: rx_bind_def rx_plus_def)
qed

lemma rx_plus_bind_in:
  assumes "u \<noteq> []" "\<forall>c\<in>set u. P c" "t = [] \<or> \<not> P (hd t)"
    and stop: "\<And>a c s. c \<in> set u \<Longrightarrow> f a (c # s) = []"
  shows "rx_bind (rx_plus P) f (u @ t) = f u t"
proof -
  have "rx_bind (rx_star P) (\<lambda>a. if a = [] then (\<lambda>_. []) else f a) (u @ t) =
      (if u = [] then (\<lambda>_. []) else f u) t"
    using assms by (intro rx_star_bind_in) auto
  then show ?thesis using assms(1) by (simp add: rx_plus_bind_filter)
qed

lemma rx_plus_bind:
  assumes "u \<noteq> []" "\<forall>c\<in>set u. P c" "t = [] \<or> \<not> P (hd t)"
    and stop: "\<And>a c s. P c \<Longrightarrow> f a (c # s) = []"
  shows "rx_bind (rx_plus P) f (u @ t) = f u t"
  using assms by (intro rx_plus_bind_in) auto

text \<open>The pattern up to a closing delimiter \<open>d\<close> outside the class.\<close>

lemma rx_plus_lit:
  assumes "u \<noteq> []" "\<forall>c\<in>set u. P c" "\<not> P d"
  shows "rx_bind (rx_plus P) (\<lambda>a. rx_seq (d # ds) (k a)) (u @ d # t) =
    rx_seq (d # ds) (k u) (d # t)"
  using assms by (intro rx_plus_bind) auto

lemma rx_plus_fail:
  assumes "\<forall>c\<in>set u. P c" "\<not> P d" and none: "\<And>a. f a (d # t) = []"
    and stop: "\<And>a c s. P c \<Longrightarrow> f a (c # s) = []"
  shows "rx_bind (rx_plus P) f (u @ d # t) = []"
proof -
  have "rx_bind (rx_star P) (\<lambda>a. if a = [] then (\<lambda>_. []) else f a) (u @ d # t) =
      (if u = [] then (\<lambda>_. []) else f u) (d # t)"
    using assms by (intro rx_star_bind) auto
  then show ?thesis using none by (simp add: rx_plus_bind_filter)
qed

text \<open>A class at the end of a full match takes everything.\<close>

lemma find_rev_upt_last:
  "Q n \<Longrightarrow> List.find Q (rev [0..<Suc n]) = Some n"
  by simp

lemma find_map: "List.find Q (map f xs) = map_option f (List.find (Q \<circ> f) xs)"
  by (induction xs) auto

lemma rx_full_star: "\<forall>c\<in>set u. P c \<Longrightarrow> rx_full (rx_star P) u = Some u"
  using rx_star_unfold [of u P "[]"] by (simp add: rx_full_def find_map)

lemma rx_full_plus_map:
  assumes "u \<noteq> []" "\<forall>c\<in>set u. P c"
  shows "rx_full (rx_bind (rx_plus P) (\<lambda>a. rx_return (g a))) u = Some (g u)"
proof -
  have "rx_star P u = (u, []) # map (\<lambda>k. (take k u, drop k u)) (rev [0..<length u])"
    using rx_star_unfold [of u P "[]"] assms by simp
  then show ?thesis
    using assms by (simp add: rx_full_def rx_plus_def rx_bind_def rx_return_def)
qed

text \<open>The matches of a pattern as a set: enough when the whole match is unique.\<close>

lemma set_rx_star: "(a, r) \<in> set (rx_star P s) \<longleftrightarrow> s = a @ r \<and> (\<forall>c\<in>set a. P c)"
proof
  assume "(a, r) \<in> set (rx_star P s)"
  then obtain k where k: "k \<le> length (takeWhile P s)" "a = take k s" "r = drop k s"
    unfolding rx_star_def by (auto simp: less_Suc_eq_le simp del: upt_Suc)
  then have "a = take k (takeWhile P s)"
    by (metis takeWhile_eq_take take_take min_absorb1)
  then have "\<forall>c\<in>set a. P c" by (auto dest: in_set_takeD set_takeWhileD)
  then show "s = a @ r \<and> (\<forall>c\<in>set a. P c)" using k by simp
next
  assume *: "s = a @ r \<and> (\<forall>c\<in>set a. P c)"
  then have "length a \<le> length (takeWhile P s)" by (simp add: takeWhile_append2)
  then show "(a, r) \<in> set (rx_star P s)"
    using * unfolding rx_star_def
    by (auto simp: image_iff less_Suc_eq_le simp del: upt_Suc intro!: bexI [of _ "length a"])
qed

lemma set_rx_plus: "(a, r) \<in> set (rx_plus P s) \<longleftrightarrow> s = a @ r \<and> a \<noteq> [] \<and> (\<forall>c\<in>set a. P c)"
  by (auto simp: rx_plus_def set_rx_star)

lemma set_rx_bind: "(b, r) \<in> set (rx_bind p f s) \<longleftrightarrow> (\<exists>a t. (a, t) \<in> set (p s) \<and> (b, r) \<in> set (f a t))"
  by (auto simp: rx_bind_def)

lemma set_rx_seq: "(b, r) \<in> set (rx_seq t p s) \<longleftrightarrow> (\<exists>s'. s = t @ s' \<and> (b, r) \<in> set (p s'))"
  by (auto simp: rx_seq_def rx_bind_def rx_lit_def prefix_def)

lemma set_rx_return: "(b, r) \<in> set (rx_return a s) \<longleftrightarrow> b = a \<and> r = s"
  by (auto simp: rx_return_def)

lemmas set_rx = set_rx_star set_rx_plus set_rx_bind set_rx_seq set_rx_return

lemma rx_full_unique:
  assumes "(v, []) \<in> set (p s)" "\<And>v'. (v', []) \<in> set (p s) \<Longrightarrow> v' = v"
  shows "rx_full p s = Some v"
proof (cases "List.find (\<lambda>(a, r). r = []) (p s)")
  case None
  then show ?thesis using assms(1) by (auto simp: find_None_iff)
next
  case (Some x)
  then obtain a where x: "x = (a, [])" by (cases x) (auto simp: find_Some_iff)
  then have "(a, []) \<in> set (p s)"
    using Some by (auto simp: find_Some_iff in_set_conv_nth)
  then show ?thesis using assms(2) Some x by (simp add: rx_full_def)
qed

lemma rx_full_in: "rx_full p s = Some v \<Longrightarrow> (v, []) \<in> set (p s)"
  by (auto simp: rx_full_def find_Some_iff in_set_conv_nth)

text \<open>Options, alternatives, and the first match of a pattern or of a search.\<close>

lemma rx_opt_bind: "rx_bind (rx_opt p) f s = rx_bind p (\<lambda>a. f (Some a)) s @ f None s"
  by (simp add: rx_opt_def rx_bind_def comp_def split_def)

lemma rx_bind_single: "p s = [(a, r)] \<Longrightarrow> rx_bind p f s = f a r"
  by (simp add: rx_bind_def)

lemma rx_map_return: "rx_bind p (\<lambda>a. rx_return (f a)) s = map (\<lambda>(a, r). (f a, r)) (p s)"
proof -
  have "concat (map (\<lambda>(a, r). [(f a, r)]) xs) = map (\<lambda>(a, r). (f a, r)) xs" for xs
    by (induction xs) auto
  then show ?thesis by (simp add: rx_bind_def rx_return_def)
qed

lemma rx_one_of_bind:
  "rx_bind (rx_one_of ts) f s = concat (map (\<lambda>t. if prefix t s then f t (drop (length t) s) else []) ts)"
  by (induction ts) (auto simp: rx_bind_def rx_one_of_def)

lemma set_rx_one_of: "(a, r) \<in> set (rx_one_of ts s) \<longleftrightarrow> a \<in> set ts \<and> s = a @ r"
  by (auto simp: rx_one_of_def prefix_def split: if_splits)

lemma rx_bind_head:
  assumes "(a, r) \<in> set (q s)" "\<exists>zs. h a r = y # zs" "\<And>b u. (b, u) \<in> set (q s) \<Longrightarrow> h b u = [] \<or> (b, u) = (a, r)"
  shows "\<exists>ys. rx_bind q h s = y # ys"
proof -
  have "\<exists>ys. concat (map (\<lambda>(b, u). h b u) xs) = y # ys"
    if "(a, r) \<in> set xs" "\<And>b u. (b, u) \<in> set xs \<Longrightarrow> h b u = [] \<or> (b, u) = (a, r)" for xs
    using that
  proof (induction xs)
    case (Cons x xs)
    obtain b u where x: "x = (b, u)" by (cases x)
    show ?case
    proof (cases "(b, u) = (a, r)")
      case True
      then show ?thesis using assms(2) x by auto
    next
      case False
      then have "h b u = []" using Cons.prems(2) x by auto
      moreover have "\<exists>ys. concat (map (\<lambda>(b, u). h b u) xs) = y # ys"
        using Cons False x by (intro Cons.IH) auto
      ultimately show ?thesis by (simp add: x)
    qed
  qed simp
  then show ?thesis using assms by (simp add: rx_bind_def)
qed

lemma rx_search_start: "rx_search (\<lambda>_. p) b s = rx_search (\<lambda>_. p) b' s"
proof (induction "\<lambda>_ :: jschar option. p" b s arbitrary: b' rule: rx_search.induct)
  case (1 b)
  then show ?case by simp
next
  case (2 b c s)
  then show ?case by (auto split: list.splits)
qed

lemma rx_search_skip: "p (c # s) = [] \<Longrightarrow> rx_search (\<lambda>_. p) b (c # s) = rx_search (\<lambda>_. p) b s"
  using rx_search_start [of p "Some c" s b] by simp

lemma rx_search_hit:
  "p (u @ t) = (x, t) # ys \<Longrightarrow> u \<noteq> [] \<Longrightarrow> rx_search (\<lambda>_. p) b (u @ t) = x # rx_search (\<lambda>_. p) b t"
  by (cases u) (auto intro: rx_search_start)

end
