(* ===== verification/JsNumber.thy ===== *)
theory JsNumber
  imports Regex Json
begin

section \<open>The conversion to numbers\<close>

text \<open>
  The function \<open>Number\<close> on strings and on JSON values.  Numbers are exact rationals; \<open>None\<close>
  stands for \<open>NaN\<close> and, where a string asks for it, for the infinities, which no check of the
  sources accepts.
\<close>

text \<open>A decimal literal with an optional sign, or \<open>NaN\<close>.\<close>

definition frac_val :: "jsstring \<Rightarrow> rat" where
  "frac_val ds = of_nat (digits_val ds) / 10 ^ length ds"

definition mantissa_rx :: "rat rx" where
  "mantissa_rx = rx_alt
     (rx_bind (rx_plus is_digit) (\<lambda>a.
        rx_bind (rx_opt (rx_lit (js ''.''))) (\<lambda>_. rx_bind (rx_star is_digit) (\<lambda>b.
          rx_return (of_nat (digits_val a) + frac_val b)))))
     (rx_seq (js ''.'') (rx_bind (rx_plus is_digit) (\<lambda>b. rx_return (frac_val b))))"

definition exp_rx :: "int rx" where
  "exp_rx = rx_bind (rx_one_of [js ''e'', js ''E'']) (\<lambda>_.
       rx_bind (rx_opt (rx_one_of [js ''+'', js ''-''])) (\<lambda>es. rx_bind (rx_plus is_digit) (\<lambda>ed.
         rx_return (if es = Some (js ''-'') then - int (digits_val ed) else int (digits_val ed)))))"

definition decimal_rx :: "rat rx" where
  "decimal_rx =
     rx_bind (rx_opt (rx_one_of [js ''+'', js ''-''])) (\<lambda>sg. rx_bind mantissa_rx (\<lambda>m.
     rx_bind (rx_opt exp_rx) (\<lambda>e. rx_return ((if sg = Some (js ''-'') then - m else m) *
       (case e of None \<Rightarrow> 1 | Some k \<Rightarrow> pow10 k)))))"

definition js_number :: "jsstring \<Rightarrow> rat option" where
  "js_number s = rx_full decimal_rx s"

text \<open>Hexadecimal, octal and binary literals.\<close>

definition radix_digits :: "int \<Rightarrow> jsstring \<Rightarrow> rat option" where
  "radix_digits b ds =
     (if ds \<noteq> [] \<and> list_all (\<lambda>c. case hex_digit c of Some d \<Rightarrow> d < b | None \<Rightarrow> False) ds
      then Some (of_int (foldl (\<lambda>acc c. b * acc + nullish (hex_digit c) 0) 0 ds)) else None)"

definition to_number_str :: "jsstring \<Rightarrow> rat option" where
  "to_number_str s =
     (let t = trim s in
      if t = [] then Some 0
      else if take 2 t \<in> {js ''0x'', js ''0X''} then radix_digits 16 (drop 2 t)
      else if take 2 t \<in> {js ''0o'', js ''0O''} then radix_digits 8 (drop 2 t)
      else if take 2 t \<in> {js ''0b'', js ''0B''} then radix_digits 2 (drop 2 t)
      else js_number t)"

definition to_number :: "jsval \<Rightarrow> rat option" where
  "to_number v =
     (case v of
        JNull \<Rightarrow> Some 0
      | JBool b \<Rightarrow> Some (if b then 1 else 0)
      | JNum x \<Rightarrow> Some x
      | JStr s \<Rightarrow> to_number_str s
      | JArr vs \<Rightarrow> to_number_str (to_str v)
      | JObj ps \<Rightarrow> None)"

definition is_integer :: "rat option \<Rightarrow> bool" where
  "is_integer x = (case x of None \<Rightarrow> False | Some r \<Rightarrow> r = of_int \<lfloor>r\<rfloor>)"

subsection \<open>Reading with Number\<close>

lemma rx_star_first: "\<forall>c\<in>set a. P c \<Longrightarrow> t = [] \<or> \<not> P (hd t) \<Longrightarrow> \<exists>xs. rx_star P (a @ t) = (a, t) # xs"
proof -
  assume "\<forall>c\<in>set a. P c" "t = [] \<or> \<not> P (hd t)"
  then have "takeWhile P (a @ t) = a" by (cases t) (auto simp: takeWhile_append)
  then show ?thesis by (simp add: rx_star_def)
qed

lemma rx_plus_first:
  "\<forall>c\<in>set a. P c \<Longrightarrow> a \<noteq> [] \<Longrightarrow> t = [] \<or> \<not> P (hd t) \<Longrightarrow> \<exists>xs. rx_plus P (a @ t) = (a, t) # xs"
  using rx_star_first [of a P t] by (auto simp: rx_plus_def)

lemma rx_bind_first:
  "p s = (a, r) # xs \<Longrightarrow> f a r = (b, q) # ys \<Longrightarrow> \<exists>zs. rx_bind p f s = (b, q) # zs"
  by (simp add: rx_bind_def)

lemma rx_full_first: "p s = (a, []) # xs \<Longrightarrow> rx_full p s = Some a"
  by (simp add: rx_full_def)

lemma rx_lit_here: "rx_lit t (t @ s) = [((), s)]"
  by (simp add: rx_lit_def)

lemma exp_rx_first: "\<exists>xs. rx_opt exp_rx (exponent_str e) = (e, []) # xs"
proof (cases e)
  case (Some x)
  let ?d = "show_nat (nat \<bar>x\<bar>)"
  have d: "\<forall>c\<in>set ?d. is_digit c" using show_nat_digits by blast
  obtain xs where p: "rx_plus is_digit ?d = (?d, []) # xs" using rx_plus_first [OF d, of "[]"] by auto
  have "\<exists>xs. exp_rx (101 # c # ?d) = (x, []) # xs" if "c = (if x < 0 then 45 else 43)" for c
    using that p by (cases "x < 0") (simp_all add: exp_rx_def rx_bind_def rx_one_of_def rx_opt_def rx_return_def js_lits)
  then show ?thesis using Some by (auto simp: exponent_str_def rx_opt_def)
qed (simp add: exponent_str_def exp_rx_def rx_opt_def rx_bind_def rx_one_of_def js_lits)


lemma decimal_rx_layout:
  assumes "good_layout a fs"
  shows "\<exists>xs. decimal_rx (layout a fs e) = (layout_val a fs e, []) # xs"
    "\<exists>xs. decimal_rx (45 # layout a fs e) = (- layout_val a fs e, []) # xs"
proof -
  let ?f = "if fs = [] then [] else 46 # fs"
  have e: "exponent_str e = [] \<or> \<not> is_digit (hd (exponent_str e)) \<and> hd (exponent_str e) \<noteq> 46"
    by (auto simp: exponent_str_def is_digit_def split: option.splits)
  have a: "\<forall>c\<in>set a. is_digit c" "a \<noteq> []" and f: "\<forall>c\<in>set fs. is_digit c"
    using assms by (auto simp: good_layout_def all_digits_def)
  obtain xs where xs: "rx_plus is_digit (a @ ?f @ exponent_str e) = (a, ?f @ exponent_str e) # xs"
  proof -
    have "\<not> is_digit 46" by (simp add: is_digit_def)
    then have "?f @ exponent_str e = [] \<or> \<not> is_digit (hd (?f @ exponent_str e))" using e by auto
    then show ?thesis using rx_plus_first [OF a] that by blast
  qed
  obtain ys where ys: "rx_star is_digit (fs @ exponent_str e) = (fs, exponent_str e) # ys"
    using rx_star_first [OF f, of "exponent_str e"] e by auto
  obtain zs where zs: "rx_opt exp_rx (exponent_str e) = (e, []) # zs" using exp_rx_first by blast
  let ?m = "of_nat (digits_val a) + frac_val fs :: rat"
  have "\<exists>us. rx_bind (rx_opt (rx_lit (js ''.''))) (\<lambda>_. rx_bind (rx_star is_digit) (\<lambda>b.
            rx_return (of_nat (digits_val a) + frac_val b))) (?f @ exponent_str e) = (?m, exponent_str e) # us"
  proof -
    have "\<not> prefix [46] (exponent_str e)" using e by (cases "exponent_str e") auto
    then show ?thesis using ys by (auto simp: rx_bind_def rx_opt_def rx_lit_def js_lits rx_return_def)
  qed
  then obtain vs where "rx_bind (rx_opt (rx_lit (js ''.''))) (\<lambda>_. rx_bind (rx_star is_digit) (\<lambda>b.
            rx_return (of_nat (digits_val a) + frac_val b))) (?f @ exponent_str e) = (?m, exponent_str e) # vs" by blast
  then have "\<exists>us. mantissa_rx (a @ ?f @ exponent_str e) = (?m, exponent_str e) # us"
    unfolding mantissa_rx_def rx_alt_def rx_bind_def [of "rx_plus is_digit" f "a @ t" for f t] xs by simp
  then obtain us where us: "mantissa_rx (a @ ?f @ exponent_str e) = (?m, exponent_str e) # us" by blast
  have val: "?m * (case e of None \<Rightarrow> 1 | Some k \<Rightarrow> pow10 k) = layout_val a fs e"
  proof -
    have "pow10 (nullish e 0 - int (length fs)) = pow10 (nullish e 0) * pow10 (- int (length fs))"
      by (simp flip: pow10_add)
    moreover have "pow10 (- int (length fs)) = 1 / 10 ^ length fs"
      by (simp add: pow10_powi power_int_minus inverse_eq_divide)
    moreover have "(case e of None \<Rightarrow> 1 | Some k \<Rightarrow> pow10 k) = pow10 (nullish e 0)" by (cases e) simp_all
    ultimately show ?thesis
      by (simp add: layout_val_def frac_val_def digits_val_append field_simps)
  qed
  have tail: "\<exists>vs. rx_bind mantissa_rx (\<lambda>m. rx_bind (rx_opt exp_rx) (\<lambda>e. rx_return ((if sg = Some (js ''-'') then - m else m) *
       (case e of None \<Rightarrow> 1 | Some k \<Rightarrow> pow10 k)))) (a @ ?f @ exponent_str e) =
     ((if sg = Some (js ''-'') then - layout_val a fs e else layout_val a fs e), []) # vs" for sg
  proof -
    have "\<exists>vs. rx_bind (rx_opt exp_rx) (\<lambda>e. rx_return ((if sg = Some (js ''-'') then - ?m else ?m) *
       (case e of None \<Rightarrow> 1 | Some k \<Rightarrow> pow10 k))) (exponent_str e) =
       ((if sg = Some (js ''-'') then - layout_val a fs e else layout_val a fs e), []) # vs"
      using zs val [symmetric] by (auto simp: rx_bind_def rx_return_def algebra_simps)
    then obtain vs where "rx_bind (rx_opt exp_rx) (\<lambda>e. rx_return ((if sg = Some (js ''-'') then - ?m else ?m) *
       (case e of None \<Rightarrow> 1 | Some k \<Rightarrow> pow10 k))) (exponent_str e) =
       ((if sg = Some (js ''-'') then - layout_val a fs e else layout_val a fs e), []) # vs" by blast
    then show ?thesis unfolding rx_bind_def [of mantissa_rx] us by simp
  qed
  obtain c b where c: "a = c # b" "is_digit c" using a by (cases a) auto
  have "rx_opt (rx_one_of [js ''+'', js ''-'']) (layout a fs e) = [(None, a @ ?f @ exponent_str e)]"
    using c by (auto simp: rx_opt_def rx_one_of_def js_lits is_digit_def layout_def)
  then show "\<exists>xs. decimal_rx (layout a fs e) = (layout_val a fs e, []) # xs"
    using tail [of None] unfolding decimal_rx_def by (auto simp: rx_bind_def [of "rx_opt (rx_one_of x)" for x])
  have "rx_opt (rx_one_of [js ''+'', js ''-'']) (45 # layout a fs e) =
      [(Some (js ''-''), a @ ?f @ exponent_str e), (None, 45 # layout a fs e)]"
    by (auto simp: rx_opt_def rx_one_of_def js_lits layout_def)
  then show "\<exists>xs. decimal_rx (45 # layout a fs e) = (- layout_val a fs e, []) # xs"
    using tail [of "Some (js ''-'')"] unfolding decimal_rx_def
    by (auto simp: rx_bind_def [of "rx_opt (rx_one_of x)" for x])
qed

lemma decimal_rx_num_str:
  assumes "decimal r"
  shows "\<exists>xs. decimal_rx (num_str r) = (r, []) # xs"
proof -
  consider "r = 0" | "0 < r" | "r < 0" by linarith
  then show ?thesis
  proof cases
    case 1
    then show ?thesis using decimal_rx_layout(1) [of "[48]" "[]" None]
      by (simp add: num_str_def layout_def exponent_str_def good_layout_def all_digits_def is_digit_def
          layout_val_def digits_val_def)
  next
    case 2
    then show ?thesis using pos_layout [OF assms] decimal_rx_layout(1) by (fastforce simp: num_str_def)
  next
    case 3
    then obtain a fs e where "pos_num_str (- r) = layout a fs e" "good_layout a fs" "layout_val a fs e = - r"
      using pos_layout [of "- r"] assms by auto
    then show ?thesis using decimal_rx_layout(2) [of a fs e] 3 by (simp add: num_str_def)
  qed
qed

lemma number_num_str: "decimal r \<Longrightarrow> js_number (num_str r) = Some r"
  using decimal_rx_num_str [of r] by (auto simp: js_number_def intro: rx_full_first)

subsection \<open>Decimal numbers and the numbers that are read\<close>

text \<open>\<open>parseFloat\<close>: the longest prefix that is a decimal literal, which is what the pattern tries first.\<close>

definition parse_float :: "jsstring \<Rightarrow> rat option" where
  "parse_float s = (case decimal_rx (dropWhile is_ws s) of [] \<Rightarrow> None | (r, _) # _ \<Rightarrow> Some r)"

lemma dvd_ten_power: "(d::nat) dvd 10 ^ m \<Longrightarrow> d dvd 10 ^ d"
proof (induction d rule: less_induct)
  case (less d)
  have pos: "0 < d" using less.prems by (auto intro: gr0I)
  show ?case
  proof (cases "d = 1")
    case False
    define g where "g = gcd d 10"
    have "g \<noteq> 1"
    proof
      assume "g = 1"
      then have "coprime d 10" by (simp add: g_def coprime_iff_gcd_eq_1)
      then have "coprime d (10 ^ m)" by simp
      then have "d = 1" using less.prems by (metis coprime_absorb_left nat_dvd_1_iff_1)
      then show False using False by simp
    qed
    moreover have "0 < g" using pos by (simp add: g_def)
    ultimately have g1: "1 < g" by linarith
    obtain e where e: "d = g * e" using gcd_dvd1 [of d 10] unfolding g_def [symmetric] by (elim dvdE)
    have "0 < e" using e pos by (auto intro: gr0I)
    then have "e < d" using e g1 by simp
    moreover have "e dvd 10 ^ m" using less.prems e by (metis dvd_mult_right)
    ultimately have "e dvd 10 ^ e" by (rule less.IH)
    moreover have "g dvd 10" by (simp add: g_def)
    ultimately have "d dvd 10 * 10 ^ e" unfolding e by (rule mult_dvd_mono [rotated])
    also have "10 * 10 ^ e dvd (10::nat) ^ d"
      using \<open>e < d\<close> le_imp_power_dvd [of "Suc e" d "10::nat"] by simp
    finally show ?thesis .
  qed simp
qed

lemma whole_quotient: "snd (quotient_of r) = 1 \<longleftrightarrow> (\<exists>n. r = of_int n)"
proof
  assume "snd (quotient_of r) = 1"
  then show "\<exists>n. r = of_int n" using quotient_of_div [of r "fst (quotient_of r)" 1] by (metis div_by_1 of_int_1 surjective_pairing)
next
  assume "\<exists>n. r = of_int n"
  then show "snd (quotient_of r) = 1" using quotient_of_int by (auto simp: Rat.of_int_def)
qed

lemma scale_from_finds:
  "snd (quotient_of (r * 10 ^ m)) = 1 \<Longrightarrow> m \<le> n \<Longrightarrow>
   \<exists>j. scale_from n k r = k + j \<and> snd (quotient_of (r * 10 ^ j)) = 1"
proof (induction n arbitrary: k r m)
  case (Suc n)
  show ?case
  proof (cases "snd (quotient_of r) = 1")
    case True
    then show ?thesis by (intro exI [of _ 0]) simp
  next
    case False
    then obtain m' where m: "m = Suc m'" using Suc.prems by (cases m) auto
    then have "snd (quotient_of (10 * r * 10 ^ m')) = 1" "m' \<le> n" using Suc.prems by (simp_all add: mult_ac)
    then obtain j where "scale_from n (Suc k) (10 * r) = Suc k + j" "snd (quotient_of (10 * r * 10 ^ j)) = 1"
      using Suc.IH by blast
    then show ?thesis using False by (intro exI [of _ "Suc j"]) (simp add: mult_ac)
  qed
qed (auto intro: exI [of _ 0])

lemma decimal_iff: "decimal r \<longleftrightarrow> (\<exists>n k. r = of_int n / 10 ^ k)"
proof
  assume "decimal r"
  then obtain n where "r * 10 ^ scale r = of_int n" unfolding decimal_def whole_quotient by blast
  then show "\<exists>n k. r = of_int n / 10 ^ k" by (metis eq_divide_imp power_not_zero zero_neq_numeral)
next
  assume "\<exists>n k. r = of_int n / 10 ^ k"
  then obtain n k where r: "r = of_int n / 10 ^ k" by blast
  obtain a b where q: "quotient_of r = (a, b)" by (cases "quotient_of r")
  then have b: "0 < b" "coprime a b" "r = of_int a / of_int b"
    using quotient_of_denom_pos quotient_of_coprime quotient_of_div by blast+
  have "of_int a * 10 ^ k = (of_int n * of_int b :: rat)" using b r by (simp add: field_simps)
  then have "a * 10 ^ k = n * b" by (metis of_int_eq_iff of_int_mult of_int_numeral of_int_power)
  then have "b dvd 10 ^ k" using b(2) by (metis coprime_commute coprime_dvd_mult_right_iff dvd_triv_right)
  then have "nat b dvd 10 ^ k" using b(1) by (metis int_dvd_int_iff int_nat_eq less_imp_le of_nat_numeral of_nat_power)
  then have "nat b dvd 10 ^ nat b" by (rule dvd_ten_power)
  then obtain c where "10 ^ nat b = nat b * c" by blast
  then have "(10::rat) ^ nat b = of_nat (nat b) * of_nat c" by (metis of_nat_mult of_nat_numeral of_nat_power)
  then have "r * 10 ^ nat b = of_int (a * int c)" using b by (simp add: field_simps)
  then have "snd (quotient_of (r * 10 ^ nat b)) = 1" unfolding whole_quotient by blast
  from scale_from_finds [OF this, of "nat b" 0] show "decimal r"
    by (auto simp: decimal_def scale_def q)
qed


lemma decimal_add: "decimal a \<Longrightarrow> decimal b \<Longrightarrow> decimal (a + b)"
proof -
  assume "decimal a" "decimal b"
  then obtain n k m j where "a = of_int n / 10 ^ k" "b = of_int m / 10 ^ j" unfolding decimal_iff by blast
  then have "a + b = of_int (n * 10 ^ j + m * 10 ^ k) / 10 ^ (k + j)" by (simp add: add_divide_distrib power_add)
  then show ?thesis unfolding decimal_iff by blast
qed

lemma decimal_mult: "decimal a \<Longrightarrow> decimal b \<Longrightarrow> decimal (a * b)"
proof -
  assume "decimal a" "decimal b"
  then obtain n k m j where "a = of_int n / 10 ^ k" "b = of_int m / 10 ^ j" unfolding decimal_iff by blast
  then have "a * b = of_int (n * m) / 10 ^ (k + j)" by (simp add: power_add)
  then show ?thesis unfolding decimal_iff by blast
qed

lemma decimal_shift: "decimal (of_int n / 10 ^ k)" "decimal (of_nat m / 10 ^ k)" "decimal (pow10 e)"
proof -
  show "decimal (of_int n / 10 ^ k)" unfolding decimal_iff by blast
  show "decimal (of_nat m / 10 ^ k)" unfolding decimal_iff by (metis of_int_of_nat_eq)
  show "decimal (pow10 e)"
  proof (cases "0 \<le> e")
    case True
    then show ?thesis using decimal_of_int [of "10 ^ nat e"] by (simp add: pow10_def)
  next
    case False
    then have "pow10 e = of_int 1 / 10 ^ nat (- e)" by (simp add: pow10_def)
    then show ?thesis unfolding decimal_iff by blast
  qed
qed

text \<open>Every number that the pattern reads is decimal.\<close>

lemma rx_bind_set: "(b, q) \<in> set (rx_bind p f s) \<longleftrightarrow> (\<exists>a r. (a, r) \<in> set (p s) \<and> (b, q) \<in> set (f a r))"
  by (force simp: rx_bind_def)

lemma decimal_of_digits: "decimal (of_nat n + frac_val b)" "decimal (frac_val b)"
  by (simp_all add: frac_val_def decimal_add decimal_shift)

lemma mantissa_decimal: "(m, t) \<in> set (mantissa_rx s) \<Longrightarrow> decimal m"
  by (auto simp: mantissa_rx_def rx_alt_def rx_seq_def rx_bind_set rx_return_def decimal_of_digits)

lemma decimal_rx_decimal: "(x, t) \<in> set (decimal_rx s) \<Longrightarrow> decimal x"
proof -
  assume "(x, t) \<in> set (decimal_rx s)"
  then obtain sg m e r r' where m: "(m, r') \<in> set (mantissa_rx r)"
    and x: "x = (if sg = Some (js ''-'') then - m else m) * (case e of None \<Rightarrow> 1 | Some k \<Rightarrow> pow10 k)"
    unfolding decimal_rx_def rx_bind_set rx_return_def by auto
  have "decimal (case e of None \<Rightarrow> 1 | Some k \<Rightarrow> pow10 k)" by (cases e) (simp_all add: decimal_shift)
  then show ?thesis unfolding x using mantissa_decimal [OF m] by (intro decimal_mult) auto
qed

lemma parse_float_decimal: "parse_float s = Some x \<Longrightarrow> decimal x"
proof -
  assume "parse_float s = Some x"
  then obtain t ys where "decimal_rx (dropWhile is_ws s) = (x, t) # ys" by (auto simp: parse_float_def split: list.splits)
  then have "(x, t) \<in> set (decimal_rx (dropWhile is_ws s))" by simp
  then show ?thesis by (rule decimal_rx_decimal)
qed

text \<open>Printed numbers are read back.\<close>

lemma num_str_no_ws: "decimal r \<Longrightarrow> c \<in> set (num_str r) \<Longrightarrow> \<not> is_ws c"
  by (drule (1) num_str_chars) (elim disjE insertE; simp add: is_ws_def is_digit_def)

lemma parse_float_num_str: "decimal r \<Longrightarrow> parse_float (num_str r) = Some r"
proof -
  assume r: "decimal r"
  then have "dropWhile is_ws (num_str r) = num_str r" using num_str_no_ws [OF r] by (cases "num_str r") auto
  then show ?thesis using decimal_rx_num_str [OF r] by (auto simp: parse_float_def)
qed

lemma to_number_num_str: "decimal r \<Longrightarrow> to_number_str (num_str r) = Some r"
proof -
  assume r: "decimal r"
  have "trim (num_str r) = num_str r" using num_str_no_ws [OF r] by (intro trim_no_ws) blast
  moreover have no: "take 2 (num_str r) \<noteq> [48, c]" if "\<not> is_digit c" "c \<notin> {45, 46, 101, 43}" for c
  proof
    assume "take 2 (num_str r) = [48, c]"
    then have "c \<in> set (take 2 (num_str r))" by simp
    then show False using num_str_chars [OF r] in_set_takeD that by metis
  qed
  have "take 2 (num_str r) \<notin> {js ''0x'', js ''0X''}" "take 2 (num_str r) \<notin> {js ''0o'', js ''0O''}"
    "take 2 (num_str r) \<notin> {js ''0b'', js ''0B''}"
    using no [of 120] no [of 88] no [of 111] no [of 79] no [of 98] no [of 66] by (simp_all add: js_lits is_digit_def)
  moreover have "num_str r \<noteq> []" using num_str_hd [OF r] by auto
  ultimately show ?thesis using number_num_str [OF r] by (simp add: to_number_str_def Let_def)
qed

end
