(* ===== verification/BillingExpr.thy ===== *)
theory BillingExpr
  imports JsNumber
begin

section \<open>Billing expressions\<close>

text \<open>
  Models \<^verbatim>\<open>web/default/src/features/pricing/lib/billing-expr.ts\<close>: the registry of billing
  variables, the tier parser, the parser and the printer of request rules, and the functions
  that combine a price expression with its rules and take them apart again.

  The regular expressions of the file are patterns of theory \<open>Regex\<close>.  \<open>JSON.parse\<close> of a
  captured string literal is not inside a \<open>try\<close> and can throw, so the request rule parsers
  return \<open>Inl SyntaxError\<close>, or \<open>Inr\<close> of the value the code returns, with \<open>None\<close> for
  \<open>null\<close>.  Lower-casing beyond the code itself is an argument of \<open>normalizeTierLabel\<close>.
\<close>

subsection \<open>Variable registry\<close>

datatype BillingSide = SideInput | SideOutput | SideCondition

record BillingVar =
  bv_key :: jsstring
  bv_field :: "jsstring option"
  bv_tierField :: "jsstring option"
  bv_label :: jsstring
  bv_shortLabel :: jsstring
  bv_side :: BillingSide
  bv_isBase :: bool
  bv_isConditionOnly :: bool
  bv_group :: "jsstring option"

definition base_var :: "string \<Rightarrow> string \<Rightarrow> string \<Rightarrow> string \<Rightarrow> string \<Rightarrow> BillingSide \<Rightarrow> BillingVar" where
  "base_var k f tf l sl side =
     \<lparr>bv_key = js k, bv_field = Some (js f), bv_tierField = Some (js tf), bv_label = js l,
      bv_shortLabel = js sl, bv_side = side, bv_isBase = True, bv_isConditionOnly = False,
      bv_group = None\<rparr>"

definition extra_var ::
  "string \<Rightarrow> string \<Rightarrow> string \<Rightarrow> string \<Rightarrow> string \<Rightarrow> BillingSide \<Rightarrow> string \<Rightarrow> BillingVar" where
  "extra_var k f tf l sl side g =
     \<lparr>bv_key = js k, bv_field = Some (js f), bv_tierField = Some (js tf), bv_label = js l,
      bv_shortLabel = js sl, bv_side = side, bv_isBase = False, bv_isConditionOnly = False,
      bv_group = Some (js g)\<rparr>"

definition BILLING_VARS :: "BillingVar list" where
  "BILLING_VARS =
     [base_var ''p'' ''inputPrice'' ''input_unit_cost'' ''Input price'' ''Input'' SideInput,
      base_var ''c'' ''outputPrice'' ''output_unit_cost'' ''Completion price'' ''Output'' SideOutput,
      \<lparr>bv_key = js ''len'', bv_field = None, bv_tierField = None, bv_label = js ''Input length'',
       bv_shortLabel = js ''Length'', bv_side = SideCondition, bv_isBase = False,
       bv_isConditionOnly = True, bv_group = None\<rparr>,
      extra_var ''cr'' ''cacheReadPrice'' ''cache_read_unit_cost'' ''Cache read price'' ''Cache Read''
        SideInput ''cache'',
      extra_var ''cc'' ''cacheCreatePrice'' ''cache_create_unit_cost'' ''Cache create price''
        ''Cache Write'' SideInput ''cache'',
      extra_var ''cc1h'' ''cacheCreate1hPrice'' ''cache_create_1h_unit_cost''
        ''Cache create (1h) price'' ''Cache Write (1h)'' SideInput ''cache'',
      extra_var ''img'' ''imagePrice'' ''image_unit_cost'' ''Image input price'' ''Image In''
        SideInput ''media'',
      extra_var ''img_o'' ''imageOutputPrice'' ''image_output_unit_cost'' ''Image output price''
        ''Image Out'' SideOutput ''media'',
      extra_var ''ai'' ''audioInputPrice'' ''audio_input_unit_cost'' ''Audio input price'' ''Audio In''
        SideInput ''media'',
      extra_var ''ao'' ''audioOutputPrice'' ''audio_output_unit_cost'' ''Audio output price''
        ''Audio Out'' SideOutput ''media'']"

definition BILLING_PRICING_VARS :: "BillingVar list" where
  "BILLING_PRICING_VARS = filter (\<lambda>v. \<not> bv_isConditionOnly v) BILLING_VARS"

definition BILLING_CONDITION_VARS :: "jsstring list" where
  "BILLING_CONDITION_VARS = map bv_key (filter (\<lambda>v. bv_isBase v \<or> bv_isConditionOnly v) BILLING_VARS)"

definition BILLING_VAR_KEY_TO_FIELD :: "(jsstring \<times> jsstring) list" where
  "BILLING_VAR_KEY_TO_FIELD =
     map (\<lambda>v. (bv_key v, nullish (bv_field v) [])) BILLING_PRICING_VARS"

definition BILLING_EXTRA_VARS :: "BillingVar list" where
  "BILLING_EXTRA_VARS = filter (\<lambda>v. \<not> bv_isBase v \<and> \<not> bv_isConditionOnly v) BILLING_VARS"

definition BILLING_CACHE_VAR_MAP :: "(jsstring \<times> jsstring) list" where
  "BILLING_CACHE_VAR_MAP =
     map (\<lambda>v. (nullish (bv_tierField v) [], bv_key v)) BILLING_EXTRA_VARS"

definition BILLING_VAR_REGEX :: "jschar option \<Rightarrow> (jsstring \<times> jsstring) rx" where
  "BILLING_VAR_REGEX b s =
     (if word_boundary b s
      then rx_bind (rx_one_of (map bv_key BILLING_PRICING_VARS)) (\<lambda>v.
           rx_bind (rx_star is_ws) (\<lambda>_. rx_seq (js ''*'') (
           rx_bind (rx_star is_ws) (\<lambda>_.
           rx_bind (rx_plus numeric_char) (\<lambda>n. rx_return (v, n)))))) s
      else [])"

subsection \<open>Request rule constants and types\<close>

definition MATCH_EQ :: jsstring where "MATCH_EQ = js ''eq''"
definition MATCH_CONTAINS :: jsstring where "MATCH_CONTAINS = js ''contains''"
definition MATCH_GT :: jsstring where "MATCH_GT = js ''gt''"
definition MATCH_GTE :: jsstring where "MATCH_GTE = js ''gte''"
definition MATCH_LT :: jsstring where "MATCH_LT = js ''lt''"
definition MATCH_LTE :: jsstring where "MATCH_LTE = js ''lte''"
definition MATCH_EXISTS :: jsstring where "MATCH_EXISTS = js ''exists''"
definition MATCH_RANGE :: jsstring where "MATCH_RANGE = js ''range''"
definition SOURCE_PARAM :: jsstring where "SOURCE_PARAM = js ''param''"
definition SOURCE_HEADER :: jsstring where "SOURCE_HEADER = js ''header''"
definition SOURCE_TIME :: jsstring where "SOURCE_TIME = js ''time''"

lemmas match_modes = MATCH_EQ_def MATCH_CONTAINS_def MATCH_GT_def MATCH_GTE_def MATCH_LT_def
  MATCH_LTE_def MATCH_EXISTS_def MATCH_RANGE_def SOURCE_PARAM_def SOURCE_HEADER_def SOURCE_TIME_def

definition TIME_FUNCS :: "jsstring list" where
  "TIME_FUNCS = [js ''hour'', js ''minute'', js ''weekday'', js ''month'', js ''day'']"

definition numeric_literal_rx :: "unit rx" where
  "numeric_literal_rx =
     rx_bind (rx_opt (rx_lit (js ''-''))) (\<lambda>_.
     rx_bind (rx_alt
       (rx_bind (rx_plus is_digit) (\<lambda>_. rx_bind (rx_opt (rx_lit (js ''.''))) (\<lambda>_. rx_star is_digit)))
       (rx_seq (js ''.'') (rx_plus is_digit))) (\<lambda>_.
     rx_bind (rx_opt (rx_bind (rx_one_of [js ''e'', js ''E'']) (\<lambda>_.
       rx_bind (rx_opt (rx_one_of [js ''+'', js ''-''])) (\<lambda>_. rx_plus is_digit)))) (\<lambda>_.
     rx_return ())))"

definition NUMERIC_LITERAL_REGEX :: "jsstring \<Rightarrow> bool" where
  "NUMERIC_LITERAL_REGEX s = rx_test numeric_literal_rx s"

datatype ConditionSource = FromParam | FromHeader

datatype RequestCondition =
    ParamHeaderCondition ConditionSource (cond_path: jsstring) (cond_mode: jsstring) (cond_value: jsstring)
  | TimeCondition (time_func: jsstring) (time_zone: jsstring) (cond_mode: jsstring)
      (cond_value: jsstring) (range_from: jsstring) (range_to: jsstring)

record RequestRuleGroup =
  rg_conditions :: "RequestCondition list"
  rg_multiplier :: jsstring

text \<open>The value of a tier condition is \<open>None\<close> when \<open>Number\<close> gives \<open>NaN\<close>.\<close>

record TierCondition =
  tc_var :: jsstring
  tc_op :: jsstring
  tc_value :: "rat option"

record ParsedTier =
  pt_label :: jsstring
  pt_conditions :: "TierCondition list"
  pt_prices :: "(jsstring \<times> rat) list"

subsection \<open>Tier parser\<close>

definition version_rx :: "(jsstring \<times> jsstring) rx" where
  "version_rx = rx_seq (js ''v'') (rx_bind (rx_plus is_digit) (\<lambda>d. rx_seq (js '':'')
     (rx_bind (rx_star (\<lambda>_. True)) (\<lambda>b. rx_return (d, b)))))"

definition stripExprVersion :: "jsstring \<Rightarrow> nat \<times> jsstring" where
  "stripExprVersion exprStr =
     (if exprStr = [] then (1, [])
      else case rx_full version_rx exprStr of
             Some (d, body) \<Rightarrow> (digits_val d, body)
           | None \<Rightarrow> (1, exprStr))"

definition parseTierBody :: "jsstring \<Rightarrow> (jsstring \<times> rat) list" where
  "parseTierBody bodyStr =
     (let coeffs = map (\<lambda>(v, n). (v, js_number n)) (rx_search BILLING_VAR_REGEX None bodyStr)
      in map (\<lambda>(varName, fld).
           (fld, case obj_get coeffs varName of Some (Some x) \<Rightarrow> x | _ \<Rightarrow> 0))
         BILLING_VAR_KEY_TO_FIELD)"

definition cond_number_char :: "jschar \<Rightarrow> bool" where
  "cond_number_char c \<longleftrightarrow> is_digit c \<or> c = 46 \<or> c = 101 \<or> c = 69 \<or> c = 43"

definition COMPARISONS :: "jsstring list" where
  "COMPARISONS = [js ''<'', js ''<='', js ''>'', js ''>='']"

definition tier_cond_rx :: "(jsstring \<times> jsstring \<times> jsstring) rx" where
  "tier_cond_rx =
     rx_bind (rx_one_of [js ''p'', js ''c'', js ''len'']) (\<lambda>v. rx_bind (rx_star is_ws) (\<lambda>_.
     rx_bind (rx_one_of COMPARISONS) (\<lambda>op. rx_bind (rx_star is_ws) (\<lambda>_.
     rx_bind (rx_plus cond_number_char) (\<lambda>n. rx_return (v, op, n))))))"

text \<open>Greedy repetition of \<^verbatim>\<open>\s*&&\s*\<close> and a further condition; the fuel bounds the
  number of repetitions, each of which consumes a code unit.\<close>

fun rx_many :: "nat \<Rightarrow> 'a rx \<Rightarrow> unit rx" where
  "rx_many 0 p s = [((), s)]"
| "rx_many (Suc n) p s =
     concat (map (\<lambda>(a, r). if length r < length s then rx_many n p r else []) (p s)) @ [((), s)]"

definition cond_group_rx :: "jsstring rx" where
  "cond_group_rx s = rx_capture (rx_bind tier_cond_rx (\<lambda>_.
     rx_many (length s) (rx_bind (rx_star is_ws) (\<lambda>_. rx_seq (js ''&&'')
       (rx_bind (rx_star is_ws) (\<lambda>_. tier_cond_rx)))))) s"

definition tier_rx :: "(jsstring option \<times> jsstring \<times> jsstring) rx" where
  "tier_rx =
     rx_bind (rx_opt (rx_bind cond_group_rx (\<lambda>g. rx_bind (rx_star is_ws) (\<lambda>_.
       rx_seq (js ''?'') (rx_bind (rx_star is_ws) (\<lambda>_. rx_return g)))))) (\<lambda>g.
     rx_seq (js ''tier(\"'') (rx_bind (rx_star not_quote) (\<lambda>label. rx_seq (js ''\",'')
     (rx_bind (rx_star is_ws) (\<lambda>_. rx_bind (rx_plus (\<lambda>c. c \<noteq> 41)) (\<lambda>body.
     rx_seq (js '')'') (rx_return (g, label, body))))))))"

fun split_str_fuel :: "nat \<Rightarrow> jsstring \<Rightarrow> jsstring \<Rightarrow> jsstring list" where
  "split_str_fuel 0 sep s = [s]"
| "split_str_fuel (Suc n) sep s =
     (case find_sub sep s of
        None \<Rightarrow> [s]
      | Some k \<Rightarrow> take k s # split_str_fuel n sep (drop (k + length sep) s))"

text \<open>The pieces between \<^verbatim>\<open>&&\<close>; the blanks around them are trimmed by the caller.\<close>

definition split_and :: "jsstring \<Rightarrow> jsstring list" where
  "split_and s = split_str_fuel (length s) (js ''&&'') s"

definition parse_tier_conditions :: "jsstring \<Rightarrow> TierCondition list" where
  "parse_tier_conditions condStr =
     (if condStr = [] then []
      else List.map_filter (\<lambda>cp.
        map_option (\<lambda>(v, op, n). \<lparr>tc_var = v, tc_op = op, tc_value = js_number n\<rparr>)
          (rx_full tier_cond_rx (trim cp))) (split_and condStr))"

definition parseTiersFromExpr :: "jsstring \<Rightarrow> ParsedTier list" where
  "parseTiersFromExpr exprStr =
     (if exprStr = [] then []
      else map (\<lambda>(g, label, body).
             \<lparr>pt_label = label,
              pt_conditions = parse_tier_conditions (case g of None \<Rightarrow> [] | Some t \<Rightarrow> t),
              pt_prices = parseTierBody body\<rparr>)
           (rx_search (\<lambda>_. tier_rx) None (snd (stripExprVersion exprStr))))"

text \<open>The comparison signs of a label: ASCII, full width, and the single sign for
  ``or equal''.\<close>

fun fold_signs :: "jschar \<Rightarrow> jschar \<Rightarrow> jschar \<Rightarrow> jsstring \<Rightarrow> jsstring" where
  "fold_signs sign both wide [] = []"
| "fold_signs sign both wide (c # s) =
     (if c = sign \<or> c = wide
      then sign #
        (case s of
           [] \<Rightarrow> []
         | d # r \<Rightarrow> if d = 61 \<or> d = 65309 then fold_signs sign both wide r
                    else fold_signs sign both wide s)
      else if c = both then sign # fold_signs sign both wide s
      else c # fold_signs sign both wide s)"

definition normalizeTierLabel :: "(jsstring \<Rightarrow> jsstring) \<Rightarrow> jsstring option \<Rightarrow> jsstring" where
  "normalizeTierLabel toLowerCase label =
     (case label of
        None \<Rightarrow> []
      | Some l \<Rightarrow>
          if l = [] then []
          else toLowerCase (filter (\<lambda>c. \<not> is_ws c)
                 (fold_signs 62 8805 65310 (fold_signs 60 8804 65308 l))))"


subsection \<open>Request rule parser\<close>

text \<open>
  The scan of \<open>splitTopLevelMultiply\<close> and \<open>splitTopLevelAnd\<close>: the depth counts the
  parentheses up to and including the current code unit, also inside string literals, and the
  separator splits where the depth is zero.  \<open>cur\<close> is the text since the last split.
\<close>

definition depth_after :: "int \<Rightarrow> jschar \<Rightarrow> int" where
  "depth_after d c = (if c = 40 then d + 1 else if c = 41 then d - 1 else d)"

function split_scan :: "jsstring \<Rightarrow> int \<Rightarrow> jsstring \<Rightarrow> jsstring \<Rightarrow> jsstring list" where
  "split_scan sep d cur [] = [trim cur]"
| "split_scan sep d cur (c # s) =
     (if depth_after d c = 0 \<and> prefix sep (c # s)
      then trim cur # split_scan sep (depth_after d c) [] (drop (length sep - 1) s)
      else split_scan sep (depth_after d c) (cur @ [c]) s)"
  by pat_completeness auto
termination
  by (relation "measure (\<lambda>(sep, d, cur, s). length s)") auto

definition splitTopLevelMultiply :: "jsstring \<Rightarrow> jsstring list" where
  "splitTopLevelMultiply expr = truthy_strs (split_scan (js '' * '') 0 [] expr)"

definition splitTopLevelAnd :: "jsstring \<Rightarrow> jsstring list" where
  "splitTopLevelAnd expr = truthy_strs (split_scan (js '' && '') 0 [] expr)"

text \<open>\<open>JSON.parse\<close> may give any value; \<open>null\<close> and a caught exception are \<open>None\<close>.\<close>

definition parseExprLiteral :: "jsstring \<Rightarrow> jsval option" where
  "parseExprLiteral raw =
     (let text = trim raw in
      if text = js ''true'' \<or> text = js ''false'' then Some (JStr text)
      else if NUMERIC_LITERAL_REGEX text then Some (JStr text)
      else case JSON_parse text of Some JNull \<Rightarrow> None | v \<Rightarrow> v)"

definition time_range_rx :: "jsstring \<Rightarrow> (jsstring \<times> jsstring \<times> jsstring \<times> jsstring) rx" where
  "time_range_rx close =
     rx_bind (rx_one_of TIME_FUNCS) (\<lambda>f. rx_seq (js ''(\"'')
     (rx_bind (rx_plus not_quote) (\<lambda>tz. rx_seq (js ''\") >= '')
     (rx_bind (rx_plus numeric_char) (\<lambda>s.
        rx_seq (js '' || '' @ f @ js ''(\"'' @ tz @ js ''\") < '')
     (rx_bind (rx_plus numeric_char) (\<lambda>e. rx_seq close (rx_return (f, tz, s, e)))))))))"

definition time_compare_rx :: "(jsstring \<times> jsstring \<times> jsstring \<times> jsstring) rx" where
  "time_compare_rx =
     rx_bind (rx_one_of TIME_FUNCS) (\<lambda>f. rx_seq (js ''(\"'')
     (rx_bind (rx_plus not_quote) (\<lambda>tz. rx_seq (js ''\") '')
     (rx_bind (rx_one_of [js ''=='', js ''>='', js ''<'']) (\<lambda>op. rx_seq (js '' '')
     (rx_bind (rx_plus numeric_char) (\<lambda>v. rx_return (f, tz, op, v))))))))"

definition time_op_mode :: "jsstring \<Rightarrow> jsstring" where
  "time_op_mode op =
     (if op = js ''=='' then MATCH_EQ else if op = js ''>='' then MATCH_GTE
      else if op = js ''<'' then MATCH_LT else MATCH_EQ)"

definition tryParseTimeCondition :: "jsstring \<Rightarrow> RequestCondition option" where
  "tryParseTimeCondition expr =
     (case rx_full (time_range_rx []) expr of
        Some (f, tz, s, e) \<Rightarrow> Some (TimeCondition f tz MATCH_RANGE [] s e)
      | None \<Rightarrow>
     (case rx_full (rx_seq (js ''('') (time_range_rx (js '')''))) expr of
        Some (f, tz, s, e) \<Rightarrow> Some (TimeCondition f tz MATCH_RANGE [] s e)
      | None \<Rightarrow>
     (case rx_full time_compare_rx expr of
        Some (f, tz, op, v) \<Rightarrow> Some (TimeCondition f tz (time_op_mode op) v [] [])
      | None \<Rightarrow> None)))"

text \<open>A string literal with escapes, as the text it was written.\<close>

fun rx_strbody :: "jsstring \<Rightarrow> (jsstring \<times> jsstring) list" where
  "rx_strbody [] = [([], [])]"
| "rx_strbody (c # s) =
     (if c = 92 then
        (case s of
           [] \<Rightarrow> []
         | d # r \<Rightarrow> if rx_dot d then map (\<lambda>(a, t). (c # d # a, t)) (rx_strbody r) else [])
      else if c = 34 then []
      else map (\<lambda>(a, t). (c # a, t)) (rx_strbody s)) @ [([], c # s)]"

definition rx_string :: "jsstring rx" where
  "rx_string = rx_seq (js ''\"'') (rx_bind rx_strbody (\<lambda>a. rx_seq (js ''\"'') (rx_return ([34] @ a @ [34]))))"

definition source_name :: "ConditionSource \<Rightarrow> jsstring" where
  "source_name src = (case src of FromParam \<Rightarrow> SOURCE_PARAM | FromHeader \<Rightarrow> SOURCE_HEADER)"

definition path_rx :: "jsstring \<Rightarrow> (jsstring \<Rightarrow> 'b rx) \<Rightarrow> 'b rx" where
  "path_rx name k = rx_seq (name @ js ''(\"'')
     (rx_bind (rx_plus not_quote) (\<lambda>p. rx_seq (js ''\")'') (k p)))"

definition exists_rx :: "jsstring \<Rightarrow> jsstring \<Rightarrow> jsstring rx" where
  "exists_rx name absent = path_rx name (\<lambda>p. rx_seq (js '' != '' @ absent) (rx_return p))"

definition has_header_rx :: "(jsstring \<times> jsstring) rx" where
  "has_header_rx = rx_seq (js ''has('') (path_rx SOURCE_HEADER (\<lambda>p. rx_seq (js '', '')
     (rx_bind rx_string (\<lambda>v. rx_seq (js '')'') (rx_return (p, v))))))"

definition has_param_rx :: "(jsstring \<times> jsstring \<times> jsstring) rx" where
  "has_param_rx = path_rx SOURCE_PARAM (\<lambda>p. rx_seq (js '' != nil && has('')
     (path_rx SOURCE_PARAM (\<lambda>q. rx_seq (js '', '')
     (rx_bind rx_string (\<lambda>v. rx_seq (js '')'') (rx_return (p, q, v)))))))"

definition compare_param_rx :: "(jsstring \<times> jsstring \<times> jsstring \<times> jsstring) rx" where
  "compare_param_rx = path_rx SOURCE_PARAM (\<lambda>p. rx_seq (js '' != nil && '')
     (path_rx SOURCE_PARAM (\<lambda>q. rx_seq (js '' '')
     (rx_bind (rx_one_of [js ''>'', js ''>='', js ''<'', js ''<='']) (\<lambda>op. rx_seq (js '' '')
     (rx_bind (rx_plus numeric_char) (\<lambda>v. rx_return (p, q, op, v))))))))"

definition equal_rx :: "(ConditionSource \<times> jsstring \<times> jsstring) rx" where
  "equal_rx = rx_alt
     (path_rx SOURCE_PARAM (\<lambda>p. rx_seq (js '' == '')
        (rx_bind (rx_plus rx_dot) (\<lambda>v. rx_return (FromParam, p, v)))))
     (path_rx SOURCE_HEADER (\<lambda>p. rx_seq (js '' == '')
        (rx_bind (rx_plus rx_dot) (\<lambda>v. rx_return (FromHeader, p, v)))))"

definition param_op_mode :: "jsstring \<Rightarrow> jsstring" where
  "param_op_mode op =
     (if op = js ''>'' then MATCH_GT else if op = js ''>='' then MATCH_GTE
      else if op = js ''<'' then MATCH_LT else MATCH_LTE)"

datatype js_error = SyntaxError

type_synonym 'a outcome = "js_error + 'a option"

definition contains_condition :: "ConditionSource \<Rightarrow> jsstring \<Rightarrow> jsstring \<Rightarrow> RequestCondition outcome" where
  "contains_condition src path lit =
     (case JSON_parse lit of
        None \<Rightarrow> Inl SyntaxError
      | Some v \<Rightarrow> Inr (Some (ParamHeaderCondition src path MATCH_CONTAINS (to_str v))))"

definition tryParseRequestCondition :: "jsstring \<Rightarrow> RequestCondition outcome" where
  "tryParseRequestCondition expr =
     (case tryParseTimeCondition expr of Some tc \<Rightarrow> Inr (Some tc) | None \<Rightarrow>
     (case rx_full (exists_rx SOURCE_HEADER (js ''\"\"'')) expr of
        Some p \<Rightarrow> Inr (Some (ParamHeaderCondition FromHeader p MATCH_EXISTS [])) | None \<Rightarrow>
     (case rx_full (exists_rx SOURCE_PARAM (js ''nil'')) expr of
        Some p \<Rightarrow> Inr (Some (ParamHeaderCondition FromParam p MATCH_EXISTS [])) | None \<Rightarrow>
     (case rx_full has_header_rx expr of
        Some (p, lit) \<Rightarrow> contains_condition FromHeader p lit | None \<Rightarrow>
     (case Option.bind (rx_full has_param_rx expr) (\<lambda>(p, q, lit). if p = q then Some (p, lit) else None) of
        Some (p, lit) \<Rightarrow> contains_condition FromParam p lit | None \<Rightarrow>
     (case Option.bind (rx_full compare_param_rx expr)
             (\<lambda>(p, q, op, v). if p = q then Some (p, op, v) else None) of
        Some (p, op, v) \<Rightarrow> Inr (Some (ParamHeaderCondition FromParam p (param_op_mode op) v)) | None \<Rightarrow>
     (case rx_full equal_rx expr of
        Some (src, p, raw) \<Rightarrow>
          Inr (map_option (\<lambda>v. ParamHeaderCondition src p MATCH_EQ (to_str v)) (parseExprLiteral raw))
      | None \<Rightarrow> Inr None)))))))"

fun parse_all :: "(jsstring \<Rightarrow> 'a outcome) \<Rightarrow> jsstring list \<Rightarrow> 'a list outcome" where
  "parse_all f [] = Inr (Some [])"
| "parse_all f (p # ps) =
     (case f p of
        Inl e \<Rightarrow> Inl e
      | Inr None \<Rightarrow> Inr None
      | Inr (Some x) \<Rightarrow>
          (case parse_all f ps of
             Inl e \<Rightarrow> Inl e
           | Inr None \<Rightarrow> Inr None
           | Inr (Some xs) \<Rightarrow> Inr (Some (x # xs))))"

definition factor_rx :: "(jsstring \<times> jsstring) rx" where
  "factor_rx = rx_seq (js ''('') (rx_bind (rx_plus (\<lambda>_. True)) (\<lambda>cond. rx_seq (js '' ? '')
     (rx_bind (rx_plus numeric_char) (\<lambda>m. rx_seq (js '' : 1)'') (rx_return (cond, m))))))"

definition tryParseRuleGroupFactor :: "jsstring \<Rightarrow> RequestRuleGroup outcome" where
  "tryParseRuleGroupFactor part =
     (case rx_full factor_rx part of
        None \<Rightarrow> Inr None
      | Some (conditionStr, multiplier) \<Rightarrow>
          (case parse_all (\<lambda>ap. tryParseRequestCondition (trim ap)) (splitTopLevelAnd conditionStr) of
             Inl e \<Rightarrow> Inl e
           | Inr None \<Rightarrow> Inr None
           | Inr (Some conditions) \<Rightarrow>
               if conditions = [] then Inr None
               else Inr (Some \<lparr>rg_conditions = conditions, rg_multiplier = multiplier\<rparr>)))"

definition tryParseRequestRuleExpr :: "jsstring \<Rightarrow> RequestRuleGroup list outcome" where
  "tryParseRequestRuleExpr expr =
     (let trimmed = trim expr in
      if trimmed = [] then Inr (Some [])
      else parse_all tryParseRuleGroupFactor (splitTopLevelMultiply trimmed))"

subsection \<open>Combining and splitting\<close>

fun outer_scan :: "int \<Rightarrow> jsstring \<Rightarrow> bool" where
  "outer_scan d [] = (d = 0)"
| "outer_scan d (c # s) =
     (if depth_after d c = 0 \<and> s \<noteq> [] then False else outer_scan (depth_after d c) s)"

definition hasFullOuterParens :: "jsstring \<Rightarrow> bool" where
  "hasFullOuterParens expr \<longleftrightarrow>
     \<not> (\<not> prefix (js ''('') expr \<or> \<not> suffix (js '')'') expr) \<and> outer_scan 0 expr"

lemma length_trim: "length (trim s) \<le> length s"
  unfolding trim_def by (metis length_dropWhile_le length_rev order_trans)

text \<open>\<open>slice(1, -1)\<close>; on a string that starts and ends with a parenthesis it is shorter.\<close>

function unwrap_loop :: "jsstring \<Rightarrow> jsstring" where
  "unwrap_loop current =
     (if hasFullOuterParens current then unwrap_loop (trim (butlast (tl current))) else current)"
  by pat_completeness auto
termination
proof (relation "measure length")
  fix current assume "hasFullOuterParens current"
  then have "current \<noteq> []" by (auto simp: hasFullOuterParens_def js_lits)
  then have "length (butlast (tl current)) < length current" by (cases current) auto
  with length_trim [of "butlast (tl current)"]
  show "(trim (butlast (tl current)), current) \<in> measure length" by simp
qed simp

declare unwrap_loop.simps [simp del]

definition unwrapOuterParens :: "jsstring \<Rightarrow> jsstring" where
  "unwrapOuterParens expr = unwrap_loop (trim expr)"

record split_billing =
  billingExpr :: jsstring
  requestRuleExpr :: jsstring

text \<open>The \<open>forEach\<close>: rule parts and base parts, or the exception of the first part that throws.\<close>

fun sort_parts :: "jsstring list \<Rightarrow> js_error + (jsstring list \<times> jsstring list)" where
  "sort_parts [] = Inr ([], [])"
| "sort_parts (part # ps) =
     (case tryParseRequestRuleExpr part of
        Inl e \<Rightarrow> Inl e
      | Inr parsed \<Rightarrow>
          (case sort_parts ps of
             Inl e \<Rightarrow> Inl e
           | Inr (rules, bases) \<Rightarrow>
               (case parsed of
                  Some (g # gs) \<Rightarrow> Inr (part # rules, bases)
                | _ \<Rightarrow> Inr (rules, part # bases))))"

definition splitBillingExprAndRequestRules :: "jsstring \<Rightarrow> js_error + split_billing" where
  "splitBillingExprAndRequestRules expr =
     (let trimmed = trim expr in
      if trimmed = [] then Inr \<lparr>billingExpr = [], requestRuleExpr = []\<rparr>
      else
        let parts = splitTopLevelMultiply trimmed in
        if length parts \<le> 1 then Inr \<lparr>billingExpr = trimmed, requestRuleExpr = []\<rparr>
        else case sort_parts parts of
               Inl e \<Rightarrow> Inl e
             | Inr (ruleParts, baseParts) \<Rightarrow>
                 if length ruleParts = 0 \<or> length baseParts \<noteq> 1
                 then Inr \<lparr>billingExpr = trimmed, requestRuleExpr = []\<rparr>
                 else Inr \<lparr>billingExpr = unwrapOuterParens (hd baseParts),
                           requestRuleExpr = join (js '' * '') ruleParts\<rparr>)"

definition combineBillingExpr :: "jsstring \<Rightarrow> jsstring \<Rightarrow> jsstring" where
  "combineBillingExpr baseExpr rulesExpr =
     (let base = trim baseExpr; rules = trim rulesExpr in
      if base = [] then []
      else if rules = [] then base
      else js ''('' @ base @ js '') * '' @ rules)"


subsection \<open>Editor: constructors, options, normalisation\<close>

definition createEmptyCondition :: RequestCondition where
  "createEmptyCondition = ParamHeaderCondition FromParam [] MATCH_EQ []"

definition createEmptyTimeCondition :: RequestCondition where
  "createEmptyTimeCondition =
     TimeCondition (js ''hour'') (js ''Asia/Shanghai'') MATCH_GTE [] [] []"

definition createEmptyRuleGroup :: RequestRuleGroup where
  "createEmptyRuleGroup = \<lparr>rg_conditions = [createEmptyCondition], rg_multiplier = []\<rparr>"

definition createEmptyTimeRuleGroup :: RequestRuleGroup where
  "createEmptyTimeRuleGroup = \<lparr>rg_conditions = [createEmptyTimeCondition], rg_multiplier = []\<rparr>"

record MatchOption =
  mo_value :: jsstring
  mo_labelKey :: jsstring

definition match_option :: "jsstring \<Rightarrow> string \<Rightarrow> MatchOption" where
  "match_option v l = \<lparr>mo_value = v, mo_labelKey = js l\<rparr>"

definition getRequestRuleMatchOptions :: "jsstring \<Rightarrow> MatchOption list" where
  "getRequestRuleMatchOptions source =
     (if source = SOURCE_TIME
      then [match_option MATCH_EQ ''Equals'', match_option MATCH_GTE ''Greater than or equal'',
            match_option MATCH_LT ''Less than'', match_option MATCH_RANGE ''Overnight range'']
      else
        let base = [match_option MATCH_EQ ''Equals'', match_option MATCH_CONTAINS ''Contains'',
                    match_option MATCH_EXISTS ''Exists'']
        in if source = SOURCE_HEADER then base
           else base @ [match_option MATCH_GT ''Greater than'',
                        match_option MATCH_GTE ''Greater than or equal'',
                        match_option MATCH_LT ''Less than'',
                        match_option MATCH_LTE ''Less than or equal''])"

text \<open>A partial condition: every property may be missing.\<close>

record PartialCondition =
  pc_source :: "jsstring option"
  pc_path :: "jsstring option"
  pc_timeFunc :: "jsstring option"
  pc_timezone :: "jsstring option"
  pc_mode :: "jsstring option"
  pc_value :: "jsstring option"
  pc_rangeStart :: "jsstring option"
  pc_rangeEnd :: "jsstring option"

definition to_partial :: "RequestCondition \<Rightarrow> PartialCondition" where
  "to_partial cond =
     (case cond of
        ParamHeaderCondition src path mode v \<Rightarrow>
          \<lparr>pc_source = Some (source_name src), pc_path = Some path, pc_timeFunc = None,
           pc_timezone = None, pc_mode = Some mode, pc_value = Some v, pc_rangeStart = None,
           pc_rangeEnd = None\<rparr>
      | TimeCondition f tz mode v rs re \<Rightarrow>
          \<lparr>pc_source = Some SOURCE_TIME, pc_path = None, pc_timeFunc = Some f,
           pc_timezone = Some tz, pc_mode = Some mode, pc_value = Some v, pc_rangeStart = Some rs,
           pc_rangeEnd = Some re\<rparr>)"

definition isTimeFunc :: "jsstring option \<Rightarrow> bool" where
  "isTimeFunc v = (case v of Some s \<Rightarrow> s \<in> set TIME_FUNCS | None \<Rightarrow> False)"

definition valid_mode :: "jsstring \<Rightarrow> jsstring option \<Rightarrow> jsstring \<Rightarrow> jsstring" where
  "valid_mode source mode fallback =
     (case mode of
        Some m \<Rightarrow> if m \<in> set (map mo_value (getRequestRuleMatchOptions source)) then m else fallback
      | None \<Rightarrow> fallback)"

definition normalizeCondition :: "PartialCondition \<Rightarrow> RequestCondition" where
  "normalizeCondition cond =
     (if pc_source cond = Some SOURCE_TIME
      then TimeCondition
             (if isTimeFunc (pc_timeFunc cond) then nullish (pc_timeFunc cond) [] else js ''hour'')
             (case pc_timezone cond of
                Some tz \<Rightarrow> if tz \<noteq> [] then tz else js ''Asia/Shanghai''
              | None \<Rightarrow> js ''Asia/Shanghai'')
             (valid_mode SOURCE_TIME (pc_mode cond) MATCH_GTE)
             (nullish (pc_value cond) []) (nullish (pc_rangeStart cond) [])
             (nullish (pc_rangeEnd cond) [])
      else
        let src = (if pc_source cond = Some SOURCE_HEADER then FromHeader else FromParam)
        in ParamHeaderCondition src (nullish (pc_path cond) [])
             (valid_mode (source_name src) (pc_mode cond) MATCH_EQ) (nullish (pc_value cond) []))"

subsection \<open>Editor: printing\<close>

definition buildExprLiteral :: "jsstring \<Rightarrow> jsstring \<Rightarrow> jsstring" where
  "buildExprLiteral mode v =
     (let text = trim v in
      if mode = MATCH_CONTAINS then quote text
      else if text = js ''true'' \<or> text = js ''false'' then text
      else if NUMERIC_LITERAL_REGEX text then text
      else quote text)"

definition time_mode_op :: "jsstring \<Rightarrow> jsstring" where
  "time_mode_op mode =
     (if mode = MATCH_EQ then js ''=='' else if mode = MATCH_GTE then js ''>=''
      else if mode = MATCH_LT then js ''<'' else js ''=='')"

definition time_expr :: "jsstring \<Rightarrow> jsstring \<Rightarrow> jsstring \<Rightarrow> jsstring \<Rightarrow> jsstring \<Rightarrow> jsstring \<Rightarrow> jsstring" where
  "time_expr f tz mode v rs re =
     (let fn = f @ js ''('' @ quote tz @ js '')'' in
      if mode = MATCH_RANGE
      then (let s = trim rs; e = trim re in
            if \<not> NUMERIC_LITERAL_REGEX s \<or> \<not> NUMERIC_LITERAL_REGEX e then []
            else fn @ js '' >= '' @ s @ js '' || '' @ fn @ js '' < '' @ e)
      else (let w = trim v in
            if \<not> NUMERIC_LITERAL_REGEX w then []
            else fn @ js '' '' @ time_mode_op mode @ js '' '' @ w))"

definition param_mode_op :: "jsstring \<Rightarrow> jsstring" where
  "param_mode_op mode =
     (if mode = MATCH_GT then js ''>'' else if mode = MATCH_GTE then js ''>=''
      else if mode = MATCH_LT then js ''<'' else js ''<='')"

definition param_header_expr :: "ConditionSource \<Rightarrow> jsstring \<Rightarrow> jsstring \<Rightarrow> jsstring \<Rightarrow> jsstring" where
  "param_header_expr src rawPath mode v =
     (let path = trim rawPath in
      if path = [] then []
      else
        let sourceExpr = source_name src @ js ''('' @ quote path @ js '')'' in
        if mode = MATCH_EXISTS
        then (if src = FromHeader then sourceExpr @ js '' != \"\"'' else sourceExpr @ js '' != nil'')
        else if mode = MATCH_CONTAINS
        then (if src = FromHeader
              then js ''has('' @ sourceExpr @ js '', '' @ buildExprLiteral mode v @ js '')''
              else sourceExpr @ js '' != nil && has('' @ sourceExpr @ js '', '' @
                     buildExprLiteral mode v @ js '')'')
        else if mode = MATCH_GT \<or> mode = MATCH_GTE \<or> mode = MATCH_LT \<or> mode = MATCH_LTE
        then (let numText = trim v in
              if \<not> NUMERIC_LITERAL_REGEX numText then []
              else sourceExpr @ js '' != nil && '' @ sourceExpr @ js '' '' @ param_mode_op mode @
                     js '' '' @ numText)
        else sourceExpr @ js '' == '' @ buildExprLiteral mode v)"

definition buildTimeConditionExpr :: "RequestCondition \<Rightarrow> jsstring" where
  "buildTimeConditionExpr cond =
     (case normalizeCondition (to_partial cond) of
        TimeCondition f tz mode v rs re \<Rightarrow> time_expr f tz mode v rs re
      | ParamHeaderCondition src path mode v \<Rightarrow> [])"

definition buildRequestConditionExpr :: "RequestCondition \<Rightarrow> jsstring" where
  "buildRequestConditionExpr cond =
     (case cond of
        TimeCondition f tz mode v rs re \<Rightarrow> buildTimeConditionExpr cond
      | ParamHeaderCondition s p m w \<Rightarrow>
          (case normalizeCondition (to_partial cond) of
             ParamHeaderCondition src path mode v \<Rightarrow> param_header_expr src path mode v
           | TimeCondition f tz mode v rs re \<Rightarrow> []))"

definition buildRuleGroupFactor :: "RequestRuleGroup \<Rightarrow> jsstring" where
  "buildRuleGroupFactor rgroup =
     (let multiplier = trim (rg_multiplier rgroup) in
      if \<not> NUMERIC_LITERAL_REGEX multiplier then []
      else
        let condExprs = truthy_strs (map buildRequestConditionExpr (rg_conditions rgroup)) in
        if length condExprs = 0 then []
        else
          let combined =
                (if length condExprs = 1 then hd condExprs
                 else join (js '' && '') (map (\<lambda>e. if str_includes e (js '' || '')
                        then js ''('' @ e @ js '')'' else e) condExprs))
          in js ''('' @ combined @ js '' ? '' @ multiplier @ js '' : 1)'')"

definition buildRequestRuleExpr :: "RequestRuleGroup list \<Rightarrow> jsstring" where
  "buildRequestRuleExpr groups = join (js '' * '') (truthy_strs (map buildRuleGroupFactor groups))"

end
