(* ===== verification/BillingRules.thy ===== *)
theory BillingRules
  imports BillingExpr
begin

section \<open>Request rules: printing and parsing are inverse\<close>

text \<open>
  The printer \<open>buildRequestRuleExpr\<close> and the parser \<open>tryParseRequestRuleExpr\<close> of the rule
  editor, and \<open>combineBillingExpr\<close> with \<open>splitBillingExprAndRequestRules\<close>.  The rules
  that survive the round trip are those of \<open>wf_group\<close>: paths, time zones and values of plain
  text (no quotes, parentheses, ampersands or bars), numbers where the mode needs one.  The
  comparisons and \<open>contains\<close> on a request parameter are outside: what is printed for them is
  not read back, which is a theorem as well.
\<close>

subsection \<open>Plain texts and numeric literals\<close>

definition plain_char :: "jschar \<Rightarrow> bool" where
  "plain_char c \<longleftrightarrow> 32 \<le> c \<and> c \<le> 65535 \<and> \<not> (55296 \<le> c \<and> c < 57344) \<and>
     c \<notin> {34, 38, 40, 41, 92, 124, 8232, 8233}"

definition plain :: "jsstring \<Rightarrow> bool" where
  "plain s \<longleftrightarrow> trimmed s \<and> (\<forall>c\<in>set s. plain_char c)"

lemma plain_char_facts:
  assumes "plain_char c"
  shows "0 \<le> c" "c < 65536" "\<not> high_surrogate c" "\<not> low_surrogate c" "escape_char c = [c]"
    "not_quote c" "rx_dot c" "c \<noteq> 34" "c \<noteq> 38" "c \<noteq> 40" "c \<noteq> 41" "c \<noteq> 92" "c \<noteq> 124"
  using assms
  by (simp_all add: plain_char_def high_surrogate_def low_surrogate_def escape_char_def not_quote_def
      rx_dot_def) (linarith+)?

lemma not_plain_char [simp]: "\<not> plain_char 124" "\<not> plain_char 38" "\<not> plain_char 40" "\<not> plain_char 41"
  by (simp_all add: plain_char_def)

lemma quote_chars_plain: "\<forall>c\<in>set s. plain_char c \<Longrightarrow> quote_chars s = s"
  by (induction s rule: quote_chars.induct) (simp_all add: plain_char_facts)

lemma quote_plain: "plain s \<Longrightarrow> quote s = 34 # s @ [34]"
  by (simp add: plain_def quote_def quote_chars_plain)

lemma utf16_plain: "plain s \<Longrightarrow> utf16 s"
  by (simp add: plain_def utf16_def plain_char_facts)

lemma trim_plain: "plain s \<Longrightarrow> trim s = s"
  by (simp add: plain_def trim_trimmed)

lemma plain_not_quote: "plain s \<Longrightarrow> \<forall>c\<in>set s. not_quote c"
  by (simp add: plain_def plain_char_facts)

text \<open>What a pattern consumes.\<close>

definition consumes :: "(jschar \<Rightarrow> bool) \<Rightarrow> 'a rx \<Rightarrow> bool" where
  "consumes P p \<longleftrightarrow> (\<forall>s a r. (a, r) \<in> set (p s) \<longrightarrow> (\<exists>u. s = u @ r \<and> (\<forall>c\<in>set u. P c)))"

lemma consumesD: "consumes P p \<Longrightarrow> (a, r) \<in> set (p s) \<Longrightarrow> \<exists>u. s = u @ r \<and> (\<forall>c\<in>set u. P c)"
  by (simp add: consumes_def)

lemma consumes_return: "consumes P (rx_return a)"
  by (simp add: consumes_def rx_return_def)

lemma consumes_bind:
  assumes "consumes P p" "\<And>a. consumes P (f a)"
  shows "consumes P (rx_bind p f)"
  unfolding consumes_def
proof (intro allI impI)
  fix s b r assume "(b, r) \<in> set (rx_bind p f s)"
  then obtain a t where "(a, t) \<in> set (p s)" "(b, r) \<in> set (f a t)" by (auto simp: rx_bind_def)
  then obtain u v where "s = u @ t" "\<forall>c\<in>set u. P c" "t = v @ r" "\<forall>c\<in>set v. P c"
    using assms by (meson consumesD)
  then show "\<exists>u. s = u @ r \<and> (\<forall>c\<in>set u. P c)" by (intro exI [of _ "u @ v"]) auto
qed

lemma consumes_lit: "\<forall>c\<in>set t. P c \<Longrightarrow> consumes P (rx_lit t)"
  by (auto simp: consumes_def rx_lit_def prefix_def split: if_splits)

lemma consumes_seq: "\<forall>c\<in>set t. P c \<Longrightarrow> consumes P p \<Longrightarrow> consumes P (rx_seq t p)"
  unfolding rx_seq_def by (intro consumes_bind consumes_lit)

lemma consumes_alt: "consumes P p \<Longrightarrow> consumes P q \<Longrightarrow> consumes P (rx_alt p q)"
  by (auto simp: consumes_def rx_alt_def)

lemma consumes_opt: "consumes P p \<Longrightarrow> consumes P (rx_opt p)"
  by (auto simp: consumes_def rx_opt_def)

lemma consumes_one_of: "\<forall>t\<in>set ts. \<forall>c\<in>set t. P c \<Longrightarrow> consumes P (rx_one_of ts)"
  by (auto simp: consumes_def rx_one_of_def prefix_def split: if_splits)

lemma consumes_star: "(\<And>c. Q c \<Longrightarrow> P c) \<Longrightarrow> consumes P (rx_star Q)"
  unfolding consumes_def
proof (intro allI impI)
  fix s a r assume imp: "\<And>c. Q c \<Longrightarrow> P c" and "(a, r) \<in> set (rx_star Q s)"
  then obtain k where k: "k \<le> length (takeWhile Q s)" "r = drop k s"
    unfolding rx_star_def by (auto simp: less_Suc_eq_le simp del: upt_Suc)
  have "take k s = take k (takeWhile Q s)"
    using k(1) by (metis append_take_drop_id takeWhile_eq_take take_take min_absorb1)
  then have "\<forall>c\<in>set (take k s). P c" using imp by (auto dest!: in_set_takeD set_takeWhileD)
  then show "\<exists>u. s = u @ r \<and> (\<forall>c\<in>set u. P c)" using k by (intro exI [of _ "take k s"]) auto
qed

lemma consumes_plus: "(\<And>c. Q c \<Longrightarrow> P c) \<Longrightarrow> consumes P (rx_plus Q)"
  using consumes_star [of Q P] by (auto simp: consumes_def rx_plus_def)

lemmas consumes_rules = consumes_return consumes_bind consumes_lit consumes_seq consumes_alt
  consumes_opt consumes_one_of consumes_star consumes_plus

lemma consumes_full: "consumes P p \<Longrightarrow> rx_full p s = Some a \<Longrightarrow> \<forall>c\<in>set s. P c"
proof -
  assume p: "consumes P p" and "rx_full p s = Some a"
  then have "(a, []) \<in> set (p s)" by (auto simp: rx_full_def find_Some_iff in_set_conv_nth)
  then show ?thesis using consumesD [OF p] by fastforce
qed

lemma numeric_literal_consumes: "consumes numeric_char numeric_literal_rx"
  unfolding numeric_literal_rx_def
  by (intro consumes_rules) (auto simp: numeric_char_def js_lits)

lemma numeric_literal_chars: "NUMERIC_LITERAL_REGEX s \<Longrightarrow> \<forall>c\<in>set s. numeric_char c"
  using consumes_full [OF numeric_literal_consumes]
  by (auto simp: NUMERIC_LITERAL_REGEX_def rx_test_def)

lemma numeric_literal_Nil [simp]: "\<not> NUMERIC_LITERAL_REGEX []"
  by code_simp

lemma numeric_no_ws: "numeric_char c \<Longrightarrow> \<not> is_ws c"
  by (auto simp: numeric_char_def is_digit_def is_ws_def)

lemma trim_numeric: "NUMERIC_LITERAL_REGEX s \<Longrightarrow> trim s = s"
  using numeric_literal_chars numeric_no_ws by (intro trim_no_ws) blast


subsection \<open>Single conditions\<close>

lemma rx_one_of_time_func:
  "f \<in> set TIME_FUNCS \<Longrightarrow> rx_bind (rx_one_of TIME_FUNCS) k (f @ 40 # t) = k f (40 # t)"
  by (auto simp: TIME_FUNCS_def rx_one_of_def rx_bind_def js_lits)

lemma rx_one_of_time_none:
  "s = js ''header'' @ t \<or> s = js ''param'' @ t \<or> s = js ''has'' @ t \<or> s = js ''('' @ t \<Longrightarrow>
   rx_bind (rx_one_of TIME_FUNCS) k s = []"
  by (auto simp: TIME_FUNCS_def rx_one_of_def rx_bind_def js_lits)

lemma path_rx_match:
  assumes "plain p" "p \<noteq> []"
  shows "path_rx name k (name @ 40 # quote p @ 41 # t) = k p t"
proof -
  have "path_rx name k (name @ 40 # quote p @ 41 # t) =
      rx_bind (rx_plus not_quote) (\<lambda>p. rx_seq (34 # [41]) (k p)) (p @ 34 # 41 # t)"
    using quote_plain [OF assms(1)] rx_seq_app [of "name @ [40, 34]"]
    by (simp add: path_rx_def js_lits)
  also have "\<dots> = rx_seq (34 # [41]) (k p) (34 # 41 # t)"
    using assms plain_not_quote by (intro rx_plus_lit) (auto simp: not_quote_def)
  finally show ?thesis by simp
qed

lemma path_rx_name_no: "\<not> prefix (name @ [40, 34]) s \<Longrightarrow> path_rx name k s = []"
  by (simp add: path_rx_def js_lits)

text \<open>The text of a source applied to its path.\<close>

definition source_expr :: "ConditionSource \<Rightarrow> jsstring \<Rightarrow> jsstring" where
  "source_expr src p = source_name src @ 40 # quote p @ [41]"

lemma path_rx_source:
  assumes "plain p" "p \<noteq> []"
  shows "path_rx (source_name src') k (source_expr src p @ t) = (if src = src' then k p t else [])"
proof (cases "src = src'")
  case True
  then show ?thesis using path_rx_match [OF assms] by (simp add: source_expr_def)
next
  case False
  then show ?thesis
    by (cases src; cases src')
      (auto simp: source_expr_def source_name_def SOURCE_PARAM_def SOURCE_HEADER_def js_lits
        intro!: path_rx_name_no)
qed

lemmas path_rx_param = path_rx_source [where src' = FromParam, unfolded source_name_def, simplified]
lemmas path_rx_header = path_rx_source [where src' = FromHeader, unfolded source_name_def, simplified]

lemma source_expr_start:
  "\<exists>t. source_expr src p @ u = js ''header'' @ t \<or> source_expr src p @ u = js ''param'' @ t"
  by (cases src) (auto simp: source_expr_def source_name_def SOURCE_PARAM_def SOURCE_HEADER_def)

lemma time_rx_none:
  assumes "s = js ''header'' @ t \<or> s = js ''param'' @ t \<or> s = js ''has'' @ t"
  shows "tryParseTimeCondition s = None"
proof -
  have "time_range_rx cl s = []" "time_compare_rx s = []" for cl
    using rx_one_of_time_none [of s t] assms unfolding time_range_rx_def time_compare_rx_def by blast+
  moreover have "rx_seq (js ''('') (time_range_rx (js '')'')) s = []"
    using assms by (auto simp: js_lits)
  ultimately show ?thesis
    by (simp add: tryParseTimeCondition_def rx_full_append_Nil)
qed

lemma has_rx_none: "rx_full has_header_rx (source_expr src p @ t) = None"
  by (cases src) (simp_all add: has_header_rx_def rx_full_append_Nil source_expr_def source_name_def
      SOURCE_PARAM_def SOURCE_HEADER_def js_lits)

lemma exists_header_match:
  "plain p \<Longrightarrow> p \<noteq> [] \<Longrightarrow>
   rx_full (exists_rx SOURCE_HEADER (js ''\"\"'')) (source_expr src p @ js '' != \"\"'') =
     (if src = FromHeader then Some p else None)"
  by (simp add: exists_rx_def rx_full_def path_rx_header rx_return_def js_lits)

lemma exists_param_match:
  "plain p \<Longrightarrow> p \<noteq> [] \<Longrightarrow>
   rx_full (exists_rx SOURCE_PARAM (js ''nil'')) (source_expr src p @ js '' != nil'') =
     (if src = FromParam then Some p else None)"
  by (simp add: exists_rx_def rx_full_def path_rx_param rx_return_def js_lits)

lemma exists_other:
  assumes "plain p" "p \<noteq> []"
  shows "rx_full (exists_rx SOURCE_HEADER (js ''\"\"'')) (source_expr src p @ js '' =='' @ t) = None"
    "rx_full (exists_rx SOURCE_PARAM (js ''nil'')) (source_expr src p @ js '' =='' @ t) = None"
    "rx_full (exists_rx SOURCE_HEADER (js ''\"\"'')) (source_expr src p @ js '' != nil'') = None"
  by (simp_all add: exists_rx_def rx_full_def path_rx_header path_rx_param assms js_lits)

lemma param_and_none:
  assumes "plain p" "p \<noteq> []"
  shows "rx_full has_param_rx (source_expr src p @ js '' =='' @ t) = None"
    "rx_full compare_param_rx (source_expr src p @ js '' =='' @ t) = None"
  by (simp_all add: has_param_rx_def compare_param_rx_def rx_full_def path_rx_param assms js_lits)

lemma equal_match:
  assumes "plain p" "p \<noteq> []" "w \<noteq> []" "\<forall>c\<in>set w. rx_dot c"
  shows "rx_full equal_rx (source_expr src p @ js '' == '' @ w) = Some (src, p, w)"
proof -
  have "equal_rx (source_expr src p @ js '' == '' @ w) =
      rx_bind (rx_plus rx_dot) (\<lambda>v. rx_return (src, p, v)) w"
    by (cases src) (simp_all add: equal_rx_def rx_alt_def path_rx_param path_rx_header assms)
  then have "rx_full equal_rx (source_expr src p @ js '' == '' @ w) =
      rx_full (rx_bind (rx_plus rx_dot) (\<lambda>v. rx_return (src, p, v))) w"
    by (rule rx_full_cong)
  then show ?thesis by (simp add: rx_full_plus_map assms(3,4))
qed

text \<open>Values: what \<open>buildExprLiteral\<close> prints, \<open>parseExprLiteral\<close> reads back.\<close>

lemma numeric_quote: "\<not> NUMERIC_LITERAL_REGEX (34 # s)"
  using numeric_literal_chars [of "34 # s"] by (auto simp: numeric_char_def is_digit_def)

lemma trim_quoted: "trim (34 # s @ [34]) = 34 # s @ [34]"
  by (rule trim_trimmed) (simp add: trimmed_def is_ws_def)

lemma literal_roundtrip:
  assumes "plain v"
  shows "parseExprLiteral (buildExprLiteral MATCH_EQ v) = Some (JStr v)"
proof (cases "v = js ''true'' \<or> v = js ''false'' \<or> NUMERIC_LITERAL_REGEX v")
  case True
  then show ?thesis
    using trim_plain [OF assms]
    by (auto simp: buildExprLiteral_def parseExprLiteral_def Let_def match_modes js_lits)
next
  case False
  have "buildExprLiteral MATCH_EQ v = quote v"
    using False trim_plain [OF assms] by (simp add: buildExprLiteral_def Let_def)
  moreover have "trim (quote v) = quote v" "quote v \<noteq> js ''true''" "quote v \<noteq> js ''false''"
    "\<not> NUMERIC_LITERAL_REGEX (quote v)"
    using quote_plain [OF assms] trim_quoted [of v] numeric_quote by (simp_all add: js_lits)
  ultimately show ?thesis
    using JSON_parse_quote [OF utf16_plain [OF assms]] by (simp add: parseExprLiteral_def Let_def)
qed

lemma literal_chars:
  assumes "plain v"
  shows "buildExprLiteral m v \<noteq> [] \<and> (\<forall>c\<in>set (buildExprLiteral m v). c = 34 \<or> plain_char c)"
proof -
  have q: "quote v = 34 # v @ [34]" using quote_plain [OF assms] .
  show ?thesis
    using assms trim_plain [OF assms] q
    by (auto simp: buildExprLiteral_def Let_def plain_def js_lits)
qed

text \<open>The string literal pattern on quoted plain text.\<close>

lemma rx_strbody_plain:
  "\<forall>c\<in>set v. plain_char c \<Longrightarrow>
   rx_bind rx_strbody (\<lambda>a. rx_seq [34] (g a)) (v @ 34 # t) = g v t"
proof (induction v arbitrary: g)
  case Nil
  then show ?case by (simp add: rx_bind_def)
next
  case (Cons c v)
  have "rx_bind rx_strbody (\<lambda>a. rx_seq [34] (g a)) ((c # v) @ 34 # t) =
      rx_bind rx_strbody (\<lambda>a. rx_seq [34] (g (c # a))) (v @ 34 # t)"
    using Cons.prems plain_char_facts(8,12) [of c]
    by (simp add: rx_bind_def comp_def case_prod_unfold)
  then show ?case using Cons by simp
qed

lemma rx_string_plain: "plain v \<Longrightarrow> rx_bind rx_string k (quote v @ t) = k (quote v) t"
proof -
  assume v: "plain v"
  have "rx_bind rx_string k (quote v @ t) =
      rx_bind rx_strbody (\<lambda>a. rx_seq [34] (k (34 # a @ [34]))) (v @ 34 # t)"
    by (simp add: quote_plain [OF v] rx_string_def rx_bind_seq rx_bind_assoc js_lits)
  then show ?thesis using v by (simp add: rx_strbody_plain plain_def quote_plain)
qed


lemma has_header_match:
  assumes "plain p" "p \<noteq> []" "plain v"
  shows "rx_full has_header_rx (js ''has('' @ source_expr FromHeader p @ js '', '' @ quote v @ js '')'') =
    Some (p, quote v)"
proof (rule rx_full_single)
  have "has_header_rx (js ''has('' @ source_expr FromHeader p @ js '', '' @ quote v @ js '')'') =
      rx_bind rx_string (\<lambda>v. rx_seq (js '')'') (rx_return (p, v))) (quote v @ js '')'')"
    using assms by (simp add: has_header_rx_def path_rx_header)
  then show "has_header_rx (js ''has('' @ source_expr FromHeader p @ js '', '' @ quote v @ js '')'') =
      [((p, quote v), [])]"
    by (simp add: rx_string_plain [OF assms(3)]) (simp add: rx_return_def js_lits)
qed

lemma contains_plain:
  "plain v \<Longrightarrow> contains_condition src p (quote v) = Inr (Some (ParamHeaderCondition src p MATCH_CONTAINS v))"
  by (simp add: contains_condition_def JSON_parse_quote utf16_plain)

lemma has_start_none:
  "rx_full (exists_rx SOURCE_HEADER (js ''\"\"'')) (js ''has('' @ t) = None"
  "rx_full (exists_rx SOURCE_PARAM (js ''nil'')) (js ''has('' @ t) = None"
  by (simp_all add: exists_rx_def rx_full_def path_rx_def SOURCE_HEADER_def SOURCE_PARAM_def js_lits)

lemma parse_contains:
  assumes "plain p" "p \<noteq> []" "plain v"
  shows "tryParseRequestCondition (js ''has('' @ source_expr FromHeader p @ js '', '' @ quote v @ js '')'') =
    Inr (Some (ParamHeaderCondition FromHeader p MATCH_CONTAINS v))"
proof -
  have "tryParseTimeCondition (js ''has('' @ source_expr FromHeader p @ js '', '' @ quote v @ js '')'') = None"
    by (rule time_rx_none [of _ "js ''('' @ source_expr FromHeader p @ js '', '' @ quote v @ js '')''"])
      (simp add: js_lits)
  then show ?thesis
    using has_header_match [OF assms] contains_plain [OF assms(3)]
    by (simp add: tryParseRequestCondition_def has_start_none)
qed

lemma parse_exists:
  assumes "plain p" "p \<noteq> []"
  shows "tryParseRequestCondition (source_expr src p @ (if src = FromHeader then js '' != \"\"'' else js '' != nil'')) =
    Inr (Some (ParamHeaderCondition src p MATCH_EXISTS []))"
proof -
  have t: "tryParseTimeCondition (source_expr src' p @ u) = None" for src' u
    using source_expr_start [of src' p u] time_rx_none by blast
  show ?thesis
    by (cases src)
      (simp_all add: tryParseRequestCondition_def t exists_header_match exists_param_match
        exists_other assms)
qed

lemma rx_dot_quote: "rx_dot 34"
  by (simp add: rx_dot_def)

lemma parse_equal:
  assumes "plain p" "p \<noteq> []" "plain v"
  shows "tryParseRequestCondition (source_expr src p @ js '' == '' @ buildExprLiteral MATCH_EQ v) =
    Inr (Some (ParamHeaderCondition src p MATCH_EQ v))"
proof -
  let ?w = "buildExprLiteral MATCH_EQ v"
  have w: "?w \<noteq> []" "\<forall>c\<in>set ?w. rx_dot c"
    using literal_chars [OF assms(3), of MATCH_EQ] plain_char_facts(7) rx_dot_quote
    by (blast, metis)
  have e: "js '' == '' @ ?w = js '' =='' @ 32 # ?w" by (simp add: js_lits)
  have t: "tryParseTimeCondition (source_expr src p @ js '' == '' @ ?w) = None"
    using source_expr_start [of src p "js '' == '' @ ?w"] time_rx_none by blast
  note none = exists_other(1,2) [OF assms(1,2), of src "32 # ?w", folded e]
    param_and_none [OF assms(1,2), of src "32 # ?w", folded e] has_rx_none
  show ?thesis
    by (simp add: tryParseRequestCondition_def t none equal_match [OF assms(1,2) w]
        literal_roundtrip [OF assms(3)])
qed

text \<open>Time conditions.\<close>

lemma num_facts:
  assumes "NUMERIC_LITERAL_REGEX s"
  shows "s \<noteq> []" "\<forall>c\<in>set s. numeric_char c" "\<not> numeric_char 32" "\<not> numeric_char 41"
  using assms numeric_literal_chars by (auto simp: numeric_char_def is_digit_def)

definition time_call :: "jsstring \<Rightarrow> jsstring \<Rightarrow> jsstring" where
  "time_call f tz = f @ 40 # quote tz @ [41]"

lemma time_call_bind:
  assumes "f \<in> set TIME_FUNCS" "plain tz" "tz \<noteq> []"
  shows "rx_bind (rx_one_of TIME_FUNCS) (\<lambda>f. rx_seq (js ''(\"'')
      (rx_bind (rx_plus not_quote) (\<lambda>tz. rx_seq (js ''\")'' @ u) (k f tz)))) (time_call f tz @ t) =
    rx_seq u (k f tz) t"
proof -
  have "rx_bind (rx_one_of TIME_FUNCS) (\<lambda>f. rx_seq (js ''(\"'')
      (rx_bind (rx_plus not_quote) (\<lambda>tz. rx_seq (js ''\")'' @ u) (k f tz)))) (time_call f tz @ t) =
      rx_bind (rx_plus not_quote) (\<lambda>tz. rx_seq (34 # 41 # u) (k f tz)) (tz @ 34 # 41 # t)"
    by (simp add: time_call_def js_lits rx_one_of_time_func [OF assms(1)] quote_plain [OF assms(2)])
  also have "\<dots> = rx_seq (34 # 41 # u) (k f tz) (34 # 41 # t)"
    using assms plain_not_quote by (intro rx_plus_lit) (auto simp: not_quote_def)
  finally show ?thesis by simp
qed

lemma split_close: "js ''\") >= '' = js ''\")'' @ js '' >= ''" "js ''\") '' = js ''\")'' @ js '' ''"
  by (simp_all add: js_lits)

definition range_expr :: "jsstring \<Rightarrow> jsstring \<Rightarrow> jsstring \<Rightarrow> jsstring \<Rightarrow> jsstring" where
  "range_expr f tz a b = time_call f tz @ js '' >= '' @ a @ js '' || '' @ time_call f tz @ js '' < '' @ b"

lemma time_range_steps:
  assumes "f \<in> set TIME_FUNCS" "plain tz" "tz \<noteq> []" "NUMERIC_LITERAL_REGEX a"
  shows "time_range_rx cl (range_expr f tz a b @ t) =
    rx_bind (rx_plus numeric_char) (\<lambda>e. rx_seq cl (rx_return (f, tz, a, e))) (b @ t)"
proof -
  let ?sep = "js '' || '' @ f @ js ''(\"'' @ tz @ js ''\") < ''"
  have "time_range_rx cl (range_expr f tz a b @ t) =
      rx_bind (rx_plus numeric_char) (\<lambda>s. rx_seq ?sep
        (rx_bind (rx_plus numeric_char) (\<lambda>e. rx_seq cl (rx_return (f, tz, s, e))))) (a @ ?sep @ b @ t)"
    unfolding time_range_rx_def range_expr_def split_close(1) append_assoc
    by (subst time_call_bind [OF assms(1-3)])
      (simp add: time_call_def quote_plain [OF assms(2)] js_lits)
  also have "\<dots> = rx_seq ?sep (rx_bind (rx_plus numeric_char) (\<lambda>e. rx_seq cl (rx_return (f, tz, a, e))))
      (?sep @ b @ t)"
    using rx_plus_lit [where d = 32 and P = numeric_char and u = a and ds = "tl ?sep"
        and t = "tl ?sep @ b @ t" and
        k = "\<lambda>s. rx_bind (rx_plus numeric_char) (\<lambda>e. rx_seq cl (rx_return (f, tz, s, e)))"]
      num_facts [OF assms(4)] by (simp add: js_lits)
  finally show ?thesis using rx_seq_app [of ?sep] by simp
qed

lemma parse_range:
  assumes "f \<in> set TIME_FUNCS" "plain tz" "tz \<noteq> []" "NUMERIC_LITERAL_REGEX a" "NUMERIC_LITERAL_REGEX b"
  shows "tryParseTimeCondition (range_expr f tz a b) = Some (TimeCondition f tz MATCH_RANGE [] a b)"
    "tryParseTimeCondition (40 # range_expr f tz a b @ [41]) = Some (TimeCondition f tz MATCH_RANGE [] a b)"
proof -
  have "time_range_rx [] (range_expr f tz a b) =
      rx_bind (rx_plus numeric_char) (\<lambda>e. rx_return (f, tz, a, e)) b"
    using time_range_steps [OF assms(1-4), of "[]" b "[]"] by (simp add: rx_seq_def rx_lit_def rx_bind_def)
  then have "rx_full (time_range_rx []) (range_expr f tz a b) = Some (f, tz, a, b)"
    using rx_full_plus_map [OF num_facts(1,2) [OF assms(5)], of "\<lambda>e. (f, tz, a, e)"]
    by (simp add: rx_full_def)
  then show "tryParseTimeCondition (range_expr f tz a b) = Some (TimeCondition f tz MATCH_RANGE [] a b)"
    by (simp add: tryParseTimeCondition_def)
  have "time_range_rx [] (40 # range_expr f tz a b @ [41]) = []"
    unfolding time_range_rx_def by (rule rx_one_of_time_none) (simp add: js_lits)
  moreover have "rx_seq (js ''('') (time_range_rx (js '')'')) (40 # range_expr f tz a b @ [41]) =
      [((f, tz, a, b), [])]"
    using time_range_steps [OF assms(1-4), of "js '')''" b "[41]"]
      rx_plus_lit [where d = 41 and ds = "[]" and t = "[]" and k = "\<lambda>e. rx_return (f, tz, a, e)"
        and P = numeric_char and u = b] num_facts [OF assms(5)]
    by (simp add: js_lits rx_return_def)
  ultimately show "tryParseTimeCondition (40 # range_expr f tz a b @ [41]) =
      Some (TimeCondition f tz MATCH_RANGE [] a b)"
    by (simp add: tryParseTimeCondition_def rx_full_append_Nil rx_full_single)
qed


lemma time_compare_other:
  assumes "f \<in> set TIME_FUNCS" "plain tz" "tz \<noteq> []" "op \<in> {js ''=='', js ''>='', js ''<''}"
    "NUMERIC_LITERAL_REGEX v"
  shows "time_range_rx [] (time_call f tz @ js '' '' @ op @ js '' '' @ v) = []"
proof (cases "op = js ''>=''")
  case True
  have "time_range_rx [] (time_call f tz @ js '' '' @ op @ js '' '' @ v) =
      rx_bind (rx_plus numeric_char) (\<lambda>s. rx_seq (js '' || '' @ f @ js ''(\"'' @ tz @ js ''\") < '')
        (rx_bind (rx_plus numeric_char) (\<lambda>e. rx_seq [] (rx_return (f, tz, s, e))))) (v @ [])"
    unfolding time_range_rx_def split_close(1) append_assoc
    by (subst time_call_bind [OF assms(1-3)]) (simp add: True js_lits)
  also have "\<dots> = rx_seq (js '' || '' @ f @ js ''(\"'' @ tz @ js ''\") < '')
        (rx_bind (rx_plus numeric_char) (\<lambda>e. rx_seq [] (rx_return (f, tz, v, e)))) []"
    using num_facts [OF assms(5)] by (intro rx_plus_bind) (auto simp: js_lits)
  finally show ?thesis by (simp add: js_lits)
next
  case False
  then show ?thesis
    unfolding time_range_rx_def split_close(1) append_assoc
    using assms(4) by (subst time_call_bind [OF assms(1-3)]) (auto simp: js_lits)
qed

lemma time_func_start: "f \<in> set TIME_FUNCS \<Longrightarrow> f \<noteq> [] \<and> hd f \<noteq> 40"
  by (auto simp: TIME_FUNCS_def js_lits)

lemma parse_time_compare:
  assumes "f \<in> set TIME_FUNCS" "plain tz" "tz \<noteq> []" "op \<in> {js ''=='', js ''>='', js ''<''}"
    "NUMERIC_LITERAL_REGEX v"
  shows "tryParseTimeCondition (time_call f tz @ js '' '' @ op @ js '' '' @ v) =
    Some (TimeCondition f tz (time_op_mode op) v [] [])"
proof -
  let ?s = "time_call f tz @ js '' '' @ op @ js '' '' @ v"
  have "hd ?s \<noteq> 40" "?s \<noteq> []" using time_func_start [OF assms(1)] by (simp_all add: time_call_def)
  then have "rx_seq (js ''('') (time_range_rx (js '')'')) ?s = []" by (cases ?s) (auto simp: js_lits)
  moreover have "time_compare_rx ?s = rx_bind (rx_plus numeric_char) (\<lambda>v. rx_return (f, tz, op, v)) v"
    unfolding time_compare_rx_def split_close(2)
    using assms(4) by (subst time_call_bind [OF assms(1-3)]) (auto simp: rx_one_of_def rx_bind_def js_lits)
  then have "rx_full time_compare_rx ?s = Some (f, tz, op, v)"
    using rx_full_plus_map [OF num_facts(1,2) [OF assms(5)], of "\<lambda>v. (f, tz, op, v)"]
    by (simp add: rx_full_def)
  ultimately show ?thesis
    using time_compare_other [OF assms] by (simp add: tryParseTimeCondition_def rx_full_append_Nil)
qed

subsection \<open>Conditions that survive\<close>

fun wf_condition :: "RequestCondition \<Rightarrow> bool" where
  "wf_condition (ParamHeaderCondition src path mode v) \<longleftrightarrow>
     plain path \<and> path \<noteq> [] \<and>
     (mode = MATCH_EXISTS \<and> v = [] \<or> mode = MATCH_EQ \<and> plain v \<or>
      mode = MATCH_CONTAINS \<and> src = FromHeader \<and> plain v)"
| "wf_condition (TimeCondition f tz mode v rs re) \<longleftrightarrow>
     f \<in> set TIME_FUNCS \<and> plain tz \<and> tz \<noteq> [] \<and>
     (mode = MATCH_RANGE \<and> v = [] \<and> NUMERIC_LITERAL_REGEX rs \<and> NUMERIC_LITERAL_REGEX re \<or>
      mode \<in> {MATCH_EQ, MATCH_GTE, MATCH_LT} \<and> NUMERIC_LITERAL_REGEX v \<and> rs = [] \<and> re = [])"

definition wf_group :: "RequestRuleGroup \<Rightarrow> bool" where
  "wf_group g \<longleftrightarrow> rg_conditions g \<noteq> [] \<and> (\<forall>c\<in>set (rg_conditions g). wf_condition c) \<and>
     NUMERIC_LITERAL_REGEX (rg_multiplier g)"

text \<open>Normalising a condition of the editor that has a valid mode changes nothing.\<close>

lemma normalize_wf: "wf_condition c \<Longrightarrow> normalizeCondition (to_partial c) = c"
proof (cases c)
  case (ParamHeaderCondition src path mode v)
  assume "wf_condition c"
  with ParamHeaderCondition show ?thesis
    by (cases src) (auto simp: to_partial_def normalizeCondition_def source_name_def valid_mode_def
        getRequestRuleMatchOptions_def match_option_def match_modes js_lits)
next
  case (TimeCondition f tz mode v rs re)
  assume "wf_condition c"
  with TimeCondition show ?thesis
    by (auto simp: to_partial_def normalizeCondition_def isTimeFunc_def valid_mode_def
        getRequestRuleMatchOptions_def match_option_def match_modes js_lits)
qed

lemma range_mode [simp]: "MATCH_EQ \<noteq> MATCH_RANGE" "MATCH_GTE \<noteq> MATCH_RANGE" "MATCH_LT \<noteq> MATCH_RANGE"
  by (simp_all add: match_modes js_lits)

lemmas range_mode_sym [simp] = range_mode [THEN not_sym]

lemma build_time:
  assumes "wf_condition (TimeCondition f tz mode v rs re)"
  shows "buildRequestConditionExpr (TimeCondition f tz mode v rs re) =
    (if mode = MATCH_RANGE then range_expr f tz rs re
     else time_call f tz @ js '' '' @ time_mode_op mode @ js '' '' @ v)"
  using assms normalize_wf [OF assms]
  by (auto simp: buildRequestConditionExpr_def buildTimeConditionExpr_def time_expr_def Let_def
      trim_numeric range_expr_def time_call_def js_lits)

lemma build_param_header:
  assumes "wf_condition (ParamHeaderCondition src p mode v)"
  shows "buildRequestConditionExpr (ParamHeaderCondition src p mode v) =
    (if mode = MATCH_EXISTS then source_expr src p @ (if src = FromHeader then js '' != \"\"'' else js '' != nil'')
     else if mode = MATCH_CONTAINS then js ''has('' @ source_expr FromHeader p @ js '', '' @ quote v @ js '')''
     else source_expr src p @ js '' == '' @ buildExprLiteral MATCH_EQ v)"
  using assms normalize_wf [OF assms]
  by (auto simp: buildRequestConditionExpr_def param_header_expr_def Let_def trim_plain
      source_expr_def buildExprLiteral_def match_modes js_lits)

lemma time_ops: "mode \<in> {MATCH_EQ, MATCH_GTE, MATCH_LT} \<Longrightarrow>
    mode \<noteq> MATCH_RANGE \<and> time_mode_op mode \<in> {js ''=='', js ''>='', js ''<''} \<and> time_op_mode (time_mode_op mode) = mode"
  by (auto simp: time_mode_op_def time_op_mode_def match_modes js_lits)

theorem condition_roundtrip:
  "wf_condition c \<Longrightarrow> tryParseRequestCondition (buildRequestConditionExpr c) = Inr (Some c)"
proof (cases c)
  case (TimeCondition f tz mode v rs re)
  assume wf: "wf_condition c"
  then have "tryParseTimeCondition (buildRequestConditionExpr c) = Some c"
    using TimeCondition time_ops [of mode] parse_range(1) [of f tz rs re]
      parse_time_compare [of f tz "time_mode_op mode" v]
    by (auto simp: build_time)
  then show ?thesis by (simp add: tryParseRequestCondition_def)
next
  case (ParamHeaderCondition src p mode v)
  assume wf: "wf_condition c"
  have modes: "MATCH_EQ \<noteq> MATCH_EXISTS" "MATCH_EQ \<noteq> MATCH_CONTAINS" "MATCH_CONTAINS \<noteq> MATCH_EXISTS"
    by (simp_all add: match_modes js_lits)
  show ?thesis
    using wf modes ParamHeaderCondition parse_exists [of p src] parse_contains [of p v] parse_equal [of p v src]
    by (auto simp: build_param_header)
qed


subsection \<open>Splitting at top level\<close>

text \<open>Balanced parentheses, starting with \<open>n\<close> open ones.\<close>

fun pars :: "nat \<Rightarrow> jsstring \<Rightarrow> bool" where
  "pars n [] = (n = 0)"
| "pars n (c # s) =
     (if c = 40 then pars (Suc n) s
      else if c = 41 then (case n of 0 \<Rightarrow> False | Suc m \<Rightarrow> pars m s)
      else pars n s)"

lemma pars_append: "pars k s \<Longrightarrow> pars n t \<Longrightarrow> pars (k + n) (s @ t)"
  by (induction k s rule: pars.induct) (auto split: if_splits nat.splits)

lemma pars_append0: "pars 0 s \<Longrightarrow> pars 0 t \<Longrightarrow> pars 0 (s @ t)"
  using pars_append [of 0 s 0 t] by simp

lemma pars_none: "\<forall>c\<in>set s. c \<noteq> 40 \<and> c \<noteq> 41 \<Longrightarrow> pars 0 s"
  by (induction s) auto

lemma pars_wrap: "pars 0 s \<Longrightarrow> pars 0 t \<Longrightarrow> pars 0 (40 # s @ 41 # t)"
  using pars_append [of 0 s 1 "41 # t"] by simp

lemma scan_deep:
  "pars n t \<Longrightarrow> 1 \<le> d \<Longrightarrow>
   split_scan sep (d + int n) cur (t @ rest) = split_scan sep d (cur @ t) rest"
proof (induction n t arbitrary: cur rule: pars.induct)
  case (2 n c t)
  consider "c = 40" | m where "c = 41" "n = Suc m" | "c \<noteq> 40" "c \<noteq> 41"
    using 2(4) by (cases n) (auto split: if_splits)
  then show ?case
  proof cases
    case 1
    then show ?thesis using 2(1) [of "cur @ [c]"] 2(4,5) by (simp add: depth_after_def add_ac)
  next
    case 2
    then show ?thesis using "2.IH"(2) [of m "cur @ [c]"] "2.prems" by (simp add: depth_after_def)
  next
    case 3
    then show ?thesis using "2.IH"(3) [of "cur @ [c]"] "2.prems" by (simp add: depth_after_def)
  qed
qed simp

lemma scan_factor:
  "pars 0 body \<Longrightarrow> prefix sep (41 # rest) = False \<Longrightarrow>
   split_scan sep 0 cur (40 # body @ 41 # rest) = split_scan sep 0 (cur @ 40 # body @ [41]) rest"
  using scan_deep [of 0 body 1 sep "cur @ [40]" "41 # rest"] by (simp add: depth_after_def)

lemma scan_quiet:
  "pars n t \<Longrightarrow> 38 \<notin> set t \<Longrightarrow> t = [] \<or> last t \<noteq> 32 \<Longrightarrow>
   split_scan (js '' && '') (int n) cur (t @ rest) = split_scan (js '' && '') 0 (cur @ t) rest"
proof (induction n t arbitrary: cur rule: pars.induct)
  case (2 n c t)
  have no: "\<not> prefix (js '' && '') (c # t @ rest)"
    using "2.prems"(2,3) by (cases t) (auto simp: js_lits)
  have last: "t = [] \<or> last t \<noteq> 32" using "2.prems"(3) by (auto split: if_splits)
  consider "c = 40" | m where "c = 41" "n = Suc m" | "c \<noteq> 40" "c \<noteq> 41"
    using "2.prems"(1) by (cases n) (auto split: if_splits)
  then show ?case
  proof cases
    case 1
    then show ?thesis
      using "2.IH"(1) [of "cur @ [c]"] "2.prems" last no by (simp add: depth_after_def add.commute)
  next
    case 2
    then show ?thesis
      using "2.IH"(2) [of m "cur @ [c]"] "2.prems" last no by (simp add: depth_after_def)
  next
    case 3
    then show ?thesis
      using "2.IH"(3) [of "cur @ [c]"] "2.prems" last no by (simp add: depth_after_def)
  qed
qed simp

lemma scan_sep: "sep = 32 # u \<Longrightarrow> split_scan sep 0 cur (sep @ rest) = trim cur # split_scan sep 0 [] rest"
  by (simp add: depth_after_def)

lemma split_and_join:
  assumes "es \<noteq> []" "\<forall>e\<in>set es. pars 0 e \<and> 38 \<notin> set e \<and> e \<noteq> [] \<and> last e \<noteq> 32"
  shows "split_scan (js '' && '') 0 [] (join (js '' && '') es) = map trim es"
  using assms
proof (induction es rule: list_nonempty_induct)
  case (single e)
  then show ?case using scan_quiet [of 0 e "[]" "[]"] by simp
next
  case (cons e es)
  then obtain e' es' where es: "es = e' # es'" by (cases es) auto
  have "split_scan (js '' && '') 0 [] (e @ js '' && '' @ join (js '' && '') es) =
      split_scan (js '' && '') 0 e (js '' && '' @ join (js '' && '') es)"
    using cons.prems scan_quiet [of 0 e "[]" "js '' && '' @ join (js '' && '') es"] by simp
  also have "\<dots> = trim e # split_scan (js '' && '') 0 [] (join (js '' && '') es)"
    by (rule scan_sep [of _ "[38, 38, 32]"]) (simp add: js_lits)
  finally show ?case using cons es by simp
qed

lemma split_multiply_join:
  assumes "fs \<noteq> []" "\<forall>f\<in>set fs. \<exists>body. f = 40 # body @ [41] \<and> pars 0 body"
  shows "split_scan (js '' * '') 0 [] (join (js '' * '') fs) = fs"
  using assms
proof (induction fs rule: list_nonempty_induct)
  case (single f)
  then obtain body where f: "f = 40 # body @ [41]" "pars 0 body" by auto
  have "trim (40 # body @ [41]) = 40 # body @ [41]"
    by (rule trim_trimmed) (simp add: trimmed_def is_ws_def)
  then show ?case using f scan_factor [of body "js '' * ''" "[]" "[]"] by (simp add: js_lits)
next
  case (cons f fs)
  then obtain body where f: "f = 40 # body @ [41]" "pars 0 body" by auto
  obtain f' fs' where fs: "fs = f' # fs'" using cons.hyps by (cases fs) auto
  have t: "trim (40 # body @ [41]) = 40 # body @ [41]"
    by (rule trim_trimmed) (simp add: trimmed_def is_ws_def)
  have "split_scan (js '' * '') 0 [] (f @ js '' * '' @ join (js '' * '') fs) =
      split_scan (js '' * '') 0 f (js '' * '' @ join (js '' * '') fs)"
    using f scan_factor [of body "js '' * ''" "js '' * '' @ join (js '' * '') fs" "[]"]
    by (simp add: js_lits)
  also have "\<dots> = trim f # split_scan (js '' * '') 0 [] (join (js '' * '') fs)"
    by (rule scan_sep [of _ "[42, 32]"]) (simp add: js_lits)
  finally show ?case using cons fs f t by simp
qed


subsection \<open>Rule groups\<close>

text \<open>Texts without a top-level separator: what a printed condition looks like to the scanner.\<close>

definition quiet :: "jsstring \<Rightarrow> bool" where
  "quiet e \<longleftrightarrow> pars 0 e \<and> 38 \<notin> set e"

lemma quiet_append: "quiet s \<Longrightarrow> quiet t \<Longrightarrow> quiet (s @ t)"
  by (simp add: quiet_def pars_append0)

lemma quiet_call: "quiet s \<Longrightarrow> quiet (40 # s @ [41])"
  using pars_wrap [of s "[]"] by (simp add: quiet_def)

lemma quiet_chars: "\<forall>c\<in>set s. c \<noteq> 40 \<and> c \<noteq> 41 \<and> c \<noteq> 38 \<Longrightarrow> quiet s"
  using pars_none [of s] by (auto simp: quiet_def)

lemma quiet_quote: "plain s \<Longrightarrow> quiet (quote s)"
  using plain_char_facts by (intro quiet_chars) (auto simp: quote_plain plain_def)

lemma quiet_numeric: "NUMERIC_LITERAL_REGEX s \<Longrightarrow> quiet s"
  by (rule quiet_chars) (auto dest!: numeric_literal_chars simp: numeric_char_def is_digit_def)

lemma quiet_literal: "plain v \<Longrightarrow> quiet (buildExprLiteral m v)"
  by (rule quiet_chars)
    (use literal_chars [of v m] plain_char_facts(9,10,11) in fastforce)

lemma quiet_names: "f \<in> set TIME_FUNCS \<Longrightarrow> quiet f" "quiet (source_name src)"
  by (auto simp: TIME_FUNCS_def source_name_def SOURCE_PARAM_def SOURCE_HEADER_def quiet_def js_lits
      split: ConditionSource.splits)

lemma quiet_time_call: "f \<in> set TIME_FUNCS \<Longrightarrow> plain tz \<Longrightarrow> quiet (time_call f tz)"
  unfolding time_call_def by (intro quiet_append quiet_call quiet_names quiet_quote)

lemma quiet_source_expr: "plain p \<Longrightarrow> quiet (source_expr src p)"
  unfolding source_expr_def by (intro quiet_append quiet_call quiet_names quiet_quote)

lemma quiet_lits: "quiet (js '' >= '')" "quiet (js '' || '')" "quiet (js '' < '')" "quiet (js '' '')"
  "quiet (js '' == '')" "quiet (js '', '')" "quiet (js '' != \"\"'')" "quiet (js '' != nil'')"
  "quiet (js ''has'')" "quiet (js ''=='')" "quiet (js ''>='')" "quiet (js ''<'')"
  by (simp_all add: quiet_def js_lits)

lemma has_call: "js ''has('' @ s @ js '')'' = js ''has'' @ 40 # s @ [41]"
  by (simp add: js_lits)

lemma condition_quiet: "wf_condition c \<Longrightarrow> quiet (buildRequestConditionExpr c)"
proof (cases c)
  case (TimeCondition f tz mode v rs re)
  assume wf: "wf_condition c"
  then have "mode \<noteq> MATCH_RANGE \<Longrightarrow> quiet (time_mode_op mode)"
    using TimeCondition time_ops [of mode] quiet_lits by auto
  then show ?thesis
    using wf TimeCondition
    by (auto simp: build_time range_expr_def quiet_append quiet_time_call quiet_lits quiet_numeric)
next
  case (ParamHeaderCondition src p mode v)
  assume wf: "wf_condition c"
  have q: "quiet (js ''has('' @ source_expr FromHeader p @ js '', '' @ quote v @ js '')'')"
    if "plain p" "plain v"
    using that has_call [of "source_expr FromHeader p @ js '', '' @ quote v"]
      quiet_append [OF quiet_lits(9) quiet_call, of "source_expr FromHeader p @ js '', '' @ quote v"]
      quiet_append quiet_source_expr quiet_lits quiet_quote by simp
  show ?thesis
    using wf ParamHeaderCondition q
    by (auto simp: build_param_header quiet_append quiet_source_expr quiet_lits quiet_literal)
qed

lemma numeric_last: "NUMERIC_LITERAL_REGEX s \<Longrightarrow> last s \<noteq> 32"
  using num_facts(1,2,3) [of s] by (metis last_in_set)

lemma literal_last:
  assumes "plain v"
  shows "buildExprLiteral MATCH_EQ v \<noteq> [] \<and> \<not> is_ws (last (buildExprLiteral MATCH_EQ v))"
proof -
  have "trim (buildExprLiteral MATCH_EQ v) = buildExprLiteral MATCH_EQ v"
    using trim_plain [OF assms] trim_quoted [of v]
    by (simp add: buildExprLiteral_def Let_def quote_plain [OF assms])
  then show ?thesis using literal_chars [OF assms, of MATCH_EQ] trim_trimmed_nonempty by metis
qed

lemma condition_last:
  "wf_condition c \<Longrightarrow> buildRequestConditionExpr c \<noteq> [] \<and> \<not> is_ws (hd (buildRequestConditionExpr c)) \<and>
   \<not> is_ws (last (buildRequestConditionExpr c))"
proof (cases c)
  case (TimeCondition f tz mode v rs re)
  assume wf: "wf_condition c"
  then have "f \<in> set TIME_FUNCS" using TimeCondition by simp
  then have f: "f \<noteq> []" "\<not> is_ws (hd f)" by (auto simp: TIME_FUNCS_def js_lits is_ws_def)
  have "\<not> is_ws (last s)" "s \<noteq> []" if "NUMERIC_LITERAL_REGEX s" for s
    using num_facts(1,2) [OF that] numeric_no_ws by auto
  then show ?thesis
    using wf TimeCondition f by (auto simp: build_time range_expr_def time_call_def)
next
  case (ParamHeaderCondition src p mode v)
  assume wf: "wf_condition c"
  have h: "source_name src \<noteq> []" "\<not> is_ws (hd (source_name src))" for src
    by (cases src; simp add: source_name_def SOURCE_PARAM_def SOURCE_HEADER_def js_lits is_ws_def)+
  then have s: "source_expr src p \<noteq> []" "\<not> is_ws (hd (source_expr src p @ t))" for src t
    by (simp_all add: source_expr_def)
  consider (exists) "mode = MATCH_EXISTS" | (contains) "mode = MATCH_CONTAINS" "plain v"
    | (eq) "mode = MATCH_EQ" "plain v"
    using wf ParamHeaderCondition by auto
  then show ?thesis
  proof cases
    case exists
    then show ?thesis
      using wf ParamHeaderCondition s by (simp add: build_param_header) (simp add: js_lits is_ws_def)
  next
    case contains
    have "MATCH_CONTAINS \<noteq> MATCH_EXISTS" by (simp add: match_modes js_lits)
    with contains show ?thesis
      using wf ParamHeaderCondition by (simp add: build_param_header) (simp add: js_lits is_ws_def)
  next
    case eq
    have "MATCH_EQ \<noteq> MATCH_EXISTS" "MATCH_EQ \<noteq> MATCH_CONTAINS" by (simp_all add: match_modes js_lits)
    with eq show ?thesis
      using wf ParamHeaderCondition s literal_last by (simp add: build_param_header)
  qed
qed

text \<open>A bar occurs in the printed form of ranges only.\<close>

lemma no_bar: "\<forall>c\<in>set s. c \<noteq> 124 \<Longrightarrow> \<not> str_includes s (js '' || '')"
  by (auto simp: str_includes_iff js_lits)

definition is_range :: "RequestCondition \<Rightarrow> bool" where
  "is_range c \<longleftrightarrow> (case c of TimeCondition f tz mode v rs re \<Rightarrow> mode = MATCH_RANGE | _ \<Rightarrow> False)"

lemma quote_no_bar: "plain s \<Longrightarrow> c \<in> set (quote s) \<Longrightarrow> c \<noteq> 124"
  using plain_char_facts(13) by (auto simp: quote_plain plain_def)

lemma literal_no_bar: "plain v \<Longrightarrow> c \<in> set (buildExprLiteral m v) \<Longrightarrow> c \<noteq> 124"
  using literal_chars [of v m] not_plain_char(1) by fastforce

lemma range_includes: "str_includes (range_expr f tz a b) (js '' || '')"
  unfolding str_includes_iff range_expr_def
  by (rule exI [of _ "time_call f tz @ js '' >= '' @ a"], rule exI [of _ "time_call f tz @ js '' < '' @ b"])
    simp

lemma condition_bars:
  assumes "wf_condition c"
  shows "str_includes (buildRequestConditionExpr c) (js '' || '') \<longleftrightarrow> is_range c"
proof (cases c)
  case (TimeCondition f tz mode v rs re)
  show ?thesis
  proof (cases "mode = MATCH_RANGE")
    case True
    then show ?thesis
      using assms TimeCondition
      by (simp add: build_time is_range_def range_includes)
  next
    case False
    have "\<forall>x\<in>set (buildRequestConditionExpr c). x \<noteq> 124"
      using assms TimeCondition False quote_no_bar [of tz]
      by (auto simp: build_time time_call_def TIME_FUNCS_def time_mode_op_def js_lits
          dest!: numeric_literal_chars) (auto simp: numeric_char_def is_digit_def)
    then show ?thesis using no_bar TimeCondition False by (simp add: is_range_def)
  qed
next
  case (ParamHeaderCondition src p mode v)
  have "\<forall>x\<in>set (buildRequestConditionExpr c). x \<noteq> 124"
    using assms ParamHeaderCondition quote_no_bar [of p] quote_no_bar [of v] literal_no_bar [of v _ MATCH_EQ]
    by (auto simp: build_param_header source_expr_def source_name_def SOURCE_PARAM_def SOURCE_HEADER_def
        js_lits split: ConditionSource.splits if_splits)
  then show ?thesis using no_bar ParamHeaderCondition by (simp add: is_range_def)
qed


lemma numeric_tail_unique:
  assumes "a @ 32 # u @ m = b @ 32 # u @ n" "32 \<notin> set m" "32 \<notin> set n" "u = [63, 32]"
  shows "a = b \<and> m = n"
proof -
  from assms(1,4) have "(a @ [32, 63]) @ 32 # m = (b @ [32, 63]) @ 32 # n" by simp
  then have "rev m @ 32 # rev (a @ [32, 63]) = rev n @ 32 # rev (b @ [32, 63])"
    by (metis rev.simps(2) rev_append append.assoc append_Cons append_Nil)
  then have "rev m = rev n \<and> rev (a @ [32, 63]) = rev (b @ [32, 63])"
    using assms(2,3) by (intro first_delim_unique) auto
  then show ?thesis by simp
qed

lemma factor_rx_match:
  assumes "a \<noteq> []" "NUMERIC_LITERAL_REGEX m"
  shows "rx_full factor_rx (js ''('' @ a @ js '' ? '' @ m @ js '' : 1)'') = Some (a, m)"
proof (rule rx_full_unique)
  note m = num_facts [OF assms(2)]
  show "((a, m), []) \<in> set (factor_rx (js ''('' @ a @ js '' ? '' @ m @ js '' : 1)''))"
    unfolding factor_rx_def set_rx using assms(1) m by (intro exI conjI) auto
  fix v' assume v': "(v', []) \<in> set (factor_rx (js ''('' @ a @ js '' ? '' @ m @ js '' : 1)''))"
  obtain b n where bn: "a @ js '' ? '' @ m @ js '' : 1)'' = b @ js '' ? '' @ n @ js '' : 1)''"
    "\<forall>c\<in>set n. numeric_char c" and v: "v' = (b, n)"
    using v' unfolding factor_rx_def set_rx by auto
  have "a @ 32 # [63, 32] @ m = b @ 32 # [63, 32] @ n"
    using bn(1) by (simp add: js_lits)
  then show "v' = (a, m)"
    using numeric_tail_unique [of a "[63, 32]" m b n] m bn(2) v by auto
qed

text \<open>The printed pieces of a group: a range among several conditions is put in parentheses.\<close>

definition pieces :: "RequestCondition list \<Rightarrow> jsstring list" where
  "pieces cs =
     (if length cs = 1 then map buildRequestConditionExpr cs
      else map (\<lambda>c. if is_range c then 40 # buildRequestConditionExpr c @ [41]
                    else buildRequestConditionExpr c) cs)"

lemma truthy_strs_all: "\<forall>e\<in>set es. e \<noteq> [] \<Longrightarrow> truthy_strs es = es"
  by (simp add: truthy_strs_def)

lemma build_factor:
  assumes "wf_group g"
  shows "buildRuleGroupFactor g =
    js ''('' @ join (js '' && '') (pieces (rg_conditions g)) @ js '' ? '' @ rg_multiplier g @ js '' : 1)''"
proof -
  let ?cs = "rg_conditions g"
  have wf: "?cs \<noteq> []" "\<forall>c\<in>set ?cs. wf_condition c" "NUMERIC_LITERAL_REGEX (rg_multiplier g)"
    using assms by (simp_all add: wf_group_def)
  then have t: "truthy_strs (map buildRequestConditionExpr ?cs) = map buildRequestConditionExpr ?cs"
    using condition_last by (intro truthy_strs_all) auto
  have w: "map (\<lambda>e. if str_includes e (js '' || '') then js ''('' @ e @ js '')'' else e)
      (map buildRequestConditionExpr ?cs) =
      map (\<lambda>c. if is_range c then 40 # buildRequestConditionExpr c @ [41]
                else buildRequestConditionExpr c) ?cs"
    using wf(2) condition_bars by (auto simp: js_lits)
  show ?thesis
  proof (cases "length ?cs = 1")
    case True
    then obtain c where "?cs = [c]" by (cases ?cs) auto
    then show ?thesis using t trim_numeric wf(3) by (simp add: buildRuleGroupFactor_def pieces_def Let_def)
  next
    case False
    then show ?thesis
      using t w trim_numeric wf(1,3)
      by (simp add: buildRuleGroupFactor_def pieces_def Let_def del: map_map map_eq_conv)
  qed
qed

definition good_piece :: "jsstring \<Rightarrow> bool" where
  "good_piece e \<longleftrightarrow> pars 0 e \<and> 38 \<notin> set e \<and> e \<noteq> [] \<and> \<not> is_ws (hd e) \<and> \<not> is_ws (last e)"

lemma good_piece_condition: "wf_condition c \<Longrightarrow> good_piece (buildRequestConditionExpr c)"
  using condition_quiet condition_last by (simp add: good_piece_def quiet_def)

lemma good_piece_wrapped: "wf_condition c \<Longrightarrow> good_piece (40 # buildRequestConditionExpr c @ [41])"
  using quiet_call [OF condition_quiet] by (simp add: good_piece_def quiet_def is_ws_def)

lemma pieces_good: "\<forall>c\<in>set cs. wf_condition c \<Longrightarrow> \<forall>e\<in>set (pieces cs). good_piece e"
  by (auto simp: pieces_def good_piece_condition good_piece_wrapped)

lemma good_piece_trim: "good_piece e \<Longrightarrow> trim e = e \<and> e \<noteq> [] \<and> last e \<noteq> 32"
  by (auto simp: good_piece_def trimmed_def intro!: trim_trimmed)

lemma split_pieces:
  assumes "cs \<noteq> []" "\<forall>c\<in>set cs. wf_condition c"
  shows "splitTopLevelAnd (join (js '' && '') (pieces cs)) = pieces cs"
proof -
  note g = pieces_good [OF assms(2)]
  have "pieces cs \<noteq> []" using assms(1) by (simp add: pieces_def)
  moreover have "\<forall>e\<in>set (pieces cs). pars 0 e \<and> 38 \<notin> set e \<and> e \<noteq> [] \<and> last e \<noteq> 32"
    using g good_piece_trim by (auto simp: good_piece_def)
  ultimately have "split_scan (js '' && '') 0 [] (join (js '' && '') (pieces cs)) = map trim (pieces cs)"
    by (rule split_and_join)
  moreover have "map trim (pieces cs) = pieces cs"
    using g good_piece_trim by (simp add: map_idI)
  ultimately show ?thesis
    using g good_piece_trim by (simp add: splitTopLevelAnd_def truthy_strs_all)
qed

lemma range_wrapped_roundtrip:
  assumes "wf_condition c" "is_range c"
  shows "tryParseRequestCondition (40 # buildRequestConditionExpr c @ [41]) = Inr (Some c)"
proof -
  obtain f tz v rs re where c: "c = TimeCondition f tz MATCH_RANGE v rs re"
    using assms(2) by (auto simp: is_range_def split: RequestCondition.splits)
  then have "tryParseTimeCondition (40 # buildRequestConditionExpr c @ [41]) = Some c"
    using assms(1) parse_range(2) [of f tz rs re] by (auto simp: build_time)
  then show ?thesis by (simp add: tryParseRequestCondition_def)
qed

lemma parse_all_map:
  "\<forall>x\<in>set xs. f (h x) = Inr (Some x) \<Longrightarrow> parse_all f (map h xs) = Inr (Some xs)"
  by (induction xs) auto

lemma parse_pieces:
  assumes "\<forall>c\<in>set cs. wf_condition c"
  shows "parse_all (\<lambda>ap. tryParseRequestCondition (trim ap)) (pieces cs) = Inr (Some cs)"
proof -
  have "trim (buildRequestConditionExpr c) = buildRequestConditionExpr c"
    "trim (40 # buildRequestConditionExpr c @ [41]) = 40 # buildRequestConditionExpr c @ [41]"
    if "wf_condition c" for c
    using good_piece_trim good_piece_condition good_piece_wrapped that by blast+
  then show ?thesis
    using assms condition_roundtrip range_wrapped_roundtrip
    unfolding pieces_def by (auto intro!: parse_all_map)
qed

lemma join_not_Nil: "ps \<noteq> [] \<Longrightarrow> \<forall>p\<in>set ps. p \<noteq> [] \<Longrightarrow> join sep ps \<noteq> []"
  by (cases "(sep, ps)" rule: join.cases) auto

lemma factor_roundtrip:
  assumes "wf_group g"
  shows "tryParseRuleGroupFactor (buildRuleGroupFactor g) = Inr (Some g)"
proof -
  let ?cs = "rg_conditions g"
  have wf: "?cs \<noteq> []" "\<forall>c\<in>set ?cs. wf_condition c" "NUMERIC_LITERAL_REGEX (rg_multiplier g)"
    using assms by (simp_all add: wf_group_def)
  have "join (js '' && '') (pieces ?cs) \<noteq> []"
    using wf(1) pieces_good [OF wf(2)] by (intro join_not_Nil) (auto simp: pieces_def good_piece_def)
  then show ?thesis
    using wf by (simp add: tryParseRuleGroupFactor_def build_factor [OF assms] factor_rx_match
        split_pieces parse_pieces)
qed


lemma factor_shape:
  assumes "wf_group g"
  shows "\<exists>body. buildRuleGroupFactor g = 40 # body @ [41] \<and> pars 0 body"
proof -
  let ?cs = "rg_conditions g"
  have wf: "?cs \<noteq> []" "\<forall>c\<in>set ?cs. wf_condition c" "NUMERIC_LITERAL_REGEX (rg_multiplier g)"
    using assms by (simp_all add: wf_group_def)
  let ?body = "join (js '' && '') (pieces ?cs) @ js '' ? '' @ rg_multiplier g @ js '' : 1''"
  have j: "pars 0 (join (js '' && '') es)" if "\<forall>e\<in>set es. pars 0 e" for es
    using that
  proof (induction "js '' && ''" es rule: join.induct)
    case (3 p q ps)
    have "pars 0 (js '' && '')" by (simp add: js_lits)
    then show ?case using 3 by (simp add: pars_append0)
  qed auto
  have "pars 0 (rg_multiplier g)" using quiet_numeric [OF wf(3)] by (simp add: quiet_def)
  moreover have "pars 0 (js '' ? '')" "pars 0 (js '' : 1'')" by (simp_all add: js_lits)
  ultimately have "pars 0 ?body"
    using j pieces_good [OF wf(2)] by (intro pars_append0) (auto simp: good_piece_def)
  moreover have "buildRuleGroupFactor g = 40 # ?body @ [41]"
    by (simp add: build_factor [OF assms] js_lits)
  ultimately show ?thesis by blast
qed

lemma build_rules_join:
  assumes "\<forall>g\<in>set gs. wf_group g"
  shows "buildRequestRuleExpr gs = join (js '' * '') (map buildRuleGroupFactor gs)"
proof -
  have "\<forall>e\<in>set (map buildRuleGroupFactor gs). e \<noteq> []" using assms factor_shape by fastforce
  then show ?thesis by (simp add: buildRequestRuleExpr_def truthy_strs_all)
qed

lemma join_ends:
  "ps \<noteq> [] \<Longrightarrow> \<forall>p\<in>set ps. p \<noteq> [] \<and> hd p = 40 \<and> last p = 41 \<Longrightarrow>
   join sep ps \<noteq> [] \<and> hd (join sep ps) = 40 \<and> last (join sep ps) = 41"
proof (induction sep ps rule: join.induct)
  case (3 sep p q ps)
  then show ?case by auto
qed auto

lemma rules_trim:
  assumes "\<forall>g\<in>set gs. wf_group g"
  shows "trim (buildRequestRuleExpr gs) = buildRequestRuleExpr gs"
proof (cases "gs = []")
  case False
  have "\<forall>p\<in>set (map buildRuleGroupFactor gs). p \<noteq> [] \<and> hd p = 40 \<and> last p = 41"
    using assms factor_shape by fastforce
  then show ?thesis
    using join_ends [of "map buildRuleGroupFactor gs" "js '' * ''"] False
    by (intro trim_trimmed) (simp add: build_rules_join [OF assms] trimmed_def is_ws_def)
qed (simp add: buildRequestRuleExpr_def truthy_strs_def)

lemma split_rules:
  assumes "\<forall>g\<in>set gs. wf_group g" "gs \<noteq> []"
  shows "splitTopLevelMultiply (buildRequestRuleExpr gs) = map buildRuleGroupFactor gs"
proof -
  have "\<forall>f\<in>set (map buildRuleGroupFactor gs). \<exists>body. f = 40 # body @ [41] \<and> pars 0 body"
    using assms(1) factor_shape by simp
  then have "split_scan (js '' * '') 0 [] (buildRequestRuleExpr gs) = map buildRuleGroupFactor gs"
    using assms by (subst build_rules_join [OF assms(1)], intro split_multiply_join) auto
  moreover have "\<forall>e\<in>set (map buildRuleGroupFactor gs). e \<noteq> []" using assms(1) factor_shape by fastforce
  ultimately show ?thesis by (simp add: splitTopLevelMultiply_def truthy_strs_all)
qed

lemma rules_parse:
  assumes "\<forall>g\<in>set gs. wf_group g"
  shows "tryParseRequestRuleExpr (buildRequestRuleExpr gs) = Inr (Some gs)"
proof (cases "gs = []")
  case True
  then show ?thesis by (simp add: tryParseRequestRuleExpr_def buildRequestRuleExpr_def truthy_strs_def)
next
  case False
  then have "buildRequestRuleExpr gs \<noteq> []"
    using split_rules [OF assms False] by (auto simp: splitTopLevelMultiply_def truthy_strs_def)
  then show ?thesis
    using assms factor_roundtrip
    by (simp add: tryParseRequestRuleExpr_def rules_trim split_rules False Let_def parse_all_map)
qed

subsection \<open>Combining with a price expression\<close>

lemma outer_deep:
  "pars n t \<Longrightarrow> 1 \<le> d \<Longrightarrow> rest \<noteq> [] \<Longrightarrow> outer_scan (d + int n) (t @ rest) = outer_scan d rest"
proof (induction n t rule: pars.induct)
  case (2 n c t)
  consider "c = 40" | m where "c = 41" "n = Suc m" | "c \<noteq> 40" "c \<noteq> 41"
    using "2.prems"(1) by (cases n) (auto split: if_splits)
  then show ?case
  proof cases
    case 1
    then show ?thesis using "2.IH"(1) "2.prems" by (simp add: depth_after_def add_ac)
  next
    case 2
    then show ?thesis using "2.IH"(2) [of m] "2.prems" by (simp add: depth_after_def)
  next
    case 3
    then show ?thesis using "2.IH"(3) "2.prems" by (simp add: depth_after_def)
  qed
qed simp

lemma unwrap_parens:
  assumes "pars 0 base"
  shows "unwrapOuterParens (40 # base @ [41]) = unwrapOuterParens base"
proof -
  have "trim (40 # base @ [41]) = 40 # base @ [41]"
    by (rule trim_trimmed) (simp add: trimmed_def is_ws_def)
  moreover have "hasFullOuterParens (40 # base @ [41])"
    using outer_deep [OF assms, of 1 "[41]"]
    by (simp add: hasFullOuterParens_def js_lits depth_after_def suffix_def)
  ultimately show ?thesis
    by (simp add: unwrapOuterParens_def) (subst unwrap_loop.simps, simp)
qed

lemma single_factor_parse:
  assumes "pars 0 base"
  shows "tryParseRequestRuleExpr (40 # base @ [41]) =
    parse_all tryParseRuleGroupFactor [40 # base @ [41]]"
proof -
  have t: "trim (40 # base @ [41]) = 40 # base @ [41]"
    by (rule trim_trimmed) (simp add: trimmed_def is_ws_def)
  have "splitTopLevelMultiply (40 # base @ [41]) = [40 # base @ [41]]"
    using split_multiply_join [of "[40 # base @ [41]]"] assms
    by (simp add: splitTopLevelMultiply_def truthy_strs_def)
  then show ?thesis using t by (simp add: tryParseRequestRuleExpr_def Let_def)
qed

lemma sort_parts_rules:
  "\<forall>g\<in>set gs. wf_group g \<Longrightarrow> sort_parts (map buildRuleGroupFactor gs) = Inr (map buildRuleGroupFactor gs, [])"
proof (induction gs)
  case (Cons g gs)
  then have wf: "\<forall>h\<in>set [g]. wf_group h" by simp
  have "tryParseRequestRuleExpr (buildRuleGroupFactor g) = Inr (Some [g])"
    using rules_parse [OF wf] by (simp add: build_rules_join [OF wf])
  then show ?case using Cons by simp
qed simp


text \<open>Comparisons and \<open>contains\<close> on a parameter print a conjunction of their own.\<close>

definition param_and_modes :: "jsstring list" where
  "param_and_modes = [MATCH_CONTAINS, MATCH_GT, MATCH_GTE, MATCH_LT, MATCH_LTE]"

definition param_tail :: "jsstring \<Rightarrow> jsstring \<Rightarrow> jsstring \<Rightarrow> jsstring" where
  "param_tail p mode v =
     (if mode = MATCH_CONTAINS then js ''has'' @ 40 # (source_expr FromParam p @ js '', '' @ quote v) @ [41]
      else source_expr FromParam p @ js '' '' @ param_mode_op mode @ js '' '' @ v)"

lemma build_param_and:
  assumes "plain p" "p \<noteq> []" "mode \<in> set param_and_modes"
    "if mode = MATCH_CONTAINS then plain v else NUMERIC_LITERAL_REGEX v"
  shows "buildRequestConditionExpr (ParamHeaderCondition FromParam p mode v) =
    join (js '' && '') [source_expr FromParam p @ js '' != nil'', param_tail p mode v]"
  using assms(3,4) trim_plain [OF assms(1)] assms(2) trim_plain [of v] trim_numeric [of v]
  by (auto simp: param_and_modes_def buildRequestConditionExpr_def normalizeCondition_def to_partial_def
      valid_mode_def getRequestRuleMatchOptions_def match_option_def source_name_def
      param_header_expr_def Let_def buildExprLiteral_def source_expr_def param_tail_def match_modes js_lits)

lemma param_ops: "mode \<in> set param_and_modes \<Longrightarrow> mode \<noteq> MATCH_CONTAINS \<Longrightarrow>
    param_mode_op mode \<in> {js ''>'', js ''>='', js ''<'', js ''<=''}"
  by (auto simp: param_and_modes_def param_mode_op_def)

lemma param_tail_piece:
  assumes "plain p" "p \<noteq> []" "mode \<in> set param_and_modes"
    "if mode = MATCH_CONTAINS then plain v else NUMERIC_LITERAL_REGEX v"
  shows "quiet (param_tail p mode v)" "param_tail p mode v \<noteq> []"
    "\<not> is_ws (hd (param_tail p mode v))" "\<not> is_ws (last (param_tail p mode v))"
proof -
  have q: "quiet (param_mode_op mode)" if "mode \<noteq> MATCH_CONTAINS"
    using param_ops [OF assms(3) that] by (auto simp: quiet_def js_lits)
  show "quiet (param_tail p mode v)"
  proof (cases "mode = MATCH_CONTAINS")
    case True
    then show ?thesis
      using assms quiet_append [OF quiet_lits(9) quiet_call [of "source_expr FromParam p @ js '', '' @ quote v"]]
      by (simp add: param_tail_def quiet_append quiet_source_expr quiet_lits quiet_quote)
  next
    case False
    then show ?thesis
      using assms q by (simp add: param_tail_def quiet_append quiet_source_expr quiet_lits quiet_numeric)
  qed
  have "last v \<in> set v \<and> numeric_char (last v)" if "NUMERIC_LITERAL_REGEX v"
    using num_facts(1,2) [OF that] by auto
  then show "param_tail p mode v \<noteq> []" "\<not> is_ws (hd (param_tail p mode v))"
    "\<not> is_ws (last (param_tail p mode v))"
    using assms(4) numeric_no_ws num_facts(1) [of v]
    by (auto simp: param_tail_def source_expr_def source_name_def SOURCE_PARAM_def js_lits is_ws_def)
qed

lemma param_other_none:
  assumes "plain p" "p \<noteq> []" "c \<noteq> 33" "c \<noteq> 61"
  shows "rx_full (exists_rx SOURCE_HEADER ab) (source_expr FromParam p @ 32 # c # u) = None"
    "rx_full (exists_rx SOURCE_PARAM ab) (source_expr FromParam p @ 32 # c # u) = None"
    "rx_full has_param_rx (source_expr FromParam p @ 32 # c # u) = None"
    "rx_full compare_param_rx (source_expr FromParam p @ 32 # c # u) = None"
    "rx_full equal_rx (source_expr FromParam p @ 32 # c # u) = None"
  using assms(3,4)
  by (simp_all add: rx_full_def exists_rx_def has_param_rx_def compare_param_rx_def equal_rx_def
      rx_alt_def path_rx_param path_rx_header assms(1,2) js_lits)

lemma param_tail_unreadable:
  assumes "plain p" "p \<noteq> []" "mode \<in> set param_and_modes"
  shows "tryParseRequestCondition (param_tail p mode v) = Inr None"
proof (cases "mode = MATCH_CONTAINS")
  case True
  have t: "tryParseTimeCondition (js ''has'' @ u) = None" for u
    by (rule time_rx_none [of _ u]) simp
  have "rx_full has_header_rx (js ''has'' @ 40 # source_expr FromParam p @ u) = None" for u
    by (simp add: has_header_rx_def rx_full_def path_rx_header [OF assms(1,2)] js_lits)
  moreover have "rx_full (exists_rx SOURCE_HEADER ab) (js ''has'' @ u) = None"
    "rx_full (exists_rx SOURCE_PARAM ab) (js ''has'' @ u) = None"
    "rx_full has_param_rx (js ''has'' @ u) = None" "rx_full compare_param_rx (js ''has'' @ u) = None"
    "rx_full equal_rx (js ''has'' @ u) = None" for ab u
    by (simp_all add: rx_full_def exists_rx_def has_param_rx_def compare_param_rx_def equal_rx_def
        rx_alt_def path_rx_def SOURCE_HEADER_def SOURCE_PARAM_def js_lits)
  ultimately show ?thesis
    using True by (simp add: param_tail_def tryParseRequestCondition_def t)
next
  case False
  have t: "tryParseTimeCondition (source_expr FromParam p @ u) = None" for u
    using source_expr_start [of FromParam p u] time_rx_none by blast
  obtain c u where cu: "js '' '' @ param_mode_op mode @ js '' '' @ v = 32 # c # u" "c \<noteq> 33" "c \<noteq> 61"
    using param_ops [OF assms(3) False] by (auto simp: js_lits)
  show ?thesis
    using False
    by (simp add: param_tail_def cu(1) tryParseRequestCondition_def t has_rx_none
        param_other_none [OF assms(1,2) cu(2,3)])
qed

lemma param_and_parse:
  assumes "plain p" "p \<noteq> []" "mode \<in> set param_and_modes"
    "if mode = MATCH_CONTAINS then plain v else NUMERIC_LITERAL_REGEX v"
  shows "parse_all (\<lambda>ap. tryParseRequestCondition (trim ap))
    (splitTopLevelAnd (buildRequestConditionExpr (ParamHeaderCondition FromParam p mode v))) = Inr None"
proof -
  let ?e = "source_expr FromParam p @ js '' != nil''"
  let ?t = "param_tail p mode v"
  have e: "quiet ?e" "?e \<noteq> []" "\<not> is_ws (hd ?e)" "\<not> is_ws (last ?e)"
    using assms(1) by (simp_all add: quiet_append quiet_source_expr quiet_lits)
      (simp_all add: source_expr_def source_name_def SOURCE_PARAM_def js_lits is_ws_def)
  note t = param_tail_piece [OF assms]
  have trims: "trim ?e = ?e" "trim ?t = ?t" using e t by (simp_all add: trim_trimmed trimmed_def)
  have "last ?e \<noteq> 32" "last ?t \<noteq> 32" using e(4) t(4) is_ws_space by metis+
  then have "split_scan (js '' && '') 0 [] (join (js '' && '') [?e, ?t]) = map trim [?e, ?t]"
    using e t by (intro split_and_join) (auto simp: quiet_def)
  then have "splitTopLevelAnd (join (js '' && '') [?e, ?t]) = [?e, ?t]"
    using trims e(2) t(2) by (simp add: splitTopLevelAnd_def truthy_strs_def)
  then show ?thesis
    using parse_exists [OF assms(1,2), of FromParam] param_tail_unreadable [OF assms(1-3)] trims
    by (simp add: build_param_and [OF assms])
qed


lemma combine_split:
  assumes "\<forall>g\<in>set gs. wf_group g" "gs \<noteq> []" "trim base \<noteq> []" "pars 0 (trim base)"
    and "tryParseRuleGroupFactor (js ''('' @ trim base @ js '')'') = Inr None"
  shows "splitBillingExprAndRequestRules (combineBillingExpr base (buildRequestRuleExpr gs)) =
    Inr \<lparr>billingExpr = unwrapOuterParens base, requestRuleExpr = buildRequestRuleExpr gs\<rparr>"
proof -
  let ?b = "40 # trim base @ [41]"
  let ?fs = "map buildRuleGroupFactor gs"
  have ne: "buildRequestRuleExpr gs \<noteq> []"
    using split_rules [OF assms(1,2)] assms(2) by (auto simp: splitTopLevelMultiply_def truthy_strs_def)
  obtain f fs where fs: "?fs = f # fs" using assms(2) by (cases gs) auto
  have comb: "combineBillingExpr base (buildRequestRuleExpr gs) = join (js '' * '') (?b # ?fs)"
  proof -
    have "combineBillingExpr base (buildRequestRuleExpr gs) =
        js ''('' @ trim base @ js '') * '' @ buildRequestRuleExpr gs"
      using assms(3) ne by (simp add: combineBillingExpr_def Let_def rules_trim [OF assms(1)])
    then show ?thesis by (simp add: build_rules_join [OF assms(1)] fs js_lits)
  qed
  have shape: "\<forall>e\<in>set (?b # ?fs). \<exists>body. e = 40 # body @ [41] \<and> pars 0 body"
    using assms(1,4) factor_shape by auto
  then have split: "split_scan (js '' * '') 0 [] (join (js '' * '') (?b # ?fs)) = ?b # ?fs"
    by (intro split_multiply_join) auto
  have ends: "\<forall>e\<in>set (?b # ?fs). e \<noteq> [] \<and> hd e = 40 \<and> last e = 41" using shape by fastforce
  then have parts: "splitTopLevelMultiply (join (js '' * '') (?b # ?fs)) = ?b # ?fs"
    unfolding splitTopLevelMultiply_def split by (intro truthy_strs_all) auto
  have trims: "trim (join (js '' * '') (?b # ?fs)) = join (js '' * '') (?b # ?fs)"
    "join (js '' * '') (?b # ?fs) \<noteq> []"
    using join_ends [OF _ ends, of "js '' * ''"] by (auto intro!: trim_trimmed simp: trimmed_def is_ws_def)
  have "tryParseRequestRuleExpr ?b = Inr None"
    using single_factor_parse [OF assms(4)] assms(5) by (simp add: js_lits)
  then have "sort_parts (?b # ?fs) = Inr (?fs, [?b])" using sort_parts_rules [OF assms(1)] by simp
  moreover have "unwrapOuterParens ?b = unwrapOuterParens base"
    using unwrap_parens [OF assms(4)] by (simp add: unwrapOuterParens_def)
  ultimately show ?thesis
    using fs unfolding comb splitBillingExprAndRequestRules_def Let_def trims(1) parts
    by (simp add: trims(2) build_rules_join [OF assms(1)])
qed

lemma param_factor_unreadable:
  assumes "plain p" "p \<noteq> []" "mode \<in> set param_and_modes" "NUMERIC_LITERAL_REGEX m"
    and "if mode = MATCH_CONTAINS then plain v else NUMERIC_LITERAL_REGEX v"
  shows "tryParseRuleGroupFactor (buildRuleGroupFactor
      \<lparr>rg_conditions = [ParamHeaderCondition FromParam p mode v], rg_multiplier = m\<rparr>) = Inr None"
proof -
  let ?e = "buildRequestConditionExpr (ParamHeaderCondition FromParam p mode v)"
  have ne: "?e \<noteq> []"
    using build_param_and [OF assms(1-3,5)] by (simp add: source_expr_def)
  have "buildRuleGroupFactor \<lparr>rg_conditions = [ParamHeaderCondition FromParam p mode v], rg_multiplier = m\<rparr> =
      js ''('' @ ?e @ js '' ? '' @ m @ js '' : 1)''"
    using ne assms(4) trim_numeric
    by (simp add: buildRuleGroupFactor_def Let_def truthy_strs_def)
  then show ?thesis
    using factor_rx_match [OF ne assms(4)] param_and_parse [OF assms(1-3,5)]
    by (simp add: tryParseRuleGroupFactor_def)
qed

subsection \<open>Properties\<close>

text \<open>
  Claim C39.  What the rule editor prints, the rule parser reads back: for groups of well-formed
  conditions (header and parameter equality and existence, header containment, all time
  conditions) with a numeric multiplier, parsing the printed expression returns the same
  groups, conditions, modes, values and multipliers, and never throws.
\<close>

theorem rule_expr_roundtrip:
  assumes "\<forall>g\<in>set gs. wf_group g"
  shows "tryParseRequestRuleExpr (buildRequestRuleExpr gs) = Inr (Some gs)"
  by (rule rules_parse [OF assms])

definition demo_rule :: RequestRuleGroup where
  "demo_rule = \<lparr>rg_conditions =
     [ParamHeaderCondition FromHeader (js ''x-tier'') MATCH_CONTAINS (js ''fast''),
      TimeCondition (js ''hour'') (js ''Asia/Shanghai'') MATCH_RANGE [] (js ''22'') (js ''6'')],
     rg_multiplier = js ''0.5''\<rparr>"

lemma demo_rule_wf: "wf_group demo_rule"
proof -
  have "plain (js ''x-tier'')" "plain (js ''fast'')" "plain (js ''Asia/Shanghai'')"
    "NUMERIC_LITERAL_REGEX (js ''22'')" "NUMERIC_LITERAL_REGEX (js ''6'')"
    "NUMERIC_LITERAL_REGEX (js ''0.5'')" by code_simp+
  then show ?thesis by (simp add: demo_rule_def wf_group_def TIME_FUNCS_def)
qed

theorem rule_expr_roundtrip_witness:
  "tryParseRequestRuleExpr (buildRequestRuleExpr [demo_rule]) = Inr (Some [demo_rule])"
  using rule_expr_roundtrip [of "[demo_rule]"] demo_rule_wf by simp

text \<open>
  Combining and splitting are inverse: a price expression with balanced parentheses
  that is no rule itself, combined with printed rules, is taken apart into the rules exactly as
  printed and the price expression without its outer parentheses.
\<close>

theorem combine_split_roundtrip:
  assumes "\<forall>g\<in>set gs. wf_group g" "gs \<noteq> []" "trim base \<noteq> []" "pars 0 (trim base)"
    and "tryParseRuleGroupFactor (js ''('' @ trim base @ js '')'') = Inr None"
  shows "splitBillingExprAndRequestRules (combineBillingExpr base (buildRequestRuleExpr gs)) =
    Inr \<lparr>billingExpr = unwrapOuterParens base, requestRuleExpr = buildRequestRuleExpr gs\<rparr>"
  by (rule combine_split [OF assms])

theorem combine_split_roundtrip_witness:
  "splitBillingExprAndRequestRules
     (combineBillingExpr (js ''p * 2 + c * 3'') (buildRequestRuleExpr [demo_rule])) =
   Inr \<lparr>billingExpr = unwrapOuterParens (js ''p * 2 + c * 3''),
        requestRuleExpr = buildRequestRuleExpr [demo_rule]\<rparr>"
proof (rule combine_split_roundtrip)
  have t: "trim (js ''p * 2 + c * 3'') = js ''p * 2 + c * 3''" by code_simp
  show "trim (js ''p * 2 + c * 3'') \<noteq> []" "pars 0 (trim (js ''p * 2 + c * 3''))"
    unfolding t by (simp_all add: js_lits)
  have "rx_full factor_rx (js ''('' @ js ''p * 2 + c * 3'' @ js '')'') = None" by code_simp
  then show "tryParseRuleGroupFactor (js ''('' @ trim (js ''p * 2 + c * 3'') @ js '')'') = Inr None"
    unfolding t tryParseRuleGroupFactor_def by simp
qed (simp_all add: demo_rule_wf)

text \<open>
  A defect: a rule that compares a request parameter, or tests what it contains, is
  printed with a conjunction of its own, at which the parser splits the condition; the printed
  rule is therefore never read back, although the parser has patterns for it.
\<close>

theorem param_rules_not_read_back:
  assumes "plain p" "p \<noteq> []" "mode \<in> set param_and_modes" "NUMERIC_LITERAL_REGEX m"
    and "if mode = MATCH_CONTAINS then plain v else NUMERIC_LITERAL_REGEX v"
  shows "tryParseRuleGroupFactor (buildRuleGroupFactor
      \<lparr>rg_conditions = [ParamHeaderCondition FromParam p mode v], rg_multiplier = m\<rparr>) = Inr None"
  by (rule param_factor_unreadable [OF assms])

theorem param_rules_not_read_back_witness:
  "tryParseRuleGroupFactor (buildRuleGroupFactor
      \<lparr>rg_conditions = [ParamHeaderCondition FromParam (js ''max_tokens'') MATCH_GT (js ''1000'')],
       rg_multiplier = js ''2''\<rparr>) = Inr None"
proof (rule param_rules_not_read_back)
  show "plain (js ''max_tokens'')" "NUMERIC_LITERAL_REGEX (js ''2'')" by code_simp+
  have "NUMERIC_LITERAL_REGEX (js ''1000'')" "MATCH_GT \<noteq> MATCH_CONTAINS" by code_simp+
  then show "if MATCH_GT = MATCH_CONTAINS then plain (js ''1000'') else NUMERIC_LITERAL_REGEX (js ''1000'')"
    by simp
qed (simp_all add: param_and_modes_def)

text \<open>
  Normalising a partial condition always gives a condition the editor offers: its mode
  is among the options of its source, a time condition has a known function and a time zone,
  and normalising again changes nothing.
\<close>

theorem normalize_condition_normal:
  "normalizeCondition (to_partial (normalizeCondition c)) = normalizeCondition c \<and>
   (case normalizeCondition c of
      TimeCondition f tz mode v rs re \<Rightarrow>
        f \<in> set TIME_FUNCS \<and> tz \<noteq> [] \<and> mode \<in> mo_value ` set (getRequestRuleMatchOptions SOURCE_TIME)
    | ParamHeaderCondition src path mode v \<Rightarrow>
        mode \<in> mo_value ` set (getRequestRuleMatchOptions (source_name src)))"
proof -
  have src: "SOURCE_PARAM \<noteq> SOURCE_TIME" "SOURCE_HEADER \<noteq> SOURCE_TIME" "SOURCE_PARAM \<noteq> SOURCE_HEADER"
    by (simp_all add: match_modes js_lits)
  have opts: "MATCH_GTE \<in> mo_value ` set (getRequestRuleMatchOptions SOURCE_TIME)"
    "MATCH_EQ \<in> mo_value ` set (getRequestRuleMatchOptions s)" for s
    by (auto simp: getRequestRuleMatchOptions_def match_option_def Let_def)
  then have valid: "valid_mode s m d \<in> mo_value ` set (getRequestRuleMatchOptions s)"
    if "d \<in> mo_value ` set (getRequestRuleMatchOptions s)" for s m d
    using that by (auto simp: valid_mode_def split: option.splits)
  then have again: "valid_mode s (Some (valid_mode s m d)) d' = valid_mode s m d"
    if "d \<in> mo_value ` set (getRequestRuleMatchOptions s)" for s m d d'
    using valid [OF that] by (simp add: valid_mode_def [of s "Some x" for x])
  show ?thesis
    using opts src
    by (auto simp: normalizeCondition_def to_partial_def source_name_def Let_def again valid isTimeFunc_def
        TIME_FUNCS_def js_lits split: option.splits)
qed

end
