(* ===== verification/TierExpr.thy ===== *)
theory TierExpr
  imports BillingRules
begin

section \<open>Tier expressions and the visual tier editor\<close>

text \<open>
  \<^verbatim>\<open>features/pricing/lib/tier-expr.ts\<close>: prices in tiers, each with conditions on the number of
  tokens, printed as one conditional expression and parsed back by two patterns.  The
  definitions come first; the lemmas then say what each part of the patterns does on a printed
  text: terms, optional terms, a whole tier, a list of conditions, and the search for all tiers.
  The local evaluator of the file hands the text to the interpreter of the language and is not modelled.
\<close>

subsection \<open>Data\<close>

datatype CacheMode = CacheTimed | CacheGeneric

text \<open>A number as \<open>Number\<close> gives it, \<open>None\<close> for \<open>NaN\<close>; the value of a condition is a number, the
  text of an input field, or missing.\<close>

type_synonym js_num = "rat option"

datatype tier_value = TierNumber js_num | TierText jsstring | TierMissing

record TierConditionInput =
  ti_var :: jsstring
  ti_op :: jsstring
  ti_value :: tier_value

record VisualTier =
  vt_label :: jsstring
  vt_conditions :: "TierConditionInput list"
  vt_input_unit_cost :: js_num
  vt_output_unit_cost :: js_num
  vt_cache_mode :: CacheMode
  vt_cache_read_unit_cost :: js_num
  vt_cache_create_unit_cost :: js_num
  vt_cache_create_1h_unit_cost :: js_num
  vt_image_unit_cost :: js_num
  vt_image_output_unit_cost :: js_num
  vt_audio_input_unit_cost :: js_num
  vt_audio_output_unit_cost :: js_num

text \<open>\<open>Partial<VisualTier>\<close>: every property may be missing.\<close>

record PartialTier =
  pv_label :: "jsstring option"
  pv_conditions :: "TierConditionInput list option"
  pv_input_unit_cost :: "js_num option"
  pv_output_unit_cost :: "js_num option"
  pv_cache_mode :: "CacheMode option"
  pv_cache_read_unit_cost :: "js_num option"
  pv_cache_create_unit_cost :: "js_num option"
  pv_cache_create_1h_unit_cost :: "js_num option"
  pv_image_unit_cost :: "js_num option"
  pv_image_output_unit_cost :: "js_num option"
  pv_audio_input_unit_cost :: "js_num option"
  pv_audio_output_unit_cost :: "js_num option"

definition empty_tier :: PartialTier where
  "empty_tier =
     \<lparr>pv_label = None, pv_conditions = None, pv_input_unit_cost = None, pv_output_unit_cost = None,
      pv_cache_mode = None, pv_cache_read_unit_cost = None, pv_cache_create_unit_cost = None,
      pv_cache_create_1h_unit_cost = None, pv_image_unit_cost = None, pv_image_output_unit_cost = None,
      pv_audio_input_unit_cost = None, pv_audio_output_unit_cost = None\<rparr>"

definition partial_of :: "VisualTier \<Rightarrow> PartialTier" where
  "partial_of t =
     \<lparr>pv_label = Some (vt_label t), pv_conditions = Some (vt_conditions t),
      pv_input_unit_cost = Some (vt_input_unit_cost t), pv_output_unit_cost = Some (vt_output_unit_cost t),
      pv_cache_mode = Some (vt_cache_mode t), pv_cache_read_unit_cost = Some (vt_cache_read_unit_cost t),
      pv_cache_create_unit_cost = Some (vt_cache_create_unit_cost t),
      pv_cache_create_1h_unit_cost = Some (vt_cache_create_1h_unit_cost t),
      pv_image_unit_cost = Some (vt_image_unit_cost t),
      pv_image_output_unit_cost = Some (vt_image_output_unit_cost t),
      pv_audio_input_unit_cost = Some (vt_audio_input_unit_cost t),
      pv_audio_output_unit_cost = Some (vt_audio_output_unit_cost t)\<rparr>"

text \<open>\<open>Number(x) || 0\<close>.\<close>

definition cost :: "js_num option \<Rightarrow> js_num" where
  "cost x = (case x of Some (Some r) \<Rightarrow> Some r | _ \<Rightarrow> Some 0)"

definition getTierCacheMode :: "PartialTier \<Rightarrow> CacheMode" where
  "getTierCacheMode t =
     (case pv_cache_mode t of
        Some m \<Rightarrow> m
      | None \<Rightarrow> (case pv_cache_create_1h_unit_cost t of
                   Some (Some r) \<Rightarrow> if r > 0 then CacheTimed else CacheGeneric
                 | _ \<Rightarrow> CacheGeneric))"

text \<open>The properties before the spread are defaults; those after it are always replaced.\<close>

definition normalizeVisualTier :: "PartialTier \<Rightarrow> VisualTier" where
  "normalizeVisualTier t =
     \<lparr>vt_label = nullish (pv_label t) [],
      vt_conditions = nullish (pv_conditions t) [],
      vt_input_unit_cost = nullish (pv_input_unit_cost t) (cost (pv_input_unit_cost t)),
      vt_output_unit_cost = nullish (pv_output_unit_cost t) (cost (pv_output_unit_cost t)),
      vt_cache_mode = nullish (pv_cache_mode t) (getTierCacheMode t),
      vt_cache_read_unit_cost = cost (pv_cache_read_unit_cost t),
      vt_cache_create_unit_cost = cost (pv_cache_create_unit_cost t),
      vt_cache_create_1h_unit_cost = cost (pv_cache_create_1h_unit_cost t),
      vt_image_unit_cost = cost (pv_image_unit_cost t),
      vt_image_output_unit_cost = cost (pv_image_output_unit_cost t),
      vt_audio_input_unit_cost = cost (pv_audio_input_unit_cost t),
      vt_audio_output_unit_cost = cost (pv_audio_output_unit_cost t)\<rparr>"

definition createDefaultVisualConfig :: "VisualTier list" where
  "createDefaultVisualConfig =
     [normalizeVisualTier (empty_tier\<lparr>pv_conditions := Some [], pv_input_unit_cost := Some (Some 0),
        pv_output_unit_cost := Some (Some 0), pv_label := Some (js ''base''),
        pv_cache_mode := Some CacheGeneric\<rparr>)]"

definition normalizeVisualConfig :: "VisualTier list option \<Rightarrow> VisualTier list" where
  "normalizeVisualConfig config =
     (case config of
        None \<Rightarrow> createDefaultVisualConfig
      | Some tiers \<Rightarrow> if tiers = [] then createDefaultVisualConfig
                      else map (normalizeVisualTier \<circ> partial_of) tiers)"

subsection \<open>Printing\<close>

definition js_num_str :: "js_num \<Rightarrow> jsstring" where
  "js_num_str x = (case x of None \<Rightarrow> js ''NaN'' | Some r \<Rightarrow> num_str r)"

fun tier_value_str :: "tier_value \<Rightarrow> jsstring" where
  "tier_value_str (TierNumber x) = js_num_str x"
| "tier_value_str (TierText s) = s"
| "tier_value_str TierMissing = js ''null''"

definition condition_kept :: "TierConditionInput \<Rightarrow> bool" where
  "condition_kept c \<longleftrightarrow> ti_var c \<noteq> [] \<and> ti_op c \<noteq> [] \<and> ti_value c \<noteq> TierMissing \<and> ti_value c \<noteq> TierText []"

definition condition_str :: "TierConditionInput \<Rightarrow> jsstring" where
  "condition_str c = ti_var c @ [32] @ ti_op c @ [32] @ tier_value_str (ti_value c)"

definition buildConditionStr :: "TierConditionInput list \<Rightarrow> jsstring" where
  "buildConditionStr conditions = join (js '' && '') (map condition_str (filter condition_kept conditions))"

text \<open>The cost stored under a field of \<open>BILLING_CACHE_VAR_MAP\<close>.\<close>

definition tier_field :: "VisualTier \<Rightarrow> jsstring \<Rightarrow> js_num option" where
  "tier_field t f = map_of
     [(js ''cache_read_unit_cost'', vt_cache_read_unit_cost t),
      (js ''cache_create_unit_cost'', vt_cache_create_unit_cost t),
      (js ''cache_create_1h_unit_cost'', vt_cache_create_1h_unit_cost t),
      (js ''image_unit_cost'', vt_image_unit_cost t),
      (js ''image_output_unit_cost'', vt_image_output_unit_cost t),
      (js ''audio_input_unit_cost'', vt_audio_input_unit_cost t),
      (js ''audio_output_unit_cost'', vt_audio_output_unit_cost t)] f"

definition term_str :: "jsstring \<Rightarrow> js_num \<Rightarrow> jsstring" where
  "term_str v x = v @ js '' * '' @ js_num_str x"

definition buildTierBodyExpr :: "VisualTier \<Rightarrow> jsstring" where
  "buildTierBodyExpr t =
     join (js '' + '')
       ([term_str (js ''p'') (cost (Some (vt_input_unit_cost t))),
         term_str (js ''c'') (cost (Some (vt_output_unit_cost t)))] @
        List.map_filter (\<lambda>(fld, exprVar).
          let v = cost (tier_field t fld) in if v \<noteq> Some 0 then Some (term_str exprVar v) else None)
          BILLING_CACHE_VAR_MAP)"

definition tier_str :: "jsstring \<Rightarrow> VisualTier \<Rightarrow> jsstring" where
  "tier_str label t = js ''tier(\"'' @ label @ js ''\", '' @ buildTierBodyExpr t @ js '')''"

definition ZERO_EXPR :: jsstring where
  "ZERO_EXPR = js ''p * 0 + c * 0''"

definition tier_part :: "nat \<Rightarrow> nat \<Rightarrow> VisualTier \<Rightarrow> jsstring" where
  "tier_part n i t =
     (let label = (if vt_label t \<noteq> [] then vt_label t else js ''tier_'' @ show_nat (i + 1));
          cond = buildConditionStr (vt_conditions t)
      in if i < n - 1 \<and> cond \<noteq> [] then cond @ js '' ? '' @ tier_str label t else tier_str label t)"

definition generateExprFromVisualConfig :: "VisualTier list option \<Rightarrow> jsstring" where
  "generateExprFromVisualConfig config =
     (case config of
        None \<Rightarrow> ZERO_EXPR
      | Some [] \<Rightarrow> ZERO_EXPR
      | Some [t] \<Rightarrow>
          let body = tier_str (if vt_label t \<noteq> [] then vt_label t else js ''default'') t;
              cond = buildConditionStr (vt_conditions t)
          in if cond \<noteq> [] then cond @ js '' ? '' @ body @ js '' : '' @ ZERO_EXPR else body
      | Some tiers \<Rightarrow>
          join (js '' : '') (map (\<lambda>i. tier_part (length tiers) i (tiers ! i)) [0..<length tiers]))"

subsection \<open>Parsing\<close>

definition sp :: "'a rx \<Rightarrow> 'a rx" where
  "sp p = rx_bind (rx_star is_ws) (\<lambda>_. p)"

definition term_rx :: "jsstring \<Rightarrow> (jsstring \<Rightarrow> 'a rx) \<Rightarrow> 'a rx" where
  "term_rx v k = rx_seq v (sp (rx_seq [42] (sp (rx_bind (rx_plus numeric_char) k))))"

definition plus_term_rx :: "jsstring \<Rightarrow> (jsstring \<Rightarrow> 'a rx) \<Rightarrow> 'a rx" where
  "plus_term_rx v k = sp (rx_seq [43] (sp (term_rx v k)))"

text \<open>The optional terms, one for each variable, with the number each captured.\<close>

fun opt_terms :: "jsstring list \<Rightarrow> (jsstring option list \<Rightarrow> 'a rx) \<Rightarrow> 'a rx" where
  "opt_terms [] k = k []"
| "opt_terms (v # vs) k = rx_bind (rx_opt (plus_term_rx v rx_return)) (\<lambda>x. opt_terms vs (\<lambda>xs. k (x # xs)))"

definition cacheVarNames :: "jsstring list" where
  "cacheVarNames = map snd BILLING_CACHE_VAR_MAP"

type_synonym tier_match = "jsstring \<times> jsstring \<times> jsstring \<times> jsstring option list"

definition single_rx :: "tier_match rx" where
  "single_rx =
     rx_seq (js ''tier(\"'') (rx_bind (rx_star not_quote) (\<lambda>label. rx_seq (js ''\",'')
       (sp (term_rx (js ''p'') (\<lambda>ic. plus_term_rx (js ''c'') (\<lambda>oc. opt_terms cacheVarNames (\<lambda>xs.
          rx_seq (js '')'') (rx_return (label, ic, oc, xs)))))))))"

definition visual_tier_rx :: "(jsstring option \<times> tier_match) rx" where
  "visual_tier_rx =
     rx_bind (rx_opt (rx_bind cond_group_rx (\<lambda>g. sp (rx_seq [63] (sp (rx_return g)))))) (\<lambda>g.
       rx_bind single_rx (\<lambda>m. rx_return (g, m)))"

definition captured :: "jsstring option list \<Rightarrow> jsstring \<Rightarrow> js_num option" where
  "captured xs fld = (case map_of (zip (map fst BILLING_CACHE_VAR_MAP) xs) fld of
     Some (Some n) \<Rightarrow> Some (js_number n) | _ \<Rightarrow> None)"

definition matched_tier :: "TierConditionInput list \<Rightarrow> tier_match \<Rightarrow> PartialTier" where
  "matched_tier conditions m =
     (case m of (label, ic, oc, xs) \<Rightarrow>
        \<lparr>pv_label = Some label, pv_conditions = Some conditions,
         pv_input_unit_cost = Some (js_number ic), pv_output_unit_cost = Some (js_number oc),
         pv_cache_mode = None,
         pv_cache_read_unit_cost = captured xs (js ''cache_read_unit_cost''),
         pv_cache_create_unit_cost = captured xs (js ''cache_create_unit_cost''),
         pv_cache_create_1h_unit_cost = captured xs (js ''cache_create_1h_unit_cost''),
         pv_image_unit_cost = captured xs (js ''image_unit_cost''),
         pv_image_output_unit_cost = captured xs (js ''image_output_unit_cost''),
         pv_audio_input_unit_cost = captured xs (js ''audio_input_unit_cost''),
         pv_audio_output_unit_cost = captured xs (js ''audio_output_unit_cost'')\<rparr>)"

definition condition_inputs :: "jsstring \<Rightarrow> TierConditionInput list" where
  "condition_inputs condStr =
     map (\<lambda>c. \<lparr>ti_var = tc_var c, ti_op = tc_op c, ti_value = TierNumber (tc_value c)\<rparr>)
       (parse_tier_conditions condStr)"

definition strip_blanks :: "jsstring \<Rightarrow> jsstring" where
  "strip_blanks s = filter (\<lambda>c. \<not> is_ws c) s"

definition tryParseVisualConfig :: "jsstring \<Rightarrow> VisualTier list option" where
  "tryParseVisualConfig exprStr =
     (if exprStr = [] then None
      else
        let body = snd (stripExprVersion exprStr) in
        case rx_full single_rx body of
          Some m \<Rightarrow> Some (normalizeVisualConfig (Some [normalizeVisualTier (matched_tier [] m)]))
        | None \<Rightarrow>
            let tiers = map (\<lambda>(g, m). normalizeVisualTier (matched_tier (condition_inputs (nullish g [])) m))
                  (rx_search (\<lambda>_. visual_tier_rx) None body);
                cfg = normalizeVisualConfig (Some tiers)
            in if tiers = [] then None
               else if strip_blanks (generateExprFromVisualConfig (Some cfg)) \<noteq> strip_blanks body then None
               else Some cfg)"

subsection \<open>Patterns on printed terms\<close>

lemma sp_none: "\<not> is_ws c \<Longrightarrow> sp p (c # s) = p (c # s)"
  using rx_star_bind_in [of "[]" is_ws "c # s" "\<lambda>_. p"] by (simp add: sp_def)

lemma sp_one: "\<not> is_ws c \<Longrightarrow> (\<And>s. p (32 # s) = []) \<Longrightarrow> sp p (32 # c # s) = p (c # s)"
  using rx_star_bind_in [of "[32]" is_ws "c # s" "\<lambda>_. p"] by (simp add: sp_def)

lemma not_ws_signs [simp]: "\<not> is_ws 42" "\<not> is_ws 43" "\<not> is_ws 63" "\<not> is_ws 41" "\<not> is_ws 38"
  by (simp_all add: is_ws_def)

text \<open>The texts of numbers that the patterns read exactly: no sign \<open>+\<close>, which could be taken for the next term.\<close>

definition plain_number :: "jsstring \<Rightarrow> bool" where
  "plain_number n \<longleftrightarrow> n \<noteq> [] \<and> list_all (\<lambda>c. numeric_char c \<and> c \<noteq> 43) n"

lemma plain_number_hd: "plain_number n \<Longrightarrow> \<exists>c m. n = c # m \<and> \<not> is_ws c \<and> numeric_char c"
  by (cases n) (auto simp: plain_number_def numeric_char_def is_ws_def is_digit_def)

text \<open>What follows a term does not read a number: it fails on every other character of a number.\<close>

definition after_term :: "(jsstring \<Rightarrow> 'a rx) \<Rightarrow> bool" where
  "after_term k \<longleftrightarrow> (\<forall>a c s. numeric_char c \<longrightarrow> c \<noteq> 43 \<longrightarrow> k a (c # s) = [])"

lemma numeric_ws: "rx_bind (rx_plus numeric_char) k (32 # s) = []"
  by (simp add: rx_bind_def rx_plus_def rx_star_def numeric_char_def is_digit_def)

lemma term_rx_read:
  assumes "plain_number n" "after_term k" "t = [] \<or> \<not> numeric_char (hd t)"
  shows "term_rx v k (v @ js '' * '' @ n @ t) = k n t"
proof -
  obtain c m where n: "n = c # m" "\<not> is_ws c" using plain_number_hd [OF assms(1)] by blast
  have "rx_bind (rx_plus numeric_char) k (n @ t) = k n t"
    using assms by (intro rx_plus_bind_in) (auto simp: plain_number_def list_all_iff after_term_def)
  then show ?thesis
    using n by (simp add: term_rx_def js_lits sp_one numeric_ws)
qed

lemma term_rx_space [simp]: "v \<noteq> [] \<Longrightarrow> hd v \<noteq> 32 \<Longrightarrow> term_rx v k (32 # s) = []"
  by (cases v) (auto simp: term_rx_def)

definition is_word :: "jsstring \<Rightarrow> bool" where
  "is_word v \<longleftrightarrow> v \<noteq> [] \<and> list_all word_char v"

lemma word_hd: "is_word v \<Longrightarrow> \<exists>c m. v = c # m \<and> \<not> is_ws c \<and> c \<noteq> 32"
  by (cases v) (auto simp: is_word_def word_char_def is_ws_def is_digit_def)

lemma plus_term_read:
  assumes "is_word v" "plain_number n" "after_term k" "t = [] \<or> \<not> numeric_char (hd t)"
  shows "plus_term_rx v k (js '' + '' @ v @ js '' * '' @ n @ t) = k n t"
proof -
  obtain c m where v: "v = c # m" "\<not> is_ws c" "c \<noteq> 32" using word_hd [OF assms(1)] by blast
  have "sp (term_rx v k) (32 # v @ js '' * '' @ n @ t) = term_rx v k (v @ js '' * '' @ n @ t)"
    using v by (simp add: sp_one)
  then show ?thesis
    using term_rx_read [OF assms(2-4)] by (simp add: plus_term_rx_def js_lits sp_one)
qed

lemma term_rx_other:
  assumes "is_word v" "is_word w" "v \<noteq> w"
  shows "term_rx v k (w @ 32 # s) = []"
proof (cases "prefix v (w @ 32 # s)")
  case True
  have "32 \<notin> set v" using assms(1) by (auto simp: is_word_def list_all_iff word_char_def is_digit_def)
  then have "prefix v w" using True by (auto simp: prefix_append prefix_Cons)
  then obtain u where u: "w = v @ u" by (auto simp: prefix_def)
  then obtain c m where c: "u = c # m" using assms(3) by (cases u) auto
  then have "word_char c" using u assms(2) by (simp add: is_word_def)
  then have "\<not> is_ws c" "c \<noteq> 42" by (auto simp: word_char_def is_ws_def is_digit_def)
  then show ?thesis by (simp add: term_rx_def u c sp_none)
qed (simp add: term_rx_def)

lemma plus_term_other:
  assumes "is_word v" "is_word w" "v \<noteq> w"
  shows "plus_term_rx v k (js '' + '' @ w @ 32 # s) = []"
proof -
  obtain c m where w: "w = c # m" "\<not> is_ws c" using word_hd [OF assms(2)] by blast
  obtain d m' where v: "v = d # m'" "d \<noteq> 32" using word_hd [OF assms(1)] by blast
  have "sp (term_rx v k) (32 # w @ 32 # s) = []"
    using sp_one [of c "term_rx v k" "m @ 32 # s"] term_rx_other [OF assms] v w by simp
  then show ?thesis by (simp add: plus_term_rx_def js_lits sp_one)
qed

lemma plus_term_fail: "\<not> is_ws c \<Longrightarrow> c \<noteq> 43 \<Longrightarrow> plus_term_rx v k (c # s) = []"
  by (simp add: plus_term_rx_def sp_none)

lemma plus_term_bind: "rx_bind (plus_term_rx v k) f = plus_term_rx v (\<lambda>n. rx_bind (k n) f)"
  by (simp add: plus_term_rx_def term_rx_def sp_def rx_bind_assoc rx_bind_seq)

lemma opt_terms_Cons:
  "opt_terms (v # vs) k s =
     plus_term_rx v (\<lambda>n. opt_terms vs (\<lambda>xs. k (Some n # xs))) s @ opt_terms vs (\<lambda>xs. k (None # xs)) s"
  by (simp add: rx_opt_bind plus_term_bind)

lemma opt_terms_fail:
  "\<not> is_ws c \<Longrightarrow> c \<noteq> 43 \<Longrightarrow> (\<And>xs. k xs (c # s) = []) \<Longrightarrow> opt_terms vs k (c # s) = []"
  by (induction vs arbitrary: k) (simp_all add: opt_terms_Cons plus_term_fail del: opt_terms.simps(2))

lemma opt_terms_other:
  assumes "list_all is_word vs" "is_word w" "w \<notin> set vs" "\<And>xs s. k xs (32 # s) = []"
  shows "opt_terms vs k (js '' + '' @ w @ 32 # s) = []"
  using assms
proof (induction vs arbitrary: k)
  case Nil
  then show ?case by (simp add: js_lits)
next
  case (Cons v vs)
  then show ?case by (auto simp: opt_terms_Cons plus_term_other simp del: opt_terms.simps(2))
qed

definition opt_term_str :: "jsstring \<Rightarrow> jsstring option \<Rightarrow> jsstring" where
  "opt_term_str v x = (case x of None \<Rightarrow> [] | Some n \<Rightarrow> js '' + '' @ v @ js '' * '' @ n)"

definition opt_terms_str :: "jsstring list \<Rightarrow> jsstring option list \<Rightarrow> jsstring" where
  "opt_terms_str vs xs = concat (map2 opt_term_str vs xs)"

lemma opt_terms_str_simps [simp]:
  "opt_terms_str [] xs = []" "opt_terms_str (v # vs) (x # xs) = opt_term_str v x @ opt_terms_str vs xs"
  by (simp_all add: opt_terms_str_def)

lemma opt_terms_str_cases:
  "length vs = length xs \<Longrightarrow> opt_terms_str vs xs = [] \<or>
     (\<exists>w s. w \<in> set vs \<and> opt_terms_str vs xs = js '' + '' @ w @ 32 # s)"
proof (induction vs xs rule: list_induct2)
  case (Cons v vs x xs)
  then show ?case by (cases x) (fastforce simp: opt_term_str_def js_lits)+
qed simp

lemma numeric_not_ws: "numeric_char c \<Longrightarrow> \<not> is_ws c"
  by (auto simp: numeric_char_def is_ws_def is_digit_def)

lemma opt_terms_read:
  assumes "length vs = length xs" "distinct vs" "list_all is_word vs" "list_all (pred_option plain_number) xs"
    and "\<And>xs c s. c \<noteq> 41 \<Longrightarrow> k xs (c # s) = []"
  shows "opt_terms vs k (opt_terms_str vs xs @ 41 # t) = k xs (41 # t)"
  using assms
proof (induction vs xs arbitrary: k rule: list_induct2)
  case (Cons v vs x xs)
  let ?rest = "opt_terms_str vs xs @ 41 # t"
  have IH: "opt_terms vs (\<lambda>xs. k (y # xs)) ?rest = k (y # xs) (41 # t)" for y
    using Cons by simp
  have after: "after_term (\<lambda>n. opt_terms vs (\<lambda>xs. k (Some n # xs)))"
    unfolding after_term_def
  proof (intro allI impI)
    fix a c s assume "numeric_char c" "c \<noteq> 43"
    moreover have "c \<noteq> 41" using \<open>numeric_char c\<close> by (auto simp: numeric_char_def is_digit_def)
    ultimately show "opt_terms vs (\<lambda>xs. k (Some a # xs)) (c # s) = []"
      using Cons.prems(4) by (intro opt_terms_fail) (auto simp: numeric_not_ws)
  qed
  have rest: "?rest = [] \<or> \<not> numeric_char (hd ?rest)"
    using opt_terms_str_cases [OF Cons.hyps] by (auto simp: js_lits numeric_char_def is_digit_def)
  have skip: "plus_term_rx v f ?rest = []" for f :: "jsstring \<Rightarrow> 'a rx"
    using opt_terms_str_cases [OF Cons.hyps]
  proof
    assume "opt_terms_str vs xs = []"
    then show ?thesis by (simp add: plus_term_fail)
  next
    assume "\<exists>w s. w \<in> set vs \<and> opt_terms_str vs xs = js '' + '' @ w @ 32 # s"
    then obtain w s where w: "w \<in> set vs" "opt_terms_str vs xs = js '' + '' @ w @ 32 # s" by blast
    then have "is_word w" "v \<noteq> w" using Cons.prems(1,2) by (auto simp: list_all_iff)
    then show ?thesis
      using plus_term_other [of v w f "s @ 41 # t"] Cons.prems(2) w(2) by simp
  qed
  show ?case
  proof (cases x)
    case None
    then show ?thesis using IH skip
      by (simp add: opt_terms_Cons opt_term_str_def del: opt_terms.simps(2))
  next
    case (Some n)
    have "opt_terms vs (\<lambda>xs. k (None # xs)) (js '' + '' @ v @ 32 # 42 # 32 # n @ ?rest) = []"
      using Cons.prems by (intro opt_terms_other) auto
    moreover have "plus_term_rx v (\<lambda>n. opt_terms vs (\<lambda>xs. k (Some n # xs))) (js '' + '' @ v @ js '' * '' @ n @ ?rest) =
        k (Some n # xs) (41 # t)"
      using plus_term_read [OF _ _ after rest, of v n] IH Cons.prems(2,3) Some by simp
    ultimately show ?thesis
      using Some by (simp add: opt_terms_Cons opt_term_str_def js_lits del: opt_terms.simps(2))
  qed
qed simp

text \<open>A whole tier.\<close>

definition tier_text :: "tier_match \<Rightarrow> jsstring" where
  "tier_text m = (case m of (label, ic, oc, xs) \<Rightarrow>
     js ''tier(\"'' @ label @ js ''\", '' @ js ''p * '' @ ic @ js '' + c * '' @ oc @
     opt_terms_str cacheVarNames xs @ js '')'')"

fun good_match :: "tier_match \<Rightarrow> bool" where
  "good_match (label, ic, oc, xs) \<longleftrightarrow> list_all not_quote label \<and> plain_number ic \<and> plain_number oc \<and>
     length xs = length cacheVarNames \<and> list_all (pred_option plain_number) xs"

lemma cacheVarNames_facts: "distinct cacheVarNames" "list_all is_word cacheVarNames"
  by code_simp+

lemma single_rx_read:
  assumes "good_match m"
  shows "single_rx (tier_text m @ t) = [(m, t)]"
proof -
  obtain label ic oc xs where m: "m = (label, ic, oc, xs)" by (cases m)
  let ?k = "\<lambda>ic oc xs. rx_seq (js '')'') (rx_return (label, ic, oc, xs))"
  let ?opts = "opt_terms_str cacheVarNames xs @ 41 # t"
  have kfail: "c \<noteq> 41 \<Longrightarrow> ?k ic oc xs (c # s) = []" for ic oc xs c s by (simp add: js_lits)
  have o: "opt_terms cacheVarNames (?k ic oc) ?opts = ?k ic oc xs (41 # t)" 
    using assms cacheVarNames_facts kfail by (intro opt_terms_read) (auto simp: m)
  have word: "is_word (js ''c'')" "is_word (js ''p'')" by code_simp+
  have after1: "after_term (\<lambda>oc. opt_terms cacheVarNames (?k ic oc))"
    unfolding after_term_def
  proof (intro allI impI)
    fix a c s assume "numeric_char c" "c \<noteq> 43"
    moreover have "c \<noteq> 41" using \<open>numeric_char c\<close> by (auto simp: numeric_char_def is_digit_def)
    ultimately show "opt_terms cacheVarNames (?k ic a) (c # s) = []"
      using kfail by (intro opt_terms_fail) (auto simp: numeric_not_ws)
  qed
  have rest: "?opts = [] \<or> \<not> numeric_char (hd ?opts)"
    using opt_terms_str_cases [of cacheVarNames xs] assms
    by (auto simp: m js_lits numeric_char_def is_digit_def)
  have c: "plus_term_rx (js ''c'') (\<lambda>oc. opt_terms cacheVarNames (?k ic oc))
      (js '' + '' @ js ''c'' @ js '' * '' @ oc @ ?opts) = ?k ic oc xs (41 # t)"
    using plus_term_read [OF word(1) _ after1 rest, of oc] o assms by (simp add: m)
  have after2: "after_term (\<lambda>ic. plus_term_rx (js ''c'') (\<lambda>oc. opt_terms cacheVarNames (?k ic oc)))"
    unfolding after_term_def by (auto intro: plus_term_fail simp: numeric_not_ws)
  have p: "term_rx (js ''p'') (\<lambda>ic. plus_term_rx (js ''c'') (\<lambda>oc. opt_terms cacheVarNames (?k ic oc)))
      (js ''p'' @ js '' * '' @ ic @ js '' + '' @ js ''c'' @ js '' * '' @ oc @ ?opts) = ?k ic oc xs (41 # t)"
    using term_rx_read [OF _ after2, of ic "js '' + '' @ js ''c'' @ js '' * '' @ oc @ ?opts" "js ''p''"] c assms
    by (simp add: m js_lits numeric_char_def is_digit_def)
  let ?p = "term_rx (js ''p'') (\<lambda>ic. plus_term_rx (js ''c'') (\<lambda>oc. opt_terms cacheVarNames (?k ic oc)))"
  let ?s = "js ''p'' @ js '' * '' @ ic @ js '' + '' @ js ''c'' @ js '' * '' @ oc @ ?opts"
  have "sp ?p (32 # ?s) = ?p ?s" by (simp add: js_lits sp_one is_ws_def)
  then have body: "rx_seq (js ''\",'') (sp ?p) (34 # 44 # 32 # ?s) = [(m, t)]"
    using p by (simp add: js_lits m rx_return_def)
  have "rx_bind (rx_star not_quote) (\<lambda>label. rx_seq (js ''\",'') (sp (term_rx (js ''p'') (\<lambda>ic. plus_term_rx (js ''c'')
        (\<lambda>oc. opt_terms cacheVarNames (\<lambda>xs. rx_seq (js '')'') (rx_return (label, ic, oc, xs)))))))) (label @ 34 # 44 # 32 # ?s) =
      rx_seq (js ''\",'') (sp ?p) (34 # 44 # 32 # ?s)"
    using assms by (intro rx_star_bind_in) (auto simp: m list_all_iff not_quote_def js_lits)
  moreover have "tier_text m @ t = js ''tier(\"'' @ label @ 34 # 44 # 32 # ?s"
    by (simp add: tier_text_def m js_lits)
  ultimately show ?thesis using body unfolding single_rx_def by simp
qed

lemma single_rx_hd: "c \<noteq> 116 \<Longrightarrow> single_rx (c # s) = []"
  by (simp add: single_rx_def js_lits)

subsection \<open>Conditions\<close>

type_synonym cond_match = "jsstring \<times> jsstring \<times> jsstring"

fun cond_text :: "cond_match \<Rightarrow> jsstring" where
  "cond_text (v, op, n) = v @ [32] @ op @ [32] @ n"

fun good_cond :: "cond_match \<Rightarrow> bool" where
  "good_cond (v, op, n) \<longleftrightarrow> v \<in> set [js ''p'', js ''c'', js ''len''] \<and> op \<in> set COMPARISONS \<and>
     n \<noteq> [] \<and> list_all cond_number_char n"

lemma cond_number_facts: "cond_number_char c \<Longrightarrow> \<not> is_ws c \<and> c \<noteq> 63 \<and> c \<noteq> 38"
  by (auto simp: cond_number_char_def is_ws_def is_digit_def)

lemma cond_number_none: "\<not> cond_number_char c \<Longrightarrow> rx_bind (rx_plus cond_number_char) k (c # s) = []"
  by (simp add: rx_bind_def rx_plus_def rx_star_def)

lemma tier_cond_sp:
  "tier_cond_rx = rx_bind (rx_one_of [js ''p'', js ''c'', js ''len'']) (\<lambda>v. sp (rx_bind (rx_one_of COMPARISONS)
     (\<lambda>op. sp (rx_bind (rx_plus cond_number_char) (\<lambda>n. rx_return (v, op, n))))))"
  by (simp add: tier_cond_rx_def sp_def)

lemma tier_cond_read:
  assumes "good_cond (v, op, n)"
  shows "tier_cond_rx (cond_text (v, op, n) @ t) = map (\<lambda>(a, r). ((v, op, a), r)) (rx_plus cond_number_char (n @ t))"
proof -
  obtain c m where n: "n = c # m" "\<not> is_ws c"
    using assms by (cases n) (auto dest: cond_number_facts)
  let ?num = "\<lambda>v op. rx_bind (rx_plus cond_number_char) (\<lambda>n. rx_return (v, op, n))"
  let ?op = "\<lambda>v. rx_bind (rx_one_of COMPARISONS) (\<lambda>op. sp (?num v op))"
  have sgn: "\<not> cond_number_char 32" "\<not> cond_number_char 61" "\<not> is_ws 61" "\<not> is_ws 60" "\<not> is_ws 62"
    by (simp_all add: cond_number_char_def is_digit_def is_ws_def)
  have num: "sp (?num v op) (32 # n @ t) = ?num v op (n @ t)"
    using n sgn by (simp add: sp_one cond_number_none)
  have "op \<in> set COMPARISONS" using assms by simp
  then have ops: "?op v (op @ 32 # n @ t) = ?num v op (n @ t)"
    using num n sgn
    by (auto simp: COMPARISONS_def rx_one_of_bind js_lits sp_none
        cond_number_none)
  have "?op v (32 # s) = []" for s
    by (simp add: rx_one_of_bind COMPARISONS_def js_lits)
  moreover obtain d ds where "op = d # ds" "\<not> is_ws d"
    using assms sgn by (auto simp: COMPARISONS_def js_lits)
  ultimately have "sp (?op v) (32 # op @ 32 # n @ t) = ?num v op (n @ t)"
    using ops by (simp add: sp_one)
  then have "tier_cond_rx (v @ 32 # op @ 32 # n @ t) = ?num v op (n @ t)"
    using assms unfolding tier_cond_sp
    by (auto simp: rx_one_of_bind js_lits)
  then show ?thesis by (simp add: rx_map_return)
qed

lemma tier_cond_full: "good_cond x \<Longrightarrow> rx_full tier_cond_rx (cond_text x) = Some x"
proof -
  assume "good_cond x"
  obtain v op n where x: "x = (v, op, n)" by (cases x)
  have "rx_full tier_cond_rx (cond_text x) = rx_full (rx_bind (rx_plus cond_number_char) (\<lambda>a. rx_return (v, op, a))) n"
    using tier_cond_read [of v op n "[]"] \<open>good_cond x\<close> by (intro rx_full_cong) (simp add: x rx_map_return)
  then show ?thesis
    using \<open>good_cond x\<close> by (simp add: x rx_full_plus_map list_all_iff)
qed

text \<open>What a condition pattern consumes.\<close>

definition cond_piece :: "jsstring \<Rightarrow> bool" where
  "cond_piece u \<longleftrightarrow> u \<noteq> [] \<and> cond_number_char (last u) \<and> 63 \<notin> set u"

lemma set_sp: "(b, r) \<in> set (sp p s) \<longleftrightarrow> (\<exists>w s'. s = w @ s' \<and> (\<forall>c\<in>set w. is_ws c) \<and> (b, r) \<in> set (p s'))"
  by (auto simp: sp_def set_rx_bind set_rx_star)

lemma ws_no_question: "\<forall>c\<in>set w. is_ws c \<Longrightarrow> 63 \<notin> set w"
  by (auto simp: is_ws_def)

lemma tier_cond_piece:
  assumes "(x, r) \<in> set (tier_cond_rx s)"
  shows "\<exists>u. s = u @ r \<and> cond_piece u"
proof -
  obtain v t where 1: "v \<in> set [js ''p'', js ''c'', js ''len'']" "s = v @ t"
    "(x, r) \<in> set (sp (rx_bind (rx_one_of COMPARISONS)
      (\<lambda>op. sp (rx_bind (rx_plus cond_number_char) (\<lambda>n. rx_return (v, op, n))))) t)"
    using assms unfolding tier_cond_sp set_rx_bind set_rx_one_of by blast
  obtain w op t' where 2: "t = w @ op @ t'" "\<forall>c\<in>set w. is_ws c" "op \<in> set COMPARISONS"
    "(x, r) \<in> set (sp (rx_bind (rx_plus cond_number_char) (\<lambda>n. rx_return (v, op, n))) t')"
    using 1(3) unfolding set_sp set_rx_bind set_rx_one_of by blast
  obtain w' n where 3: "t' = w' @ n @ r" "\<forall>c\<in>set w'. is_ws c" "n \<noteq> []" "\<forall>c\<in>set n. cond_number_char c"
    using 2(4) unfolding set_sp set_rx_bind set_rx_plus set_rx_return by blast
  have *: "v \<in> set [js ''p'', js ''c'', js ''len'']" "op \<in> set COMPARISONS"
    "s = v @ w @ op @ w' @ n @ r" "\<forall>c\<in>set w. is_ws c" "\<forall>c\<in>set w'. is_ws c" "n \<noteq> []" "\<forall>c\<in>set n. cond_number_char c"
    using 1 2 3 by simp_all
  have "63 \<notin> set v" "63 \<notin> set op" using *(1,2) by (auto simp: COMPARISONS_def js_lits)
  moreover have "63 \<notin> set n" using *(7) cond_number_facts by blast
  ultimately have "cond_piece (v @ w @ op @ w' @ n)"
    using * ws_no_question by (auto simp: cond_piece_def)
  then show ?thesis using *(3) by (intro exI [of _ "v @ w @ op @ w' @ n"]) simp
qed

definition more_cond_rx :: "cond_match rx" where
  "more_cond_rx = sp (rx_seq (js ''&&'') (sp tier_cond_rx))"

lemma more_cond_piece: "(x, r) \<in> set (more_cond_rx s) \<Longrightarrow> \<exists>u. s = u @ r \<and> cond_piece u"
proof -
  assume "(x, r) \<in> set (more_cond_rx s)"
  then obtain w w' s' where *: "s = w @ js ''&&'' @ w' @ s'" "\<forall>c\<in>set w. is_ws c" "\<forall>c\<in>set w'. is_ws c"
    "(x, r) \<in> set (tier_cond_rx s')"
    by (auto simp: more_cond_rx_def set_sp set_rx_seq)
  obtain u where u: "s' = u @ r" "cond_piece u" using tier_cond_piece [OF *(4)] by blast
  then have "cond_piece (w @ js ''&&'' @ w' @ u)"
    using * ws_no_question by (auto simp: cond_piece_def js_lits)
  then show ?thesis using *(1) u(1) by (intro exI [of _ "w @ js ''&&'' @ w' @ u"]) simp
qed

lemma rx_many_piece:
  "(x, r) \<in> set (rx_many n more_cond_rx s) \<Longrightarrow> r = s \<or> (\<exists>u. s = u @ r \<and> cond_piece u)"
proof (induction n arbitrary: s x)
  case (Suc n)
  then consider "r = s" | a s' where "(a, s') \<in> set (more_cond_rx s)" "(x, r) \<in> set (rx_many n more_cond_rx s')"
    by (auto split: if_splits)
  then show ?case
  proof cases
    case 2
    obtain u where u: "s = u @ s'" "cond_piece u" using more_cond_piece [OF 2(1)] by blast
    from Suc.IH [OF 2(2)] show ?thesis
    proof
      assume "\<exists>u'. s' = u' @ r \<and> cond_piece u'"
      then obtain u' where "s' = u' @ r" "cond_piece u'" by blast
      then show ?thesis using u by (intro disjI2 exI [of _ "u @ u'"]) (auto simp: cond_piece_def)
    qed (use u in blast)
  qed simp
qed simp

lemma cond_group_more:
  "cond_group_rx s = rx_capture (rx_bind tier_cond_rx (\<lambda>_. rx_many (length s) more_cond_rx)) s"
  by (simp add: cond_group_rx_def more_cond_rx_def sp_def)

lemma cond_group_piece:
  assumes "(g, r) \<in> set (cond_group_rx s)"
  shows "s = g @ r \<and> cond_piece g"
proof -
  obtain y x s' where g: "g = take (length s - length r) s" "(x, s') \<in> set (tier_cond_rx s)"
    "(y, r) \<in> set (rx_many (length s) more_cond_rx s')"
    using assms by (auto simp: cond_group_more rx_capture_def set_rx_bind)
  obtain u where u: "s = u @ s'" "cond_piece u" using tier_cond_piece [OF g(2)] by blast
  from rx_many_piece [OF g(3)] obtain u' where "s' = u' @ r" "u' = [] \<or> cond_piece u'" by blast
  then show ?thesis using u g(1) by (auto simp: cond_piece_def)
qed

fun conds_text :: "cond_match list \<Rightarrow> jsstring" where
  "conds_text [] = []"
| "conds_text (c # cs) = cond_text c @ concat (map (\<lambda>d. js '' && '' @ cond_text d) cs)"

lemma number_all: "good_cond (v, op, n) \<Longrightarrow> (n, t) \<in> set (rx_plus cond_number_char (n @ t))"
  by (auto simp: set_rx_plus list_all_iff)

lemma tier_cond_in: "good_cond x \<Longrightarrow> (x, t) \<in> set (tier_cond_rx (cond_text x @ t))"
  using tier_cond_read number_all by (cases x) (force simp del: cond_text.simps good_cond.simps)

lemma cond_text_hd: "good_cond x \<Longrightarrow> \<exists>c m. cond_text x = c # m \<and> \<not> is_ws c"
  by (cases x) (auto simp: js_lits is_ws_def)

lemma tier_cond_none: "c \<noteq> 112 \<Longrightarrow> c \<noteq> 99 \<Longrightarrow> c \<noteq> 108 \<Longrightarrow> tier_cond_rx (c # s) = []"
  by (simp add: tier_cond_sp rx_one_of_bind js_lits)

lemma more_cond_read: "good_cond x \<Longrightarrow> more_cond_rx (js '' && '' @ cond_text x @ t) = tier_cond_rx (cond_text x @ t)"
  using cond_text_hd [of x] by (auto simp: more_cond_rx_def js_lits sp_one tier_cond_none)

lemma rx_many_step:
  "(a, r) \<in> set (p s) \<Longrightarrow> length r < length s \<Longrightarrow> y \<in> set (rx_many k p r) \<Longrightarrow> y \<in> set (rx_many (Suc k) p s)"
  by (force intro!: bexI [of _ "(a, r)"])

lemma rx_many_in:
  "list_all good_cond cs \<Longrightarrow> length cs \<le> n \<Longrightarrow>
   ((), t) \<in> set (rx_many n more_cond_rx (concat (map (\<lambda>d. js '' && '' @ cond_text d) cs) @ t))"
proof (induction cs arbitrary: n)
  case Nil
  then show ?case by (cases n) auto
next
  case (Cons x cs)
  then obtain k where n: "n = Suc k" "length cs \<le> k" by (cases n) auto
  let ?r = "concat (map (\<lambda>d. js '' && '' @ cond_text d) cs) @ t"
  have "(x, ?r) \<in> set (tier_cond_rx (cond_text x @ ?r))" using Cons.prems(1) by (intro tier_cond_in) simp
  then have "(x, ?r) \<in> set (more_cond_rx (js '' && '' @ cond_text x @ ?r))"
    using more_cond_read Cons.prems(1) by simp
  moreover have "length ?r < length (js '' && '' @ cond_text x @ ?r)" by simp
  moreover have "((), t) \<in> set (rx_many k more_cond_rx ?r)" using Cons n by simp
  ultimately have "((), t) \<in> set (rx_many (Suc k) more_cond_rx (js '' && '' @ cond_text x @ ?r))"
    by (rule rx_many_step)
  then show ?case by (simp add: n del: rx_many.simps)
qed

lemma cond_group_in:
  assumes "list_all good_cond cs" "cs \<noteq> []"
  shows "(conds_text cs, t) \<in> set (cond_group_rx (conds_text cs @ t))"
proof -
  obtain x xs where cs: "cs = x # xs" using assms(2) by (cases cs) auto
  let ?s = "conds_text cs @ t" and ?r = "concat (map (\<lambda>d. js '' && '' @ cond_text d) xs) @ t"
  have len: "length xs \<le> length (concat (map (\<lambda>d. js '' && '' @ cond_text d) xs))"
    by (induction xs) auto
  then have "length xs \<le> length ?s" by (simp add: cs)
  then have "((), t) \<in> set (rx_many (length ?s) more_cond_rx ?r)"
    using assms(1) by (intro rx_many_in) (auto simp: cs)
  moreover have "(x, ?r) \<in> set (tier_cond_rx ?s)" using tier_cond_in [of x ?r] assms(1) by (simp add: cs)
  ultimately have "((), t) \<in> set (rx_bind tier_cond_rx (\<lambda>_. rx_many (length ?s) more_cond_rx) ?s)"
    unfolding set_rx_bind by blast
  then show ?thesis unfolding cond_group_more rx_capture_def by (force simp: image_iff)
qed

lemma good_cond_piece: "good_cond x \<Longrightarrow> cond_piece (cond_text x)"
proof -
  assume "good_cond x"
  then have "(x, []) \<in> set (tier_cond_rx (cond_text x @ []))" by (rule tier_cond_in)
  from tier_cond_piece [OF this] show ?thesis by simp
qed

lemma conds_piece: "list_all good_cond cs \<Longrightarrow> cs \<noteq> [] \<Longrightarrow> cond_piece (conds_text cs)"
  using cond_group_piece [OF cond_group_in [of cs "[]"]] by simp

subsection \<open>A printed expression\<close>

text \<open>The text of a tier with its conditions, and the first match of the pattern on it.\<close>

definition part_text :: "cond_match list \<Rightarrow> tier_match \<Rightarrow> jsstring" where
  "part_text cs m = (if cs = [] then tier_text m else conds_text cs @ js '' ? '' @ tier_text m)"

definition part_match :: "cond_match list \<Rightarrow> tier_match \<Rightarrow> jsstring option \<times> tier_match" where
  "part_match cs m = (if cs = [] then None else Some (conds_text cs), m)"

lemma tier_text_hd: "\<exists>s. tier_text m = 116 # s"
  by (cases m) (simp add: tier_text_def js_lits)

lemma cond_group_none: "c \<noteq> 112 \<Longrightarrow> c \<noteq> 99 \<Longrightarrow> c \<noteq> 108 \<Longrightarrow> cond_group_rx (c # s) = []"
  by (simp add: cond_group_more rx_capture_def tier_cond_none)

lemma cond_prefix_unique:
  assumes "cond_piece g" "cond_piece C" "\<forall>c\<in>set w. is_ws c" "g @ w @ 63 # r = C @ 32 # 63 # t"
  shows "g = C"
proof -
  have "(g @ w) @ 63 # r = (C @ [32]) @ 63 # t" using assms(4) by simp
  moreover have "63 \<notin> set (g @ w)" "63 \<notin> set (C @ [32])"
    using assms(1-3) ws_no_question by (auto simp: cond_piece_def)
  ultimately have eq: "g @ w = C @ [32]" by (rule first_delim_unique [THEN conjunct1])
  have nws: "\<not> is_ws (last g)" "\<not> is_ws (last C)" "C \<noteq> []" "g \<noteq> []"
    using assms(1,2) cond_number_facts by (auto simp: cond_piece_def)
  then have "w \<noteq> []" using eq by (metis append.right_neutral is_ws_space last_snoc)
  then obtain w' x where w: "w = w' @ [x]" by (metis rev_exhaust)
  then have g: "g @ w' = C" using eq by simp
  then have "w' = []" using nws assms(3) w by (metis UnCI last_appendR last_in_set set_append)
  then show ?thesis using g by simp
qed

text \<open>
  A pattern behind an optional condition.  Two patterns for tiers are used so, the one of the visual editor and the one of
  the price page; both read the texts of tiers first as they were printed, and nothing that does not start like them.
\<close>

definition guarded :: "'a rx \<Rightarrow> (jsstring option \<times> 'a) rx" where
  "guarded q =
     rx_bind (rx_opt (rx_bind cond_group_rx (\<lambda>g. sp (rx_seq [63] (sp (rx_return g)))))) (\<lambda>g.
       rx_bind q (\<lambda>m. rx_return (g, m)))"

definition guard_text :: "cond_match list \<Rightarrow> jsstring \<Rightarrow> jsstring" where
  "guard_text cs s = (if cs = [] then s else conds_text cs @ js '' ? '' @ s)"

definition guard_of :: "cond_match list \<Rightarrow> jsstring option" where
  "guard_of cs = (if cs = [] then None else Some (conds_text cs))"

locale tier_pattern =
  fixes q :: "'a rx" and printed :: "'m \<Rightarrow> jsstring" and captures :: "'m \<Rightarrow> 'a" and good :: "'m \<Rightarrow> bool"
  assumes first_match: "good m \<Longrightarrow> \<exists>ys. q (printed m @ t) = (captures m, t) # ys"
    and starts: "c \<noteq> 116 \<Longrightarrow> q (c # s) = []"
    and printed_hd: "\<exists>s. printed m = 116 # s"
begin

lemma guarded_eq:
  "guarded q s =
     rx_bind cond_group_rx (\<lambda>g. sp (rx_seq [63] (sp (rx_bind q (\<lambda>m. rx_return (Some g, m)))))) s @
     rx_bind q (\<lambda>m. rx_return (None, m)) s"
  by (simp add: guarded_def rx_opt_bind sp_def rx_bind_assoc rx_bind_seq)

lemma guarded_none: "c \<noteq> 112 \<Longrightarrow> c \<noteq> 99 \<Longrightarrow> c \<noteq> 108 \<Longrightarrow> c \<noteq> 116 \<Longrightarrow> guarded q (c # s) = []"
  by (simp add: guarded_eq cond_group_none starts)

lemma match_pair: "good m \<Longrightarrow> \<exists>ys. rx_bind q (\<lambda>m. rx_return (g, m)) (printed m @ t) = ((g, captures m), t) # ys"
  using first_match [of m t] by (auto simp: rx_map_return)

lemma guarded_read:
  assumes "list_all good_cond cs" "good m"
  shows "\<exists>ys. guarded q (guard_text cs (printed m) @ t) = ((guard_of cs, captures m), t) # ys"
proof (cases "cs = []")
  case True
  obtain s where "printed m = 116 # s" using printed_hd by blast
  then show ?thesis
    using match_pair [OF assms(2), of None t] True by (auto simp: guarded_eq guard_text_def guard_of_def cond_group_none)
next
  case False
  let ?C = "conds_text cs" and ?r = "js '' ? '' @ printed m @ t"
  let ?h = "\<lambda>g. sp (rx_seq [63] (sp (rx_bind q (\<lambda>m. rx_return (Some g, m)))))"
  obtain s where s: "printed m = 116 # s" using printed_hd by blast
  have h: "?h g ?r = rx_bind q (\<lambda>m. rx_return (Some g, m)) (printed m @ t)" for g
    by (simp add: js_lits sp_one s is_ws_def starts)
  have uniq: "?h g u = [] \<or> (g, u) = (?C, ?r)" if "(g, u) \<in> set (cond_group_rx (?C @ ?r))" for g u
  proof (rule disjCI)
    assume "(g, u) \<noteq> (?C, ?r)"
    have gu: "?C @ ?r = g @ u" "cond_piece g" using cond_group_piece [OF that] by auto
    show "?h g u = []"
    proof (rule ccontr)
      assume "?h g u \<noteq> []"
      then obtain y z where "(y, z) \<in> set (?h g u)" by (metis list.set_intros(1) neq_Nil_conv surj_pair)
      then obtain w u' where u: "u = w @ 63 # u'" "\<forall>c\<in>set w. is_ws c" by (auto simp: set_sp set_rx_seq)
      have "g = ?C"
        using cond_prefix_unique [OF gu(2) conds_piece [OF assms(1) False] u(2), of u' "32 # printed m @ t"] gu(1) u(1)
        by (simp add: js_lits)
      then show False using gu(1) \<open>(g, u) \<noteq> (?C, ?r)\<close> by simp
    qed
  qed
  have "\<exists>ys. rx_bind cond_group_rx ?h (?C @ ?r) = ((Some ?C, captures m), t) # ys"
  proof (rule rx_bind_head [where a = ?C and r = ?r])
    show "\<exists>zs. ?h ?C ?r = ((Some ?C, captures m), t) # zs" unfolding h by (rule match_pair [OF assms(2)])
  qed (use cond_group_in [OF assms(1) False] uniq in auto)
  then show ?thesis using False by (auto simp: guarded_eq guard_text_def guard_of_def)
qed

lemma guard_text_not_Nil: "guard_text cs (printed m) \<noteq> []"
  using printed_hd [of m] by (auto simp: guard_text_def)

text \<open>The search finds the tiers of a printed expression.\<close>

lemma guarded_search:
  assumes "list_all (\<lambda>(cs, m). list_all good_cond cs \<and> good m) ps" "ps \<noteq> []"
    and "rx_search (\<lambda>_. guarded q) None t = []"
  shows "rx_search (\<lambda>_. guarded q) None (join (js '' : '') (map (\<lambda>(cs, m). guard_text cs (printed m)) ps) @ t) =
    map (\<lambda>(cs, m). (guard_of cs, captures m)) ps"
  using assms(1,2)
proof (induction ps)
  case (Cons p ps)
  obtain cs m where p: "p = (cs, m)" by (cases p)
  let ?S = "rx_search (\<lambda>_. guarded q) None"
  have hit: "?S (guard_text cs (printed m) @ r) = (guard_of cs, captures m) # ?S r" for r
  proof -
    obtain ys where "guarded q (guard_text cs (printed m) @ r) = ((guard_of cs, captures m), r) # ys"
      using guarded_read [of cs m r] Cons.prems(1) by (auto simp: p)
    then show ?thesis by (rule rx_search_hit) (rule guard_text_not_Nil)
  qed
  have skip: "?S (js '' : '' @ r) = ?S r" for r
    by (simp add: js_lits guarded_none) (rule rx_search_start)
  show ?case
  proof (cases "ps = []")
    case True
    then show ?thesis using hit assms(3) by (simp add: p)
  next
    case False
    then show ?thesis using hit skip Cons by (simp add: p join_Cons)
  qed
qed simp

end

interpretation visual: tier_pattern single_rx tier_text "\<lambda>m. m" good_match
  by unfold_locales (simp_all add: single_rx_read single_rx_hd tier_text_hd)

lemma visual_tier_guarded: "visual_tier_rx = guarded single_rx"
  by (simp add: visual_tier_rx_def guarded_def)

lemma part_guard: "part_text cs m = guard_text cs (tier_text m)" "part_match cs m = (guard_of cs, m)"
  by (simp_all add: part_text_def guard_text_def part_match_def guard_of_def)

text \<open>Splitting a condition text gives its conditions back.\<close>

lemma trim_space: "trim (32 # s) = trim s" "trim (s @ [32]) = trim s"
proof -
  show "trim (32 # s) = trim s" by (simp add: trim_def)
  show "trim (s @ [32]) = trim s"
  proof (cases "dropWhile is_ws s = []")
    case True
    then have "trim (s @ [32]) = []" "trim s = []" by (simp_all add: trim_eq_Nil)
    then show ?thesis by simp
  next
    case False
    then have "\<not> (\<forall>x\<in>set s. is_ws x)" by simp
    then show ?thesis by (auto simp: trim_def dropWhile_append)
  qed
qed

lemma trim_cond_text: "good_cond x \<Longrightarrow> trim (cond_text x) = cond_text x"
proof -
  assume x: "good_cond x"
  have "trimmed (cond_text x)"
    using cond_text_hd [OF x] good_cond_piece [OF x] cond_number_facts by (auto simp: trimmed_def cond_piece_def)
  then show ?thesis by (rule trim_trimmed)
qed

lemma cond_text_no_amp: "good_cond x \<Longrightarrow> 38 \<notin> set (cond_text x)"
  using cond_number_facts by (cases x) (auto simp: js_lits COMPARISONS_def list_all_iff)

lemma find_amp: "38 \<notin> set u \<Longrightarrow> find_sub (js ''&&'') (u @ 38 # 38 # v) = Some (length u)"
  by (induction u) (auto simp: js_lits)

lemma find_amp_none: "38 \<notin> set u \<Longrightarrow> find_sub (js ''&&'') u = None"
  by (induction u) (auto simp: js_lits)

lemma split_conds:
  "list_all good_cond cs \<Longrightarrow> 38 \<notin> set a \<Longrightarrow> length cs \<le> n \<Longrightarrow>
   map trim (split_str_fuel n (js ''&&'') (a @ concat (map (\<lambda>d. js '' && '' @ cond_text d) cs))) =
     trim a # map cond_text cs"
proof (induction cs arbitrary: a n)
  case Nil
  then show ?case by (cases n) (simp_all add: find_amp_none)
next
  case (Cons x cs)
  then obtain k where n: "n = Suc k" "length cs \<le> k" by (cases n) auto
  let ?rest = "concat (map (\<lambda>d. js '' && '' @ cond_text d) cs)"
  let ?s = "a @ concat (map (\<lambda>d. js '' && '' @ cond_text d) (x # cs))"
  have s: "?s = (a @ [32]) @ 38 # 38 # (32 # cond_text x) @ ?rest" by (simp add: js_lits)
  have "find_sub (js ''&&'') ?s = Some (length a + 1)"
    unfolding s using find_amp [of "a @ [32]" "(32 # cond_text x) @ ?rest"] Cons.prems by simp
  then have "split_str_fuel n (js ''&&'') ?s =
      (a @ [32]) # split_str_fuel k (js ''&&'') ((32 # cond_text x) @ ?rest)"
    unfolding n by (simp add: js_lits)
  moreover have "map trim (split_str_fuel k (js ''&&'') ((32 # cond_text x) @ ?rest)) =
      trim (32 # cond_text x) # map cond_text cs"
    using Cons.prems cond_text_no_amp n by (intro Cons.IH) auto
  ultimately show ?case using Cons.prems by (simp add: trim_space trim_cond_text)
qed

lemma map_filter_trim: "List.map_filter (\<lambda>cp. f (trim cp)) xs = List.map_filter f (map trim xs)"
  by (induction xs) (auto simp: List.map_filter_simps split: option.splits)

lemma map_filter_Some: "(\<And>x. x \<in> set xs \<Longrightarrow> f (g x) = Some (h x)) \<Longrightarrow> List.map_filter f (map g xs) = map h xs"
  by (induction xs) (auto simp: List.map_filter_simps)

fun read_condition :: "cond_match \<Rightarrow> TierConditionInput" where
  "read_condition (v, op, n) = \<lparr>ti_var = v, ti_op = op, ti_value = TierNumber (js_number n)\<rparr>"

lemma parse_conditions_read:
  assumes "list_all good_cond cs"
  shows "parse_tier_conditions (conds_text cs) = map (\<lambda>(v, op, n). \<lparr>tc_var = v, tc_op = op, tc_value = js_number n\<rparr>) cs"
proof (cases cs)
  case Nil
  then show ?thesis by (simp add: parse_tier_conditions_def)
next
  case (Cons x xs)
  have len: "length xs \<le> length (concat (map (\<lambda>d. js '' && '' @ cond_text d) xs))"
    by (induction xs) auto
  have "map trim (split_and (conds_text cs)) = map cond_text cs"
    using split_conds [of xs "cond_text x" "length (conds_text cs)"] assms len cond_text_no_amp [of x]
    by (simp add: Cons split_and_def trim_cond_text)
  moreover have "conds_text cs \<noteq> []"
    using conds_piece [OF assms] Cons by (auto simp: cond_piece_def)
  moreover have "rx_full tier_cond_rx (cond_text x) = Some x" if "x \<in> set cs" for x
    using assms that by (intro tier_cond_full) (auto simp: list_all_iff)
  ultimately show ?thesis
    unfolding parse_tier_conditions_def
      map_filter_trim [where f = "\<lambda>cp. map_option (\<lambda>(v, op, n). \<lparr>tc_var = v, tc_op = op, tc_value = js_number n\<rparr>)
        (rx_full tier_cond_rx cp)"]
    by (simp add: map_filter_Some)
qed

lemma condition_inputs_read:
  assumes "list_all good_cond cs"
  shows "condition_inputs (conds_text cs) = map read_condition cs"
  using parse_conditions_read [OF assms] by (auto simp: condition_inputs_def)

lemma search_parts:
  assumes "list_all (\<lambda>(cs, m). list_all good_cond cs \<and> good_match m) ps" "ps \<noteq> []"
    and "rx_search (\<lambda>_. visual_tier_rx) None t = []"
  shows "rx_search (\<lambda>_. visual_tier_rx) None (join (js '' : '') (map (\<lambda>(cs, m). part_text cs m) ps) @ t) =
    map (\<lambda>(cs, m). part_match cs m) ps"
  using visual.guarded_search [OF assms(1,2)] assms(3) by (simp add: visual_tier_guarded part_guard)

end
