(* ===== verification/TierConfig.thy ===== *)
theory TierConfig
  imports TierExpr
begin

section \<open>Configurations that the tier editor reads back\<close>

text \<open>
  Which configurations of tiers survive being printed and parsed, and the proof that they do, from
  the lemmas on the patterns of \<^verbatim>\<open>TierExpr\<close>.
\<close>

subsection \<open>Readable configurations\<close>

text \<open>A decimal number whose text stays within the characters of a pattern, that is without an exponent
  that has a sign the pattern refuses.\<close>

definition readable :: "(jschar \<Rightarrow> bool) \<Rightarrow> rat \<Rightarrow> bool" where
  "readable P r \<longleftrightarrow> decimal r \<and> list_all P (num_str r)"

lemma readable_text:
  "readable P r \<longleftrightarrow> decimal r \<and> num_str r \<noteq> [] \<and> list_all P (num_str r) \<and> js_number (num_str r) = Some r"
  using num_str_hd [of r] number_num_str [of r] by (auto simp: readable_def)

definition cost_char :: "jschar \<Rightarrow> bool" where
  "cost_char c \<longleftrightarrow> numeric_char c \<and> c \<noteq> 43"

definition good_cost :: "js_num \<Rightarrow> bool" where
  "good_cost x \<longleftrightarrow> (case x of None \<Rightarrow> False | Some r \<Rightarrow> readable cost_char r)"

definition good_condition :: "TierConditionInput \<Rightarrow> bool" where
  "good_condition c \<longleftrightarrow> ti_var c \<in> set [js ''p'', js ''c'', js ''len''] \<and> ti_op c \<in> set COMPARISONS \<and>
     (case ti_value c of TierNumber (Some r) \<Rightarrow> readable cond_number_char r | _ \<Rightarrow> False)"

definition good_tier :: "VisualTier \<Rightarrow> bool" where
  "good_tier t \<longleftrightarrow> vt_label t \<noteq> [] \<and> list_all not_quote (vt_label t) \<and> list_all good_condition (vt_conditions t) \<and>
     list_all good_cost [vt_input_unit_cost t, vt_output_unit_cost t, vt_cache_read_unit_cost t,
       vt_cache_create_unit_cost t, vt_cache_create_1h_unit_cost t, vt_image_unit_cost t,
       vt_image_output_unit_cost t, vt_audio_input_unit_cost t, vt_audio_output_unit_cost t]"

text \<open>The last of several tiers has no conditions: it is the default.\<close>

definition good_config :: "VisualTier list \<Rightarrow> bool" where
  "good_config tiers \<longleftrightarrow> tiers \<noteq> [] \<and> list_all good_tier tiers \<and>
     (length tiers = 1 \<or> vt_conditions (last tiers) = [])"

text \<open>The cache mode is not printed; it is guessed from the price of a long-lived cache entry.\<close>

definition guess_mode :: "VisualTier \<Rightarrow> VisualTier" where
  "guess_mode t = t\<lparr>vt_cache_mode :=
     (if nullish (vt_cache_create_1h_unit_cost t) 0 > 0 then CacheTimed else CacheGeneric)\<rparr>"

definition cond_of :: "TierConditionInput \<Rightarrow> cond_match" where
  "cond_of c = (ti_var c, ti_op c, tier_value_str (ti_value c))"

definition extra_number :: "js_num option \<Rightarrow> jsstring option" where
  "extra_number x = (if cost x \<noteq> Some 0 then Some (js_num_str (cost x)) else None)"

definition match_of :: "VisualTier \<Rightarrow> tier_match" where
  "match_of t = (vt_label t, js_num_str (vt_input_unit_cost t), js_num_str (vt_output_unit_cost t),
     map (\<lambda>(fld, v). extra_number (tier_field t fld)) BILLING_CACHE_VAR_MAP)"

lemma cache_vars:
  "BILLING_CACHE_VAR_MAP =
     [(js ''cache_read_unit_cost'', js ''cr''), (js ''cache_create_unit_cost'', js ''cc''),
      (js ''cache_create_1h_unit_cost'', js ''cc1h''), (js ''image_unit_cost'', js ''img''),
      (js ''image_output_unit_cost'', js ''img_o''), (js ''audio_input_unit_cost'', js ''ai''),
      (js ''audio_output_unit_cost'', js ''ao'')]"
  by code_simp

lemma tier_fields:
  "map (\<lambda>(fld, v). tier_field t fld) BILLING_CACHE_VAR_MAP =
     map Some [vt_cache_read_unit_cost t, vt_cache_create_unit_cost t, vt_cache_create_1h_unit_cost t,
       vt_image_unit_cost t, vt_image_output_unit_cost t, vt_audio_input_unit_cost t, vt_audio_output_unit_cost t]"
  by (simp add: cache_vars tier_field_def)

lemma good_cost_facts:
  "good_cost x \<Longrightarrow> cost (Some x) = x" "good_cost x \<Longrightarrow> plain_number (js_num_str x)"
  "good_cost x \<Longrightarrow> js_number (js_num_str x) = x"
  by (auto simp: good_cost_def cost_def readable_text plain_number_def js_num_str_def cost_char_def
      list_all_iff split: option.splits)

lemma good_condition_facts:
  "good_condition c \<Longrightarrow> good_cond (cond_of c)" "good_condition c \<Longrightarrow> condition_kept c"
  "good_condition c \<Longrightarrow> read_condition (cond_of c) = c"
  "condition_str c = cond_text (cond_of c)"
  by (auto simp: good_condition_def cond_of_def readable_text js_num_str_def condition_kept_def condition_str_def
      COMPARISONS_def js_lits split: tier_value.splits option.splits)

lemma join_concat: "join sep (x # xs) = x @ concat (map (\<lambda>y. sep @ y) xs)"
  by (induction xs arbitrary: x) auto

lemma conds_text_join: "join (js '' && '') (map cond_text cs) = conds_text cs"
  by (cases cs) (simp_all add: join_concat comp_def)

lemma build_conditions:
  assumes "list_all good_condition cs"
  shows "buildConditionStr cs = conds_text (map cond_of cs)"
proof -
  have "filter condition_kept cs = cs"
    using assms good_condition_facts(2) by (auto simp: list_all_iff)
  moreover have "map condition_str cs = map cond_text (map cond_of cs)" by (simp add: good_condition_facts(4))
  ultimately show ?thesis by (simp only: buildConditionStr_def conds_text_join)
qed

lemma opt_terms_join:
  "concat (map (\<lambda>y. js '' + '' @ y) (List.map_filter (\<lambda>(fld, v).
       let x = cost (g fld) in if x \<noteq> Some 0 then Some (term_str v x) else None) fs)) =
   opt_terms_str (map snd fs) (map (\<lambda>(fld, v). extra_number (g fld)) fs)"
  by (induction fs) (auto simp: List.map_filter_simps opt_term_str_def extra_number_def term_str_def Let_def)

lemma tier_str_match:
  assumes "good_tier t"
  shows "tier_str (vt_label t) t = tier_text (match_of t)"
proof -
  have "cost (Some (vt_input_unit_cost t)) = vt_input_unit_cost t"
    "cost (Some (vt_output_unit_cost t)) = vt_output_unit_cost t"
    using assms good_cost_facts(1) by (simp_all add: good_tier_def)
  then have "buildTierBodyExpr t = term_str (js ''p'') (vt_input_unit_cost t) @ js '' + '' @
      term_str (js ''c'') (vt_output_unit_cost t) @ opt_terms_str cacheVarNames
        (map (\<lambda>(fld, v). extra_number (tier_field t fld)) BILLING_CACHE_VAR_MAP)"
    by (simp add: buildTierBodyExpr_def join_concat opt_terms_join cacheVarNames_def)
  then show ?thesis
    by (simp add: tier_str_def tier_text_def match_of_def term_str_def js_lits)
qed

lemma match_of_good:
  assumes "good_tier t"
  shows "good_match (match_of t)"
proof -
  let ?costs = "[vt_cache_read_unit_cost t, vt_cache_create_unit_cost t, vt_cache_create_1h_unit_cost t,
       vt_image_unit_cost t, vt_image_output_unit_cost t, vt_audio_input_unit_cost t, vt_audio_output_unit_cost t]"
  have "map (\<lambda>(fld, v). extra_number (tier_field t fld)) BILLING_CACHE_VAR_MAP =
      map extra_number (map (\<lambda>(fld, v). tier_field t fld) BILLING_CACHE_VAR_MAP)" by (simp add: split_def)
  then have xs: "map (\<lambda>(fld, v). extra_number (tier_field t fld)) BILLING_CACHE_VAR_MAP =
      map (\<lambda>x. extra_number (Some x)) ?costs" by (simp only: tier_fields) simp
  have "pred_option plain_number (extra_number (Some x))" if "good_cost x" for x
    using good_cost_facts [OF that] by (simp add: extra_number_def)
  then have "list_all (pred_option plain_number) (map (\<lambda>x. extra_number (Some x)) ?costs)"
    using assms by (simp add: good_tier_def)
  then show ?thesis
    unfolding match_of_def xs good_match.simps
    using assms good_cost_facts(2) by (simp add: good_tier_def cacheVarNames_def cache_vars)
qed

lemma captured_field:
  assumes "good_cost x" "map_of (zip (map fst BILLING_CACHE_VAR_MAP) xs) fld = Some (extra_number (Some x))"
  shows "cost (captured xs fld) = x"
    "x \<noteq> Some 0 \<Longrightarrow> captured xs fld = Some x" "x = Some 0 \<Longrightarrow> captured xs fld = None"
  using good_cost_facts [OF assms(1)] assms(2) by (auto simp: captured_def extra_number_def cost_def [of None])

lemma matched_tier_read:
  assumes "good_tier t"
  shows "normalizeVisualTier (matched_tier (vt_conditions t) (match_of t)) = guess_mode t"
proof -
  obtain label ic oc xs where m: "match_of t = (label, ic, oc, xs)" by (cases "match_of t")
  have xs: "xs = map (\<lambda>(fld, v). extra_number (tier_field t fld)) BILLING_CACHE_VAR_MAP"
    and l: "label = vt_label t" "ic = js_num_str (vt_input_unit_cost t)" "oc = js_num_str (vt_output_unit_cost t)"
    using m by (simp_all add: match_of_def)
  have fld: "map_of (zip (map fst BILLING_CACHE_VAR_MAP) xs) f = Some (extra_number (tier_field t f))"
    if "f \<in> fst ` set BILLING_CACHE_VAR_MAP" for f
    using that unfolding xs cache_vars by auto
  have c: "good_cost (vt_input_unit_cost t)" "good_cost (vt_output_unit_cost t)" "good_cost (vt_cache_read_unit_cost t)"
    "good_cost (vt_cache_create_unit_cost t)" "good_cost (vt_cache_create_1h_unit_cost t)" "good_cost (vt_image_unit_cost t)"
    "good_cost (vt_image_output_unit_cost t)" "good_cost (vt_audio_input_unit_cost t)" "good_cost (vt_audio_output_unit_cost t)"
    using assms by (simp_all add: good_tier_def)
  have read: "cost (captured xs f) = x" "x \<noteq> Some 0 \<Longrightarrow> captured xs f = Some x" "x = Some 0 \<Longrightarrow> captured xs f = None"
    if "f \<in> fst ` set BILLING_CACHE_VAR_MAP" "tier_field t f = Some x" "good_cost x" for f x
    using captured_field [OF that(3)] fld [OF that(1)] that(2) by simp_all
  have costs: "cost (captured xs (js ''cache_read_unit_cost'')) = vt_cache_read_unit_cost t"
    "cost (captured xs (js ''cache_create_unit_cost'')) = vt_cache_create_unit_cost t"
    "cost (captured xs (js ''cache_create_1h_unit_cost'')) = vt_cache_create_1h_unit_cost t"
    "cost (captured xs (js ''image_unit_cost'')) = vt_image_unit_cost t"
    "cost (captured xs (js ''image_output_unit_cost'')) = vt_image_output_unit_cost t"
    "cost (captured xs (js ''audio_input_unit_cost'')) = vt_audio_input_unit_cost t"
    "cost (captured xs (js ''audio_output_unit_cost'')) = vt_audio_output_unit_cost t"
    using c by (auto intro!: read(1) simp: tier_field_def cache_vars)
  have "getTierCacheMode (matched_tier (vt_conditions t) (match_of t)) = vt_cache_mode (guess_mode t)"
    using read(2,3) [of "js ''cache_create_1h_unit_cost''" "vt_cache_create_1h_unit_cost t"] c(5)
    by (cases "vt_cache_create_1h_unit_cost t = Some 0"; cases "vt_cache_create_1h_unit_cost t")
      (auto simp: getTierCacheMode_def matched_tier_def m guess_mode_def tier_field_def cache_vars good_cost_def)
  then show ?thesis
    using c costs good_cost_facts(3)
    by (simp add: normalizeVisualTier_def matched_tier_def m l guess_mode_def)
qed

text \<open>A normal configuration is not changed by normalising it, and the cache mode is not printed.\<close>

lemma normalize_good:
  assumes "good_tier t"
  shows "normalizeVisualTier (partial_of t) = t"
  using assms good_cost_facts(1) by (simp add: normalizeVisualTier_def partial_of_def good_tier_def)

lemma guess_mode_fields [simp]:
  "good_tier (guess_mode t) = good_tier t" "match_of (guess_mode t) = match_of t"
  "vt_conditions (guess_mode t) = vt_conditions t" "vt_label (guess_mode t) = vt_label t"
  "buildTierBodyExpr (guess_mode t) = buildTierBodyExpr t"
  by (simp_all add: guess_mode_def good_tier_def match_of_def tier_field_def buildTierBodyExpr_def)

definition part_of :: "VisualTier \<Rightarrow> jsstring" where
  "part_of t = part_text (map cond_of (vt_conditions t)) (match_of t)"

lemma good_tier_conds: "good_tier t \<Longrightarrow> list_all good_cond (map cond_of (vt_conditions t))"
  using good_condition_facts(1) by (auto simp: good_tier_def list_all_iff)

lemma conds_text_Nil: "good_tier t \<Longrightarrow> conds_text (map cond_of (vt_conditions t)) = [] \<longleftrightarrow> vt_conditions t = []"
  using conds_piece [OF good_tier_conds, of t] by (auto simp: cond_piece_def)

lemma part_of_eq:
  assumes "good_tier t"
  shows "part_of t = (let cond = buildConditionStr (vt_conditions t)
    in if cond \<noteq> [] then cond @ js '' ? '' @ tier_str (vt_label t) t else tier_str (vt_label t) t)"
proof -
  have g: "list_all good_condition (vt_conditions t)" using assms by (simp add: good_tier_def)
  then show ?thesis
    using tier_str_match [OF assms] build_conditions [OF g] conds_text_Nil [OF assms]
    by (simp add: part_of_def part_text_def Let_def)
qed

lemma generate_one:
  assumes "good_tier t"
  shows "generateExprFromVisualConfig (Some [t]) =
    part_of t @ (if vt_conditions t = [] then [] else js '' : '' @ ZERO_EXPR)"
proof -
  have g: "list_all good_condition (vt_conditions t)" "vt_label t \<noteq> []" using assms by (simp_all add: good_tier_def)
  then show ?thesis
    using part_of_eq [OF assms] build_conditions [OF g(1)] conds_text_Nil [OF assms] by (simp add: generateExprFromVisualConfig_def Let_def)
qed

lemma generate_many:
  assumes "list_all good_tier tiers" "1 < length tiers" "vt_conditions (last tiers) = []"
  shows "generateExprFromVisualConfig (Some tiers) = join (js '' : '') (map part_of tiers)"
proof -
  have "tier_part (length tiers) i (tiers ! i) = part_of (tiers ! i)" if "i < length tiers" for i
  proof -
    have g: "good_tier (tiers ! i)" using assms(1) that by (auto simp: list_all_iff)
    then have "vt_label (tiers ! i) \<noteq> []" by (simp add: good_tier_def)
    moreover have "vt_conditions (tiers ! i) = []" if "\<not> i < length tiers - 1"
    proof -
      have "i = length tiers - 1" using that \<open>i < length tiers\<close> by linarith
      moreover have "tiers \<noteq> []" using assms(2) by auto
      ultimately show ?thesis using assms(3) by (simp add: last_conv_nth)
    qed
    ultimately show ?thesis
      using part_of_eq [OF g] by (auto simp: tier_part_def Let_def buildConditionStr_def)
  qed
  then have "map (\<lambda>i. tier_part (length tiers) i (tiers ! i)) [0..<length tiers] = map part_of tiers"
    by (intro nth_equalityI) simp_all
  moreover obtain t t' ts where "tiers = t # t' # ts"
    using assms(2) by (metis One_nat_def Suc_less_eq length_Suc_conv less_Suc_eq_0_disj list.size(3) not_less_zero remdups_adj.cases)
  ultimately show ?thesis by (simp add: generateExprFromVisualConfig_def del: upt_Suc)
qed

lemma search_zero: "rx_search (\<lambda>_. visual_tier_rx) None (js '' : '' @ ZERO_EXPR) = []"
  by code_simp

lemma part_hd:
  assumes "good_tier t"
  shows "\<exists>c s. part_of t = c # s \<and> c \<noteq> 118 \<and> (vt_conditions t \<noteq> [] \<longrightarrow> c \<noteq> 116)"
proof (cases "vt_conditions t")
  case Nil
  then show ?thesis using tier_text_hd [of "match_of t"] by (auto simp: part_of_def part_text_def)
next
  case (Cons x xs)
  have "good_cond (cond_of x)" using good_tier_conds [OF assms] Cons by simp
  then obtain c s where "cond_text (cond_of x) = c # s" "c \<noteq> 118" "c \<noteq> 116"
    by (cases "cond_of x") (auto simp: js_lits)
  then show ?thesis by (auto simp: part_of_def part_text_def Cons)
qed

lemma no_version: "c \<noteq> 118 \<Longrightarrow> snd (stripExprVersion (c # s)) = c # s"
  by (simp add: stripExprVersion_def version_rx_def rx_full_def js_lits)

text \<open>What the editor reads in the parts of a printed configuration.\<close>

lemma search_config:
  assumes "list_all good_tier tiers" "tiers \<noteq> []" "rx_search (\<lambda>_. visual_tier_rx) None t = []"
  shows "map (\<lambda>(g, m). normalizeVisualTier (matched_tier (condition_inputs (nullish g [])) m))
      (rx_search (\<lambda>_. visual_tier_rx) None (join (js '' : '') (map part_of tiers) @ t)) = map guess_mode tiers"
proof -
  let ?ps = "map (\<lambda>t. (map cond_of (vt_conditions t), match_of t)) tiers"
  have "list_all (\<lambda>(cs, m). list_all good_cond cs \<and> good_match m) ?ps"
    using assms(1) good_tier_conds match_of_good by (auto simp: list_all_iff)
  then have "rx_search (\<lambda>_. visual_tier_rx) None (join (js '' : '') (map part_of tiers) @ t) =
      map (\<lambda>(cs, m). part_match cs m) ?ps"
    using search_parts [OF _ _ assms(3), of ?ps] assms(2)
    by (simp add: comp_def part_of_def [abs_def])
  moreover have "normalizeVisualTier (matched_tier
      (condition_inputs (nullish (fst (part_match (map cond_of (vt_conditions t)) (match_of t))) []))
      (snd (part_match (map cond_of (vt_conditions t)) (match_of t)))) = guess_mode t" if "t \<in> set tiers" for t
  proof -
    have t: "good_tier t" using assms(1) that by (auto simp: list_all_iff)
    have "map read_condition (map cond_of (vt_conditions t)) = vt_conditions t"
      using t good_condition_facts(3) by (auto simp: good_tier_def list_all_iff intro: map_idI)
    then show ?thesis
      using condition_inputs_read [OF good_tier_conds [OF t]] matched_tier_read [OF t]
        condition_inputs_read [of "[]"]
      by (cases "vt_conditions t = []") (simp_all add: part_match_def)
  qed
  ultimately show ?thesis by (simp add: split_def)
qed

lemma guessed_config:
  assumes "good_config tiers"
  shows "normalizeVisualConfig (Some (map guess_mode tiers)) = map guess_mode tiers"
    "generateExprFromVisualConfig (Some (map guess_mode tiers)) = generateExprFromVisualConfig (Some tiers)"
proof -
  have g: "list_all good_tier tiers" "tiers \<noteq> []" using assms by (simp_all add: good_config_def)
  then show "normalizeVisualConfig (Some (map guess_mode tiers)) = map guess_mode tiers"
    using normalize_good by (auto simp: normalizeVisualConfig_def list_all_iff)
  have str: "tier_str l (guess_mode t) = tier_str l t" for l t by (simp add: tier_str_def)
  then have "tier_part n i (guess_mode t) = tier_part n i t" for n i t
    by (simp add: tier_part_def Let_def)
  then have parts: "map (\<lambda>i. tier_part (length tiers) i (map guess_mode tiers ! i)) [0..<length tiers] =
      map (\<lambda>i. tier_part (length tiers) i (tiers ! i)) [0..<length tiers]" by simp
  consider t where "tiers = [t]" | a b ts where "tiers = a # b # ts" using g(2) by (metis remdups_adj.cases)
  then show "generateExprFromVisualConfig (Some (map guess_mode tiers)) = generateExprFromVisualConfig (Some tiers)"
  proof cases
    case 1
    then show ?thesis using str by (simp add: generateExprFromVisualConfig_def)
  next
    case 2
    then have "generateExprFromVisualConfig (Some us) =
        join (js '' : '') (map (\<lambda>i. tier_part (length us) i (us ! i)) [0..<length us])"
      if "us = tiers \<or> us = map guess_mode tiers" for us
      using that by (auto simp: generateExprFromVisualConfig_def simp del: upt_Suc)
    from this [OF disjI1 [OF refl]] this [OF disjI2 [OF refl]] parts show ?thesis
      by (simp only: length_map)
  qed
qed

lemma parse_printed:
  assumes "good_config tiers" "c \<noteq> 118"
    and gen: "generateExprFromVisualConfig (Some tiers) = c # s"
      "c # s = join (js '' : '') (map part_of tiers) @ t"
    and "rx_full single_rx (c # s) = None" "rx_search (\<lambda>_. visual_tier_rx) None t = []"
  shows "tryParseVisualConfig (c # s) = Some (map guess_mode tiers)"
proof -
  have g: "list_all good_tier tiers" "tiers \<noteq> []" using assms(1) by (simp_all add: good_config_def)
  note found = search_config [OF g assms(6), folded gen(2)]
  show ?thesis
    unfolding tryParseVisualConfig_def no_version [OF assms(2)] assms(5) Let_def found
    using g(2) guessed_config [OF assms(1)] gen(1) by simp
qed

lemma config_parse:
  assumes "good_config tiers"
  shows "tryParseVisualConfig (generateExprFromVisualConfig (Some tiers)) = Some (map guess_mode tiers)"
proof -
  have g: "list_all good_tier tiers" "tiers \<noteq> []" using assms by (simp_all add: good_config_def)
  have first: "good_tier (hd tiers)" using g by (cases tiers) auto
  obtain c s where hd: "part_of (hd tiers) = c # s" "c \<noteq> 118" "vt_conditions (hd tiers) \<noteq> [] \<longrightarrow> c \<noteq> 116"
    using part_hd [OF first] by blast
  have single: "rx_full single_rx (part_of (hd tiers) @ r) = None" if "vt_conditions (hd tiers) \<noteq> [] \<or> r \<noteq> []" for r
    using that hd single_rx_hd [of c "s @ r"] single_rx_read [OF match_of_good [OF first], of r]
    by (cases "vt_conditions (hd tiers) = []") (auto simp: part_of_def part_text_def rx_full_def)
  consider t where "tiers = [t]" "vt_conditions t = []" | t where "tiers = [t]" "vt_conditions t \<noteq> []"
    | "1 < length tiers" using g(2) by (cases tiers; cases "tl tiers") auto
  then show ?thesis
  proof cases
    case 1
    then have t: "good_tier t" using g by simp
    have gen: "generateExprFromVisualConfig (Some tiers) = tier_text (match_of t)"
      using generate_one [OF t] 1 by (simp add: part_of_def part_text_def)
    obtain s where s: "tier_text (match_of t) = 116 # s" using tier_text_hd by blast
    have "rx_full single_rx (116 # s) = Some (match_of t)"
      using single_rx_read [OF match_of_good [OF t], of "[]"] s by (intro rx_full_single) simp
    then show ?thesis
      using matched_tier_read [OF t] guessed_config(1) [OF assms] 1
      unfolding gen s tryParseVisualConfig_def by (simp add: no_version Let_def)
  next
    case 2
    then have t: "good_tier t" using g by simp
    have "generateExprFromVisualConfig (Some tiers) = c # s @ js '' : '' @ ZERO_EXPR"
      using generate_one [OF t] 2 hd by simp
    then show ?thesis
      using parse_printed [OF assms hd(2), of "s @ js '' : '' @ ZERO_EXPR"] single [of "js '' : '' @ ZERO_EXPR"]
        search_zero hd(1) 2 by simp
  next
    case 3
    then obtain t ts where tiers: "tiers = t # ts" "ts \<noteq> []" by (cases tiers) auto
    have "vt_conditions (last tiers) = []" using assms 3 by (simp add: good_config_def)
    then have gen: "generateExprFromVisualConfig (Some tiers) = c # s @ js '' : '' @ join (js '' : '') (map part_of ts)"
      using generate_many [OF g(1) 3] hd(1) tiers by (simp add: join_Cons)
    have none: "rx_search (\<lambda>_. visual_tier_rx) None [] = []" by code_simp
    show ?thesis
      using parse_printed [OF assms hd(2) gen] single [of "js '' : '' @ join (js '' : '') (map part_of ts)"] none
        hd(1) tiers gen by (simp add: join_Cons js_lits)
  qed
qed


definition demo_tiers :: "VisualTier list" where
  "demo_tiers =
     [normalizeVisualTier (empty_tier\<lparr>pv_label := Some (js ''short''),
        pv_conditions := Some [\<lparr>ti_var = js ''len'', ti_op = js ''<='', ti_value = TierNumber (Some 128)\<rparr>,
          \<lparr>ti_var = js ''c'', ti_op = js ''>'', ti_value = TierNumber (Some (1/2))\<rparr>],
        pv_input_unit_cost := Some (Some (3/20)), pv_output_unit_cost := Some (Some 2),
        pv_cache_create_1h_unit_cost := Some (Some 3)\<rparr>),
      normalizeVisualTier (empty_tier\<lparr>pv_label := Some (js ''long (>128)''),
        pv_input_unit_cost := Some (Some 1), pv_output_unit_cost := Some (Some (-4)), pv_cache_mode := Some CacheTimed\<rparr>)]"


end
