(* ===== verification/TierEditor.thy ===== *)
theory TierEditor
  imports TierConfig
begin

section \<open>The editor of tiered prices\<close>

text \<open>
  \<^verbatim>\<open>features/system-settings/models/tiered-pricing-editor.tsx\<close>: the number fields, the cards of the
  tiers, the rows of the request rules, the presets, and the editor that holds them together.  The
  editor shows a price expression and a rule expression that its parent owns, either as tiers and
  rule groups or as one raw text.  A commit of the editor runs its four effects on the state that
  was drawn; what they set is drawn next, and so on until nothing changes.  The patterns may throw,
  because a rule parser calls \<open>JSON.parse\<close> without a handler: then there is no next state.
\<close>

subsection \<open>Number fields\<close>

text \<open>\<open>isFinite\<close> holds for every number but \<open>NaN\<close>, which is \<open>None\<close>.\<close>

datatype draft_value = DraftNum js_num | DraftStr jsstring

fun formatNumberDraft :: "draft_value \<Rightarrow> jsstring" where
  "formatNumberDraft (DraftStr s) = s"
| "formatNumberDraft (DraftNum x) = (case x of Some r \<Rightarrow> num_str r | None \<Rightarrow> js ''0'')"

definition parseNumberDraft :: "jsstring \<Rightarrow> rat" where
  "parseNumberDraft v = (if trim v = [] then 0 else case to_number_str v of Some r \<Rightarrow> r | None \<Rightarrow> 0)"

definition isZeroDraft :: "jsstring \<Rightarrow> bool" where
  "isZeroDraft v \<longleftrightarrow> trim v \<noteq> [] \<and> parseNumberDraft v = 0"

definition unitCostToPrice :: "js_num \<Rightarrow> rat" where
  "unitCostToPrice uc = nullish uc 0"

definition priceToUnitCost :: "js_num \<Rightarrow> rat" where
  "priceToUnitCost price = nullish price 0"

text \<open>The field keeps its own text while it has the focus; the value belongs to its parent.\<close>

record draft_input =
  di_value :: draft_value
  di_draft :: jsstring
  di_focused :: bool

definition mountDraft :: "draft_value \<Rightarrow> draft_input" where
  "mountDraft v = \<lparr>di_value = v, di_draft = formatNumberDraft v, di_focused = False\<rparr>"

definition draftEffect :: "draft_input \<Rightarrow> draft_input" where
  "draftEffect d = (if \<not> di_focused d then d\<lparr>di_draft := formatNumberDraft (di_value d)\<rparr> else d)"

text \<open>The three handlers, for a parent that stores the number it is given.\<close>

definition draftChange :: "jsstring \<Rightarrow> draft_input \<Rightarrow> draft_input" where
  "draftChange text d = d\<lparr>di_draft := text, di_value := DraftNum (Some (parseNumberDraft text))\<rparr>"

definition draftFocus :: "draft_input \<Rightarrow> draft_input" where
  "draftFocus d = d\<lparr>di_focused := True\<rparr>"

definition draftBlur :: "draft_input \<Rightarrow> draft_input" where
  "draftBlur d =
     (let normalized = parseNumberDraft (di_draft d)
      in d\<lparr>di_focused := False, di_draft := num_str normalized, di_value := DraftNum (Some normalized)\<rparr>)"

subsection \<open>The card of a tier\<close>

definition conditionChange :: "nat \<Rightarrow> TierConditionInput \<Rightarrow> VisualTier \<Rightarrow> VisualTier" where
  "conditionChange i c tier = tier\<lparr>vt_conditions := (vt_conditions tier)[i := c]\<rparr>"

definition remove_nth :: "nat \<Rightarrow> 'a list \<Rightarrow> 'a list" where
  "remove_nth i xs = take i xs @ drop (Suc i) xs"

definition conditionRemove :: "nat \<Rightarrow> VisualTier \<Rightarrow> VisualTier" where
  "conditionRemove i tier = tier\<lparr>vt_conditions := remove_nth i (vt_conditions tier)\<rparr>"

definition labelChange :: "jsstring \<Rightarrow> VisualTier \<Rightarrow> VisualTier" where
  "labelChange l tier = tier\<lparr>vt_label := l\<rparr>"

definition handlePriceChange :: "jsstring \<Rightarrow> rat \<Rightarrow> VisualTier \<Rightarrow> VisualTier" where
  "handlePriceChange fld v tier =
     (let w = Some v in
      if fld = js ''input_unit_cost'' then tier\<lparr>vt_input_unit_cost := w\<rparr>
      else if fld = js ''output_unit_cost'' then tier\<lparr>vt_output_unit_cost := w\<rparr>
      else if fld = js ''cache_read_unit_cost'' then tier\<lparr>vt_cache_read_unit_cost := w\<rparr>
      else if fld = js ''cache_create_unit_cost'' then tier\<lparr>vt_cache_create_unit_cost := w\<rparr>
      else if fld = js ''cache_create_1h_unit_cost'' then tier\<lparr>vt_cache_create_1h_unit_cost := w\<rparr>
      else if fld = js ''image_unit_cost'' then tier\<lparr>vt_image_unit_cost := w\<rparr>
      else if fld = js ''image_output_unit_cost'' then tier\<lparr>vt_image_output_unit_cost := w\<rparr>
      else if fld = js ''audio_input_unit_cost'' then tier\<lparr>vt_audio_input_unit_cost := w\<rparr>
      else if fld = js ''audio_output_unit_cost'' then tier\<lparr>vt_audio_output_unit_cost := w\<rparr>
      else tier)"

definition handleCacheModeChange :: "CacheMode \<Rightarrow> VisualTier \<Rightarrow> VisualTier" where
  "handleCacheModeChange mode tier =
     tier\<lparr>vt_cache_mode := mode,
          vt_cache_create_1h_unit_cost :=
            (if mode = CacheTimed then vt_cache_create_1h_unit_cost tier else Some 0)\<rparr>"

subsection \<open>The list of tiers\<close>

text \<open>The handlers work on the normalised configuration and hand out a new one.\<close>

definition handleTierChange :: "nat \<Rightarrow> VisualTier \<Rightarrow> VisualTier list \<Rightarrow> VisualTier list" where
  "handleTierChange i tier tiers = tiers[i := normalizeVisualTier (partial_of tier)]"

definition bound_condition :: "string \<Rightarrow> TierConditionInput" where
  "bound_condition v = \<lparr>ti_var = js v, ti_op = js ''<'', ti_value = TierNumber (Some 200000)\<rparr>"

definition handleAddTier :: "VisualTier list \<Rightarrow> VisualTier list" where
  "handleAddTier tiers =
     (let bounded =
            (if tiers \<noteq> [] \<and> vt_conditions (last tiers) = []
             then butlast tiers @
               [normalizeVisualTier ((partial_of (last tiers))\<lparr>pv_conditions := Some [bound_condition ''len'']\<rparr>)]
             else tiers)
      in bounded @ [normalizeVisualTier (empty_tier\<lparr>pv_label := Some (js ''tier_'' @ show_nat (length bounded + 1)),
           pv_conditions := Some [], pv_input_unit_cost := Some (Some 0), pv_output_unit_cost := Some (Some 0)\<rparr>)])"

definition handleRemoveTier :: "nat \<Rightarrow> VisualTier list \<Rightarrow> VisualTier list" where
  "handleRemoveTier i config =
     (let tiers = remove_nth i config in if length tiers > 0 then tiers else config)"

definition handleAddCondition :: "nat \<Rightarrow> VisualTier list \<Rightarrow> VisualTier list" where
  "handleAddCondition i config =
     (let tier = config ! i in
      if length (vt_conditions tier) \<ge> 2 then config
      else
        let usedVars = map ti_var (vt_conditions tier);
            nextVar = (if js ''len'' \<in> set usedVars then ''c'' else ''len'')
        in config[i := tier\<lparr>vt_conditions := vt_conditions tier @ [bound_condition nextVar]\<rparr>])"

subsection \<open>Rule rows and rule groups\<close>

definition ruleSourceChange :: "jsstring \<Rightarrow> RequestCondition \<Rightarrow> RequestCondition" where
  "ruleSourceChange source cond =
     (if source = SOURCE_TIME then createEmptyTimeCondition
      else if source = SOURCE_HEADER \<or> source = SOURCE_PARAM
      then (case createEmptyCondition of
              ParamHeaderCondition src path mode v \<Rightarrow>
                ParamHeaderCondition (if source = SOURCE_HEADER then FromHeader else FromParam) path mode v
            | other \<Rightarrow> other)
      else cond)"

fun ruleModeChange :: "jsstring \<Rightarrow> RequestCondition \<Rightarrow> RequestCondition" where
  "ruleModeChange mode (ParamHeaderCondition src path m v) = ParamHeaderCondition src path mode v"
| "ruleModeChange mode (TimeCondition f tz m v rs re) = TimeCondition f tz mode v rs re"

definition ruleConditionChange :: "nat \<Rightarrow> RequestCondition \<Rightarrow> RequestRuleGroup \<Rightarrow> RequestRuleGroup" where
  "ruleConditionChange i c g = g\<lparr>rg_conditions := (rg_conditions g)[i := c]\<rparr>"

definition ruleConditionRemove :: "nat \<Rightarrow> RequestRuleGroup \<Rightarrow> RequestRuleGroup" where
  "ruleConditionRemove i g = g\<lparr>rg_conditions := remove_nth i (rg_conditions g)\<rparr>"

definition ruleAddCondition :: "bool \<Rightarrow> RequestRuleGroup \<Rightarrow> RequestRuleGroup" where
  "ruleAddCondition timeMode g =
     g\<lparr>rg_conditions := rg_conditions g @ [if timeMode then createEmptyTimeCondition else createEmptyCondition]\<rparr>"

definition ruleMultiplierChange :: "rat \<Rightarrow> RequestRuleGroup \<Rightarrow> RequestRuleGroup" where
  "ruleMultiplierChange v g = g\<lparr>rg_multiplier := num_str v\<rparr>"

subsection \<open>The editor\<close>

datatype PricingEditorMode = PricingVisual | PricingRaw

record Preset =
  ps_key :: jsstring
  ps_label :: jsstring
  ps_expr :: jsstring
  ps_requestRules :: "RequestRuleGroup list"

record tier_editor =
  te_modelName :: jsstring
  te_currentExpr :: jsstring
  te_currentRequestRuleExpr :: jsstring
  te_editorMode :: PricingEditorMode
  te_visualConfig :: "VisualTier list option"
  te_rawExpr :: jsstring
  te_requestRuleGroups :: "RequestRuleGroup list"
  te_initRef :: bool

text \<open>\<open>tryParseRequestRuleExpr(expr) || []\<close>; \<open>None\<close> when the parser throws.\<close>

definition groups_or_empty :: "jsstring \<Rightarrow> RequestRuleGroup list option" where
  "groups_or_empty expr =
     (case tryParseRequestRuleExpr expr of
        Inl e \<Rightarrow> None
      | Inr parsed \<Rightarrow> Some (nullish parsed []))"

definition mountEditor :: "jsstring \<Rightarrow> jsstring \<Rightarrow> jsstring \<Rightarrow> tier_editor option" where
  "mountEditor modelName currentExpr currentRequestRuleExpr =
     map_option (\<lambda>groups.
       \<lparr>te_modelName = modelName, te_currentExpr = currentExpr,
        te_currentRequestRuleExpr = currentRequestRuleExpr, te_editorMode = PricingVisual,
        te_visualConfig = tryParseVisualConfig currentExpr,
        te_rawExpr = combineBillingExpr currentExpr currentRequestRuleExpr,
        te_requestRuleGroups = groups, te_initRef = False\<rparr>)
       (groups_or_empty currentRequestRuleExpr)"

text \<open>What a render computes, or \<open>None\<close> when it throws.\<close>

definition canUseVisualRules :: "tier_editor \<Rightarrow> bool option" where
  "canUseVisualRules st =
     (if te_currentRequestRuleExpr st = [] then Some True
      else case tryParseRequestRuleExpr (te_currentRequestRuleExpr st) of
             Inl e \<Rightarrow> None | Inr parsed \<Rightarrow> Some (parsed \<noteq> None))"

definition effectiveExpr :: "tier_editor \<Rightarrow> jsstring option" where
  "effectiveExpr st =
     (if te_editorMode st = PricingVisual then Some (generateExprFromVisualConfig (te_visualConfig st))
      else case splitBillingExprAndRequestRules (te_rawExpr st) of
             Inl e \<Rightarrow> None | Inr b \<Rightarrow> Some (billingExpr b))"

text \<open>
  The effects.  Each sees the state that was drawn (\<open>cur\<close>) and changes the next one.  The first
  two run when their dependencies differ from those of the commit before; the last two compare what
  they would set with what is there, so that running them on every commit is the same as running them
  when a dependency changed.
\<close>

definition deps_changed :: "(tier_editor \<Rightarrow> 'd) \<Rightarrow> tier_editor option \<Rightarrow> tier_editor \<Rightarrow> bool" where
  "deps_changed f before cur = (case before of None \<Rightarrow> True | Some p \<Rightarrow> f p \<noteq> f cur)"

definition initEffect :: "tier_editor \<Rightarrow> tier_editor option" where
  "initEffect cur =
     (if te_initRef cur then Some cur
      else
        let parsedConfig = tryParseVisualConfig (te_currentExpr cur);
            shown =
              (if parsedConfig \<noteq> None
               then cur\<lparr>te_visualConfig := parsedConfig, te_editorMode := PricingVisual\<rparr>
               else if te_currentExpr cur \<noteq> []
               then cur\<lparr>te_visualConfig := None, te_editorMode := PricingRaw\<rparr>
               else cur\<lparr>te_visualConfig := Some createDefaultVisualConfig\<rparr>)
        in map_option (\<lambda>groups. shown\<lparr>te_initRef := True,
               te_rawExpr := combineBillingExpr (te_currentExpr cur) (te_currentRequestRuleExpr cur),
               te_requestRuleGroups := groups\<rparr>)
             (groups_or_empty (te_currentRequestRuleExpr cur)))"

definition modelEffect :: "tier_editor \<Rightarrow> tier_editor" where
  "modelEffect next = next\<lparr>te_initRef := False\<rparr>"

definition billingEffect :: "tier_editor \<Rightarrow> jsstring \<Rightarrow> tier_editor \<Rightarrow> tier_editor" where
  "billingEffect cur expr next =
     (if expr \<noteq> te_currentExpr cur then next\<lparr>te_currentExpr := expr\<rparr> else next)"

definition rulesEffect :: "tier_editor \<Rightarrow> tier_editor \<Rightarrow> tier_editor" where
  "rulesEffect cur next =
     (if te_editorMode cur \<noteq> PricingVisual then next
      else
        let ruleExpr = buildRequestRuleExpr (te_requestRuleGroups cur)
        in if ruleExpr \<noteq> te_currentRequestRuleExpr cur then next\<lparr>te_currentRequestRuleExpr := ruleExpr\<rparr> else next)"

definition commit :: "tier_editor option \<Rightarrow> tier_editor \<Rightarrow> tier_editor option" where
  "commit before cur =
     (case (canUseVisualRules cur, effectiveExpr cur) of
        (Some _, Some expr) \<Rightarrow>
          map_option (\<lambda>s1.
            let s2 = (if deps_changed te_modelName before cur then modelEffect s1 else s1)
            in rulesEffect cur (billingEffect cur expr s2))
            (if deps_changed (\<lambda>s. (te_currentExpr s, te_currentRequestRuleExpr s)) before cur
             then initEffect cur else Some cur)
      | _ \<Rightarrow> None)"

text \<open>A change of the reference alone draws nothing.\<close>

definition same_view :: "tier_editor \<Rightarrow> tier_editor \<Rightarrow> bool" where
  "same_view st st' \<longleftrightarrow> st' = st\<lparr>te_initRef := te_initRef st'\<rparr>"

text \<open>At most \<open>n\<close> commits; \<open>None\<close> when an effect throws or the editor has not come to rest.\<close>

fun settle :: "nat \<Rightarrow> tier_editor option \<Rightarrow> tier_editor \<Rightarrow> tier_editor option" where
  "settle 0 before cur = None"
| "settle (Suc n) before cur =
     (case commit before cur of
        None \<Rightarrow> None
      | Some st \<Rightarrow> if same_view cur st then Some st else settle n (Some cur) st)"

definition openEditor :: "nat \<Rightarrow> jsstring \<Rightarrow> jsstring \<Rightarrow> jsstring \<Rightarrow> tier_editor option" where
  "openEditor n modelName expr rules = Option.bind (mountEditor modelName expr rules) (settle n None)"

subsection \<open>Handlers\<close>

definition handleVisualChange :: "VisualTier list \<Rightarrow> tier_editor \<Rightarrow> tier_editor" where
  "handleVisualChange config st = st\<lparr>te_visualConfig := Some config\<rparr>"

definition handleRawChange :: "jsstring \<Rightarrow> tier_editor \<Rightarrow> tier_editor option" where
  "handleRawChange v st =
     (case splitBillingExprAndRequestRules v of
        Inl e \<Rightarrow> None
      | Inr b \<Rightarrow> Some (st\<lparr>te_rawExpr := v, te_currentRequestRuleExpr := requestRuleExpr b\<rparr>))"

definition or_str :: "jsstring \<Rightarrow> jsstring \<Rightarrow> jsstring" where
  "or_str s t = (if s \<noteq> [] then s else t)"

fun handleEditorMode :: "PricingEditorMode \<Rightarrow> tier_editor \<Rightarrow> tier_editor option" where
  "handleEditorMode PricingVisual st =
     (case splitBillingExprAndRequestRules (te_rawExpr st) of
        Inl e \<Rightarrow> None
      | Inr b \<Rightarrow>
          map_option (\<lambda>groups. st\<lparr>
              te_visualConfig := Some (nullish (tryParseVisualConfig (billingExpr b)) createDefaultVisualConfig),
              te_requestRuleGroups := groups, te_currentRequestRuleExpr := requestRuleExpr b,
              te_editorMode := PricingVisual\<rparr>)
            (groups_or_empty (requestRuleExpr b)))"
| "handleEditorMode PricingRaw st =
     (let expr = generateExprFromVisualConfig (te_visualConfig st);
          ruleExpr = buildRequestRuleExpr (te_requestRuleGroups st)
      in Some (st\<lparr>te_rawExpr := or_str (combineBillingExpr expr ruleExpr) expr, te_editorMode := PricingRaw\<rparr>))"

definition applyPreset :: "Preset \<Rightarrow> tier_editor \<Rightarrow> tier_editor" where
  "applyPreset preset st =
     (let ruleExpr = buildRequestRuleExpr (ps_requestRules preset);
          st1 = st\<lparr>te_rawExpr := or_str (combineBillingExpr (ps_expr preset) ruleExpr) (ps_expr preset)\<rparr>;
          st2 = (case tryParseVisualConfig (ps_expr preset) of
                   Some parsed \<Rightarrow> st1\<lparr>te_visualConfig := Some parsed, te_editorMode := PricingVisual\<rparr>
                 | None \<Rightarrow> st1\<lparr>te_editorMode := PricingRaw, te_visualConfig := None\<rparr>)
      in st2\<lparr>te_requestRuleGroups := ps_requestRules preset, te_currentRequestRuleExpr := ruleExpr\<rparr>)"

definition handleRuleGroupsChange :: "RequestRuleGroup list \<Rightarrow> tier_editor \<Rightarrow> tier_editor" where
  "handleRuleGroupsChange groups st = st\<lparr>te_requestRuleGroups := groups\<rparr>"

text \<open>The events of the editor; the last one is the parent showing another model.\<close>

datatype pricing_event =
    TierEdited nat VisualTier | TierAdded | TierRemoved nat | ConditionAdded nat
  | GroupsChanged "RequestRuleGroup list" | RawTyped jsstring | ModeChosen PricingEditorMode
  | PresetApplied Preset | ModelShown jsstring jsstring jsstring

definition on_config :: "(VisualTier list \<Rightarrow> VisualTier list) \<Rightarrow> tier_editor \<Rightarrow> tier_editor option" where
  "on_config f st = Some (handleVisualChange (f (normalizeVisualConfig (te_visualConfig st))) st)"

fun pricing_handle :: "pricing_event \<Rightarrow> tier_editor \<Rightarrow> tier_editor option" where
  "pricing_handle (TierEdited i tier) st = on_config (handleTierChange i tier) st"
| "pricing_handle TierAdded st = on_config handleAddTier st"
| "pricing_handle (TierRemoved i) st = on_config (handleRemoveTier i) st"
| "pricing_handle (ConditionAdded i) st = on_config (handleAddCondition i) st"
| "pricing_handle (GroupsChanged groups) st = Some (handleRuleGroupsChange groups st)"
| "pricing_handle (RawTyped v) st = handleRawChange v st"
| "pricing_handle (ModeChosen mode) st = handleEditorMode mode st"
| "pricing_handle (PresetApplied preset) st = Some (applyPreset preset st)"
| "pricing_handle (ModelShown name expr rules) st =
     Some (st\<lparr>te_modelName := name, te_currentExpr := expr, te_currentRequestRuleExpr := rules\<rparr>)"

definition respond :: "nat \<Rightarrow> pricing_event \<Rightarrow> tier_editor \<Rightarrow> tier_editor option" where
  "respond n e st = Option.bind (pricing_handle e st) (settle n (Some st))"


subsection \<open>Readable prices\<close>

definition readable_price :: "jsstring \<Rightarrow> jsstring \<Rightarrow> VisualTier list \<Rightarrow> RequestRuleGroup list \<Rightarrow> bool" where
  "readable_price expr rules config groups \<longleftrightarrow>
     tryParseVisualConfig expr = Some config \<and> generateExprFromVisualConfig (Some config) = expr \<and>
     tryParseRequestRuleExpr rules = Inr (Some groups) \<and> buildRequestRuleExpr groups = rules"

lemma printed_readable:
  assumes "good_config tiers" "\<forall>g\<in>set groups. wf_group g"
  shows "readable_price (generateExprFromVisualConfig (Some tiers)) (buildRequestRuleExpr groups)
    (map guess_mode tiers) groups"
  using config_parse [OF assms(1)] guessed_config(2) [OF assms(1)] rules_parse [OF assms(2)]
  by (simp add: readable_price_def)

text \<open>The editor in the visual mode, showing one price while its parent has another.\<close>

definition view :: "jsstring \<Rightarrow> jsstring \<Rightarrow> jsstring \<Rightarrow> VisualTier list \<Rightarrow> RequestRuleGroup list \<Rightarrow> jsstring \<Rightarrow> bool \<Rightarrow> tier_editor" where
  "view name expr rules config groups raw ref =
     \<lparr>te_modelName = name, te_currentExpr = expr, te_currentRequestRuleExpr = rules,
      te_editorMode = PricingVisual, te_visualConfig = Some config,
      te_rawExpr = raw, te_requestRuleGroups = groups, te_initRef = ref\<rparr>"

text \<open>A commit whose rules can be parsed, with the effects as plain functions.\<close>

definition reinit :: "RequestRuleGroup list \<Rightarrow> tier_editor \<Rightarrow> tier_editor" where
  "reinit groups cur =
     (if te_initRef cur then cur
      else cur\<lparr>te_visualConfig := (case tryParseVisualConfig (te_currentExpr cur) of
            Some config \<Rightarrow> Some config
          | None \<Rightarrow> if te_currentExpr cur \<noteq> [] then None else Some createDefaultVisualConfig),
        te_editorMode := (if tryParseVisualConfig (te_currentExpr cur) \<noteq> None then PricingVisual
          else if te_currentExpr cur \<noteq> [] then PricingRaw else te_editorMode cur),
        te_rawExpr := combineBillingExpr (te_currentExpr cur) (te_currentRequestRuleExpr cur),
        te_requestRuleGroups := groups, te_initRef := True\<rparr>)"

lemma commit_parsed:
  assumes "tryParseRequestRuleExpr (te_currentRequestRuleExpr cur) = Inr parsed" "effectiveExpr cur = Some expr"
  shows "commit before cur = Some (rulesEffect cur (billingEffect cur expr
    ((if deps_changed te_modelName before cur then modelEffect else (\<lambda>s. s))
      (if deps_changed (\<lambda>s. (te_currentExpr s, te_currentRequestRuleExpr s)) before cur
       then reinit (nullish parsed []) cur else cur))))"
proof -
  have "initEffect cur = Some (reinit (nullish parsed []) cur)"
    using assms(1) by (auto simp: initEffect_def reinit_def groups_or_empty_def Let_def split: option.splits)
  moreover have "canUseVisualRules cur \<noteq> None" using assms(1) by (auto simp: canUseVisualRules_def)
  ultimately show ?thesis using assms(2) by (auto simp: commit_def)
qed

lemmas commit_simps = commit_parsed deps_changed_def reinit_def effectiveExpr_def
  modelEffect_def billingEffect_def rulesEffect_def same_view_def

lemma settle_commit:
  "commit before cur = Some st \<Longrightarrow>
   settle (Suc n) before cur = (if same_view cur st then Some st else settle n (Some cur) st)"
  by simp

text \<open>The effects exchange the price that is shown and the price of the parent.\<close>

lemma readable_shown: "readable_price expr rules config groups \<Longrightarrow>
    generateExprFromVisualConfig (Some config) = expr \<and> buildRequestRuleExpr groups = rules"
  by (simp add: readable_price_def)

lemma reinit_view:
  "readable_price expr rules config' groups' \<Longrightarrow>
   reinit groups' (view name expr rules config groups raw ref) =
     (if ref then view name expr rules config groups raw ref
      else view name expr rules config' groups' (combineBillingExpr expr rules) True)"
  by (simp add: reinit_def view_def readable_price_def)

lemma effects_write:
  "te_currentExpr st = te_currentExpr cur \<Longrightarrow> billingEffect cur expr st = st\<lparr>te_currentExpr := expr\<rparr>"
  "te_editorMode cur = PricingVisual \<Longrightarrow> te_currentRequestRuleExpr st = te_currentRequestRuleExpr cur \<Longrightarrow>
   rulesEffect cur st = st\<lparr>te_currentRequestRuleExpr := buildRequestRuleExpr (te_requestRuleGroups cur)\<rparr>"
  by (simp_all add: billingEffect_def rulesEffect_def Let_def)

lemma commit_shown:
  assumes "generateExprFromVisualConfig (Some config) = expr \<and> buildRequestRuleExpr groups = rules"
    and "readable_price expr' rules' config' groups'"
    and "init \<longleftrightarrow> deps_changed (\<lambda>s. (te_currentExpr s, te_currentRequestRuleExpr s)) before cur \<and> \<not> ref"
    and "cur = view name expr' rules' config groups raw ref"
  shows "commit before cur = Some (view name expr rules (if init then config' else config)
    (if init then groups' else groups) (if init then combineBillingExpr expr' rules' else raw)
    (\<not> deps_changed te_modelName before cur \<and> (init \<or> ref)))"
proof -
  let ?s1 = "if deps_changed (\<lambda>s. (te_currentExpr s, te_currentRequestRuleExpr s)) before cur
       then reinit groups' cur else cur"
  let ?m = "if deps_changed te_modelName before cur then modelEffect else (\<lambda>s. s)"
  have "effectiveExpr cur = Some expr"
    using assms(1) by (simp add: assms(4) view_def effectiveExpr_def)
  moreover have "tryParseRequestRuleExpr (te_currentRequestRuleExpr cur) = Inr (Some groups')"
    using assms(2) by (simp add: assms(4) view_def readable_price_def)
  ultimately have c: "commit before cur = Some (rulesEffect cur (billingEffect cur expr (?m ?s1)))"
    using commit_parsed by fastforce
  have s1: "?s1 = view name expr' rules' (if init then config' else config)
    (if init then groups' else groups) (if init then combineBillingExpr expr' rules' else raw) (init \<or> ref)"
    using reinit_view [OF assms(2)] by (auto simp: assms(3,4))
  have m: "?m ?s1 = view name expr' rules' (if init then config' else config)
    (if init then groups' else groups) (if init then combineBillingExpr expr' rules' else raw)
    (\<not> deps_changed te_modelName before cur \<and> (init \<or> ref))"
    unfolding s1 by (simp add: modelEffect_def view_def)
  show ?thesis
    unfolding c m using assms(1) by (simp add: effects_write assms(4) view_def)
qed

lemmas commit_view = commit_shown [OF readable_shown]

lemma same_view_view:
  "same_view (view name e r c g w ref) (view name' e' r' c' g' w' ref') \<longleftrightarrow>
     name = name' \<and> e = e' \<and> r = r' \<and> c = c' \<and> g = g' \<and> w = w'"
  by (auto simp: same_view_def view_def)

lemma deps_view [simp]:
  "deps_changed te_modelName (Some (view name e r c g w ref)) (view name' e' r' c' g' w' ref') \<longleftrightarrow> name \<noteq> name'"
  "deps_changed (\<lambda>s. (te_currentExpr s, te_currentRequestRuleExpr s))
     (Some (view name e r c g w ref)) (view name' e' r' c' g' w' ref') \<longleftrightarrow> e \<noteq> e' \<or> r \<noteq> r'"
  "deps_changed f None st"
  by (auto simp: view_def deps_changed_def)

lemma open_readable:
  assumes "readable_price expr rules config groups"
  shows "openEditor (Suc n) name expr rules =
    Some (view name expr rules config groups (combineBillingExpr expr rules) False)"
proof -
  have "mountEditor name expr rules = Some (view name expr rules config groups (combineBillingExpr expr rules) False)"
    using assms by (simp add: mountEditor_def groups_or_empty_def readable_price_def view_def)
  then show ?thesis
    using settle_commit [OF commit_view [OF assms assms refl refl]]
    by (simp add: openEditor_def same_view_view)
qed

lemma switch_readable:
  assumes "readable_price exprA rulesA configA groupsA" "readable_price exprB rulesB configB groupsB" "a \<noteq> b"
  shows "\<exists>raw ref'. respond 5 (ModelShown b exprB rulesB) (view a exprA rulesA configA groupsA w ref) =
    Some (view b exprA rulesA configA groupsA raw ref')"
proof -
  note commits = settle_commit [OF commit_view [OF assms(1) assms(2) refl refl]]
    settle_commit [OF commit_view [OF assms(2) assms(1) refl refl]]
    settle_commit [OF commit_view [OF assms(1) assms(1) refl refl]]
    settle_commit [OF commit_view [OF assms(2) assms(2) refl refl]]
  have "pricing_handle (ModelShown b exprB rulesB) (view a exprA rulesA configA groupsA w ref) =
      Some (view b exprB rulesB configA groupsA w ref)" by (simp add: view_def)
  then have "respond 5 (ModelShown b exprB rulesB) (view a exprA rulesA configA groupsA w ref) =
      settle (Suc (Suc (Suc (Suc (Suc 0))))) (Some (view a exprA rulesA configA groupsA w ref))
        (view b exprB rulesB configA groupsA w ref)" by (simp add: respond_def eval_nat_numeral)
  then show ?thesis
    using assms(3) by (cases ref) (auto simp add: commits same_view_view simp del: settle.simps)
qed


subsection \<open>Prices that the visual editor cannot read\<close>

text \<open>The editor in the raw mode, without tiers.\<close>

definition raw_view :: "jsstring \<Rightarrow> jsstring \<Rightarrow> jsstring \<Rightarrow> RequestRuleGroup list \<Rightarrow> jsstring \<Rightarrow> bool \<Rightarrow> tier_editor" where
  "raw_view name expr rules groups raw ref =
     \<lparr>te_modelName = name, te_currentExpr = expr, te_currentRequestRuleExpr = rules,
      te_editorMode = PricingRaw, te_visualConfig = None, te_rawExpr = raw,
      te_requestRuleGroups = groups, te_initRef = ref\<rparr>"

lemma zero_unreadable: "tryParseVisualConfig ZERO_EXPR = None"
  by code_simp

lemma zero_split:
  assumes "\<forall>g\<in>set groups. wf_group g"
  shows "splitBillingExprAndRequestRules (combineBillingExpr ZERO_EXPR (buildRequestRuleExpr groups)) =
    Inr \<lparr>billingExpr = ZERO_EXPR, requestRuleExpr = buildRequestRuleExpr groups\<rparr>"
proof (cases "groups = []")
  case True
  have "splitBillingExprAndRequestRules (combineBillingExpr ZERO_EXPR (buildRequestRuleExpr [])) =
    Inr \<lparr>billingExpr = ZERO_EXPR, requestRuleExpr = buildRequestRuleExpr []\<rparr>" by code_simp
  then show ?thesis using True by simp
next
  case False
  have z: "trim ZERO_EXPR = ZERO_EXPR" "unwrapOuterParens ZERO_EXPR = ZERO_EXPR" "pars 0 ZERO_EXPR" "ZERO_EXPR \<noteq> []"
    by code_simp+
  have "rx_full factor_rx (js ''('' @ ZERO_EXPR @ js '')'') = None" by code_simp
  then have "tryParseRuleGroupFactor (js ''('' @ ZERO_EXPR @ js '')'') = Inr None"
    by (simp add: tryParseRuleGroupFactor_def)
  then show ?thesis using combine_split [OF assms False, of ZERO_EXPR] z by simp
qed

lemma commit_raw:
  assumes "splitBillingExprAndRequestRules raw = Inr b" "tryParseRequestRuleExpr rules = Inr (Some groups)"
    and "cur = raw_view name expr rules groups raw ref" "\<not> deps_changed te_modelName before cur"
    and "init \<longleftrightarrow> deps_changed (\<lambda>s. (te_currentExpr s, te_currentRequestRuleExpr s)) before cur \<and> \<not> ref"
    and "init \<Longrightarrow> tryParseVisualConfig expr = None \<and> expr \<noteq> []"
  shows "commit before cur = Some (raw_view name (billingExpr b) rules groups
    (if init then combineBillingExpr expr rules else raw) (init \<or> ref))"
proof -
  have "effectiveExpr cur = Some (billingExpr b)"
    using assms(1) by (simp add: assms(3) raw_view_def effectiveExpr_def)
  moreover have "tryParseRequestRuleExpr (te_currentRequestRuleExpr cur) = Inr (Some groups)"
    using assms(2) by (simp add: assms(3) raw_view_def)
  moreover have "reinit groups cur = raw_view name expr rules groups (combineBillingExpr expr rules) True" if init
    using assms(6) [OF that] that by (simp add: assms(3,5) reinit_def raw_view_def)
  moreover have "reinit groups cur = cur" if ref using that by (simp add: assms(3) reinit_def raw_view_def)
  ultimately have "commit before cur = Some (rulesEffect cur (billingEffect cur (billingExpr b)
      (raw_view name expr rules groups (if init then combineBillingExpr expr rules else raw) (init \<or> ref))))"
    using assms(4) by (subst commit_parsed) (auto simp: assms(3,5))
  then show ?thesis by (simp add: rulesEffect_def billingEffect_def assms(3) raw_view_def)
qed

text \<open>The first commit draws the price as a visual configuration that is not there.\<close>

lemma open_unreadable:
  assumes "tryParseVisualConfig expr = None" "expr \<noteq> []" "\<forall>g\<in>set groups. wf_group g"
    and "tryParseRequestRuleExpr rules = Inr parsed" "groups = nullish parsed []"
    and "splitBillingExprAndRequestRules (combineBillingExpr expr rules) = Inr b"
  shows "\<exists>raw ref. openEditor 4 name expr rules =
    Some (raw_view name ZERO_EXPR (buildRequestRuleExpr groups) groups raw ref)"
proof -
  let ?r = "buildRequestRuleExpr groups" and ?w = "combineBillingExpr expr rules"
  let ?z = "combineBillingExpr ZERO_EXPR ?r"
  let ?s0 = "(raw_view name expr rules groups ?w False)\<lparr>te_editorMode := PricingVisual\<rparr>"
  have mount: "mountEditor name expr rules = Some ?s0"
    using assms by (simp add: mountEditor_def groups_or_empty_def raw_view_def)
  let ?s1 = "raw_view name ZERO_EXPR ?r groups ?w False" and ?s3 = "raw_view name ZERO_EXPR ?r groups ?z True"
  let ?s2 = "raw_view name (billingExpr b) ?r groups ?z True"
  have "commit None ?s0 = Some ?s1"
    using assms
    by (subst commit_parsed [of _ parsed ZERO_EXPR])
      (auto simp: raw_view_def effectiveExpr_def generateExprFromVisualConfig_def deps_changed_def reinit_def
        modelEffect_def billingEffect_def rulesEffect_def Let_def)
  then have start: "openEditor 4 name expr rules = settle 3 (Some ?s0) ?s1"
    using mount by (simp add: openEditor_def eval_nat_numeral same_view_def raw_view_def)
  note parse = rules_parse [OF assms(3)]
  have zero: "ZERO_EXPR \<noteq> []" by (simp add: ZERO_EXPR_def)
  show ?thesis
  proof (cases "expr = ZERO_EXPR \<and> rules = ?r")
    case True
    then have "billingExpr b = ZERO_EXPR" using zero_split [OF assms(3)] assms(6) by auto
    then have "commit (Some ?s0) ?s1 = Some ?s1"
      using True by (subst commit_raw [OF assms(6) parse refl, where init = False]) (auto simp: deps_changed_def raw_view_def)
    then show ?thesis using start by (auto simp: eval_nat_numeral same_view_def)
  next
    case False
    have "commit (Some ?s0) ?s1 = Some ?s2"
      using False zero zero_unreadable
      by (subst commit_raw [OF assms(6) parse refl, where init = True]) (auto simp: deps_changed_def raw_view_def)
    moreover have "commit (Some ?s1) ?s2 = Some ?s3" "commit (Some ?s2) ?s3 = Some ?s3"
      by (subst commit_raw [OF zero_split [OF assms(3)] parse refl, where init = False]; simp add: deps_changed_def raw_view_def)+
    ultimately show ?thesis
      using start by (auto simp: eval_nat_numeral same_view_def raw_view_def)
  qed
qed


lemma open_readable_unreadable_rules:
  assumes "tryParseVisualConfig expr = Some config" "generateExprFromVisualConfig (Some config) = expr"
    and "tryParseRequestRuleExpr rules = Inr None"
  shows "\<exists>raw ref. openEditor 3 name expr rules = Some (view name expr [] config [] raw ref)"
proof -
  have empty: "readable_price expr [] config []"
    using assms by (simp add: readable_price_def tryParseRequestRuleExpr_def buildRequestRuleExpr_def truthy_strs_def)
  let ?s0 = "view name expr rules config [] (combineBillingExpr expr rules) False"
  have "mountEditor name expr rules = Some ?s0"
    using assms by (simp add: mountEditor_def groups_or_empty_def view_def)
  moreover have "commit None ?s0 = Some (view name expr [] config [] (combineBillingExpr expr rules) False)"
    using assms
    by (subst commit_parsed [of _ None expr])
      (auto simp: view_def effectiveExpr_def deps_changed_def reinit_def modelEffect_def billingEffect_def
        rulesEffect_def Let_def buildRequestRuleExpr_def truthy_strs_def)
  ultimately have "openEditor 3 name expr rules =
      (if rules = [] then Some (view name expr [] config [] (combineBillingExpr expr rules) False)
       else settle 2 (Some ?s0) (view name expr [] config [] (combineBillingExpr expr rules) False))"
    by (auto simp: openEditor_def eval_nat_numeral same_view_view)
  then show ?thesis
    using settle_commit [OF commit_view [OF empty empty refl refl]]
    by (auto simp: eval_nat_numeral same_view_view simp del: settle.simps)
qed

subsection \<open>Printed prices are taken apart again\<close>

lemma factor_ends: "rx_full factor_rx s \<noteq> None \<Longrightarrow> \<exists>u. s = u @ js '' : 1)''"
proof -
  assume "rx_full factor_rx s \<noteq> None"
  then obtain a where "(a, []) \<in> set (factor_rx s)" by (auto simp: rx_full_def find_Some_iff) (metis nth_mem)
  then obtain c r m where "(m, js '' : 1)'') \<in> set (rx_plus numeric_char r)" "(c, 32 # 63 # 32 # r) \<in> set (rx_plus (\<lambda>_. True) (tl s))"
    "s = 40 # tl s"
    by (cases s) (auto simp: factor_rx_def rx_bind_def rx_return_def rx_seq_def rx_lit_def js_lits prefix_def split: if_splits)
  then have "\<exists>u. r = u @ js '' : 1)''" "\<exists>u. tl s = u @ 32 # 63 # 32 # r" by (auto simp: set_rx_plus)
  then show ?thesis using \<open>s = 40 # tl s\<close> by (metis append.assoc append_Cons)
qed

lemma scan_plain:
  "\<forall>c\<in>set u. c \<noteq> 40 \<and> c \<noteq> 41 \<and> c \<noteq> 42 \<Longrightarrow> rest = [] \<or> hd rest \<noteq> 42 \<Longrightarrow>
   split_scan (js '' * '') 0 cur (u @ rest) = split_scan (js '' * '') 0 (cur @ u) rest"
proof (induction u arbitrary: cur)
  case (Cons c u)
  have "\<not> prefix (js '' * '') (c # u @ rest)"
    using Cons.prems by (cases u; cases rest) (auto simp: js_lits)
  then show ?case using Cons by (simp add: depth_after_def)
qed simp

lemma number_no_parens: "plain_number n \<Longrightarrow> 40 \<notin> set n \<and> 41 \<notin> set n"
  by (auto simp: plain_number_def list_all_iff numeric_char_def is_digit_def)

lemma word_no_parens: "is_word n \<Longrightarrow> 40 \<notin> set n \<and> 41 \<notin> set n"
  by (auto simp: is_word_def list_all_iff word_char_def is_digit_def)

lemma opt_terms_no_parens:
  "list_all is_word vs \<Longrightarrow> list_all (pred_option plain_number) xs \<Longrightarrow>
   40 \<notin> set (opt_terms_str vs xs) \<and> 41 \<notin> set (opt_terms_str vs xs)"
  by (induction vs xs rule: list_induct2')
    (auto simp: opt_term_str_def opt_terms_str_def js_lits number_no_parens word_no_parens split: option.splits)

lemma tier_text_wrapped:
  assumes "good_match m" "pars 0 (fst m)"
  shows "\<exists>inner. tier_text m = js ''tier'' @ 40 # inner @ [41] \<and> pars 0 inner"
proof -
  obtain label ic oc xs where m: "m = (label, ic, oc, xs)" by (cases m)
  let ?b = "js ''\", '' @ js ''p * '' @ ic @ js '' + c * '' @ oc @ opt_terms_str cacheVarNames xs"
  have "\<forall>c\<in>set ?b. c \<noteq> 40 \<and> c \<noteq> 41"
    using assms(1) number_no_parens opt_terms_no_parens [OF cacheVarNames_facts(2), of xs] by (auto simp: m js_lits)
  from pars_append0 [OF _ pars_none [OF this]] have "pars 0 (label @ ?b)" using assms(2) by (simp add: m)
  then show ?thesis by (intro exI [of _ "34 # label @ ?b"]) (simp add: m tier_text_def js_lits)
qed

lemma conds_plain:
  assumes "list_all good_cond cs"
  shows "\<forall>c\<in>set (conds_text cs). c \<noteq> 40 \<and> c \<noteq> 41 \<and> c \<noteq> 42"
proof -
  have "\<forall>c\<in>set (cond_text d). c \<noteq> 40 \<and> c \<noteq> 41 \<and> c \<noteq> 42" if "good_cond d" for d
    using that by (cases d) (auto simp: COMPARISONS_def js_lits list_all_iff cond_number_char_def is_digit_def)
  then show ?thesis using assms by (cases cs) (auto simp: js_lits list_all_iff)
qed

lemma scan_part:
  assumes "good_tier t" "pars 0 (vt_label t)" "rest = [] \<or> hd rest \<noteq> 42"
  shows "split_scan (js '' * '') 0 cur (part_of t @ rest) = split_scan (js '' * '') 0 (cur @ part_of t) rest"
    "pars 0 (part_of t)" "\<exists>u. part_of t = u @ [41]" "part_of t \<noteq> [] \<and> hd (part_of t) \<noteq> 42"
proof -
  obtain inner where i: "tier_text (match_of t) = js ''tier'' @ 40 # inner @ [41]" "pars 0 inner"
    using tier_text_wrapped [OF match_of_good [OF assms(1)]] assms(2) by (auto simp: match_of_def)
  let ?c = "if vt_conditions t = [] then [] else conds_text (map cond_of (vt_conditions t)) @ js '' ? ''"
  let ?u = "?c @ js ''tier''"
  have p: "part_of t = ?u @ 40 # inner @ [41]" by (simp add: part_of_def part_text_def i(1))
  have u: "\<forall>c\<in>set ?u. c \<noteq> 40 \<and> c \<noteq> 41 \<and> c \<noteq> 42"
    using conds_plain [OF good_tier_conds [OF assms(1)]] by (auto simp: js_lits)
  show "split_scan (js '' * '') 0 cur (part_of t @ rest) = split_scan (js '' * '') 0 (cur @ part_of t) rest"
  proof -
    have "prefix (js '' * '') (41 # rest) = False" by (simp add: js_lits)
    from scan_factor [OF i(2) this, of "cur @ ?u"] scan_plain [OF u, of "40 # inner @ 41 # rest" cur]
    show ?thesis unfolding p by (simp del: split_scan.simps)
  qed
  show "pars 0 (part_of t)"
  proof -
    have "pars 0 ?u" using u by (intro pars_none) blast
    from pars_append0 [OF this pars_wrap [OF i(2), of "[]"]] show ?thesis by (simp only: p pars.simps simp_thms)
  qed
  show "\<exists>u. part_of t = u @ [41]" by (simp add: p)
  have ne: "?u \<noteq> []" by (simp add: js_lits)
  then have "hd (part_of t) = hd ?u" unfolding p by (rule hd_append2)
  with ne show "part_of t \<noteq> [] \<and> hd (part_of t) \<noteq> 42" using u hd_in_set [of ?u] by (auto simp: p)
qed

lemma scan_parts:
  assumes "list_all good_tier tiers" "list_all (\<lambda>t. pars 0 (vt_label t)) tiers" "tiers \<noteq> []"
  shows "split_scan (js '' * '') 0 cur (join (js '' : '') (map part_of tiers)) =
      [trim (cur @ join (js '' : '') (map part_of tiers))]"
    "pars 0 (join (js '' : '') (map part_of tiers))" "\<exists>u. join (js '' : '') (map part_of tiers) = u @ [41]"
  using assms(3,1,2)
proof (induction tiers arbitrary: cur rule: list_nonempty_induct)
  case (single t)
  {
    case 1
    then show ?case using scan_part(1) [of t "[]" cur] by simp
  next
    case 2
    then show ?case using scan_part(2) [of t "[]"] by simp
  next
    case 3
    then show ?case using scan_part(3) [of t "[]"] by simp
  }
next
  case (cons t ts)
  have j: "join (js '' : '') (map part_of (t # ts)) = part_of t @ js '' : '' @ join (js '' : '') (map part_of ts)"
    using cons.hyps by (cases ts) simp_all
  {
    case 1
    then have "split_scan (js '' * '') 0 cur (part_of t @ js '' : '' @ join (js '' : '') (map part_of ts)) =
        split_scan (js '' * '') 0 (cur @ part_of t) (js '' : '' @ join (js '' : '') (map part_of ts))"
      by (intro scan_part(1)) (auto simp: js_lits)
    also have "\<dots> = split_scan (js '' * '') 0 ((cur @ part_of t) @ js '' : '') (join (js '' : '') (map part_of ts))"
      using scan_part(4) [of "hd ts" "[]"] 1 cons.hyps
      by (intro scan_plain) (cases ts; cases "tl ts"; auto simp: js_lits)+
    finally show ?case using cons.IH(1) 1 unfolding j by simp
  next
    case 2
    then show ?case unfolding j using cons.IH(2) scan_part(2) [of t "[]"]
      by (intro pars_append0) (auto simp: js_lits)
  next
    case 3
    then show ?case unfolding j using cons.IH(3) by fastforce
  }
qed


lemma part_first:
  assumes "good_tier t"
  shows "\<exists>c s. part_of t = c # s \<and> c \<in> {112, 99, 108, 116}"
proof (cases "vt_conditions t")
  case Nil
  then show ?thesis using tier_text_hd [of "match_of t"] by (auto simp: part_of_def part_text_def)
next
  case (Cons x xs)
  have "good_cond (cond_of x)" using good_tier_conds [OF assms] Cons by simp
  then obtain c s where "cond_text (cond_of x) = c # s" "c \<in> {112, 99, 108, 116}"
    by (cases "cond_of x") (auto simp: js_lits)
  then show ?thesis by (auto simp: part_of_def part_text_def Cons)
qed

lemma printed_split:
  assumes "good_config tiers" "vt_conditions (last tiers) = []" "list_all (\<lambda>t. pars 0 (vt_label t)) tiers"
    and "\<forall>g\<in>set groups. wf_group g" "expr = generateExprFromVisualConfig (Some tiers)"
  shows "splitBillingExprAndRequestRules (combineBillingExpr expr (buildRequestRuleExpr groups)) =
      Inr \<lparr>billingExpr = expr, requestRuleExpr = buildRequestRuleExpr groups\<rparr>" "expr \<noteq> []"
proof -
  have g: "list_all good_tier tiers" "tiers \<noteq> []" using assms(1) by (simp_all add: good_config_def)
  have expr: "expr = join (js '' : '') (map part_of tiers)"
  proof (cases "length tiers = 1")
    case True
    then obtain t where "tiers = [t]" by (auto simp: length_Suc_conv)
    then show ?thesis using generate_one [of t] g assms(2,5) by simp
  next
    case False
    then show ?thesis using generate_many [OF g(1) _ assms(2)] g(2) assms(5) by (cases tiers; cases "tl tiers") auto
  qed
  note parts = scan_parts [OF g(1) assms(3) g(2), folded expr]
  obtain u where u: "expr = u @ [41]" using parts(3) by blast
  obtain t ts where ts: "tiers = t # ts" using g(2) by (cases tiers) auto
  then obtain c s where "part_of t = c # s" "c \<in> {112, 99, 108, 116}" using part_first [of t] g(1) by auto
  then obtain s' where c: "expr = c # s'" "c \<noteq> 40" "\<not> is_ws c"
    unfolding expr ts by (cases ts) (auto simp: is_ws_def)
  have ends: "hd expr = c" "last expr = 41" by (subst c(1), simp) (subst u, simp)
  have trim: "trim expr = expr" by (rule trim_trimmed) (simp add: trimmed_def ends c(3) is_ws_def [of 41])
  have unwrap: "unwrapOuterParens expr = expr"
    using c trim by (simp add: unwrapOuterParens_def) (subst unwrap_loop.simps, simp add: hasFullOuterParens_def js_lits)
  show "splitBillingExprAndRequestRules (combineBillingExpr expr (buildRequestRuleExpr groups)) =
      Inr \<lparr>billingExpr = expr, requestRuleExpr = buildRequestRuleExpr groups\<rparr>"
  proof (cases "groups = []")
    case True
    have "splitTopLevelMultiply expr = [expr]"
      using parts(1) [of "[]"] trim c by (simp add: splitTopLevelMultiply_def truthy_strs_def)
    then show ?thesis
      using True trim c by (simp add: splitBillingExprAndRequestRules_def combineBillingExpr_def
          buildRequestRuleExpr_def truthy_strs_def Let_def)
  next
    case False
    have "rx_full factor_rx (js ''('' @ expr @ js '')'') = None"
      using factor_ends [of "js ''('' @ expr @ js '')''"] u by (fastforce simp: js_lits)
    then have "tryParseRuleGroupFactor (js ''('' @ expr @ js '')'') = Inr None"
      by (simp add: tryParseRuleGroupFactor_def)
    then show ?thesis
      using combine_split [OF assms(4) False, of expr] trim unwrap parts(2) c by simp
  qed
  show "expr \<noteq> []" using c by simp
qed

subsection \<open>Switching to the raw text and back\<close>

lemma switch_modes:
  assumes "readable_price expr rules config groups" "expr \<noteq> []"
    and "splitBillingExprAndRequestRules (combineBillingExpr expr rules) = Inr \<lparr>billingExpr = expr, requestRuleExpr = rules\<rparr>"
  shows "\<exists>st. respond 1 (ModeChosen PricingRaw) (view name expr rules config groups w ref) = Some st \<and>
    te_currentExpr st = expr \<and> te_currentRequestRuleExpr st = rules \<and> te_editorMode st = PricingRaw \<and>
    te_rawExpr st = combineBillingExpr expr rules \<and>
    respond 1 (ModeChosen PricingVisual) st =
      Some (view name expr rules config groups (combineBillingExpr expr rules) ref)"
proof -
  let ?v = "view name expr rules config groups (combineBillingExpr expr rules) ref"
  let ?r = "?v\<lparr>te_editorMode := PricingRaw\<rparr>"
  have "or_str (combineBillingExpr expr rules) expr = combineBillingExpr expr rules"
    using assms(2,3) by (auto simp: or_str_def splitBillingExprAndRequestRules_def trim_def)
  then have h: "pricing_handle (ModeChosen PricingRaw) (view name expr rules config groups w ref) = Some ?r"
    using assms(1) by (simp add: view_def readable_price_def)
  have rules: "tryParseRequestRuleExpr rules = Inr (Some groups)" using assms(1) by (simp add: readable_price_def)
  have "commit (Some (view name expr rules config groups w ref)) ?r = Some ?r"
    using assms(3) rules
    by (subst commit_parsed [of _ "Some groups" expr])
      (auto simp: view_def effectiveExpr_def deps_changed_def billingEffect_def rulesEffect_def)
  then have "respond 1 (ModeChosen PricingRaw) (view name expr rules config groups w ref) = Some ?r"
    using h by (simp add: respond_def same_view_def)
  moreover have "pricing_handle (ModeChosen PricingVisual) ?r = Some ?v"
    using assms(1,3) rules by (simp add: view_def groups_or_empty_def readable_price_def)
  moreover have "commit (Some ?r) ?v = Some ?v"
    using assms(1) rules
    by (subst commit_parsed [of _ "Some groups" expr])
      (auto simp: view_def effectiveExpr_def deps_changed_def billingEffect_def rulesEffect_def readable_price_def)
  ultimately show ?thesis by (auto simp: respond_def same_view_def view_def)
qed

lemma settled_sync:
  "settle n before cur = Some st \<Longrightarrow>
   effectiveExpr st = Some (te_currentExpr st) \<and>
   (te_editorMode st = PricingVisual \<longrightarrow> te_currentRequestRuleExpr st = buildRequestRuleExpr (te_requestRuleGroups st))"
proof (induction n arbitrary: before cur)
  case (Suc n)
  obtain next1 where c: "commit before cur = Some next1" using Suc.prems by (auto split: option.splits)
  show ?case
  proof (cases "same_view cur next1")
    case False
    then show ?thesis using Suc c by simp
  next
    case True
    then have st: "st = next1" "next1 = cur\<lparr>te_initRef := te_initRef next1\<rparr>"
      using Suc.prems c by (simp_all add: same_view_def)
    obtain expr s where e: "effectiveExpr cur = Some expr" "next1 = rulesEffect cur (billingEffect cur expr s)"
      using c by (auto simp: commit_def Let_def split: option.splits)
    have "te_currentExpr next1 = te_currentExpr cur"
      "te_currentRequestRuleExpr next1 = te_currentRequestRuleExpr cur"
      "te_editorMode next1 = te_editorMode cur" "te_requestRuleGroups next1 = te_requestRuleGroups cur"
      "effectiveExpr next1 = effectiveExpr cur"
      by (subst st(2), simp add: effectiveExpr_def)+
    moreover have "expr = te_currentExpr cur"
      using calculation(1) e(2) by (auto simp: rulesEffect_def billingEffect_def Let_def split: if_splits)
    moreover have "te_editorMode cur = PricingVisual \<Longrightarrow>
        te_currentRequestRuleExpr cur = buildRequestRuleExpr (te_requestRuleGroups cur)"
      using calculation(2) e(2) by (auto simp: rulesEffect_def Let_def split: if_splits)
    ultimately show ?thesis using st(1) e(1) by simp
  qed
qed simp

subsection \<open>Editing tiers\<close>

text \<open>The events that replace the tiers by others.\<close>

fun tiers_after :: "pricing_event \<Rightarrow> VisualTier list \<Rightarrow> VisualTier list option" where
  "tiers_after (TierEdited i tier) tiers = Some (handleTierChange i tier tiers)"
| "tiers_after TierAdded tiers = Some (handleAddTier tiers)"
| "tiers_after (TierRemoved i) tiers = Some (handleRemoveTier i tiers)"
| "tiers_after (ConditionAdded i) tiers = Some (handleAddCondition i tiers)"
| "tiers_after _ tiers = None"

lemma tiers_handle:
  "tiers_after e (normalizeVisualConfig (Some config)) = Some tiers' \<Longrightarrow>
   pricing_handle e (view name expr rules config groups raw ref) = Some (view name expr rules tiers' groups raw ref)"
  by (cases e) (auto simp: on_config_def handleVisualChange_def view_def)

lemma edit_readable:
  assumes "readable_price expr rules config groups" "good_config tiers'"
    and "tiers_after e (normalizeVisualConfig (Some config)) = Some tiers'"
  shows "\<exists>config' raw' ref'. respond 3 e (view name expr rules config groups raw ref) =
      Some (view name (generateExprFromVisualConfig (Some tiers')) rules config' groups raw' ref') \<and>
    map guess_mode config' = map guess_mode tiers'"
proof -
  let ?e = "generateExprFromVisualConfig (Some tiers')" and ?g = "map guess_mode tiers'"
  have r: "readable_price ?e rules ?g groups"
    using assms(1) config_parse [OF assms(2)] guessed_config(2) [OF assms(2)] by (simp add: readable_price_def)
  have shown: "generateExprFromVisualConfig (Some tiers') = ?e \<and> buildRequestRuleExpr groups = rules"
    using assms(1) by (simp add: readable_price_def)
  note commits = settle_commit [OF commit_shown [OF shown assms(1) refl refl]]
    settle_commit [OF commit_shown [OF shown r refl refl]] settle_commit [OF commit_view [OF r r refl refl]]
  have "respond 3 e (view name expr rules config groups raw ref) =
      settle (Suc (Suc (Suc 0))) (Some (view name expr rules config groups raw ref)) (view name expr rules tiers' groups raw ref)"
    using tiers_handle [OF assms(3)] by (simp add: respond_def eval_nat_numeral)
  then have "\<exists>config'\<in>{tiers', ?g}. \<exists>raw' ref'. respond 3 e (view name expr rules config groups raw ref) =
      Some (view name ?e rules config' groups raw' ref')"
    by (cases ref; cases "?e = expr") (auto simp: commits same_view_view simp del: settle.simps)
  moreover have "map guess_mode ?g = ?g" by (simp add: guess_mode_def)
  ultimately show ?thesis by (metis empty_iff insert_iff)
qed

lemma bound_good: "good_condition (bound_condition ''len'')"
proof -
  have "num_str 200000 = show_nat 200000" using num_str_nat [of 200000] by simp
  moreover have "list_all cond_number_char (show_nat 200000)"
    using show_nat_digits by (auto simp: list_all_iff cond_number_char_def)
  ultimately show ?thesis
    by (simp add: good_condition_def bound_condition_def readable_def COMPARISONS_def)
qed

lemma zero_good: "good_cost (Some 0)"
  by code_simp

text \<open>Adding a tier keeps a configuration printable: the tier before the new default gets a bound.\<close>

lemma add_tier_good:
  assumes "good_config tiers"
  shows "good_config (handleAddTier tiers)"
proof -
  let ?l = "last tiers"
  let ?b = "normalizeVisualTier ((partial_of ?l)\<lparr>pv_conditions := Some [bound_condition ''len'']\<rparr>)"
  let ?n = "\<lambda>k. normalizeVisualTier (empty_tier\<lparr>pv_label := Some (js ''tier_'' @ show_nat (k + 1)),
           pv_conditions := Some [], pv_input_unit_cost := Some (Some 0), pv_output_unit_cost := Some (Some 0)\<rparr>)"
  have g: "list_all good_tier tiers" "tiers \<noteq> []" using assms by (simp_all add: good_config_def)
  then have l: "good_tier ?l" "list_all good_tier (butlast tiers)"
    by (auto simp: list_all_iff dest: in_set_butlastD)
  then have "?b = ?l\<lparr>vt_conditions := [bound_condition ''len'']\<rparr>"
    using good_cost_facts(1) by (simp add: normalizeVisualTier_def partial_of_def good_tier_def)
  then have b: "good_tier ?b" using l(1) bound_good by (simp add: good_tier_def)
  have "34 \<notin> set (show_nat k)" for k using show_nat_digits [of 34 k] by (auto simp: is_digit_def)
  then have n: "good_tier (?n k)" "vt_conditions (?n k) = []" for k
    using zero_good
    by (auto simp: good_tier_def normalizeVisualTier_def empty_tier_def cost_def js_lits not_quote_def list_all_iff)
  show ?thesis
    using g l(2) b n unfolding handleAddTier_def Let_def good_config_def by simp
qed

lemma demo_good: "good_config demo_tiers"
  by code_simp

subsection \<open>Properties\<close>

text \<open>
  Opening a price that the editor itself printed, tiers and request rules, leaves it alone: the editor
  comes to rest at once, in the visual mode, with the tiers (their cache mode guessed anew) and the rule
  groups of the price, and its parent keeps both expressions as they were.
\<close>

theorem printed_price_opens:
  assumes "good_config tiers" "\<forall>g\<in>set groups. wf_group g"
  shows "\<exists>st. openEditor 1 name (generateExprFromVisualConfig (Some tiers)) (buildRequestRuleExpr groups) = Some st \<and>
    te_currentExpr st = generateExprFromVisualConfig (Some tiers) \<and>
    te_currentRequestRuleExpr st = buildRequestRuleExpr groups \<and> te_editorMode st = PricingVisual \<and>
    te_visualConfig st = Some (map guess_mode tiers) \<and> te_requestRuleGroups st = groups"
  using open_readable [OF printed_readable [OF assms], of 0] by (simp add: view_def)

theorem printed_price_opens_witness:
  "\<exists>st. openEditor 1 (js ''m'') (generateExprFromVisualConfig (Some demo_tiers)) (buildRequestRuleExpr [demo_rule]) = Some st \<and>
    te_requestRuleGroups st = [demo_rule]"
  using printed_price_opens [OF demo_good, of "[demo_rule]" "js ''m''"] demo_rule_wf by auto

text \<open>
  Claim C16.  Editing: whatever a handler of the tier list makes of the tiers of an opened price (a changed, an added or a
  removed tier, an added condition), as long as the result can be printed and read back, the editor comes to rest showing these
  tiers (cache modes guessed anew), and its parent has their expression and the rules as before.  Adding a tier always
  gives such a result.
\<close>

theorem tier_edits_published:
  assumes "good_config tiers" "\<forall>g\<in>set groups. wf_group g"
    and "openEditor 1 name (generateExprFromVisualConfig (Some tiers)) (buildRequestRuleExpr groups) = Some st"
    and "tiers_after e (map guess_mode tiers) = Some tiers'" "e = TierAdded \<or> good_config tiers'"
  shows "\<exists>st' config'. respond 3 e st = Some st' \<and> te_currentExpr st' = generateExprFromVisualConfig (Some tiers') \<and>
    te_currentRequestRuleExpr st' = te_currentRequestRuleExpr st \<and> te_requestRuleGroups st' = groups \<and>
    te_editorMode st' = PricingVisual \<and> te_visualConfig st' = Some config' \<and> map guess_mode config' = map guess_mode tiers'"
proof -
  note r = printed_readable [OF assms(1,2)]
  have "good_config (map guess_mode tiers)"
    using assms(1) by (auto simp: good_config_def list_all_iff last_map)
  then have good: "good_config tiers'" using assms(4,5) add_tier_good by auto
  have "st = view name (generateExprFromVisualConfig (Some tiers)) (buildRequestRuleExpr groups) (map guess_mode tiers) groups
      (combineBillingExpr (generateExprFromVisualConfig (Some tiers)) (buildRequestRuleExpr groups)) False"
    using open_readable [OF r, of 0 name] assms(3) by simp
  then show ?thesis
    using edit_readable [OF r good, of e] assms(4) guessed_config(1) [OF assms(1)] by (fastforce simp: view_def)
qed

theorem tier_edits_published_witness:
  "\<exists>st st'. openEditor 1 (js ''m'') (generateExprFromVisualConfig (Some demo_tiers)) (buildRequestRuleExpr [demo_rule]) = Some st \<and>
     respond 3 TierAdded st = Some st' \<and>
     te_currentExpr st' = generateExprFromVisualConfig (Some (handleAddTier (map guess_mode demo_tiers)))"
proof -
  have wf: "\<forall>g\<in>set [demo_rule]. wf_group g" using demo_rule_wf by simp
  obtain st where st: "openEditor 1 (js ''m'') (generateExprFromVisualConfig (Some demo_tiers))
      (buildRequestRuleExpr [demo_rule]) = Some st"
    using open_readable [OF printed_readable [OF demo_good wf], of 0 "js ''m''"] by simp
  then show ?thesis using tier_edits_published [OF demo_good wf st, of TierAdded] by auto
qed



text \<open>
  Switching to the raw text and back is harmless: from the tiers and rules of a printed price the raw
  mode shows their combination and changes nothing for the parent, and switching back shows the same tiers
  and the same rule groups.  The last tier must be unconditional, since its conditions would not be printed, and
  parentheses in labels must be balanced, since the splitter counts them.
\<close>

theorem raw_mode_and_back:
  assumes "good_config tiers" "vt_conditions (last tiers) = []" "list_all (\<lambda>t. pars 0 (vt_label t)) tiers"
    and "\<forall>g\<in>set groups. wf_group g"
    and "openEditor 1 name (generateExprFromVisualConfig (Some tiers)) (buildRequestRuleExpr groups) = Some st"
  shows "\<exists>raw. respond 1 (ModeChosen PricingRaw) st = Some raw \<and> te_editorMode raw = PricingRaw \<and>
    te_currentExpr raw = te_currentExpr st \<and> te_currentRequestRuleExpr raw = te_currentRequestRuleExpr st \<and>
    respond 1 (ModeChosen PricingVisual) raw = Some st"
proof -
  let ?e = "generateExprFromVisualConfig (Some tiers)" and ?r = "buildRequestRuleExpr groups"
  note r = printed_readable [OF assms(1,4)]
  have "st = view name ?e ?r (map guess_mode tiers) groups (combineBillingExpr ?e ?r) False"
    using open_readable [OF r, of 0 name] assms(5) by simp
  then show ?thesis
    using switch_modes [OF r printed_split(2,1) [OF assms(1-4) refl]] by (fastforce simp: view_def)
qed

theorem raw_mode_and_back_witness:
  "\<exists>st raw. openEditor 1 (js ''m'') (generateExprFromVisualConfig (Some demo_tiers)) (buildRequestRuleExpr [demo_rule]) = Some st \<and>
     respond 1 (ModeChosen PricingRaw) st = Some raw \<and> respond 1 (ModeChosen PricingVisual) raw = Some st"
proof -
  have wf: "\<forall>g\<in>set [demo_rule]. wf_group g" using demo_rule_wf by simp
  obtain st where st: "openEditor 1 (js ''m'') (generateExprFromVisualConfig (Some demo_tiers))
      (buildRequestRuleExpr [demo_rule]) = Some st"
    using open_readable [OF printed_readable [OF demo_good wf], of 0 "js ''m''"] by simp
  moreover have "vt_conditions (last demo_tiers) = []" "list_all (\<lambda>t. pars 0 (vt_label t)) demo_tiers" by code_simp+
  ultimately show ?thesis using raw_mode_and_back [OF demo_good _ _ wf st] by blast
qed

text \<open>
  A defect: opening a price whose expression the visual editor cannot read destroys it.  The first commit
  draws the visual mode without tiers and hands the parent the expression for free tokens; the effect that
  loads the expression runs once more because of that change and loads it; the text of the administrator is gone,
  and saving stores a price of zero.
\<close>

theorem unreadable_price_destroyed:
  assumes "tryParseVisualConfig expr = None" "expr \<noteq> []" "\<forall>g\<in>set groups. wf_group g"
    and "splitBillingExprAndRequestRules (combineBillingExpr expr (buildRequestRuleExpr groups)) = Inr b"
  shows "\<exists>st. openEditor 4 name expr (buildRequestRuleExpr groups) = Some st \<and>
    te_currentExpr st = js ''p * 0 + c * 0'' \<and> te_editorMode st = PricingRaw"
  using open_unreadable [where name = name, OF assms(1-3) rules_parse [OF assms(3)] _ assms(4)]
  by (auto simp: raw_view_def ZERO_EXPR_def)

theorem unreadable_price_destroyed_witness:
  "\<exists>st. openEditor 4 (js ''m'') (js ''max(p, 1) * 2'') (buildRequestRuleExpr []) = Some st \<and>
    te_currentExpr st = js ''p * 0 + c * 0''"
proof -
  have "tryParseVisualConfig (js ''max(p, 1) * 2'') = None" by code_simp
  moreover have "splitBillingExprAndRequestRules (combineBillingExpr (js ''max(p, 1) * 2'') (buildRequestRuleExpr [])) =
      Inr \<lparr>billingExpr = js ''max(p, 1) * 2'', requestRuleExpr = []\<rparr>" by code_simp
  ultimately show ?thesis using unreadable_price_destroyed [of "js ''max(p, 1) * 2''" "[]"] by auto
qed

text \<open>
  A defect: opening a price whose request rules the rule parser cannot read erases the rules, because in the
  visual mode, in which the editor always starts, the rules are printed from the groups that could be read.
  The rules that are lost include some that the editor printed itself.
\<close>

theorem unreadable_rules_erased:
  assumes "tryParseRequestRuleExpr rules = Inr None" "good_config tiers"
  shows "\<exists>st. openEditor 3 name (generateExprFromVisualConfig (Some tiers)) rules = Some st \<and>
    te_currentExpr st = generateExprFromVisualConfig (Some tiers) \<and> te_currentRequestRuleExpr st = []"
  using open_readable_unreadable_rules [where name = name, OF config_parse [OF assms(2)] guessed_config(2) [OF assms(2)] assms(1)]
  by (auto simp: view_def)

theorem unreadable_rules_erased_witness:
  "\<exists>st. openEditor 3 (js ''m'') (generateExprFromVisualConfig (Some demo_tiers))
      (buildRequestRuleExpr [\<lparr>rg_conditions = [ParamHeaderCondition FromParam (js ''n'') MATCH_GT (js ''1'')],
         rg_multiplier = js ''2''\<rparr>]) = Some st \<and> te_currentRequestRuleExpr st = []"
proof -
  have "tryParseRequestRuleExpr (buildRequestRuleExpr
      [\<lparr>rg_conditions = [ParamHeaderCondition FromParam (js ''n'') MATCH_GT (js ''1'')],
         rg_multiplier = js ''2''\<rparr>]) = Inr None" by code_simp
  then show ?thesis using unreadable_rules_erased [OF _ demo_good] by blast
qed

text \<open>
  Claim C22.  A defect: showing another model overwrites its price.  When the panel that holds the editor shows model
  \<open>b\<close> after model \<open>a\<close>, both with printed prices, the editor comes to rest with the expressions of \<open>a\<close>, also in
  its parent, so that saving stores the price of \<open>a\<close> for \<open>b\<close>.
\<close>

theorem model_switch_overwrites:
  assumes "good_config tiersA" "\<forall>g\<in>set groupsA. wf_group g" "good_config tiersB" "\<forall>g\<in>set groupsB. wf_group g"
    and "a \<noteq> b"
    and "openEditor 1 a (generateExprFromVisualConfig (Some tiersA)) (buildRequestRuleExpr groupsA) = Some st"
  shows "\<exists>st'. respond 5 (ModelShown b (generateExprFromVisualConfig (Some tiersB)) (buildRequestRuleExpr groupsB)) st = Some st' \<and>
    te_modelName st' = b \<and> te_currentExpr st' = generateExprFromVisualConfig (Some tiersA) \<and>
    te_currentRequestRuleExpr st' = buildRequestRuleExpr groupsA \<and> te_visualConfig st' = Some (map guess_mode tiersA)"
proof -
  let ?e = "generateExprFromVisualConfig (Some tiersA)" and ?r = "buildRequestRuleExpr groupsA"
  note r = printed_readable [OF assms(1,2)]
  have "st = view a ?e ?r (map guess_mode tiersA) groupsA (combineBillingExpr ?e ?r) False"
    using open_readable [OF r, of 0 a] assms(6) by simp
  then show ?thesis
    using switch_readable [OF r printed_readable [OF assms(3,4)] assms(5)] by (fastforce simp: view_def)
qed

theorem model_switch_overwrites_witness:
  "\<exists>st st'. openEditor 1 (js ''a'') (generateExprFromVisualConfig (Some demo_tiers)) (buildRequestRuleExpr [demo_rule]) = Some st \<and>
     respond 5 (ModelShown (js ''b'') (generateExprFromVisualConfig (Some (tl demo_tiers))) (buildRequestRuleExpr [])) st = Some st' \<and>
     te_currentExpr st' = generateExprFromVisualConfig (Some demo_tiers)"
proof -
  have wf: "\<forall>g\<in>set [demo_rule]. wf_group g" using demo_rule_wf by simp
  have tl: "good_config (tl demo_tiers)" by code_simp
  obtain st where st: "openEditor 1 (js ''a'') (generateExprFromVisualConfig (Some demo_tiers))
      (buildRequestRuleExpr [demo_rule]) = Some st"
    using open_readable [OF printed_readable [OF demo_good wf], of 0 "js ''a''"] by simp
  then show ?thesis using model_switch_overwrites [OF demo_good wf tl _ _ st, of "[]" "js ''b''"] by (auto simp: js_lits)
qed

end
