(* ===== verification/ModelPricing.thy ===== *)
theory ModelPricing
  imports TierEditor Machine
begin

section \<open>Model prices: the panel and the stored documents\<close>

text \<open>
  The settings of the gateway keep the prices of models in ten JSON documents that map a model to a
  number or a text.  \<^verbatim>\<open>features/system-settings/models/model-ratio-visual-editor.tsx\<close> reads rows from
  them and writes changed prices back; \<^verbatim>\<open>model-pricing-sheet.tsx\<close> is the panel in which one
  model is edited, with prices per million tokens in place of the stored ratios;
  \<^verbatim>\<open>pricing-format.ts\<close> prints its numbers.  Numbers are exact; the correction of rounding
  errors is modelled as it is written and proved to leave the numbers of prices alone.
\<close>

subsection \<open>Printing numbers\<close>

definition DISPLAY_DECIMALS :: nat where "DISPLAY_DECIMALS = 12"
definition SNAP_DECIMALS :: nat where "SNAP_DECIMALS = 8"
definition SNAP_EPSILON :: rat where "SNAP_EPSILON = 1 / 10 ^ 12"

text \<open>\<open>Number.EPSILON\<close>.\<close>

definition NUMBER_EPSILON :: rat where "NUMBER_EPSILON = 1 / 2 ^ 52"

text \<open>\<open>Math.round\<close> rounds halves up.\<close>

definition roundToDecimals :: "rat \<Rightarrow> nat \<Rightarrow> rat" where
  "roundToDecimals v decimals = of_int \<lfloor>v * 10 ^ decimals + 1 / 2\<rfloor> / 10 ^ decimals"

definition snapFloatDrift :: "rat \<Rightarrow> rat" where
  "snapFloatDrift v =
     (let tolerance = max SNAP_EPSILON (\<bar>v\<bar> * NUMBER_EPSILON * 8)
      in case List.find (\<lambda>d. \<bar>v - roundToDecimals v d\<bar> \<le> tolerance) [0..<Suc SNAP_DECIMALS] of
           Some d \<Rightarrow> roundToDecimals v d
         | None \<Rightarrow> v)"

text \<open>\<open>toFixed\<close> prints large numbers as \<open>String\<close> does.\<close>

definition toFixed :: "nat \<Rightarrow> rat \<Rightarrow> jsstring" where
  "toFixed f x = (if \<bar>x\<bar> \<ge> 10 ^ 21 then num_str x else to_fixed f x)"

definition formatPricingNumber :: "rat \<Rightarrow> jsstring" where
  "formatPricingNumber v =
     (case parse_float (toFixed DISPLAY_DECIMALS (snapFloatDrift v)) of
        Some r \<Rightarrow> num_str r | None \<Rightarrow> js ''NaN'')"

subsection \<open>The panel: data\<close>

datatype PricingMode = PerToken | PerRequest | TieredExpr

datatype LaneKey = LaneCompletion | LaneCache | LaneCreateCache | LaneImage | LaneAudioInput | LaneAudioOutput

text \<open>The documents; the first eight hold numbers.\<close>

datatype price_doc =
    ModelPrice | ModelRatio | CacheRatio | CreateCacheRatio | CompletionRatio | ImageRatio | AudioRatio
  | AudioCompletionRatio | BillingMode | BillingExpr

definition number_docs :: "price_doc list" where
  "number_docs = [ModelPrice, ModelRatio, CacheRatio, CreateCacheRatio, CompletionRatio, ImageRatio, AudioRatio,
     AudioCompletionRatio]"

text \<open>
  \<open>ModelRatioData\<close>, a row of the table and the values of the form all have one text for each
  document of numbers.
\<close>

type_synonym price_fields = "price_doc \<Rightarrow> jsstring"

record ModelRatioData =
  rd_name :: jsstring
  rd_fields :: price_fields
  rd_billingMode :: PricingMode
  rd_billingExpr :: jsstring
  rd_requestRuleExpr :: jsstring

record ModelRow = ModelRatioData +
  mr_hasConflict :: bool

fun ratioFieldByLane :: "LaneKey \<Rightarrow> price_doc" where
  "ratioFieldByLane LaneCompletion = CompletionRatio"
| "ratioFieldByLane LaneCache = CacheRatio"
| "ratioFieldByLane LaneCreateCache = CreateCacheRatio"
| "ratioFieldByLane LaneImage = ImageRatio"
| "ratioFieldByLane LaneAudioInput = AudioRatio"
| "ratioFieldByLane LaneAudioOutput = AudioCompletionRatio"

definition laneConfigs :: "LaneKey list" where
  "laneConfigs = [LaneCompletion, LaneCache, LaneCreateCache, LaneImage, LaneAudioInput, LaneAudioOutput]"

definition numeric_draft_rx :: "unit rx" where
  "numeric_draft_rx =
     rx_bind (rx_opt (rx_alt
       (rx_bind (rx_plus is_digit) (\<lambda>_.
          rx_bind (rx_opt (rx_seq (js ''.'') (rx_star is_digit))) (\<lambda>_. rx_return ())))
       (rx_seq (js ''.'') (rx_bind (rx_star is_digit) (\<lambda>_. rx_return ()))))) (\<lambda>_. rx_return ())"

definition numericDraftRegex :: "jsstring \<Rightarrow> bool" where
  "numericDraftRegex s = rx_test numeric_draft_rx s"

definition hasValue :: "jsstring \<Rightarrow> bool" where
  "hasValue v \<longleftrightarrow> v \<noteq> []"

definition toNumberOrNull :: "jsstring \<Rightarrow> rat option" where
  "toNumberOrNull v = (if \<not> hasValue v then None else to_number_str v)"

definition ratioToBasePrice :: "jsstring \<Rightarrow> jsstring" where
  "ratioToBasePrice ratio =
     (case toNumberOrNull ratio of None \<Rightarrow> [] | Some num \<Rightarrow> formatPricingNumber (num * 2))"

definition deriveLanePrice :: "jsstring \<Rightarrow> jsstring \<Rightarrow> jsstring" where
  "deriveLanePrice ratio denominator =
     (case (toNumberOrNull ratio, toNumberOrNull denominator) of
        (Some r, Some d) \<Rightarrow> formatPricingNumber (r * d) | _ \<Rightarrow> [])"

record lane_state =
  ls_promptPrice :: jsstring
  ls_prices :: "LaneKey \<Rightarrow> jsstring"
  ls_enabled :: "LaneKey \<Rightarrow> bool"

definition createInitialLaneState :: "ModelRatioData option \<Rightarrow> lane_state" where
  "createInitialLaneState data =
     (case data of
        None \<Rightarrow> \<lparr>ls_promptPrice = [], ls_prices = (\<lambda>_. []), ls_enabled = (\<lambda>_. False)\<rparr>
      | Some d \<Rightarrow>
          let promptPrice = ratioToBasePrice (rd_fields d ModelRatio);
              audioInputPrice = deriveLanePrice (rd_fields d AudioRatio) promptPrice
          in \<lparr>ls_promptPrice = promptPrice,
              ls_prices = (\<lambda>lane.
                if lane = LaneAudioInput then audioInputPrice
                else if lane = LaneAudioOutput then deriveLanePrice (rd_fields d AudioCompletionRatio) audioInputPrice
                else deriveLanePrice (rd_fields d (ratioFieldByLane lane)) promptPrice),
              ls_enabled = (\<lambda>lane. hasValue (rd_fields d (ratioFieldByLane lane)))\<rparr>)"

subsection \<open>The panel: state and handlers\<close>

record pricing_panel =
  pp_pricingMode :: PricingMode
  pp_promptPrice :: jsstring
  pp_lanePrices :: "LaneKey \<Rightarrow> jsstring"
  pp_laneEnabled :: "LaneKey \<Rightarrow> bool"
  pp_billingExpr :: jsstring
  pp_requestRuleExpr :: jsstring
  pp_name :: jsstring
  pp_form :: price_fields

text \<open>The effect that loads the data to edit.\<close>

definition loadPanel :: "ModelRatioData option \<Rightarrow> pricing_panel" where
  "loadPanel editData =
     (let lanes = createInitialLaneState editData in
      case editData of
        Some d \<Rightarrow>
          \<lparr>pp_pricingMode = (if rd_billingMode d = TieredExpr then TieredExpr
             else if rd_fields d ModelPrice \<noteq> [] then PerRequest else PerToken),
           pp_promptPrice = ls_promptPrice lanes, pp_lanePrices = ls_prices lanes, pp_laneEnabled = ls_enabled lanes,
           pp_billingExpr = rd_billingExpr d, pp_requestRuleExpr = rd_requestRuleExpr d,
           pp_name = rd_name d, pp_form = rd_fields d\<rparr>
      | None \<Rightarrow>
          \<lparr>pp_pricingMode = PerToken, pp_promptPrice = ls_promptPrice lanes, pp_lanePrices = ls_prices lanes,
           pp_laneEnabled = ls_enabled lanes, pp_billingExpr = [], pp_requestRuleExpr = [],
           pp_name = [], pp_form = (\<lambda>_. [])\<rparr>)"

definition setFormValue :: "price_doc \<Rightarrow> jsstring \<Rightarrow> pricing_panel \<Rightarrow> pricing_panel" where
  "setFormValue fld v p = p\<lparr>pp_form := (pp_form p)(fld := v)\<rparr>"

definition deriveLaneRatio :: "LaneKey \<Rightarrow> jsstring \<Rightarrow> jsstring \<Rightarrow> (LaneKey \<Rightarrow> jsstring) \<Rightarrow> jsstring" where
  "deriveLaneRatio lane price nextPromptPrice nextLanePrices =
     (case toNumberOrNull price of
        None \<Rightarrow> []
      | Some priceNumber \<Rightarrow>
          (case toNumberOrNull (if lane = LaneAudioOutput then nextLanePrices LaneAudioInput else nextPromptPrice) of
             None \<Rightarrow> []
           | Some d \<Rightarrow> if d = 0 then [] else formatPricingNumber (priceNumber / d)))"

definition syncLaneRatios :: "jsstring \<Rightarrow> (LaneKey \<Rightarrow> jsstring) \<Rightarrow> (LaneKey \<Rightarrow> bool) \<Rightarrow> pricing_panel \<Rightarrow> pricing_panel" where
  "syncLaneRatios nextPromptPrice nextLanePrices nextLaneEnabled p =
     fold (\<lambda>lane. setFormValue (ratioFieldByLane lane)
         (if \<not> nextLaneEnabled lane then []
          else deriveLaneRatio lane (nextLanePrices lane) nextPromptPrice nextLanePrices))
       laneConfigs
       (setFormValue ModelRatio
         (case toNumberOrNull nextPromptPrice of Some inputPrice \<Rightarrow> formatPricingNumber (inputPrice / 2) | None \<Rightarrow> []) p)"

definition handlePromptPriceChange :: "jsstring \<Rightarrow> pricing_panel \<Rightarrow> pricing_panel" where
  "handlePromptPriceChange v p =
     (if \<not> numericDraftRegex v then p
      else syncLaneRatios v (pp_lanePrices p) (pp_laneEnabled p) (p\<lparr>pp_promptPrice := v\<rparr>))"

definition handleLanePriceChange :: "LaneKey \<Rightarrow> jsstring \<Rightarrow> pricing_panel \<Rightarrow> pricing_panel" where
  "handleLanePriceChange lane v p =
     (if \<not> numericDraftRegex v then p
      else
        let nextLanePrices = (pp_lanePrices p)(lane := v);
            p1 = p\<lparr>pp_lanePrices := nextLanePrices\<rparr>;
            p2 = (if pp_laneEnabled p lane
                  then setFormValue (ratioFieldByLane lane)
                    (deriveLaneRatio lane v (pp_promptPrice p) nextLanePrices) p1 else p1)
        in if lane = LaneAudioInput \<and> pp_laneEnabled p LaneAudioOutput
           then setFormValue AudioCompletionRatio
             (deriveLaneRatio LaneAudioOutput (nextLanePrices LaneAudioOutput) (pp_promptPrice p) nextLanePrices) p2
           else p2)"

definition handleLaneToggle :: "LaneKey \<Rightarrow> bool \<Rightarrow> pricing_panel \<Rightarrow> pricing_panel" where
  "handleLaneToggle lane checked p =
     (let nextEnabled = (pp_laneEnabled p)(lane := checked) in
      if \<not> checked
      then
        let nextPrices = (pp_lanePrices p)(lane := []);
            p1 = setFormValue (ratioFieldByLane lane) [] p
        in if lane = LaneAudioInput
           then (setFormValue AudioCompletionRatio [] p1)
             \<lparr>pp_laneEnabled := nextEnabled(LaneAudioOutput := False),
              pp_lanePrices := nextPrices(LaneAudioOutput := [])\<rparr>
           else p1\<lparr>pp_laneEnabled := nextEnabled, pp_lanePrices := nextPrices\<rparr>
      else setFormValue (ratioFieldByLane lane)
             (deriveLaneRatio lane (pp_lanePrices p lane) (pp_promptPrice p) (pp_lanePrices p))
             (p\<lparr>pp_laneEnabled := nextEnabled\<rparr>))"

definition handleModeChange :: "PricingMode \<Rightarrow> pricing_panel \<Rightarrow> pricing_panel" where
  "handleModeChange nextMode p =
     (let p1 = p\<lparr>pp_pricingMode := nextMode\<rparr>
      in if nextMode = TieredExpr \<and> pp_billingExpr p = []
         then p1\<lparr>pp_billingExpr := js ''tier(\"base\", p * 0 + c * 0)''\<rparr> else p1)"

text \<open>The fixed price field of the form.\<close>

definition handlePriceInput :: "jsstring \<Rightarrow> pricing_panel \<Rightarrow> pricing_panel" where
  "handlePriceInput v p = (if numericDraftRegex v then setFormValue ModelPrice v p else p)"

datatype submit_error = NameRequired | InputPriceRequired | AudioInputRequired

definition handleSubmit :: "pricing_panel \<Rightarrow> submit_error + ModelRatioData" where
  "handleSubmit p =
     (if pp_name p = [] then Inl NameRequired
      else if pp_pricingMode p = PerToken \<and> toNumberOrNull (pp_promptPrice p) = None \<and>
         (\<exists>lane\<in>set laneConfigs. pp_laneEnabled p lane \<and> hasValue (pp_lanePrices p lane))
      then Inl InputPriceRequired
      else if pp_pricingMode p = PerToken \<and> pp_laneEnabled p LaneAudioOutput \<and>
         \<not> hasValue (pp_lanePrices p LaneAudioInput)
      then Inl AudioInputRequired
      else Inr \<lparr>rd_name = trim (pp_name p), rd_fields = pp_form p, rd_billingMode = pp_pricingMode p,
            rd_billingExpr = (if pp_pricingMode p = TieredExpr then pp_billingExpr p else []),
            rd_requestRuleExpr = (if pp_pricingMode p = TieredExpr then pp_requestRuleExpr p else [])\<rparr>)"

text \<open>What the panel shows beside the form; \<open>t\<close> translates.\<close>

definition getModeLabel :: "PricingMode \<Rightarrow> jsstring" where
  "getModeLabel mode =
     (if mode = PerRequest then js ''Per-request'' else if mode = TieredExpr then js ''Expression'' else js ''Per-token'')"

definition preview_price :: "(jsstring \<Rightarrow> jsstring) \<Rightarrow> bool \<Rightarrow> jsstring \<Rightarrow> jsstring" where
  "preview_price t shown price = (if shown \<and> price \<noteq> [] then js ''$'' @ price else t (js ''Empty''))"

definition buildPreviewRows :: "(jsstring \<Rightarrow> jsstring) \<Rightarrow> pricing_panel \<Rightarrow> (jsstring \<times> jsstring \<times> jsstring) list" where
  "buildPreviewRows t p =
     (let or_empty = (\<lambda>v. if v \<noteq> [] then v else t (js ''Empty''));
          lane = (\<lambda>key label l. (js key, t (js label), preview_price t (pp_laneEnabled p l) (pp_lanePrices p l)))
      in if pp_pricingMode p = TieredExpr
         then [(js ''mode'', js ''BillingMode'', js ''tiered_expr''),
               (js ''expr'', t (js ''Expression''), or_empty (combineBillingExpr (pp_billingExpr p) (pp_requestRuleExpr p)))]
         else if pp_pricingMode p = PerRequest
         then [(js ''price'', js ''ModelPrice'', or_empty (pp_form p ModelPrice))]
         else [(js ''inputPrice'', t (js ''Input price''), preview_price t True (pp_promptPrice p)),
               lane ''completion'' ''Completion price'' LaneCompletion,
               lane ''cache'' ''Cache read price'' LaneCache,
               lane ''createCache'' ''Cache write price'' LaneCreateCache,
               lane ''image'' ''Image input price'' LaneImage,
               lane ''audio'' ''Audio input price'' LaneAudioInput,
               lane ''audioCompletion'' ''Audio output price'' LaneAudioOutput])"

datatype pricing_warning = ConflictWarning | InputPriceWarning | AudioInputWarning

definition pricing_warnings :: "ModelRatioData option \<Rightarrow> pricing_panel \<Rightarrow> pricing_warning list" where
  "pricing_warnings editData p =
     (case editData of
        Some d \<Rightarrow> if rd_fields d ModelPrice \<noteq> [] \<and>
            list_ex (\<lambda>fld. hasValue (rd_fields d fld)) (ModelRatio # map ratioFieldByLane laneConfigs)
          then [ConflictWarning] else []
      | None \<Rightarrow> []) @
     (if pp_pricingMode p = PerToken \<and> toNumberOrNull (pp_promptPrice p) = None \<and>
         (\<exists>lane\<in>set laneConfigs. pp_laneEnabled p lane \<and> hasValue (pp_lanePrices p lane))
      then [InputPriceWarning] else []) @
     (if pp_pricingMode p = PerToken \<and> pp_laneEnabled p LaneAudioOutput \<and> \<not> hasValue (pp_lanePrices p LaneAudioInput)
      then [AudioInputWarning] else [])"

subsection \<open>The stored documents\<close>

type_synonym pricing_docs = "price_doc \<Rightarrow> jsstring"
type_synonym pricing_maps = "price_doc \<Rightarrow> (jsstring \<times> jsval) list"

text \<open>\<open>safeJsonParse\<close> with the fallback \<open>{}\<close>; \<open>None\<close> when the document is JSON but no object.\<close>

definition safeJsonParse :: "jsstring \<Rightarrow> (jsstring \<times> jsval) list option" where
  "safeJsonParse v =
     (if trim v = [] then Some []
      else case JSON_parse (trim v) of
             None \<Rightarrow> Some []
           | Some (JObj ps) \<Rightarrow> Some ps
           | Some _ \<Rightarrow> None)"

definition all_docs :: "price_doc list" where
  "all_docs = number_docs @ [BillingMode, BillingExpr]"

definition parse_docs :: "pricing_docs \<Rightarrow> pricing_maps option" where
  "parse_docs docs =
     (if list_all (\<lambda>d. safeJsonParse (docs d) \<noteq> None) all_docs
      then Some (\<lambda>d. nullish (safeJsonParse (docs d)) []) else None)"

definition field_text :: "jsval option \<Rightarrow> jsstring" where
  "field_text v = (case v of None \<Rightarrow> [] | Some JNull \<Rightarrow> [] | Some w \<Rightarrow> to_str w)"

text \<open>The stored expression as a text; \<open>None\<close> for a value that is no string, on which the splitter throws.\<close>

definition expr_text :: "jsval option \<Rightarrow> jsstring option" where
  "expr_text v =
     (case v of
        Some (JStr s) \<Rightarrow> Some s
      | Some w \<Rightarrow> if truthy w then None else Some []
      | None \<Rightarrow> Some [])"

text \<open>The row of a model, from what the documents have for it; \<open>None\<close> when the splitter throws.\<close>

definition row_of :: "(price_doc \<Rightarrow> jsval option) \<Rightarrow> jsstring \<Rightarrow> ModelRow option" where
  "row_of get name =
     (let flds = (\<lambda>d. if d \<in> set number_docs then field_text (get d) else []) in
      if get BillingMode = Some (JStr (js ''tiered_expr''))
      then (case map_option splitBillingExprAndRequestRules (expr_text (get BillingExpr)) of
              None \<Rightarrow> None
            | Some (Inl e) \<Rightarrow> None
            | Some (Inr b) \<Rightarrow> Some \<lparr>rd_name = name, rd_fields = flds, rd_billingMode = TieredExpr,
                  rd_billingExpr = billingExpr b, rd_requestRuleExpr = requestRuleExpr b, mr_hasConflict = False\<rparr>)
      else Some \<lparr>rd_name = name, rd_fields = flds,
             rd_billingMode = (if flds ModelPrice \<noteq> [] then PerRequest else PerToken),
             rd_billingExpr = [], rd_requestRuleExpr = [],
             mr_hasConflict = (flds ModelPrice \<noteq> [] \<and>
               list_ex (\<lambda>d. d \<noteq> ModelPrice \<and> flds d \<noteq> []) number_docs)\<rparr>)"

definition model_names :: "pricing_maps \<Rightarrow> jsstring list" where
  "model_names maps = set_of (concat (map (\<lambda>d. map fst (maps d)) all_docs))"

definition handleEdit :: "ModelRow \<Rightarrow> ModelRatioData" where
  "handleEdit row =
     \<lparr>rd_name = rd_name row, rd_fields = rd_fields row,
      rd_billingMode = (if rd_billingMode row = TieredExpr then TieredExpr
        else if rd_fields row ModelPrice \<noteq> [] then PerRequest else PerToken),
      rd_billingExpr = rd_billingExpr row, rd_requestRuleExpr = rd_requestRuleExpr row\<rparr>"

definition setIfPresent :: "jsstring \<Rightarrow> jsval option" where
  "setIfPresent v = (if v = [] then None else map_option JNum (parse_float v))"

text \<open>What saving stores for a model in each document; \<open>None\<close>: nothing.\<close>

definition stored_value :: "ModelRatioData \<Rightarrow> price_doc \<Rightarrow> jsval option" where
  "stored_value data d =
     (if rd_billingMode data = TieredExpr
      then
        let combined = combineBillingExpr (rd_billingExpr data) (rd_requestRuleExpr data) in
        if d = BillingMode then (if combined \<noteq> [] then Some (JStr (js ''tiered_expr'')) else None)
        else if d = BillingExpr then (if combined \<noteq> [] then Some (JStr combined) else None)
        else setIfPresent (rd_fields data d)
      else if rd_fields data ModelPrice \<noteq> []
      then (if d = ModelPrice then setIfPresent (rd_fields data ModelPrice) else None)
      else if d \<in> {BillingMode, BillingExpr, ModelPrice} then None
      else setIfPresent (rd_fields data d))"

definition persist_name :: "ModelRatioData \<Rightarrow> jsstring \<Rightarrow> pricing_maps \<Rightarrow> pricing_maps" where
  "persist_name data name maps =
     (\<lambda>d. case stored_value data d of
            Some v \<Rightarrow> obj_put name v (obj_delete name (maps d))
          | None \<Rightarrow> obj_delete name (maps d))"

definition persistPricingData :: "ModelRatioData \<Rightarrow> jsstring list \<Rightarrow> pricing_docs \<Rightarrow> pricing_docs option" where
  "persistPricingData data targetNames docs =
     map_option (\<lambda>maps d. JSON_pretty [] (JObj (fold (persist_name data) targetNames maps d))) (parse_docs docs)"

definition handleDelete :: "jsstring \<Rightarrow> pricing_docs \<Rightarrow> pricing_docs option" where
  "handleDelete name docs =
     map_option (\<lambda>maps d. JSON_pretty [] (JObj (obj_delete name (maps d)))) (parse_docs docs)"

definition handlePricingSave :: "ModelRatioData \<Rightarrow> pricing_docs \<Rightarrow> pricing_docs option" where
  "handlePricingSave data docs = persistPricingData data [rd_name data] docs"

datatype batch_error = NoSourceModel | NoTargetModels

definition handleBatchCopy :: "ModelRatioData option \<Rightarrow> jsstring list \<Rightarrow> pricing_docs \<Rightarrow> batch_error + pricing_docs option" where
  "handleBatchCopy editData targetNames docs =
     (case editData of
        None \<Rightarrow> Inl NoSourceModel
      | Some data \<Rightarrow> if targetNames = [] then Inl NoTargetModels else Inr (persistPricingData data targetNames docs))"

text \<open>
  The texts of a row in the table; \<open>middle_dot\<close> is the separator between two blanks.  Occurrences of \<open>tier(\<close>
  cannot overlap, so counting them equals counting the matches of the pattern.
\<close>

definition ratioToPrice :: "jsstring \<Rightarrow> jsstring \<Rightarrow> jsstring" where
  "ratioToPrice ratio denominator =
     (case (toNumberOrNull ratio, if denominator \<noteq> [] then toNumberOrNull denominator else Some 2) of
        (Some r, Some d) \<Rightarrow> formatPricingNumber (r * d) | _ \<Rightarrow> [])"

definition middle_dot :: jsstring where
  "middle_dot = [32, 183, 32]"

definition getExpressionSummary :: "(jsstring \<Rightarrow> jsstring) \<Rightarrow> ModelRow \<Rightarrow> jsstring" where
  "getExpressionSummary t row =
     (let expr = rd_billingExpr row;
          tierCount = length (filter (\<lambda>i. take 5 (drop i expr) = js ''tier('') [0..<length expr])
      in if 0 < tierCount
         then t (js ''Tiered pricing'') @ middle_dot @ show_nat tierCount @ js '' '' @ t (js ''tiers'')
         else t (js ''Expression pricing''))"

definition getPriceSummary :: "(jsstring \<Rightarrow> jsstring) \<Rightarrow> ModelRow \<Rightarrow> jsstring" where
  "getPriceSummary t row =
     (if rd_billingMode row = TieredExpr then getExpressionSummary t row
      else if rd_billingMode row = PerRequest
      then (if rd_fields row ModelPrice \<noteq> [] then js ''$'' @ rd_fields row ModelPrice @ js '' / '' @ t (js ''request'')
            else t (js ''Unset price''))
      else
        let inputPrice = ratioToPrice (rd_fields row ModelRatio) [];
            extraCount = length (filter (\<lambda>lane. hasValue (rd_fields row (ratioFieldByLane lane))) laneConfigs)
        in if inputPrice = [] then t (js ''Unset price'')
           else if 0 < extraCount
           then t (js ''Input'') @ js '' $'' @ inputPrice @ middle_dot @ show_nat extraCount @ js '' '' @ t (js ''extras'')
           else t (js ''Input'') @ js '' $'' @ inputPrice)"

definition getPriceDetail :: "(jsstring \<Rightarrow> jsstring) \<Rightarrow> ModelRow \<Rightarrow> jsstring" where
  "getPriceDetail t row =
     (if rd_billingMode row = TieredExpr
      then (if rd_requestRuleExpr row \<noteq> [] then t (js ''Includes request rules'') else t (js ''Expression based''))
      else if rd_billingMode row = PerRequest then t (js ''Fixed request price'')
      else
        let inputPrice = ratioToPrice (rd_fields row ModelRatio) [];
            detail = (\<lambda>(label, fld). if rd_fields row fld \<noteq> []
              then [t (js label) @ js '' $'' @ ratioToPrice (rd_fields row fld) inputPrice] else []);
            details = concat (map detail [(''Output'', CompletionRatio), (''Cache'', CacheRatio), (''Cache write'', CreateCacheRatio)])
        in if inputPrice = [] then t (js ''No base input price'')
           else if details \<noteq> [] then join middle_dot details else t (js ''Base input price only''))"

text \<open>The counts of the filter of modes.\<close>

definition modeCounts :: "ModelRow list \<Rightarrow> PricingMode \<Rightarrow> nat" where
  "modeCounts models mode = length (filter (\<lambda>m. rd_billingMode m = mode) models)"

subsection \<open>Reading what was stored\<close>

lemma safe_parse_pretty:
  assumes "json_rt (JObj ps)"
  shows "safeJsonParse (JSON_pretty [] (JObj ps)) = Some ps"
proof -
  have "trim (JSON_pretty [] (JObj ps)) = JSON_pretty [] (JObj ps)"
    by (rule trim_trimmed) (auto simp: trimmed_def is_ws_def js_lits)
  moreover have "JSON_pretty [] (JObj ps) \<noteq> []" by simp
  ultimately show ?thesis using JSON_parse_pretty [OF assms] by (simp add: safeJsonParse_def del: JSON_pretty.simps)
qed

lemma get_persist:
  "obj_get (fold (persist_name data) names maps d) m =
     (if m \<in> set names then stored_value data d else obj_get (maps d) m)"
proof (induction names arbitrary: maps)
  case (Cons n names)
  then show ?case by (auto simp: persist_name_def split: option.splits)
qed simp

lemma stored_rt:
  assumes "utf16 (combineBillingExpr (rd_billingExpr data) (rd_requestRuleExpr data))" "stored_value data d = Some v"
  shows "json_rt v"
proof -
  have "json_rt w" if "setIfPresent t = Some w" for t w
    using that parse_float_decimal by (auto simp: setIfPresent_def split: if_splits)
  moreover have "utf16 (js ''tiered_expr'')" by code_simp
  ultimately show ?thesis
    using assms by (auto simp: stored_value_def Let_def simp del: json_rt.simps(3) split: if_splits)
qed

lemma persist_rt:
  assumes "utf16 (combineBillingExpr (rd_billingExpr data) (rd_requestRuleExpr data))"
  shows "\<forall>n\<in>set names. utf16 n \<Longrightarrow> \<forall>d. json_rt (JObj (maps d)) \<Longrightarrow>
    json_rt (JObj (fold (persist_name data) names maps d))"
proof (induction names arbitrary: maps)
  case (Cons n names)
  have "json_rt (JObj (persist_name data n maps e))" for e
    using Cons.prems stored_rt [OF assms]
    by (auto simp: persist_name_def simp del: json_rt.simps split: option.splits)
  then show ?case using Cons by (simp del: json_rt.simps)
qed simp

lemma parse_docs_pretty:
  assumes "\<forall>d. json_rt (JObj (maps d))"
  shows "parse_docs (\<lambda>d. JSON_pretty [] (JObj (maps d))) = Some maps"
  using safe_parse_pretty assms by (simp add: parse_docs_def list_all_iff del: JSON_pretty.simps json_rt.simps)

lemma persist_read:
  assumes "parse_docs docs = Some maps" "\<forall>d. json_rt (JObj (maps d))" "\<forall>n\<in>set names. utf16 n"
    and "utf16 (combineBillingExpr (rd_billingExpr data) (rd_requestRuleExpr data))"
  shows "\<exists>docs'. persistPricingData data names docs = Some docs' \<and>
    parse_docs docs' = Some (fold (persist_name data) names maps)"
  using parse_docs_pretty [of "fold (persist_name data) names maps"] persist_rt [OF assms(4,3,2)] assms(1)
  by (simp add: persistPricingData_def del: JSON_pretty.simps json_rt.simps)

lemma delete_read:
  assumes "parse_docs docs = Some maps" "\<forall>d. json_rt (JObj (maps d))"
  shows "\<exists>docs'. handleDelete name docs = Some docs' \<and> parse_docs docs' = Some (\<lambda>d. obj_delete name (maps d))"
  using parse_docs_pretty [of "\<lambda>d. obj_delete name (maps d)"] assms
  by (simp add: handleDelete_def del: JSON_pretty.simps json_rt.simps)

lemma refusal_was_warned:
  "handleSubmit p = Inl InputPriceRequired \<Longrightarrow> InputPriceWarning \<in> set (pricing_warnings editData p)"
  "handleSubmit p = Inl AudioInputRequired \<Longrightarrow> AudioInputWarning \<in> set (pricing_warnings editData p)"
  by (auto simp: handleSubmit_def pricing_warnings_def split: if_splits)

subsection \<open>The lanes\<close>

lemma ratio_field_inject [simp]: "ratioFieldByLane a = ratioFieldByLane b \<longleftrightarrow> a = b"
  by (cases a; cases b) simp_all

lemma ratio_field_doc [simp]: "ratioFieldByLane lane \<noteq> ModelRatio" "ratioFieldByLane lane \<noteq> ModelPrice"
  "ModelRatio \<noteq> ratioFieldByLane lane" "ModelPrice \<noteq> ratioFieldByLane lane"
  by (cases lane; simp)+

lemma ratio_field_audio [simp]: "ratioFieldByLane lane = AudioCompletionRatio \<longleftrightarrow> lane = LaneAudioOutput"
  "ratioFieldByLane lane = AudioRatio \<longleftrightarrow> lane = LaneAudioInput"
  by (cases lane; simp)+

lemma set_form_simps [simp]:
  "pp_form (setFormValue fld v p) = (pp_form p)(fld := v)" "pp_laneEnabled (setFormValue fld v p) = pp_laneEnabled p"
  "pp_lanePrices (setFormValue fld v p) = pp_lanePrices p" "pp_promptPrice (setFormValue fld v p) = pp_promptPrice p"
  "pp_pricingMode (setFormValue fld v p) = pp_pricingMode p" "pp_name (setFormValue fld v p) = pp_name p"
  by (simp_all add: setFormValue_def)

lemma fold_set_form:
  "distinct lanes \<Longrightarrow>
   pp_form (fold (\<lambda>lane. setFormValue (ratioFieldByLane lane) (v lane)) lanes p) (ratioFieldByLane l) =
     (if l \<in> set lanes then v l else pp_form p (ratioFieldByLane l))"
  "d \<notin> ratioFieldByLane ` set lanes \<Longrightarrow>
   pp_form (fold (\<lambda>lane. setFormValue (ratioFieldByLane lane) (v lane)) lanes p) d = pp_form p d"
  "pp_laneEnabled (fold (\<lambda>lane. setFormValue (ratioFieldByLane lane) (v lane)) lanes p) = pp_laneEnabled p"
  by (induction lanes arbitrary: p) auto

lemma all_lanes: "distinct laneConfigs" "set laneConfigs = UNIV"
proof -
  show "distinct laneConfigs" by (simp add: laneConfigs_def)
  have "l \<in> set laneConfigs" for l by (cases l) (simp_all add: laneConfigs_def)
  then show "set laneConfigs = UNIV" by blast
qed

lemma lane_docs: "ModelRatio \<notin> ratioFieldByLane ` A" "ModelPrice \<notin> ratioFieldByLane ` A"
  by auto

lemma sync_form [simp]:
  "pp_form (syncLaneRatios q prices enabled p) (ratioFieldByLane l) =
     (if \<not> enabled l then [] else deriveLaneRatio l (prices l) q prices)"
  "pp_form (syncLaneRatios q prices enabled p) ModelRatio =
     (case toNumberOrNull q of Some inputPrice \<Rightarrow> formatPricingNumber (inputPrice / 2) | None \<Rightarrow> [])"
  "pp_form (syncLaneRatios q prices enabled p) ModelPrice = pp_form p ModelPrice"
  "pp_laneEnabled (syncLaneRatios q prices enabled p) = pp_laneEnabled p"
  by (simp_all add: syncLaneRatios_def fold_set_form all_lanes lane_docs)

text \<open>The events of the panel.  The editor of tiers sets the two expressions.\<close>

datatype panel_event =
    PromptTyped jsstring | LaneTyped LaneKey jsstring | LaneToggled LaneKey bool | TabChosen PricingMode
  | FixedPriceTyped jsstring | NameTyped jsstring | ExpressionsSet jsstring jsstring

fun panel_handle :: "panel_event \<Rightarrow> pricing_panel \<Rightarrow> pricing_panel" where
  "panel_handle (PromptTyped v) p = handlePromptPriceChange v p"
| "panel_handle (LaneTyped lane v) p = handleLanePriceChange lane v p"
| "panel_handle (LaneToggled lane checked) p = handleLaneToggle lane checked p"
| "panel_handle (TabChosen mode) p = handleModeChange mode p"
| "panel_handle (FixedPriceTyped v) p = handlePriceInput v p"
| "panel_handle (NameTyped v) p = p\<lparr>pp_name := v\<rparr>"
| "panel_handle (ExpressionsSet expr rules) p = p\<lparr>pp_billingExpr := expr, pp_requestRuleExpr := rules\<rparr>"

definition panel_step :: "pricing_panel \<Rightarrow> panel_event \<Rightarrow> pricing_panel \<Rightarrow> bool" where
  "panel_step p e p' \<longleftrightarrow> p' = panel_handle e p"

definition panel_init :: "pricing_panel \<Rightarrow> bool" where
  "panel_init p \<longleftrightarrow> (\<exists>editData. p = loadPanel editData)"

definition lanes_inv :: "pricing_panel \<Rightarrow> bool" where
  "lanes_inv p \<longleftrightarrow> (\<forall>lane. \<not> pp_laneEnabled p lane \<longrightarrow> pp_form p (ratioFieldByLane lane) = [])"

interpretation pricing_lanes: machine_invariant panel_init panel_step lanes_inv
proof
  show "panel_init p \<Longrightarrow> lanes_inv p" for p
    by (auto simp: panel_init_def loadPanel_def lanes_inv_def createInitialLaneState_def hasValue_def Let_def
        split: option.splits)
  show "lanes_inv p \<Longrightarrow> panel_step p e p' \<Longrightarrow> lanes_inv p'" for p e p'
    by (cases e) (auto simp: panel_step_def lanes_inv_def handlePromptPriceChange_def handleLanePriceChange_def
        handleLaneToggle_def handleModeChange_def handlePriceInput_def sync_form Let_def)
qed

subsection \<open>Printed prices\<close>

definition fixed_val :: "nat \<Rightarrow> rat \<Rightarrow> rat" where
  "fixed_val f x = (if x < 0 then - 1 else 1) * of_nat (nat \<lfloor>\<bar>x\<bar> * 10 ^ f + 1 / 2\<rfloor>) / 10 ^ f"

lemma to_fixed_layout:
  assumes "0 < f"
  shows "\<exists>a fs. good_layout a fs \<and> fs \<noteq> [] \<and> layout_val a fs None = \<bar>fixed_val f x\<bar> \<and>
    to_fixed f x = (if x < 0 then 45 # layout a fs None else layout a fs None)"
proof -
  define n where "n = nat \<lfloor>\<bar>x\<bar> * 10 ^ f + 1 / 2\<rfloor>"
  define pad where "pad = replicate (Suc f - length (show_nat n)) 48 @ show_nat n"
  let ?a = "take (length pad - f) pad" and ?fs = "drop (length pad - f) pad"
  have l: "f < length pad" by (simp add: pad_def)
  then have fs: "length ?fs = f" "?fs \<noteq> []" using assms by auto
  have d: "\<forall>c\<in>set pad. is_digit c" using show_nat_digits by (auto simp: pad_def is_digit_def)
  have "length ?a = 1" if "hd ?a = 48"
  proof (cases "length (show_nat n) < Suc f")
    case False
    then have "pad = show_nat n" by (simp add: pad_def)
    then have "hd (show_nat n) = 48" using that l by (cases pad; cases "length pad - f") auto
    then show ?thesis using show_nat_hd_zero [of n] False assms by simp
  qed (simp add: pad_def)
  then have "good_layout ?a ?fs"
    using d l by (auto simp: good_layout_def all_digits_def dest: in_set_takeD in_set_dropD)
  moreover have "digits_val pad = n" by (simp add: pad_def digits_val_append)
  then have "layout_val ?a ?fs None = \<bar>fixed_val f x\<bar>"
    unfolding layout_val_def append_take_drop_id fs(1)
    by (simp add: fixed_val_def n_def abs_mult pow10_def)
  moreover have "to_fixed f x = (if x < 0 then 45 # layout ?a ?fs None else layout ?a ?fs None)"
    using assms fs(2) unfolding to_fixed_def layout_def Let_def n_def [symmetric] pad_def [symmetric]
    by (simp add: exponent_str_def)
  ultimately show ?thesis using fs(2) by blast
qed

lemma parse_layout:
  assumes "good_layout a fs"
  shows "parse_float (layout a fs None) = Some (layout_val a fs None)"
    "parse_float (45 # layout a fs None) = Some (- layout_val a fs None)"
proof -
  have "a \<noteq> []" "is_digit (hd a)" using assms by (auto simp: good_layout_def all_digits_def)
  then have "dropWhile is_ws (layout a fs None) = layout a fs None" "dropWhile is_ws (45 # layout a fs None) = 45 # layout a fs None"
    by (cases a; auto simp: layout_def is_ws_def is_digit_def)+
  then show "parse_float (layout a fs None) = Some (layout_val a fs None)"
    "parse_float (45 # layout a fs None) = Some (- layout_val a fs None)"
    using decimal_rx_layout [OF assms, of None] by (auto simp: parse_float_def)
qed

lemma parse_float_to_fixed: "0 < f \<Longrightarrow> parse_float (to_fixed f x) = Some (fixed_val f x)"
proof -
  assume "0 < f"
  then obtain a fs where l: "good_layout a fs" "layout_val a fs None = \<bar>fixed_val f x\<bar>"
    "to_fixed f x = (if x < 0 then 45 # layout a fs None else layout a fs None)"
    using to_fixed_layout by blast
  moreover have "x < 0 \<Longrightarrow> \<bar>fixed_val f x\<bar> = - fixed_val f x" "\<not> x < 0 \<Longrightarrow> \<bar>fixed_val f x\<bar> = fixed_val f x"
    by (simp_all add: fixed_val_def)
  ultimately show ?thesis using parse_layout [OF l(1)] by simp
qed

lemma floor_half:
  fixes y :: rat
  shows "\<bar>of_int \<lfloor>y + 1 / 2\<rfloor> - y\<bar> \<le> 1 / 2"
proof -
  let ?n = "of_int \<lfloor>y + 1 / 2\<rfloor> :: rat"
  have "?n \<le> y + 1 / 2" "y + 1 / 2 < ?n + 1" using floor_correct [of "y + 1 / 2"] unfolding of_int_add of_int_1 by blast+
  then show ?thesis unfolding abs_le_iff by linarith
qed

lemma fixed_val_near: "\<bar>fixed_val f x - x\<bar> \<le> 1 / (2 * 10 ^ f)"
proof -
  let ?p = "10 ^ f :: rat"
  let ?n = "\<lfloor>\<bar>x\<bar> * ?p + 1 / 2\<rfloor>"
  have n: "of_nat (nat ?n) = (of_int ?n :: rat)" by simp
  have "\<bar>of_int ?n / ?p - \<bar>x\<bar>\<bar> = \<bar>of_int ?n - \<bar>x\<bar> * ?p\<bar> / ?p" by (simp add: field_simps)
  also have "\<dots> \<le> (1 / 2) / ?p" by (intro divide_right_mono floor_half) simp
  finally have "\<bar>of_int ?n / ?p - \<bar>x\<bar>\<bar> \<le> 1 / (2 * ?p)" by simp
  moreover have "\<bar>fixed_val f x - x\<bar> = \<bar>of_int ?n / ?p - \<bar>x\<bar>\<bar>" unfolding fixed_val_def n by (auto simp: abs_if)
  ultimately show ?thesis by simp
qed

lemma fixed_val_exact: "fixed_val f (of_int n / 10 ^ f) = of_int n / 10 ^ f"
proof -
  have "\<bar>of_int n / 10 ^ f\<bar> * 10 ^ f = (of_int \<bar>n\<bar> :: rat)" by simp
  moreover have "\<lfloor>of_int \<bar>n\<bar> + 1 / 2 :: rat\<rfloor> = \<bar>n\<bar>" unfolding floor_eq_iff by simp
  ultimately show ?thesis by (auto simp: fixed_val_def divide_less_0_iff)
qed

lemma format_number:
  "\<bar>snapFloatDrift v\<bar> < 10 ^ 21 \<Longrightarrow> formatPricingNumber v = num_str (fixed_val DISPLAY_DECIMALS (snapFloatDrift v))"
  by (simp add: formatPricingNumber_def toFixed_def parse_float_to_fixed DISPLAY_DECIMALS_def)

lemma snap_near: "\<bar>snapFloatDrift v - v\<bar> \<le> max SNAP_EPSILON (\<bar>v\<bar> * NUMBER_EPSILON * 8)"
proof -
  have "0 \<le> max SNAP_EPSILON (\<bar>v\<bar> * NUMBER_EPSILON * 8)" by (simp add: SNAP_EPSILON_def le_max_iff_disj)
  then show ?thesis
    by (auto simp: snapFloatDrift_def Let_def find_Some_iff abs_minus_commute split: option.splits)
qed

text \<open>A number with at most eight decimals is rounded to itself, whichever precision is accepted first.\<close>

lemma snap_exact:
  assumes "v = of_int n / 10 ^ 8" "\<bar>v\<bar> \<le> 5 * 10 ^ 6"
  shows "snapFloatDrift v = v"
proof -
  have tol: "max SNAP_EPSILON (\<bar>v\<bar> * NUMBER_EPSILON * 8) < 1 / 10 ^ 8"
    using assms(2) by (simp add: SNAP_EPSILON_def NUMBER_EPSILON_def max_def)
  have "roundToDecimals v d = v" if "d \<le> 8" "\<bar>v - roundToDecimals v d\<bar> \<le> max SNAP_EPSILON (\<bar>v\<bar> * NUMBER_EPSILON * 8)" for d
  proof -
    define m where "m = \<lfloor>v * 10 ^ d + 1 / 2\<rfloor> * 10 ^ (8 - d)"
    have "(10::rat) ^ 8 = 10 ^ d * 10 ^ (8 - d)" using that(1) by (simp flip: power_add)
    then have r: "roundToDecimals v d = of_int m / 10 ^ 8" by (simp add: roundToDecimals_def m_def field_simps)
    have "\<bar>of_int n / 10 ^ 8 - of_int m / 10 ^ 8 :: rat\<bar> < 1 / 10 ^ 8" using that(2) tol assms(1) r by linarith
    then have "\<bar>of_int (n - m) :: rat\<bar> < 1" by (simp add: diff_divide_distrib [symmetric])
    then have "n = m" by linarith
    then show ?thesis unfolding r using assms(1) by simp
  qed
  then show ?thesis
    by (auto simp: snapFloatDrift_def SNAP_DECIMALS_def Let_def find_Some_iff nth_append split: option.splits)
qed


definition short_price :: "rat \<Rightarrow> bool" where
  "short_price v \<longleftrightarrow> v * 10 ^ 8 = of_int \<lfloor>v * 10 ^ 8\<rfloor> \<and> \<bar>v\<bar> \<le> 5 * 10 ^ 6"

lemma short_price_int: "short_price v \<Longrightarrow> \<exists>n. v = of_int n / 10 ^ 8 \<and> \<bar>v\<bar> \<le> 5 * 10 ^ 6"
  unfolding short_price_def by (metis nonzero_mult_div_cancel_right power_not_zero zero_neq_numeral)

lemma short_price_decimal: "short_price v \<Longrightarrow> decimal v"
  using short_price_int decimal_shift(1) by metis

lemma format_exact: "short_price v \<Longrightarrow> formatPricingNumber v = num_str v"
proof -
  assume "short_price v"
  then obtain n where n: "v = of_int n / 10 ^ 8" "\<bar>v\<bar> \<le> 5 * 10 ^ 6" using short_price_int by blast
  then have s: "snapFloatDrift v = v" by (rule snap_exact)
  have "v = of_int (n * 10 ^ 4) / 10 ^ DISPLAY_DECIMALS" using n(1) by (simp add: DISPLAY_DECIMALS_def)
  then have "fixed_val DISPLAY_DECIMALS v = v" using fixed_val_exact by metis
  then show ?thesis using format_number [of v] n(2) s by simp
qed

lemma to_number_price: "decimal r \<Longrightarrow> toNumberOrNull (num_str r) = Some r"
  using num_str_hd [of r] by (auto simp: toNumberOrNull_def hasValue_def to_number_num_str)

lemma to_number_empty [simp]: "toNumberOrNull [] = None"
  by (simp add: toNumberOrNull_def hasValue_def)

definition price_tolerance :: "rat \<Rightarrow> rat" where
  "price_tolerance v = max (1 / 10 ^ 12) (\<bar>v\<bar> / 2 ^ 49) + 1 / (2 * 10 ^ 12)"

lemma format_near:
  assumes "\<bar>v\<bar> \<le> 10 ^ 20"
  shows "\<exists>r. formatPricingNumber v = num_str r \<and> decimal r \<and> \<bar>r - v\<bar> \<le> price_tolerance v"
proof -
  define r where "r = fixed_val DISPLAY_DECIMALS (snapFloatDrift v)"
  have e: "max SNAP_EPSILON (\<bar>v\<bar> * NUMBER_EPSILON * 8) = max (1 / 10 ^ 12) (\<bar>v\<bar> / 2 ^ 49)"
    by (simp add: SNAP_EPSILON_def NUMBER_EPSILON_def)
  have s: "\<bar>snapFloatDrift v - v\<bar> \<le> max (1 / 10 ^ 12) (\<bar>v\<bar> / 2 ^ 49)" using snap_near [of v] unfolding e .
  have "max (1 / 10 ^ 12) (\<bar>v\<bar> / 2 ^ 49) \<le> 10 ^ 20" using assms by simp
  moreover have "2 * 10 ^ 20 < (10 ^ 21 :: rat)" by simp
  ultimately have "\<bar>snapFloatDrift v\<bar> < 10 ^ 21" using s assms by linarith
  then have "formatPricingNumber v = num_str r" using format_number r_def by simp
  moreover have "decimal r" using parse_float_to_fixed [of DISPLAY_DECIMALS] parse_float_decimal
    by (metis r_def DISPLAY_DECIMALS_def zero_less_numeral)
  moreover have "\<bar>r - snapFloatDrift v\<bar> \<le> 1 / (2 * 10 ^ 12)"
    using fixed_val_near [of DISPLAY_DECIMALS] unfolding r_def DISPLAY_DECIMALS_def .
  then have "\<bar>r - v\<bar> \<le> max (1 / 10 ^ 12) (\<bar>v\<bar> / 2 ^ 49) + 1 / (2 * 10 ^ 12)" using s by linarith
  ultimately show ?thesis unfolding price_tolerance_def by blast
qed


lemma format_decimal: "decimal v \<Longrightarrow> \<exists>r. decimal r \<and> formatPricingNumber v = num_str r"
proof -
  assume "decimal v"
  then have d: "decimal (snapFloatDrift v)"
    by (simp add: snapFloatDrift_def roundToDecimals_def Let_def decimal_shift split: option.split)
  have "\<exists>r. parse_float (toFixed DISPLAY_DECIMALS (snapFloatDrift v)) = Some r"
    using parse_float_num_str [OF d] parse_float_to_fixed [of DISPLAY_DECIMALS]
    by (simp add: toFixed_def DISPLAY_DECIMALS_def)
  then obtain r where "parse_float (toFixed DISPLAY_DECIMALS (snapFloatDrift v)) = Some r" by blast
  then show ?thesis using parse_float_decimal by (intro exI [of _ r]) (simp add: formatPricingNumber_def)
qed

lemma num_str_nonempty: "decimal r \<Longrightarrow> num_str r \<noteq> []"
  using num_str_hd [of r] by auto

text \<open>The table shows the prices that the panel shows.\<close>

lemma table_shows_panel_prices:
  "ratioToPrice (rd_fields d ModelRatio) [] = pp_promptPrice (loadPanel (Some d))"
  "pp_promptPrice (loadPanel (Some d)) \<noteq> [] \<Longrightarrow> lane \<noteq> LaneAudioOutput \<Longrightarrow>
    ratioToPrice (rd_fields d (ratioFieldByLane lane)) (pp_promptPrice (loadPanel (Some d))) =
    pp_lanePrices (loadPanel (Some d)) lane"
  by (cases lane; simp add: ratioToPrice_def loadPanel_def createInitialLaneState_def ratioToBasePrice_def
      deriveLanePrice_def Let_def split: option.splits)+

subsection \<open>Opening a row and saving it\<close>

text \<open>The documents of numbers have numbers for the model, as the settings of the gateway do.\<close>

definition numeric_entries :: "(price_doc \<Rightarrow> jsval option) \<Rightarrow> bool" where
  "numeric_entries get \<longleftrightarrow>
     list_all (\<lambda>d. case get d of None \<Rightarrow> True | Some (JNum r) \<Rightarrow> decimal r | _ \<Rightarrow> False) number_docs"

lemma numeric_entry:
  assumes "numeric_entries get" "d \<in> set number_docs"
  shows "setIfPresent (field_text (get d)) = get d" "field_text (get d) = [] \<longleftrightarrow> get d = None"
    "get d \<noteq> None \<Longrightarrow> \<exists>r. decimal r \<and> toNumberOrNull (field_text (get d)) = Some r"
proof -
  have "case get d of None \<Rightarrow> True | Some (JNum r) \<Rightarrow> decimal r | _ \<Rightarrow> False"
    using assms by (simp add: numeric_entries_def list_all_iff)
  then consider "get d = None" | r where "get d = Some (JNum r)" "decimal r"
    by (auto split: option.splits jsval.splits)
  then show "setIfPresent (field_text (get d)) = get d" "field_text (get d) = [] \<longleftrightarrow> get d = None"
    "get d \<noteq> None \<Longrightarrow> \<exists>r. decimal r \<and> toNumberOrNull (field_text (get d)) = Some r"
    by (cases; simp add: field_text_def setIfPresent_def parse_float_num_str num_str_nonempty to_number_price)+
qed

lemma doc_cases: "d \<in> set number_docs \<or> d = BillingMode \<or> d = BillingExpr"
  by (cases d) (simp_all add: number_docs_def)

lemma billing_docs: "BillingMode \<notin> set number_docs" "BillingExpr \<notin> set number_docs"
  by (simp_all add: number_docs_def)

definition row_fields :: "(price_doc \<Rightarrow> jsval option) \<Rightarrow> price_fields" where
  "row_fields get = (\<lambda>d. if d \<in> set number_docs then field_text (get d) else [])"

lemma no_prompt_no_lanes:
  "toNumberOrNull (pp_promptPrice (loadPanel (Some d))) = None \<Longrightarrow> pp_lanePrices (loadPanel (Some d)) lane = []"
  by (simp add: loadPanel_def createInitialLaneState_def deriveLanePrice_def Let_def split: option.splits)

lemma price_present: "toNumberOrNull a = Some x \<Longrightarrow> decimal x \<Longrightarrow> toNumberOrNull b = Some y \<Longrightarrow> decimal y \<Longrightarrow>
  \<exists>r. decimal r \<and> deriveLanePrice a b = num_str r"
  using format_decimal [OF decimal_mult] by (simp add: deriveLanePrice_def)

lemma audio_input_shown:
  assumes "numeric_entries get" "rd_fields d = row_fields get" "get AudioRatio \<noteq> None" "get ModelRatio \<noteq> None"
  shows "pp_lanePrices (loadPanel (Some d)) LaneAudioInput \<noteq> []"
proof -
  have "ModelRatio \<in> set number_docs" "AudioRatio \<in> set number_docs" by (simp_all add: number_docs_def)
  then have "\<exists>r. decimal r \<and> toNumberOrNull (rd_fields d ModelRatio) = Some r"
    "\<exists>k. decimal k \<and> toNumberOrNull (rd_fields d AudioRatio) = Some k"
    using numeric_entry(3) [OF assms(1)] assms(2-4) by (simp_all add: row_fields_def)
  then obtain r k where r: "decimal r" "toNumberOrNull (rd_fields d ModelRatio) = Some r"
    and k: "decimal k" "toNumberOrNull (rd_fields d AudioRatio) = Some k" by blast
  obtain q where q: "decimal q" "ratioToBasePrice (rd_fields d ModelRatio) = num_str q"
    using format_decimal [OF decimal_mult [OF r(1), of 2]] r(2) by (auto simp: ratioToBasePrice_def)
  obtain a where "decimal a" "deriveLanePrice (rd_fields d AudioRatio) (num_str q) = num_str a"
    using price_present [OF k(2,1) to_number_price [OF q(1)] q(1)] by blast
  then show ?thesis using q num_str_nonempty by (simp add: loadPanel_def createInitialLaneState_def Let_def)
qed

lemma load_fields [simp]:
  "pp_form (loadPanel (Some d)) = rd_fields d" "pp_name (loadPanel (Some d)) = rd_name d"
  "pp_billingExpr (loadPanel (Some d)) = rd_billingExpr d" "pp_requestRuleExpr (loadPanel (Some d)) = rd_requestRuleExpr d"
  "pp_laneEnabled (loadPanel (Some d)) lane \<longleftrightarrow> hasValue (rd_fields d (ratioFieldByLane lane))"
  by (simp_all add: loadPanel_def createInitialLaneState_def Let_def)

lemma load_mode: "pp_pricingMode (loadPanel (Some d)) = (if rd_billingMode d = TieredExpr then TieredExpr
     else if rd_fields d ModelPrice \<noteq> [] then PerRequest else PerToken)"
  by (simp add: loadPanel_def Let_def)

text \<open>The panel accepts an untouched row.\<close>

lemma submit_untouched:
  assumes "numeric_entries get" "rd_fields d = row_fields get" "rd_name d \<noteq> []"
    and "get AudioCompletionRatio \<noteq> None \<longrightarrow> get AudioRatio \<noteq> None \<and> get ModelRatio \<noteq> None"
    and "rd_billingMode d \<noteq> TieredExpr"
  shows "handleSubmit (loadPanel (Some d)) =
    Inr \<lparr>rd_name = trim (rd_name d), rd_fields = row_fields get,
      rd_billingMode = (if get ModelPrice \<noteq> None then PerRequest else PerToken),
      rd_billingExpr = [], rd_requestRuleExpr = []\<rparr>"
proof -
  have n: "AudioCompletionRatio \<in> set number_docs" "ModelPrice \<in> set number_docs" by (simp_all add: number_docs_def)
  have "\<not> (toNumberOrNull (pp_promptPrice (loadPanel (Some d))) = None \<and>
      (\<exists>lane\<in>set laneConfigs. pp_laneEnabled (loadPanel (Some d)) lane \<and> hasValue (pp_lanePrices (loadPanel (Some d)) lane)))"
    using no_prompt_no_lanes by (auto simp: hasValue_def)
  moreover have "hasValue (pp_lanePrices (loadPanel (Some d)) LaneAudioInput)"
    if "pp_laneEnabled (loadPanel (Some d)) LaneAudioOutput"
    using that assms(2,4) audio_input_shown [OF assms(1,2)] numeric_entry(2) [OF assms(1) n(1)] n(1)
    by (simp add: row_fields_def hasValue_def)
  moreover have "rd_fields d ModelPrice = [] \<longleftrightarrow> get ModelPrice = None"
    using numeric_entry(2) [OF assms(1) n(2)] assms(2) n(2) by (simp add: row_fields_def)
  ultimately show ?thesis using assms(2,3,5) by (auto simp: handleSubmit_def load_mode)
qed

lemma stored_untouched:
  assumes "numeric_entries get" "get BillingMode = None" "get BillingExpr = None"
    and "rd_fields data = row_fields get" "rd_billingMode data \<noteq> TieredExpr"
    and "get ModelPrice \<noteq> None \<Longrightarrow> \<forall>d\<in>set number_docs. d \<noteq> ModelPrice \<longrightarrow> get d = None"
  shows "stored_value data = get"
proof
  fix d
  have p: "ModelPrice \<in> set number_docs" by (simp add: number_docs_def)
  have e: "rd_fields data ModelPrice = [] \<longleftrightarrow> get ModelPrice = None"
    using numeric_entry(2) [OF assms(1) p] assms(4) p by (simp add: row_fields_def)
  show "stored_value data d = get d"
    using doc_cases [of d]
  proof (elim disjE)
    assume d: "d \<in> set number_docs"
    then have "setIfPresent (rd_fields data d) = get d"
      using numeric_entry(1) [OF assms(1) d] assms(4) by (simp add: row_fields_def)
    moreover have "d \<noteq> BillingMode" "d \<noteq> BillingExpr" using d billing_docs by auto
    ultimately show ?thesis using e assms(5,6) d by (auto simp: stored_value_def)
  qed (use assms in \<open>simp_all add: stored_value_def\<close>)
qed

lemma row_untiered:
  assumes "get BillingMode = None" "row_of get name = Some row"
  shows "rd_fields row = row_fields get" "rd_name row = name" "rd_billingMode row \<noteq> TieredExpr"
    "mr_hasConflict row \<longleftrightarrow> row_fields get ModelPrice \<noteq> [] \<and> (\<exists>d\<in>set number_docs. d \<noteq> ModelPrice \<and> row_fields get d \<noteq> [])"
  using assms by (auto simp: row_of_def row_fields_def Let_def list_ex_iff split: if_splits)

lemma edit_fields [simp]: "rd_fields (handleEdit row) = rd_fields row" "rd_name (handleEdit row) = rd_name row"
  "rd_billingMode (handleEdit row) = TieredExpr \<longleftrightarrow> rd_billingMode row = TieredExpr"
  "rd_billingExpr (handleEdit row) = rd_billingExpr row" "rd_requestRuleExpr (handleEdit row) = rd_requestRuleExpr row"
  by (simp_all add: handleEdit_def)



subsection \<open>The tab of the tiered price\<close>

text \<open>
  Showing the tab mounts the editor of tiers, which commits until nothing changes and sets the two expressions of
  the panel on the way; \<open>n\<close> bounds the commits.
\<close>

definition showTieredTab :: "nat \<Rightarrow> pricing_panel \<Rightarrow> pricing_panel option" where
  "showTieredTab n p =
     map_option (\<lambda>st. p\<lparr>pp_billingExpr := te_currentExpr st, pp_requestRuleExpr := te_currentRequestRuleExpr st\<rparr>)
       (openEditor n (pp_name p) (pp_billingExpr p) (pp_requestRuleExpr p))"

lemma row_tiered:
  assumes "get BillingMode = Some (JStr (js ''tiered_expr''))" "get BillingExpr = Some (JStr s)"
    and "splitBillingExprAndRequestRules s = Inr b" "row_of get name = Some row"
  shows "rd_fields row = row_fields get" "rd_name row = name" "rd_billingMode row = TieredExpr"
    "rd_billingExpr row = billingExpr b" "rd_requestRuleExpr row = requestRuleExpr b"
  using assms by (auto simp: row_of_def row_fields_def expr_text_def Let_def)

lemma submit_tiered:
  assumes "pp_pricingMode p = TieredExpr" "pp_name p \<noteq> []"
  shows "handleSubmit p = Inr \<lparr>rd_name = trim (pp_name p), rd_fields = pp_form p, rd_billingMode = TieredExpr,
      rd_billingExpr = pp_billingExpr p, rd_requestRuleExpr = pp_requestRuleExpr p\<rparr>"
  using assms by (simp add: handleSubmit_def)

lemma stored_tiered:
  assumes "numeric_entries get" "rd_fields data = row_fields get" "rd_billingMode data = TieredExpr"
    and "combineBillingExpr (rd_billingExpr data) (rd_requestRuleExpr data) = s" "s \<noteq> []"
  shows "stored_value data = get(BillingMode := Some (JStr (js ''tiered_expr'')), BillingExpr := Some (JStr s))"
proof
  fix d
  show "stored_value data d = (get(BillingMode := Some (JStr (js ''tiered_expr'')), BillingExpr := Some (JStr s))) d"
    using doc_cases [of d]
  proof (elim disjE)
    assume d: "d \<in> set number_docs"
    moreover have "d \<noteq> BillingMode" "d \<noteq> BillingExpr" using d billing_docs by auto
    ultimately show ?thesis
      using numeric_entry(1) [OF assms(1) d] assms(2,3) by (simp add: stored_value_def Let_def row_fields_def)
  qed (use assms in \<open>simp_all add: stored_value_def Let_def\<close>)
qed

text \<open>What an untouched tiered row stores, when the editor comes to rest with given expressions.\<close>

lemma resave_tiered:
  assumes "numeric_entries get" "get BillingMode = Some (JStr (js ''tiered_expr''))" "get BillingExpr = Some (JStr s)"
    and "splitBillingExprAndRequestRules s = Inr b" "row_of get name = Some row" "name \<noteq> []"
    and "openEditor n name (billingExpr b) (requestRuleExpr b) = Some st"
    and "combineBillingExpr (te_currentExpr st) (te_currentRequestRuleExpr st) = s'" "s' \<noteq> []"
  shows "\<exists>p data. showTieredTab n (loadPanel (Some (handleEdit row))) = Some p \<and> handleSubmit p = Inr data \<and>
    stored_value data = get(BillingExpr := Some (JStr s'))"
proof -
  note row = row_tiered [OF assms(2-5)]
  let ?q = "loadPanel (Some (handleEdit row))"
  let ?p = "?q\<lparr>pp_billingExpr := te_currentExpr st, pp_requestRuleExpr := te_currentRequestRuleExpr st\<rparr>"
  let ?data = "\<lparr>rd_name = trim name, rd_fields = row_fields get, rd_billingMode = TieredExpr,
      rd_billingExpr = te_currentExpr st, rd_requestRuleExpr = te_currentRequestRuleExpr st\<rparr>"
  have "showTieredTab n ?q = Some ?p" using row assms(7) by (simp add: showTieredTab_def)
  moreover have "handleSubmit ?p = Inr ?data" using row assms(6) by (subst submit_tiered) (simp_all add: load_mode)
  moreover have "stored_value ?data = get(BillingMode := Some (JStr (js ''tiered_expr'')), BillingExpr := Some (JStr s'))"
    by (rule stored_tiered) (use assms in simp_all)
  then have "stored_value ?data = get(BillingExpr := Some (JStr s'))" using assms(2) by (simp add: fun_eq_iff)
  ultimately show ?thesis by blast
qed

lemma combine_nonempty: "trim e \<noteq> [] \<Longrightarrow> combineBillingExpr e r \<noteq> []"
  by (auto simp: combineBillingExpr_def Let_def)

text \<open>
  The same for a tiered price that the tier editor printed, through the tab that mounts the editor and lets it
  write to the panel: the expression is stored as it was, and so are the ratios kept beside it.
\<close>

theorem tiered_resave_keeps_price:
  assumes "good_config tiers" "vt_conditions (last tiers) = []" "list_all (\<lambda>t. pars 0 (vt_label t)) tiers"
    and "\<forall>g\<in>set groups. wf_group g" "numeric_entries get" "get BillingMode = Some (JStr (js ''tiered_expr''))"
    and "get BillingExpr = Some (JStr (combineBillingExpr (generateExprFromVisualConfig (Some tiers)) (buildRequestRuleExpr groups)))"
    and "row_of get name = Some row" "name \<noteq> []"
  shows "\<exists>p data. showTieredTab 1 (loadPanel (Some (handleEdit row))) = Some p \<and> handleSubmit p = Inr data \<and>
    stored_value data = get"
proof -
  let ?e = "generateExprFromVisualConfig (Some tiers)" and ?r = "buildRequestRuleExpr groups"
  note split = printed_split [OF assms(1-4) refl]
  have o: "openEditor 1 name ?e ?r = Some (view name ?e ?r (map guess_mode tiers) groups (combineBillingExpr ?e ?r) False)"
    using open_readable [OF printed_readable [OF assms(1,4)], of 0] by simp
  have "splitBillingExprAndRequestRules [] = Inr \<lparr>billingExpr = [], requestRuleExpr = []\<rparr>" by code_simp
  then have "combineBillingExpr ?e ?r \<noteq> []" using split by auto
  then have "\<exists>p data. showTieredTab 1 (loadPanel (Some (handleEdit row))) = Some p \<and> handleSubmit p = Inr data \<and>
    stored_value data = get(BillingExpr := Some (JStr (combineBillingExpr ?e ?r)))"
    using o by (intro resave_tiered [OF assms(5-7) split(1) assms(8,9), where st = "view name ?e ?r (map guess_mode tiers) groups (combineBillingExpr ?e ?r) False"])
      (simp_all add: view_def)
  then show ?thesis using assms(7) by (simp add: fun_upd_idem)
qed

text \<open>
  A defect: a tiered price that the visual editor cannot read is lost by opening the model and saving it untouched; the
  documents then have the price of free tokens for it, with the request rules as before.
\<close>

theorem unreadable_price_saved_as_free:
  assumes "get BillingMode = Some (JStr (js ''tiered_expr''))" "get BillingExpr = Some (JStr s)"
    and "splitBillingExprAndRequestRules s = Inr b" "tryParseVisualConfig (billingExpr b) = None" "billingExpr b \<noteq> []"
    and "\<forall>g\<in>set groups. wf_group g" "requestRuleExpr b = buildRequestRuleExpr groups"
    and "combineBillingExpr (billingExpr b) (requestRuleExpr b) = s"
    and "numeric_entries get" "row_of get name = Some row" "name \<noteq> []"
  shows "\<exists>p data. showTieredTab 4 (loadPanel (Some (handleEdit row))) = Some p \<and> handleSubmit p = Inr data \<and>
    stored_value data = get(BillingExpr := Some (JStr (combineBillingExpr (js ''p * 0 + c * 0'') (requestRuleExpr b))))"
proof -
  have "splitBillingExprAndRequestRules (combineBillingExpr (billingExpr b) (buildRequestRuleExpr groups)) = Inr b"
    using assms(3,7,8) by simp
  then obtain st where st: "openEditor 4 name (billingExpr b) (requestRuleExpr b) = Some st"
      "te_currentExpr st = ZERO_EXPR" "te_currentRequestRuleExpr st = requestRuleExpr b"
    using open_unreadable [where name = name, OF assms(4-6) rules_parse [OF assms(6)]] assms(7)
    by (auto simp: raw_view_def)
  have "trim ZERO_EXPR \<noteq> []" by code_simp
  then show ?thesis
    using st combine_nonempty by (intro resave_tiered [OF assms(9,1-3,10,11) st(1)]) (auto simp: ZERO_EXPR_def)
qed


subsection \<open>What the panel stores\<close>

lemma submit_data:
  assumes "handleSubmit p = Inr data"
  shows "rd_fields data = pp_form p" "rd_billingMode data = pp_pricingMode p"
  using assms by (auto simp: handleSubmit_def split: if_splits)

lemma price_kept:
  "run panel_step p es p' \<Longrightarrow> (\<forall>v. FixedPriceTyped v \<notin> set es) \<Longrightarrow> pp_form p' ModelPrice = pp_form p ModelPrice"
proof (induction rule: run.induct)
  case (run_Cons p e p' es p'')
  have "pp_form p' ModelPrice = pp_form p ModelPrice"
    using run_Cons.hyps(1) run_Cons.prems
    by (cases e) (auto simp: panel_step_def handlePromptPriceChange_def handleLanePriceChange_def
        handleLaneToggle_def handleModeChange_def Let_def)
  then show ?case using run_Cons by auto
qed simp

text \<open>
  Claim C26.  A defect: a model that had a fixed price stays billed per request when the administrator chooses the tab for prices per
  token and types prices there.  Unless the fixed price is erased by hand on its own tab, saving stores it and drops
  every ratio, whatever else was done in the panel.
\<close>

theorem leftover_price_wins:
  assumes "run panel_step (loadPanel (Some d)) es p" "\<forall>v. FixedPriceTyped v \<notin> set es"
    and "rd_fields d ModelPrice = num_str r" "decimal r"
    and "pp_pricingMode p = PerToken" "handleSubmit p = Inr data"
  shows "stored_value data = (\<lambda>_. None)(ModelPrice := Some (JNum r))"
proof -
  have "rd_fields data ModelPrice = num_str r"
    using price_kept [OF assms(1,2)] submit_data(1) [OF assms(6)] assms(3) by simp
  then show ?thesis
    using submit_data(2) [OF assms(6)] assms(4,5) num_str_nonempty
    by (auto simp: fun_eq_iff stored_value_def setIfPresent_def parse_float_num_str)
qed

text \<open>
  Whatever is done in the panel, saving stores nothing for a lane that is switched off.
\<close>

theorem disabled_lanes_not_stored:
  assumes "reachable panel_init panel_step p" "handleSubmit p = Inr data" "\<not> pp_laneEnabled p lane"
  shows "stored_value data (ratioFieldByLane lane) = None"
proof -
  have "pp_form p (ratioFieldByLane lane) = []"
    using pricing_lanes.reachable_inv [OF assms(1)] assms(3) by (simp add: lanes_inv_def)
  then have "setIfPresent (rd_fields data (ratioFieldByLane lane)) = None"
    using submit_data(1) [OF assms(2)] by (simp add: setIfPresent_def)
  moreover have "ratioFieldByLane lane \<noteq> BillingMode" "ratioFieldByLane lane \<noteq> BillingExpr" by (cases lane; simp)+
  ultimately show ?thesis by (simp add: stored_value_def Let_def)
qed

subsection \<open>Ratios follow prices\<close>

definition lane_base :: "pricing_panel \<Rightarrow> LaneKey \<Rightarrow> jsstring" where
  "lane_base p lane = (if lane = LaneAudioOutput then pp_lanePrices p LaneAudioInput else pp_promptPrice p)"

definition in_sync :: "pricing_panel \<Rightarrow> bool" where
  "in_sync p \<longleftrightarrow>
     pp_form p ModelRatio = (case toNumberOrNull (pp_promptPrice p) of Some x \<Rightarrow> formatPricingNumber (x / 2) | None \<Rightarrow> []) \<and>
     (\<forall>lane. pp_laneEnabled p lane \<longrightarrow> pp_form p (ratioFieldByLane lane) =
        deriveLaneRatio lane (pp_lanePrices p lane) (pp_promptPrice p) (pp_lanePrices p))"

lemma sync_prices [simp]: "pp_promptPrice (syncLaneRatios q prices enabled p) = pp_promptPrice p"
  "pp_lanePrices (syncLaneRatios q prices enabled p) = pp_lanePrices p"
  by (simp_all add: syncLaneRatios_def laneConfigs_def)

lemma derive_other: "a \<noteq> LaneAudioInput \<or> lane \<noteq> LaneAudioOutput \<Longrightarrow>
  deriveLaneRatio lane price q (prices(a := v)) = deriveLaneRatio lane price q prices"
  by (auto simp: deriveLaneRatio_def split: option.split)

interpretation price_sync: machine_invariant in_sync panel_step in_sync
proof
  show "in_sync p \<Longrightarrow> panel_step p e p' \<Longrightarrow> in_sync p'" for p e p'
  proof (cases e)
    case (LaneToggled lane checked)
    then show "in_sync p \<Longrightarrow> panel_step p e p' \<Longrightarrow> in_sync p'"
      by (auto simp: panel_step_def in_sync_def handleLaneToggle_def derive_other Let_def)
  next
    case (LaneTyped lane v)
    then show "in_sync p \<Longrightarrow> panel_step p e p' \<Longrightarrow> in_sync p'"
      by (auto simp: panel_step_def in_sync_def handleLanePriceChange_def derive_other Let_def) (metis derive_other)
  qed (auto simp: panel_step_def in_sync_def handlePromptPriceChange_def
      handleModeChange_def handlePriceInput_def derive_other Let_def)
qed


text \<open>
  A new model starts in agreement, and so does a model whose stored ratios give prices of at most eight decimals
  and have a base that is not free.
\<close>

definition exact_ratio :: "jsstring \<Rightarrow> rat \<Rightarrow> bool" where
  "exact_ratio txt base \<longleftrightarrow>
     (case toNumberOrNull txt of
        None \<Rightarrow> txt = []
      | Some k \<Rightarrow> txt = num_str k \<and> short_price k \<and> short_price (k * base) \<and> base \<noteq> 0)"

definition exact_data :: "ModelRatioData \<Rightarrow> bool" where
  "exact_data d \<longleftrightarrow>
     (case toNumberOrNull (rd_fields d ModelRatio) of
        None \<Rightarrow> False
      | Some r \<Rightarrow> exact_ratio (rd_fields d ModelRatio) 2 \<and>
          list_all (\<lambda>lane. exact_ratio (rd_fields d (ratioFieldByLane lane))
            (if lane = LaneAudioOutput
             then nullish (toNumberOrNull (rd_fields d AudioRatio)) 0 * (r * 2) else r * 2)) laneConfigs)"

definition sync_start :: "pricing_panel \<Rightarrow> bool" where
  "sync_start p \<longleftrightarrow> p = loadPanel None \<or> (\<exists>d. exact_data d \<and> p = loadPanel (Some d))"

lemma exact_ratio_cases:
  assumes "exact_ratio txt base" "txt \<noteq> []"
  shows "\<exists>k. txt = num_str k \<and> toNumberOrNull txt = Some k \<and> decimal k \<and> formatPricingNumber k = num_str k \<and>
    toNumberOrNull (formatPricingNumber (k * base)) = Some (k * base) \<and> base \<noteq> 0"
  using assms short_price_decimal
  by (auto simp: exact_ratio_def format_exact to_number_price split: option.splits)

lemma derived_back:
  assumes "exact_ratio txt x" "toNumberOrNull base = Some x"
    and "toNumberOrNull (if lane = LaneAudioOutput then prices LaneAudioInput else q) = Some x"
  shows "txt \<noteq> [] \<Longrightarrow> deriveLaneRatio lane (deriveLanePrice txt base) q prices = txt"
    "txt \<noteq> [] \<Longrightarrow> toNumberOrNull (deriveLanePrice txt base) = Some (nullish (toNumberOrNull txt) 0 * x)"
  using exact_ratio_cases [OF assms(1)] assms(2,3)
  by (auto simp: deriveLanePrice_def deriveLaneRatio_def)

lemma load_in_sync: "exact_data d \<Longrightarrow> in_sync (loadPanel (Some d))"
proof -
  let ?p = "loadPanel (Some d)"
  assume "exact_data d"
  then obtain r where r: "toNumberOrNull (rd_fields d ModelRatio) = Some r" "exact_ratio (rd_fields d ModelRatio) 2"
    and lanes: "\<And>lane. exact_ratio (rd_fields d (ratioFieldByLane lane))
        (if lane = LaneAudioOutput then nullish (toNumberOrNull (rd_fields d AudioRatio)) 0 * (r * 2) else r * 2)"
    using all_lanes(2) by (auto simp: exact_data_def list_all_iff split: option.splits)
  have ne: "rd_fields d ModelRatio \<noteq> []" using r(1) by auto
  have prompt: "toNumberOrNull (pp_promptPrice ?p) = Some (r * 2)" "formatPricingNumber r = rd_fields d ModelRatio"
    using exact_ratio_cases [OF r(2) ne] r(1)
    by (auto simp: loadPanel_def createInitialLaneState_def ratioToBasePrice_def Let_def)
  have price: "pp_lanePrices ?p lane = deriveLanePrice (rd_fields d (ratioFieldByLane lane)) (lane_base ?p lane)" for lane
    by (cases lane) (simp_all add: lane_base_def loadPanel_def createInitialLaneState_def Let_def)
  have "pp_form ?p (ratioFieldByLane lane) = deriveLaneRatio lane (pp_lanePrices ?p lane) (pp_promptPrice ?p) (pp_lanePrices ?p)"
    if "rd_fields d (ratioFieldByLane lane) \<noteq> []" for lane
  proof (cases "lane = LaneAudioOutput")
    case False
    then show ?thesis using that lanes [of lane] prompt(1) by (simp add: price lane_base_def derived_back)
  next
    case True
    have a: "rd_fields d AudioRatio \<noteq> []"
      using exact_ratio_cases [OF lanes [of lane] that] True by auto
    have "toNumberOrNull (pp_lanePrices ?p LaneAudioInput) = Some (nullish (toNumberOrNull (rd_fields d AudioRatio)) 0 * (r * 2))"
      using a lanes [of LaneAudioInput] prompt(1)
      by (simp add: price [of LaneAudioInput] lane_base_def derived_back(2) [where lane = LaneCache and q = "pp_promptPrice ?p"])
    then show ?thesis
      using that lanes [of lane] True by (simp add: price [of LaneAudioOutput] lane_base_def derived_back(1))
  qed
  then show ?thesis using prompt by (simp add: in_sync_def hasValue_def)
qed

lemma start_in_sync: "sync_start p \<Longrightarrow> in_sync p"
proof -
  have "in_sync (loadPanel None)" by (simp add: in_sync_def loadPanel_def createInitialLaneState_def Let_def)
  then show "sync_start p \<Longrightarrow> in_sync p" using load_in_sync by (auto simp: sync_start_def)
qed

lemma reachable_in_sync: "reachable sync_start panel_step p \<Longrightarrow> in_sync p"
  using reachable_iff_run [of sync_start] price_sync.run_inv start_in_sync by blast

lemma stored_format:
  assumes "\<bar>v\<bar> \<le> 10 ^ 20"
  shows "\<exists>r. setIfPresent (formatPricingNumber v) = Some (JNum r) \<and> \<bar>r - v\<bar> \<le> price_tolerance v"
proof -
  obtain r where "formatPricingNumber v = num_str r" "decimal r" "\<bar>r - v\<bar> \<le> price_tolerance v"
    using format_near [OF assms] by blast
  then show ?thesis by (simp add: setIfPresent_def parse_float_num_str num_str_nonempty)
qed

lemma stored_per_token:
  assumes "handleSubmit p = Inr data" "pp_pricingMode p = PerToken" "pp_form p ModelPrice = []"
  shows "stored_value data ModelRatio = setIfPresent (pp_form p ModelRatio)"
    "stored_value data (ratioFieldByLane lane) = setIfPresent (pp_form p (ratioFieldByLane lane))"
proof -
  have "ratioFieldByLane lane \<noteq> BillingMode" "ratioFieldByLane lane \<noteq> BillingExpr" by (cases lane; simp)+
  then show "stored_value data ModelRatio = setIfPresent (pp_form p ModelRatio)"
    "stored_value data (ratioFieldByLane lane) = setIfPresent (pp_form p (ratioFieldByLane lane))"
    using submit_data [OF assms(1)] assms(2,3) by (simp_all add: stored_value_def)
qed




definition demo_docs :: pricing_docs where
  "demo_docs = (\<lambda>_. [])(ModelRatio := js ''{\"a\": 1.5}'')"

definition demo_data :: ModelRatioData where
  "demo_data = \<lparr>rd_name = js ''b'', rd_fields = (\<lambda>_. [])(ModelRatio := js ''2.5'', CompletionRatio := js ''4''),
     rd_billingMode = PerToken, rd_billingExpr = [], rd_requestRuleExpr = []\<rparr>"

lemma demo_parse: "parse_docs demo_docs = Some ((\<lambda>_. [])(ModelRatio := [(js ''a'', JNum (3 / 2))]))"
proof -
  have "safeJsonParse (demo_docs ModelRatio) = Some [(js ''a'', JNum (3 / 2))]" by code_simp
  moreover have "safeJsonParse [] = Some []" by code_simp
  ultimately show ?thesis by (auto simp: parse_docs_def demo_docs_def all_docs_def number_docs_def fun_eq_iff)
qed


definition demo_entries :: "price_doc \<Rightarrow> jsval option" where
  "demo_entries = (\<lambda>_. None)(ModelRatio := Some (JNum (5 / 2)), CompletionRatio := Some (JNum 4), AudioRatio := Some (JNum 3),
     AudioCompletionRatio := Some (JNum 2))"


theorem tiered_resave_keeps_price_witness:
  "\<exists>row p data. row_of (demo_entries(BillingMode := Some (JStr (js ''tiered_expr'')), BillingExpr := Some (JStr
        (combineBillingExpr (generateExprFromVisualConfig (Some demo_tiers)) (buildRequestRuleExpr [demo_rule]))))) (js ''m'') = Some row \<and>
    showTieredTab 1 (loadPanel (Some (handleEdit row))) = Some p \<and> handleSubmit p = Inr data"
proof -
  let ?e = "generateExprFromVisualConfig (Some demo_tiers)" and ?r = "buildRequestRuleExpr [demo_rule]"
  let ?get = "demo_entries(BillingMode := Some (JStr (js ''tiered_expr'')), BillingExpr := Some (JStr (combineBillingExpr ?e ?r)))"
  have n: "vt_conditions (last demo_tiers) = []" "list_all (\<lambda>t. pars 0 (vt_label t)) demo_tiers" by code_simp+
  have wf: "\<forall>g\<in>set [demo_rule]. wf_group g" using demo_rule_wf by simp
  have "numeric_entries demo_entries" by code_simp
  then have num: "numeric_entries ?get" by (simp add: numeric_entries_def number_docs_def)
  obtain row where row: "row_of ?get (js ''m'') = Some row"
    using printed_split(1) [OF demo_good n wf refl] by (simp add: row_of_def expr_text_def Let_def)
  moreover have "js ''m'' \<noteq> []" by code_simp
  ultimately show ?thesis
    using tiered_resave_keeps_price [OF demo_good n wf num _ _ row] by (metis fun_upd_apply price_doc.distinct(89))
qed

theorem unreadable_price_saved_as_free_witness:
  "\<exists>row p data. row_of (demo_entries(BillingMode := Some (JStr (js ''tiered_expr'')),
        BillingExpr := Some (JStr (js ''max(p, 1) * 2'')))) (js ''m'') = Some row \<and>
    showTieredTab 4 (loadPanel (Some (handleEdit row))) = Some p \<and> handleSubmit p = Inr data \<and>
    stored_value data BillingExpr = Some (JStr (js ''p * 0 + c * 0''))"
proof -
  let ?s = "js ''max(p, 1) * 2''"
  let ?get = "demo_entries(BillingMode := Some (JStr (js ''tiered_expr'')), BillingExpr := Some (JStr ?s))"
  let ?b = "\<lparr>billingExpr = ?s, requestRuleExpr = buildRequestRuleExpr []\<rparr>"
  have "numeric_entries demo_entries" by code_simp
  then have num: "numeric_entries ?get" by (simp add: numeric_entries_def number_docs_def)
  have split: "splitBillingExprAndRequestRules ?s = Inr ?b" by code_simp
  have h: "tryParseVisualConfig ?s = None" "combineBillingExpr ?s (buildRequestRuleExpr []) = ?s" "?s \<noteq> []" "js ''m'' \<noteq> []"
    "combineBillingExpr (js ''p * 0 + c * 0'') (buildRequestRuleExpr []) = js ''p * 0 + c * 0''"
    by code_simp+
  obtain row where row: "row_of ?get (js ''m'') = Some row" using split by (simp add: row_of_def expr_text_def Let_def)
  show ?thesis
    using unreadable_price_saved_as_free [of ?get ?s ?b "[]" "js ''m''" row] num split h row by auto
qed

definition demo_fixed :: ModelRatioData where
  "demo_fixed = demo_data\<lparr>rd_fields := (\<lambda>_. [])(ModelPrice := js ''1''), rd_billingMode := PerRequest\<rparr>"

definition demo_typed :: pricing_panel where
  "demo_typed = fold panel_handle [TabChosen PerToken, PromptTyped (js ''3'')] (loadPanel (Some demo_fixed))"

lemma sync_mode [simp]: "pp_pricingMode (syncLaneRatios q prices enabled p) = pp_pricingMode p"
  "pp_name (syncLaneRatios q prices enabled p) = pp_name p"
  by (simp_all add: syncLaneRatios_def laneConfigs_def)

lemmas handler_defs = handlePromptPriceChange_def handleLanePriceChange_def handleLaneToggle_def handleModeChange_def

lemma run_fold: "run panel_step p es (fold panel_handle es p)"
  by (induction es arbitrary: p) (auto intro: run.intros simp: panel_step_def simp del: panel_handle.simps)

lemma reachable_fold: "init p \<Longrightarrow> reachable init panel_step (fold panel_handle es p)"
  using run_fold by (meson reachable.start reachable_run)

lemma accepts_three: "numericDraftRegex (js ''3'')" "toNumberOrNull (js ''3'') = Some 3" "js ''m'' \<noteq> []"
  "numericDraftRegex (js ''10'')" "toNumberOrNull (js ''10'') = Some 10"
  by code_simp+

theorem leftover_price_wins_witness:
  "\<exists>data. handleSubmit demo_typed = Inr data \<and> pp_form demo_typed ModelRatio = js ''1.5'' \<and>
    stored_value data = (\<lambda>_. None)(ModelPrice := Some (JNum 1))"
proof -
  have r: "run panel_step (loadPanel (Some demo_fixed)) [TabChosen PerToken, PromptTyped (js ''3'')] demo_typed"
    unfolding demo_typed_def by (rule run_fold)
  have n: "rd_fields demo_fixed ModelPrice = num_str 1" "short_price (3 / 2)" "num_str (3 / 2) = js ''1.5''"
    "rd_name demo_fixed \<noteq> []" "rd_fields demo_fixed AudioCompletionRatio = []" by code_simp+
  have h: "pp_pricingMode demo_typed = PerToken" "pp_form demo_typed ModelRatio = js ''1.5''" "pp_promptPrice demo_typed = js ''3''"
    "pp_name demo_typed = rd_name demo_fixed" "\<not> pp_laneEnabled demo_typed LaneAudioOutput"
    using n by (simp_all add: demo_typed_def handler_defs accepts_three format_exact hasValue_def)
  then obtain data where data: "handleSubmit demo_typed = Inr data"
    using n(4) by (auto simp: handleSubmit_def accepts_three)
  show ?thesis using leftover_price_wins [OF r _ n(1) _ h(1) data] data h(2) by auto
qed

definition demo_new :: pricing_panel where
  "demo_new = fold panel_handle [NameTyped (js ''m''), PromptTyped (js ''3''), LaneToggled LaneCompletion True,
     LaneTyped LaneCompletion (js ''10'')] (loadPanel None)"

lemma demo_new_view: "pp_pricingMode demo_new = PerToken" "pp_form demo_new ModelPrice = []"
  "pp_promptPrice demo_new = js ''3''" "pp_laneEnabled demo_new = (\<lambda>_. False)(LaneCompletion := True)"
  "pp_lanePrices demo_new LaneCompletion = js ''10''" "pp_name demo_new = js ''m''"
  by (simp_all add: demo_new_def handler_defs accepts_three loadPanel_def createInitialLaneState_def Let_def)

lemma demo_submit: "\<exists>data. handleSubmit demo_new = Inr data"
  by (simp add: handleSubmit_def demo_new_view accepts_three)

theorem disabled_lanes_not_stored_witness:
  "\<exists>data. handleSubmit demo_new = Inr data \<and> stored_value data (ratioFieldByLane LaneCache) = None"
proof -
  have "panel_init (loadPanel None)" by (auto simp: panel_init_def)
  then have "reachable panel_init panel_step demo_new" unfolding demo_new_def by (rule reachable_fold)
  moreover have "\<not> pp_laneEnabled demo_new LaneCache" by (simp add: demo_new_view)
  ultimately show ?thesis using demo_submit disabled_lanes_not_stored by blast
qed


end
