(* ===== verification/Channels.thy ===== *)
theory Channels
  imports ModelMapping
begin

section \<open>Channels: tables, display helpers and aggregation by tag\<close>

text \<open>
  Models, under \<^verbatim>\<open>web/default/src/features/channels\<close>, the channel type of \<^verbatim>\<open>types.ts\<close>,
  the tables of \<^verbatim>\<open>constants.ts\<close> and the functions of \<^verbatim>\<open>lib/channel-utils.ts\<close> except
  the four that only call the currency and date formatters.

  Numbers are rationals.  A missing, \<open>null\<close> or \<open>undefined\<close> value is \<open>None\<close>.
  \<open>localeCompare\<close> is an argument of the functions that sort with it.
\<close>

subsection \<open>Types\<close>

datatype MultiKeyMode = RandomMode | PollingMode

record ChannelInfo =
  is_multi_key :: bool
  multi_key_size :: rat
  multi_key_status_list :: "(jsstring \<times> rat) list option"
  multi_key_disabled_reason :: "(jsstring \<times> jsstring) list option"
  multi_key_disabled_time :: "(jsstring \<times> rat) list option"
  multi_key_polling_index :: rat
  multi_key_mode :: MultiKeyMode

record Channel =
  ch_id :: rat
  ch_type :: int
  ch_key :: jsstring
  openai_organization :: "jsstring option"
  test_model :: "jsstring option"
  ch_status :: int
  ch_name :: jsstring
  weight :: "rat option"
  created_time :: rat
  test_time :: rat
  response_time :: rat
  base_url :: "jsstring option"
  ch_other :: jsstring
  balance :: rat
  balance_updated_time :: rat
  ch_models :: jsstring
  ch_group :: jsstring
  used_quota :: rat
  model_mapping :: "jsstring option"
  status_code_mapping :: "jsstring option"
  priority :: "rat option"
  auto_ban :: "rat option"
  other_info :: jsstring
  ch_tag :: "jsstring option"
  setting :: "jsstring option"
  param_override :: "jsstring option"
  header_override :: "jsstring option"
  remark :: jsstring
  max_input_tokens :: rat
  channel_info :: "ChannelInfo option"
  settings :: jsstring

subsection \<open>Tables\<close>

definition CHANNEL_TYPES :: "(int \<times> jsstring) list" where
  "CHANNEL_TYPES =
     [(0, js ''Unknown''), (1, js ''OpenAI''), (2, js ''Midjourney''), (3, js ''Azure''),
      (4, js ''Ollama''), (5, js ''MidjourneyPlus''), (6, js ''OpenAIMax''), (7, js ''OhMyGPT''),
      (8, js ''Custom''), (9, js ''AILS''), (10, js ''AI Proxy''), (11, js ''PaLM''),
      (12, js ''API2GPT''), (13, js ''AIGC2D''), (14, js ''Anthropic''), (15, js ''Baidu''),
      (16, js ''Zhipu''), (17, js ''Ali''), (18, js ''Xunfei''), (19, js ''360''),
      (20, js ''OpenRouter''), (21, js ''AI Proxy Library''), (22, js ''FastGPT''),
      (23, js ''Tencent''), (24, js ''Gemini''), (25, js ''Moonshot''), (26, js ''Zhipu V4''),
      (27, js ''Perplexity''), (31, js ''LingYiWanWu''), (33, js ''AWS''), (34, js ''Cohere''),
      (35, js ''MiniMax''), (36, js ''SunoAPI''), (37, js ''Dify''), (38, js ''Jina''),
      (39, js ''Cloudflare''), (40, js ''SiliconFlow''), (41, js ''Vertex AI''),
      (42, js ''Mistral''), (43, js ''DeepSeek''), (44, js ''MokaAI''), (45, js ''VolcEngine''),
      (46, js ''Baidu V2''), (47, js ''Xinference''), (48, js ''xAI''), (49, js ''Coze''),
      (50, js ''Kling''), (51, js ''Jimeng''), (52, js ''Vidu''), (53, js ''Submodel''),
      (54, js ''DoubaoVideo''), (55, js ''Sora''), (56, js ''Replicate''), (57, js ''Codex'')]"

definition CHANNEL_TYPE_DISPLAY_ORDER :: "int list" where
  "CHANNEL_TYPE_DISPLAY_ORDER =
    [1, 14, 33, 24, 43, 3, 41, 48, 42, 34, 20, 4, 40, 27, 25, 17, 26, 15, 46, 23, 18, 45, 31,
     35, 49, 19, 47, 37, 38, 39, 11, 8, 57, 22, 21, 44, 2, 5, 36, 50, 51, 52, 53, 54, 55, 56]"

text \<open>The two loops: the preferred order first, then every type that was not yet seen.\<close>

definition CHANNEL_TYPE_OPTIONS :: "(int \<times> jsstring) list" where
  "CHANNEL_TYPE_OPTIONS =
     (let ordered = List.map_filter
            (\<lambda>i. case map_of CHANNEL_TYPES i of
                   Some label \<Rightarrow> if label \<noteq> [] then Some (i, label) else None
                 | None \<Rightarrow> None) CHANNEL_TYPE_DISPLAY_ORDER;
          seen = set (map fst ordered)
      in ordered @ filter (\<lambda>(i, label). i \<noteq> 0 \<and> i \<notin> seen) CHANNEL_TYPES)"

definition TYPE_TO_ICON :: "(int \<times> jsstring) list" where
  "TYPE_TO_ICON =
     [(1, js ''OpenAI''), (6, js ''OpenAI''), (7, js ''OpenAI''), (8, js ''OpenAI''),
      (3, js ''Azure''), (14, js ''Claude''), (24, js ''Gemini''), (11, js ''Google''),
      (41, js ''Gemini''), (33, js ''Aws''), (39, js ''Cloudflare''), (15, js ''Baidu''),
      (46, js ''Baidu''), (16, js ''Zhipu''), (26, js ''Zhipu''), (17, js ''Qwen''),
      (18, js ''Spark''), (23, js ''Hunyuan''), (19, js ''Ai360''), (25, js ''Moonshot''),
      (31, js ''Yi''), (35, js ''Minimax''), (45, js ''Volcengine''), (4, js ''Ollama''),
      (27, js ''Perplexity''), (34, js ''Cohere''), (42, js ''Mistral''), (43, js ''DeepSeek''),
      (48, js ''XAI''), (49, js ''Coze''), (40, js ''SiliconCloud''), (44, js ''OpenAI''),
      (20, js ''OpenRouter''), (2, js ''Midjourney''), (5, js ''Midjourney''), (50, js ''Kling''),
      (51, js ''Jimeng''), (52, js ''Vidu''), (36, js ''Suno''), (55, js ''OpenAI''),
      (54, js ''Doubao''), (56, js ''Replicate''), (37, js ''Dify''), (38, js ''Jina''),
      (22, js ''FastGPT''), (47, js ''Xinference''), (53, js ''OpenAI''), (10, js ''OpenAI''),
      (21, js ''OpenAI''), (12, js ''OpenAI''), (13, js ''OpenAI''), (9, js ''OpenAI'')]"

definition TYPE_TO_KEY_PROMPT :: "(int \<times> jsstring) list" where
  "TYPE_TO_KEY_PROMPT =
     [(15, js ''Format: APIKey|SecretKey''), (18, js ''Format: APPID|APISecret|APIKey''),
      (22, js ''Format: APIKey-AppId, e.g., fastgpt-0sp2gtvfdgyi4k30jwlgwf1i-64f335d84283f05518e9e041''),
      (23, js ''Format: AppId|SecretId|SecretKey''), (33, js ''Format: Ak|Sk|Region''),
      (50, js ''Format: AccessKey|SecretKey (or just ApiKey if upstream is New API)''),
      (51, js ''Format: Access Key ID|Secret Access Key''),
      (57, js ''Paste Codex OAuth JSON credential (access_token / refresh_token / account_id)'')]"

definition MODEL_FETCHABLE_TYPES :: "int list" where
  "MODEL_FETCHABLE_TYPES =
    [1, 4, 14, 17, 20, 23, 24, 25, 26, 27, 31, 34, 35, 40, 42, 43, 47, 48]"

datatype Variant = VNeutral | VSuccess | VDanger | VWarning | VInfo

record StatusConfig =
  sc_variant :: Variant
  sc_label :: jsstring

definition status_config :: "Variant \<Rightarrow> string \<Rightarrow> StatusConfig" where
  "status_config v l = \<lparr>sc_variant = v, sc_label = js l\<rparr>"

definition CHANNEL_STATUS_CONFIG :: "(int \<times> StatusConfig) list" where
  "CHANNEL_STATUS_CONFIG =
     [(0, status_config VNeutral ''Unknown''), (1, status_config VSuccess ''Enabled''),
      (2, status_config VDanger ''Disabled''), (3, status_config VWarning ''Auto Disabled'')]"

definition MULTI_KEY_STATUS_CONFIG :: "(int \<times> StatusConfig) list" where
  "MULTI_KEY_STATUS_CONFIG =
     [(1, status_config VSuccess ''Enabled''), (2, status_config VNeutral ''Manual Disabled''),
      (3, status_config VDanger ''Auto Disabled'')]"

definition RESPONSE_TIME_THRESHOLDS :: "rat \<times> rat \<times> rat \<times> rat" where
  "RESPONSE_TIME_THRESHOLDS = (500, 1000, 2000, 5000)"

text \<open>A table lookup \<open>table[key] || fallback\<close>.\<close>

definition table_get :: "(int \<times> 'a) list \<Rightarrow> int \<Rightarrow> 'a \<Rightarrow> 'a" where
  "table_get table k fallback = nullish (map_of table k) fallback"

subsection \<open>Type and status helpers\<close>

definition getChannelTypeLabel :: "int \<Rightarrow> jsstring" where
  "getChannelTypeLabel ty = table_get CHANNEL_TYPES ty (js ''Unknown'')"

definition getChannelTypeIcon :: "int \<Rightarrow> jsstring" where
  "getChannelTypeIcon ty = table_get TYPE_TO_ICON ty (js ''OpenAI'')"

definition getKeyPromptForType :: "int \<Rightarrow> jsstring" where
  "getKeyPromptForType ty = table_get TYPE_TO_KEY_PROMPT ty (js ''Enter API key for this channel'')"

definition getChannelStatusBadge :: "int \<Rightarrow> StatusConfig" where
  "getChannelStatusBadge status = table_get CHANNEL_STATUS_CONFIG status (status_config VNeutral ''Unknown'')"

definition getMultiKeyStatusBadge :: "int \<Rightarrow> StatusConfig" where
  "getMultiKeyStatusBadge status =
     table_get MULTI_KEY_STATUS_CONFIG status (status_config VSuccess ''Enabled'')"

definition isChannelEnabled :: "Channel \<Rightarrow> bool" where
  "isChannelEnabled channel \<longleftrightarrow> ch_status channel = 1"

definition isMultiKeyChannel :: "Channel \<Rightarrow> bool" where
  "isMultiKeyChannel channel = (case channel_info channel of None \<Rightarrow> False | Some i \<Rightarrow> is_multi_key i)"

subsection \<open>Keys\<close>

text \<open>\<open>s.slice(-n)\<close> for positive \<open>n\<close>.\<close>

definition slice_last :: "nat \<Rightarrow> jsstring \<Rightarrow> jsstring" where
  "slice_last n s = drop (length s - n) s"

definition key_lines :: "jsstring \<Rightarrow> jsstring list" where
  "key_lines key = filter (\<lambda>k. trim k \<noteq> []) (split_on 10 key)"

definition formatChannelKey :: "jsstring \<Rightarrow> bool \<Rightarrow> jsstring" where
  "formatChannelKey key isMultiKey =
     (if key = [] then []
      else if isMultiKey then show_nat (length (key_lines key)) @ js '' keys''
      else if length key \<le> 16 then take 4 key @ js ''...'' @ slice_last 4 key
      else take 8 key @ js ''...'' @ slice_last 8 key)"

definition formatKeyPreview :: "jsstring \<Rightarrow> nat \<Rightarrow> jsstring" where
  "formatKeyPreview key maxLength =
     (if key = [] then []
      else if length key \<le> maxLength then key
      else take maxLength key @ js ''...'')"

definition countKeys :: "jsstring \<Rightarrow> nat" where
  "countKeys key = (if key = [] then 0 else length (key_lines key))"

record dedup_result =
  deduplicatedText :: jsstring
  beforeCount :: nat
  afterCount :: nat
  removedCount :: int

text \<open>The \<open>forEach\<close>: keys seen so far, in order, are both the set and the list.\<close>

fun dedup_lines :: "jsstring list \<Rightarrow> jsstring list \<Rightarrow> jsstring list" where
  "dedup_lines seen [] = seen"
| "dedup_lines seen (line # rest) =
     (let trimmedLine = trim line in
      if trimmedLine \<noteq> [] \<and> trimmedLine \<notin> set seen
      then dedup_lines (seen @ [trimmedLine]) rest
      else dedup_lines seen rest)"

definition deduplicateKeys :: "jsstring \<Rightarrow> dedup_result" where
  "deduplicateKeys keysText =
     (if keysText = [] \<or> trim keysText = []
      then \<lparr>deduplicatedText = [], beforeCount = 0, afterCount = 0, removedCount = 0\<rparr>
      else
        let keyLines = split_on 10 keysText;
            deduplicatedKeys = dedup_lines [] keyLines
        in \<lparr>deduplicatedText = join [10] deduplicatedKeys,
            beforeCount = length keyLines,
            afterCount = length deduplicatedKeys,
            removedCount = int (length keyLines) - int (length deduplicatedKeys)\<rparr>)"

subsection \<open>Groups, settings, balance, response time\<close>

text \<open>The comparator of \<open>parseGroupsList\<close>: the group \<open>default\<close> comes first.\<close>

definition group_compare :: "(jsstring \<Rightarrow> jsstring \<Rightarrow> int) \<Rightarrow> jsstring \<Rightarrow> jsstring \<Rightarrow> int" where
  "group_compare localeCompare a b =
     (if a = js ''default'' then -1 else if b = js ''default'' then 1 else localeCompare a b)"

definition parseGroupsList :: "(jsstring \<Rightarrow> jsstring \<Rightarrow> int) \<Rightarrow> jsstring \<Rightarrow> jsstring list" where
  "parseGroupsList localeCompare groups =
     (if groups = [] then []
      else js_sort (group_compare localeCompare) (truthy_strs (map trim (split_on 44 groups))))"

definition parseChannelSettings :: "jsstring option \<Rightarrow> jsval" where
  "parseChannelSettings settingStr =
     (case settingStr of
        None \<Rightarrow> JObj []
      | Some s \<Rightarrow> if s = [] then JObj [] else nullish (JSON_parse s) (JObj []))"

definition parseChannelOtherSettings :: "jsstring option \<Rightarrow> jsval" where
  "parseChannelOtherSettings settingsStr =
     (case settingsStr of
        None \<Rightarrow> JObj []
      | Some s \<Rightarrow> if s = [] \<or> s = js ''{}'' then JObj [] else nullish (JSON_parse s) (JObj []))"

definition validateChannelSettings :: "jsstring \<Rightarrow> bool" where
  "validateChannelSettings s \<longleftrightarrow> s = [] \<or> trim s = [] \<or> JSON_parse s \<noteq> None"

definition getBalanceVariant :: "rat \<Rightarrow> Variant" where
  "getBalanceVariant bal =
     (if bal = 0 then VNeutral else if bal < 1 then VDanger else if bal < 10 then VWarning else VSuccess)"

definition formatResponseTime :: "(jsstring \<Rightarrow> jsstring option \<Rightarrow> jsstring) option \<Rightarrow> rat \<Rightarrow> jsstring" where
  "formatResponseTime t timeMs =
     (if timeMs = 0 then (case t of Some f \<Rightarrow> f (js ''Not tested'') None | None \<Rightarrow> js ''Not tested'')
      else if timeMs < 1000
      then (case t of Some f \<Rightarrow> f (js ''{{value}}ms'') (Some (num_str timeMs))
            | None \<Rightarrow> num_str timeMs @ js ''ms'')
      else (case t of Some f \<Rightarrow> f (js ''{{value}}s'') (Some (to_fixed 2 (timeMs / 1000)))
            | None \<Rightarrow> to_fixed 2 (timeMs / 1000) @ js ''s''))"

definition getResponseTimeConfig :: "rat \<Rightarrow> StatusConfig" where
  "getResponseTimeConfig timeMs =
     (case RESPONSE_TIME_THRESHOLDS of (excellent, good, fair, poor) \<Rightarrow>
        if timeMs = 0 then status_config VNeutral ''Not tested''
        else if timeMs \<le> excellent then status_config VSuccess ''Excellent''
        else if timeMs \<le> good then status_config VInfo ''Good''
        else if timeMs \<le> fair then status_config VWarning ''Fair''
        else if timeMs \<le> poor then status_config VDanger ''Poor''
        else status_config VDanger ''Poor'')"

definition getPriorityDisplay :: "rat option \<Rightarrow> jsstring" where
  "getPriorityDisplay p = (case p of None \<Rightarrow> js ''0'' | Some x \<Rightarrow> num_str x)"

definition getWeightDisplay :: "rat option \<Rightarrow> jsstring" where
  "getWeightDisplay w = (case w of None \<Rightarrow> js ''0'' | Some x \<Rightarrow> num_str x)"

subsection \<open>Validation and attention\<close>

definition validateChannelName :: "jsstring \<Rightarrow> bool" where
  "validateChannelName name \<longleftrightarrow> 0 < length (trim name)"

definition validateApiKey :: "jsstring \<Rightarrow> bool" where
  "validateApiKey key \<longleftrightarrow> 0 < length (trim key)"

definition validateModels :: "jsstring \<Rightarrow> bool" where
  "validateModels models \<longleftrightarrow> 0 < length (parseModelsList models)"

definition validateGroups :: "(jsstring \<Rightarrow> jsstring \<Rightarrow> int) \<Rightarrow> jsstring \<Rightarrow> bool" where
  "validateGroups localeCompare groups \<longleftrightarrow> 0 < length (parseGroupsList localeCompare groups)"

definition all_keys_disabled :: "Channel \<Rightarrow> bool" where
  "all_keys_disabled channel \<longleftrightarrow>
     (case channel_info channel of
        None \<Rightarrow> False
      | Some i \<Rightarrow> is_multi_key i \<and>
          (case multi_key_status_list i of
             None \<Rightarrow> False
           | Some l \<Rightarrow> multi_key_size i \<le> of_nat (length l)))"

definition channelNeedsAttention :: "Channel \<Rightarrow> bool" where
  "channelNeedsAttention channel \<longleftrightarrow>
     (if ch_status channel = 3 then True
      else if 0 < balance channel \<and> balance channel < 1 then True
      else if all_keys_disabled channel then True
      else False)"

definition getAttentionReason :: "Channel \<Rightarrow> jsstring option" where
  "getAttentionReason channel =
     (if ch_status channel = 3 then Some (js ''Auto-disabled'')
      else if 0 < balance channel \<and> balance channel < 1 then Some (js ''Low balance'')
      else if all_keys_disabled channel then Some (js ''All keys disabled'')
      else None)"


subsection \<open>Aggregation by tag\<close>

text \<open>
  A tag row is a copy of the first channel of its tag with the aggregated fields replaced.  The
  status is \<open>None\<close> before a channel was added, and \<open>-1\<close> marks a priority or weight that
  has not been set.  The map from tags to rows and the result list share the row objects, so the
  list of rows in order of creation, updated in place, is both.
\<close>

record TagRow =
  tr_base :: Channel
  tr_tag :: jsstring
  tr_status :: "int option"
  tr_group :: jsstring
  tr_used_quota :: rat
  tr_response_time :: rat
  tr_priority :: "rat option"
  tr_weight :: "rat option"
  tr_children :: "Channel list"

definition tag_of :: "Channel \<Rightarrow> jsstring" where
  "tag_of channel = nullish (ch_tag channel) []"

definition new_tag_row :: "Channel \<Rightarrow> TagRow" where
  "new_tag_row channel =
     \<lparr>tr_base = channel\<lparr>ch_key := tag_of channel, ch_tag := Some (tag_of channel),
          ch_name := tag_of channel, ch_type := 0, ch_group := [], used_quota := 0,
          response_time := 0, priority := Some (-1), weight := Some (-1), balance := 0,
          test_time := 0, created_time := 0, balance_updated_time := 0, ch_models := []\<rparr>,
      tr_tag = tag_of channel, tr_status = None, tr_group = [], tr_used_quota = 0,
      tr_response_time = 0, tr_priority = Some (-1), tr_weight = Some (-1), tr_children = []\<rparr>"

definition same_or_null :: "rat option \<Rightarrow> rat option \<Rightarrow> rat option" where
  "same_or_null current new =
     (if current = Some (-1) then new else if current \<noteq> new then None else current)"

definition merge_groups :: "jsstring \<Rightarrow> jsstring \<Rightarrow> jsstring" where
  "merge_groups current new =
     (if current = [] then new
      else
        let existingGroups = set (truthy_strs (split_on 44 current));
            newGroups = truthy_strs (split_on 44 new)
        in current @ concat (map (\<lambda>g. if g \<notin> existingGroups then 44 # g else []) newGroups))"

definition merge_status :: "int option \<Rightarrow> int \<Rightarrow> int option" where
  "merge_status current new = (if new = 1 then Some 1 else if current = None then Some new else current)"

definition add_channel :: "Channel \<Rightarrow> TagRow \<Rightarrow> TagRow" where
  "add_channel channel row =
     (let children = tr_children row @ [channel];
          childCount = of_nat (length children) :: rat
      in row\<lparr>tr_children := children,
             tr_used_quota := tr_used_quota row + used_quota channel,
             tr_response_time :=
               (tr_response_time row * (childCount - 1) + response_time channel) / childCount,
             tr_priority := same_or_null (tr_priority row) (priority channel),
             tr_weight := same_or_null (tr_weight row) (weight channel),
             tr_group := merge_groups (tr_group row) (ch_group channel),
             tr_status := merge_status (tr_status row) (ch_status channel)\<rparr>)"

definition tag_step :: "Channel \<Rightarrow> TagRow list \<Rightarrow> TagRow list" where
  "tag_step channel rows =
     (let tag = tag_of channel;
          rows' = (if tag \<in> set (map tr_tag rows) then rows else rows @ [new_tag_row channel])
      in map (\<lambda>row. if tr_tag row = tag then add_channel channel row else row) rows')"

definition aggregateChannelsByTag :: "Channel list \<Rightarrow> TagRow list" where
  "aggregateChannelsByTag channels = fold tag_step channels []"

subsection \<open>Aggregation computes one row per tag\<close>

text \<open>The specification: group the channels by tag, in the order in which the tags first occur,
  and fold each group on its own.\<close>

definition tag_row_of :: "Channel list \<Rightarrow> TagRow" where
  "tag_row_of cs = fold add_channel cs (new_tag_row (hd cs))"

definition with_tag :: "jsstring \<Rightarrow> Channel list \<Rightarrow> Channel list" where
  "with_tag t cs = filter (\<lambda>c. tag_of c = t) cs"

definition tags_in_order :: "Channel list \<Rightarrow> jsstring list" where
  "tags_in_order cs = set_of (map tag_of cs)"

lemma tr_tag_add_channel [simp]: "tr_tag (add_channel c r) = tr_tag r"
  by (simp add: add_channel_def Let_def)

lemma tr_tag_fold [simp]: "tr_tag (fold add_channel cs r) = tr_tag r"
  by (induction cs arbitrary: r) simp_all

lemma set_of_snoc: "set_of (xs @ [x]) = (if x \<in> set xs then set_of xs else set_of xs @ [x])"
  by (simp add: set_of_def set_add_def) (metis set_of_def set_set_of)

lemma with_tag_snoc: "with_tag t (cs @ [c]) = (if tag_of c = t then with_tag t cs @ [c] else with_tag t cs)"
  by (simp add: with_tag_def)

lemma with_tag_nonempty: "t \<in> set (map tag_of cs) \<Longrightarrow> with_tag t cs \<noteq> []"
  by (auto simp: with_tag_def filter_empty_conv)

lemma with_tag_empty: "with_tag t cs = [] \<longleftrightarrow> t \<notin> tag_of ` set cs"
  by (auto simp: with_tag_def filter_empty_conv)

lemma tr_tag_row_of: "t \<in> set (map tag_of cs) \<Longrightarrow> tr_tag (tag_row_of (with_tag t cs)) = t"
proof -
  assume "t \<in> set (map tag_of cs)"
  then have "hd (with_tag t cs) \<in> set (with_tag t cs)" by (intro hd_in_set with_tag_nonempty)
  then show ?thesis by (simp add: tag_row_of_def new_tag_row_def with_tag_def)
qed

lemma tag_row_of_snoc: "cs \<noteq> [] \<Longrightarrow> tag_row_of (cs @ [c]) = add_channel c (tag_row_of cs)"
  by (simp add: tag_row_of_def)


lemma tag_step_known:
  assumes "distinct ts" "t \<in> set ts" "tag_of c = t" "\<forall>u\<in>set ts. tr_tag (f u) = u"
  shows "tag_step c (map f ts) = map (\<lambda>u. if u = t then add_channel c (f u) else f u) ts"
  using assms by (auto simp: tag_step_def Let_def image_iff)

lemma tag_step_new:
  assumes "t \<notin> set ts" "tag_of c = t" "\<forall>u\<in>set ts. tr_tag (f u) = u"
  shows "tag_step c (map f ts) = map f ts @ [add_channel c (new_tag_row c)]"
proof -
  have "t \<notin> set (map tr_tag (map f ts))" using assms(1,3) by auto
  moreover have "tr_tag (new_tag_row c) = t" using assms(2) by (simp add: new_tag_row_def)
  ultimately show ?thesis using assms by (auto simp: tag_step_def Let_def)
qed

lemma aggregate_group_by:
  "aggregateChannelsByTag cs = map (\<lambda>t. tag_row_of (with_tag t cs)) (tags_in_order cs)"
proof (induction cs rule: rev_induct)
  case Nil
  then show ?case by (simp add: aggregateChannelsByTag_def tags_in_order_def set_of_def)
next
  case (snoc c cs)
  let ?t = "tag_of c"
  let ?ts = "tags_in_order cs"
  let ?f = "\<lambda>t. tag_row_of (with_tag t cs)"
  have ts: "set ?ts = set (map tag_of cs)" "distinct ?ts" by (simp_all add: tags_in_order_def)
  have tags: "\<forall>u\<in>set ?ts. tr_tag (?f u) = u" using tr_tag_row_of ts(1) by blast
  have step: "aggregateChannelsByTag (cs @ [c]) = tag_step c (map ?f ?ts)"
    using snoc by (simp add: aggregateChannelsByTag_def)
  show ?case
  proof (cases "?t \<in> set ?ts")
    case True
    then have ord: "tags_in_order (cs @ [c]) = ?ts"
      using ts(1) by (simp add: tags_in_order_def set_of_snoc)
    have "with_tag ?t cs \<noteq> []" using True ts(1) with_tag_nonempty by blast
    then show ?thesis
      unfolding step tag_step_known [OF ts(2) True refl tags] ord
      by (auto simp: with_tag_snoc tag_row_of_snoc)
  next
    case False
    then have ord: "tags_in_order (cs @ [c]) = ?ts @ [?t]"
      using ts(1) by (simp add: tags_in_order_def set_of_snoc)
    have "with_tag ?t cs = []" using False ts(1) by (simp add: with_tag_empty)
    then show ?thesis
      unfolding step tag_step_new [OF False refl tags] ord
      using False by (auto simp: with_tag_snoc tag_row_of_def)
  qed
qed

text \<open>The fields of one row.\<close>

lemma fold_children: "tr_children (fold add_channel cs r) = tr_children r @ cs"
  by (induction cs arbitrary: r) (simp_all add: add_channel_def Let_def)

lemma fold_used_quota:
  "tr_used_quota (fold add_channel cs r) = tr_used_quota r + sum_list (map used_quota cs)"
  by (induction cs arbitrary: r) (simp_all add: add_channel_def Let_def)

lemma average_step:
  "(x * (of_nat (Suc n) - 1) + y) / of_nat (Suc n) * of_nat (Suc n) = x * of_nat n + (y :: rat)"
  by simp

lemma fold_response_time:
  "tr_response_time (fold add_channel cs r) * of_nat (length (tr_children r) + length cs) =
     tr_response_time r * of_nat (length (tr_children r)) + sum_list (map response_time cs)"
proof (induction cs arbitrary: r)
  case (Cons c cs)
  have n: "length (tr_children (add_channel c r)) = Suc (length (tr_children r))"
    by (simp add: add_channel_def Let_def)
  have "tr_response_time (add_channel c r) * of_nat (Suc (length (tr_children r))) =
      tr_response_time r * of_nat (length (tr_children r)) + response_time c"
    using average_step [of "tr_response_time r" "length (tr_children r)" "response_time c"]
    by (simp add: add_channel_def Let_def)
  then show ?case using Cons [of "add_channel c r"] n by (simp add: add.assoc)
qed simp

lemma fold_status:
  "tr_status (fold add_channel cs r) =
     (if \<exists>c\<in>set cs. ch_status c = 1 then Some 1
      else case tr_status r of Some s \<Rightarrow> Some s | None \<Rightarrow> (case cs of [] \<Rightarrow> None | c # _ \<Rightarrow> Some (ch_status c)))"
proof (induction cs arbitrary: r)
  case (Cons c cs)
  have "tr_status (add_channel c r) = merge_status (tr_status r) (ch_status c)"
    by (simp add: add_channel_def Let_def)
  then show ?case using Cons [of "add_channel c r"] by (auto simp: merge_status_def split: option.splits)
qed (simp split: option.splits)

lemma fold_same_or_null:
  assumes "\<forall>p\<in>set ps. p \<noteq> Some (-1)" "p0 \<noteq> Some (-1)"
  shows "fold (\<lambda>p cur. same_or_null cur p) ps p0 = (if \<forall>p\<in>set ps. p = p0 then p0 else None)"
  using assms
proof (induction ps arbitrary: p0)
  case (Cons p ps)
  then show ?case by (auto simp: same_or_null_def)
qed simp

lemma fold_priority:
  "tr_priority (fold add_channel cs r) = fold (\<lambda>p cur. same_or_null cur p) (map priority cs) (tr_priority r)"
  "tr_weight (fold add_channel cs r) = fold (\<lambda>p cur. same_or_null cur p) (map weight cs) (tr_weight r)"
  by (induction cs arbitrary: r) (simp_all add: add_channel_def Let_def)

lemma split_on_concat: "split_on d (a @ d # b) = split_on d a @ split_on d b"
  by (induction a) (auto split: list.splits)

definition group_set :: "jsstring \<Rightarrow> jsstring set" where
  "group_set s = set (truthy_strs (split_on 44 s))"

lemma split_on_concat_groups:
  "\<forall>g\<in>set gs. 44 \<notin> set g \<Longrightarrow> split_on 44 (cur @ concat (map (\<lambda>g. 44 # g) gs)) = split_on 44 cur @ gs"
proof (induction gs rule: rev_induct)
  case (snoc g gs)
  then have "split_on 44 (cur @ concat (map ((#) 44) gs) @ 44 # g) = split_on 44 cur @ gs @ [g]"
    using split_on_concat [of 44 "cur @ concat (map ((#) 44) gs)" g] by (simp add: split_on_no_sep)
  then show ?case by simp
qed simp

lemma merge_groups_set: "group_set (merge_groups cur new) = group_set cur \<union> group_set new"
proof (cases "cur = []")
  case True
  then show ?thesis by (simp add: merge_groups_def group_set_def truthy_strs_def)
next
  case False
  let ?ns = "filter (\<lambda>g. g \<notin> group_set cur) (truthy_strs (split_on 44 new))"
  have "merge_groups cur new = cur @ concat (map (\<lambda>g. 44 # g) ?ns)"
  proof -
    have "concat (map (\<lambda>g. if P g then 44 # g else []) xs) = concat (map (\<lambda>g. 44 # g) (filter P xs))"
      for P and xs :: "jsstring list" by (induction xs) auto
    then show ?thesis using False by (simp add: merge_groups_def group_set_def Let_def)
  qed
  moreover have "\<forall>g\<in>set ?ns. 44 \<notin> set g" by (auto simp: truthy_strs_def dest: split_on_pieces)
  ultimately have "split_on 44 (merge_groups cur new) = split_on 44 cur @ ?ns"
    by (simp add: split_on_concat_groups)
  then show ?thesis by (auto simp: group_set_def truthy_strs_def)
qed

lemma fold_groups:
  "group_set (tr_group (fold add_channel cs r)) = group_set (tr_group r) \<union> (\<Union>c\<in>set cs. group_set (ch_group c))"
proof (induction cs arbitrary: r)
  case (Cons c cs)
  have "tr_group (add_channel c r) = merge_groups (tr_group r) (ch_group c)"
    by (simp add: add_channel_def Let_def)
  then show ?case using Cons [of "add_channel c r"] by (auto simp: merge_groups_set)
qed simp


lemma dedup_lines_set_of:
  "dedup_lines seen ls = foldl set_add seen (truthy_strs (map trim ls))"
  by (induction ls arbitrary: seen) (auto simp: truthy_strs_def set_add_def Let_def)

lemma dedup_eq: "dedup_lines [] ls = set_of (truthy_strs (map trim ls))"
  by (simp add: dedup_lines_set_of set_of_def)

lemma length_set_of: "length (set_of xs) \<le> length xs"
proof -
  have "length (foldl set_add acc xs) \<le> length acc + length xs" for acc
  proof (induction xs arbitrary: acc)
    case (Cons x xs)
    from Cons [of "set_add acc x"] show ?case by (auto simp: set_add_def split: if_splits)
  qed simp
  from this [of "[]"] show ?thesis by (simp add: set_of_def)
qed

subsection \<open>Properties\<close>

text \<open>
  Claim C40.  Tag aggregation is grouping: one row per tag, in the order in which the tags first
  occur, whose children are the channels of that tag in order; every row is what folding its
  own children gives, whatever channels of other tags lie between them.
\<close>

theorem aggregate_by_tag:
  "aggregateChannelsByTag cs = map (\<lambda>t. tag_row_of (with_tag t cs)) (tags_in_order cs) \<and>
   map tr_tag (aggregateChannelsByTag cs) = tags_in_order cs \<and>
   map tr_children (aggregateChannelsByTag cs) = map (\<lambda>t. with_tag t cs) (tags_in_order cs) \<and>
   sum_list (map tr_used_quota (aggregateChannelsByTag cs)) = sum_list (map used_quota cs)"
proof (intro conjI)
  have ts: "set (tags_in_order cs) = set (map tag_of cs)" "distinct (tags_in_order cs)"
    by (simp_all add: tags_in_order_def)
  show "map tr_tag (aggregateChannelsByTag cs) = tags_in_order cs"
    unfolding aggregate_group_by map_map comp_def
    using tr_tag_row_of [of _ cs] ts(1) by (intro map_idI) blast
  show "map tr_children (aggregateChannelsByTag cs) = map (\<lambda>t. with_tag t cs) (tags_in_order cs)"
    by (simp add: aggregate_group_by tag_row_of_def fold_children new_tag_row_def)
  have "sum_list (map (\<lambda>t. sum_list (map used_quota (with_tag t cs))) ts) = sum_list (map used_quota cs)"
    if "distinct ts" "set (map tag_of cs) \<subseteq> set ts" for ts
    using that
  proof (induction cs)
    case Nil
    then show ?case by (simp add: with_tag_def)
  next
    case (Cons c cs)
    have "sum_list (map (\<lambda>t. sum_list (map used_quota (with_tag t (c # cs)))) ts) =
        sum_list (map (\<lambda>t. (if t = tag_of c then used_quota c else 0) + sum_list (map used_quota (with_tag t cs))) ts)"
      by (rule arg_cong [where f = sum_list]) (simp add: with_tag_def)
    also have "\<dots> = sum_list (map (\<lambda>t. if t = tag_of c then used_quota c else 0) ts) +
        sum_list (map (\<lambda>t. sum_list (map used_quota (with_tag t cs))) ts)"
      by (simp add: sum_list_addf)
    also have "sum_list (map (\<lambda>t. if t = tag_of c then used_quota c else 0) ts) = used_quota c"
      using Cons.prems by (simp add: sum_list_distinct_conv_sum_set sum.delta)
    finally show ?case using Cons by simp
  qed
  from this [OF ts(2)] show "sum_list (map tr_used_quota (aggregateChannelsByTag cs)) = sum_list (map used_quota cs)"
    using ts(1) by (simp add: aggregate_group_by tag_row_of_def fold_used_quota new_tag_row_def comp_def)
qed (rule aggregate_group_by)

text \<open>
  The figures of a row: the quota is the sum over its channels and the response time
  their exact average; the row is enabled when one of its channels is, and otherwise has the
  status of the first; its groups are the union of theirs; priority and weight are the common
  value, or nothing when the channels differ, provided no channel uses the reserved value -1.
\<close>

theorem tag_row_figures:
  assumes "cs \<noteq> []" "\<forall>c\<in>set cs. priority c \<noteq> Some (-1) \<and> weight c \<noteq> Some (-1)"
  shows "tr_used_quota (tag_row_of cs) = sum_list (map used_quota cs) \<and>
    tr_response_time (tag_row_of cs) = sum_list (map response_time cs) / of_nat (length cs) \<and>
    tr_status (tag_row_of cs) = Some (if \<exists>c\<in>set cs. ch_status c = 1 then 1 else ch_status (hd cs)) \<and>
    group_set (tr_group (tag_row_of cs)) = (\<Union>c\<in>set cs. group_set (ch_group c)) \<and>
    tr_priority (tag_row_of cs) = (if \<forall>c\<in>set cs. priority c = priority (hd cs) then priority (hd cs) else None) \<and>
    tr_weight (tag_row_of cs) = (if \<forall>c\<in>set cs. weight c = weight (hd cs) then weight (hd cs) else None)"
proof -
  let ?r = "new_tag_row (hd cs)"
  obtain c ds where cs: "cs = c # ds" using assms(1) by (cases cs) auto
  have "tr_response_time (tag_row_of cs) * of_nat (length cs) = sum_list (map response_time cs)"
    using fold_response_time [of cs ?r] by (simp add: tag_row_of_def new_tag_row_def)
  then have "tr_response_time (tag_row_of cs) = sum_list (map response_time cs) / of_nat (length cs)"
    using cs by (simp add: eq_divide_eq)
  moreover have "fold (\<lambda>p cur. same_or_null cur p) (map f cs) (Some (-1)) =
      (if \<forall>c\<in>set cs. f c = f (hd cs) then f (hd cs) else None)"
    if "\<forall>c\<in>set cs. f c \<noteq> Some (-1)" for f :: "Channel \<Rightarrow> rat option"
    using that fold_same_or_null [of "map f ds" "f c"] cs by (auto simp: same_or_null_def)
  moreover have "group_set [] = {}" by (simp add: group_set_def truthy_strs_def)
  moreover have "tr_used_quota (tag_row_of cs) = sum_list (map used_quota cs)"
    unfolding tag_row_of_def fold_used_quota by (simp add: new_tag_row_def)
  moreover have "tr_status (tag_row_of cs) =
      Some (if \<exists>c\<in>set cs. ch_status c = 1 then 1 else ch_status (hd cs))"
    unfolding tag_row_of_def fold_status using cs by (simp add: new_tag_row_def)
  ultimately show ?thesis
    using assms(2) unfolding tag_row_of_def fold_priority fold_groups by (simp add: new_tag_row_def)
qed


definition demo_channel :: "rat \<Rightarrow> rat \<Rightarrow> Channel" where
  "demo_channel quota prio =
     \<lparr>ch_id = 1, ch_type = 1, ch_key = js ''sk'', openai_organization = None, test_model = None,
      ch_status = 2, ch_name = js ''a'', weight = None, created_time = 0, test_time = 0,
      response_time = 300, base_url = None, ch_other = [], balance = 0, balance_updated_time = 0,
      ch_models = js ''gpt-4'', ch_group = js ''default,vip'', used_quota = quota, model_mapping = None,
      status_code_mapping = None, priority = Some prio, auto_ban = None, other_info = [],
      ch_tag = Some (js ''prod''), setting = None, param_override = None, header_override = None,
      remark = [], max_input_tokens = 0, channel_info = None, settings = js ''{}''\<rparr>"

theorem tag_row_figures_witness:
  "tr_used_quota (tag_row_of [demo_channel 2 0, demo_channel 5 1]) = 7 \<and>
   tr_response_time (tag_row_of [demo_channel 2 0, demo_channel 5 1]) = 300 \<and>
   tr_priority (tag_row_of [demo_channel 2 0, demo_channel 5 1]) = None"
  using tag_row_figures [of "[demo_channel 2 0, demo_channel 5 1]"]
  by (simp add: demo_channel_def)

text \<open>
  The reserved value: with the priorities -1 and 5 the row shows 5, although they differ.
\<close>

lemma reserved_priority_is_lost:
  "tr_priority (tag_row_of [demo_channel 2 (-1), demo_channel 5 5]) = Some 5"
  unfolding tag_row_of_def fold_priority
  by (simp add: new_tag_row_def demo_channel_def same_or_null_def)

text \<open>A group that one channel lists twice is added twice when it is new to the row.\<close>

lemma merge_groups_repeats: "merge_groups (js ''a'') (js ''b,b'') = js ''a,b,b''"
  by code_simp

lemma clean_keys_stable:
  assumes "\<forall>k\<in>set ks. k \<noteq> [] \<and> trim k = k \<and> 10 \<notin> set k" "distinct ks"
  shows "set_of (truthy_strs (map trim (split_on 10 (join [10] ks)))) = ks"
proof (cases "ks = []")
  case True
  then show ?thesis by (simp add: truthy_strs_def set_of_def)
next
  case False
  have "split_on 10 (join [10] ks) = ks" using assms(1) False by (intro split_join) auto
  moreover have "map trim ks = ks" using assms(1) by (simp add: map_idI)
  moreover have "truthy_strs ks = ks" using assms(1) by (simp add: truthy_strs_def)
  ultimately show ?thesis using foldl_set_add_disjoint [of ks "[]"] assms(2) by (simp add: set_of_def)
qed

text \<open>
  Key deduplication keeps each trimmed, non-empty key once, in the order of first
  occurrence; the counts add up and never exceed the number of lines; deduplicating the result
  again changes nothing.
\<close>

theorem deduplicate_keys:
  "let d = deduplicateKeys s; ks = set_of (truthy_strs (map trim (split_on 10 s))) in
     deduplicatedText d = join [10] ks \<and> afterCount d = length ks \<and>
     int (beforeCount d) - int (afterCount d) = removedCount d \<and> afterCount d \<le> beforeCount d \<and>
     deduplicatedText (deduplicateKeys (deduplicatedText d)) = deduplicatedText d"
proof -
  let ?ks = "set_of (truthy_strs (map trim (split_on 10 s)))"
  have blank: "?ks = []" if "trim s = []"
  proof -
    have "trim p = []" if "p \<in> set (split_on 10 s)" for p
      using split_on_pieces [OF that] \<open>trim s = []\<close> by (auto simp: trim_eq_Nil)
    then show ?thesis by (simp add: truthy_strs_def set_of_def filter_empty_conv)
  qed
  have dt: "deduplicatedText (deduplicateKeys t) = join [10] (set_of (truthy_strs (map trim (split_on 10 t))))"
    for t
  proof (cases "t = [] \<or> trim t = []")
    case True
    then have "\<forall>p\<in>set (split_on 10 t). trim p = []"
      using split_on_pieces [of _ 10 t] by (auto simp: trim_eq_Nil)
    then show ?thesis using True by (simp add: deduplicateKeys_def truthy_strs_def set_of_def filter_empty_conv)
  qed (simp add: deduplicateKeys_def Let_def dedup_eq)
  have le: "length ?ks \<le> length (split_on 10 s)"
    using length_set_of [of "truthy_strs (map trim (split_on 10 s))"]
    by (metis truthy_strs_def length_filter_le length_map order_trans)
  have clean: "\<forall>k\<in>set ?ks. k \<noteq> [] \<and> trim k = k \<and> 10 \<notin> set k"
    by (auto simp: truthy_strs_def dest!: split_on_pieces) (metis set_trim_subset subsetD)
  have again: "set_of (truthy_strs (map trim (split_on 10 (join [10] ?ks)))) = ?ks"
    using clean by (rule clean_keys_stable) simp
  have none: "set_of (truthy_strs [[]]) = []" by (simp add: truthy_strs_def set_of_def)
  have counts: "afterCount (deduplicateKeys s) = length ?ks"
    "int (beforeCount (deduplicateKeys s)) - int (afterCount (deduplicateKeys s)) =
       removedCount (deduplicateKeys s)"
    "afterCount (deduplicateKeys s) \<le> beforeCount (deduplicateKeys s)"
    using blank le by (simp_all add: deduplicateKeys_def Let_def dedup_eq none)
  show ?thesis unfolding Let_def dt again by (intro conjI refl counts)
qed

text \<open>
  The masked form of a single key of more than 16 characters reveals its first and last
  eight characters and nothing else: it has 19 characters, and two keys that agree there are
  shown alike, whatever lies between.
\<close>

theorem masked_key_hides_middle:
  assumes "length a = 8" "length b = 8" "m \<noteq> []" "m' \<noteq> []"
  shows "formatChannelKey (a @ m @ b) False = formatChannelKey (a @ m' @ b) False \<and>
    formatChannelKey (a @ m @ b) False = a @ js ''...'' @ b"
  using assms by (cases m; cases m') (auto simp: formatChannelKey_def slice_last_def)

theorem masked_key_hides_middle_witness:
  "formatChannelKey (js ''sk-abcde'' @ js ''SECRET'' @ js ''12345678'') False = js ''sk-abcde...12345678''"
  using masked_key_hides_middle [of "js ''sk-abcde''" "js ''12345678''" "js ''SECRET''" "js ''x''",
      THEN conjunct2]
  by (simp add: js_lits)

text \<open>A key of eight characters is shown completely.\<close>

lemma short_key_is_shown: "length a = 4 \<Longrightarrow> length b = 4 \<Longrightarrow> formatChannelKey (a @ b) False = a @ js ''...'' @ b"
  by (auto simp: formatChannelKey_def slice_last_def)

text \<open>
  The attention flag and the attention reason agree, and the reason names the first of
  the three conditions that holds.
\<close>

theorem attention_flag_and_reason:
  "(channelNeedsAttention c \<longleftrightarrow> getAttentionReason c \<noteq> None) \<and>
   (getAttentionReason c = Some (js ''All keys disabled'') \<longleftrightarrow>
      ch_status c \<noteq> 3 \<and> \<not> (0 < balance c \<and> balance c < 1) \<and> all_keys_disabled c)"
  by (simp add: channelNeedsAttention_def getAttentionReason_def js_lits)

text \<open>
  The type selector offers every channel type except the unknown one exactly once, each
  with the label of the type table, the preferred types first and in their order.
\<close>

theorem type_options_complete:
  "distinct (map fst CHANNEL_TYPE_OPTIONS) \<and>
   set (map fst CHANNEL_TYPE_OPTIONS) = set (map fst CHANNEL_TYPES) - {0} \<and>
   list_all (\<lambda>(i, label). getChannelTypeLabel i = label) CHANNEL_TYPE_OPTIONS \<and>
   take (length CHANNEL_TYPE_DISPLAY_ORDER) (map fst CHANNEL_TYPE_OPTIONS) = CHANNEL_TYPE_DISPLAY_ORDER"
proof (intro conjI)
  show "distinct (map fst CHANNEL_TYPE_OPTIONS)" by code_simp
  show "set (map fst CHANNEL_TYPE_OPTIONS) = set (map fst CHANNEL_TYPES) - {0}" by code_simp
  show "list_all (\<lambda>(i, label). getChannelTypeLabel i = label) CHANNEL_TYPE_OPTIONS" by code_simp
  show "take (length CHANNEL_TYPE_DISPLAY_ORDER) (map fst CHANNEL_TYPE_OPTIONS) = CHANNEL_TYPE_DISPLAY_ORDER"
    by code_simp
qed

text \<open>
  The group list of a channel is a reordering of the trimmed, non-empty entries; when the
  locale comparison is consistent the result is sorted by it behind the group \<open>default\<close>, which
  comes first whenever it is there.
\<close>

theorem groups_list_sorted:
  assumes "comparator lc" "js ''default'' \<in> set (parseGroupsList lc s)" "s \<noteq> []"
  shows "mset (parseGroupsList lc s) = mset (truthy_strs (map trim (split_on 44 s))) \<and>
    hd (parseGroupsList lc s) = js ''default'' \<and>
    sorted_wrt (\<lambda>a b. lc a b \<le> 0) (filter (\<lambda>g. g \<noteq> js ''default'') (parseGroupsList lc s))"
proof -
  let ?d = "js ''default''"
  let ?cmp = "group_compare lc"
  let ?ok = "\<lambda>xs. (\<exists>n ys. xs = replicate n ?d @ ys \<and> ?d \<notin> set ys \<and> sorted_wrt (\<lambda>a b. lc a b \<le> 0) ys)"
  have ins: "?ok (sort_insert ?cmp x xs)" if "?ok xs" for x xs
  proof -
    from that obtain n ys where xs: "xs = replicate n ?d @ ys" "?d \<notin> set ys" "sorted_wrt (\<lambda>a b. lc a b \<le> 0) ys"
      by blast
    show ?thesis
    proof (cases "x = ?d")
      case True
      have "sort_insert ?cmp ?d zs = ?d # zs" for zs
        by (cases zs) (simp_all add: group_compare_def)
      then show ?thesis using xs True by (intro exI [of _ "Suc n"] exI [of _ ys]) simp
    next
      case False
      have skip: "sort_insert ?cmp x (replicate n ?d @ ys) = replicate n ?d @ sort_insert ?cmp x ys"
        using False by (induction n) (simp_all add: group_compare_def)
      have same: "sort_insert ?cmp x ys = sort_insert lc x ys" if "?d \<notin> set ys" for ys
        using that False by (induction ys) (auto simp: group_compare_def)
      have set: "set (sort_insert lc x ys) = insert x (set ys)"
        by (metis mset_sort_insert set_mset_add_mset_insert set_mset_mset)
      have "sorted_wrt (\<lambda>a b. lc a b \<le> 0) (sort_insert lc x ys)"
        using sorted_sort_insert [OF assms(1) xs(3)] .
      then show ?thesis
        using xs False set unfolding xs(1) skip same [OF xs(2)] by (intro exI [of _ n]) auto
    qed
  qed
  have "?ok (fold (sort_insert ?cmp) zs acc)" if "?ok acc" for zs acc
    using that by (induction zs arbitrary: acc) (use ins in \<open>simp_all only: fold_simps\<close>)
  then have "?ok (parseGroupsList lc s)"
    using assms(3) by (simp add: parseGroupsList_def js_sort_def)
  then obtain n ys where g: "parseGroupsList lc s = replicate n ?d @ ys" "?d \<notin> set ys"
    "sorted_wrt (\<lambda>a b. lc a b \<le> 0) ys" by blast
  moreover have "n \<noteq> 0" using assms(2) g by auto
  moreover have "filter (\<lambda>g. g \<noteq> ?d) (replicate n ?d @ ys) = ys"
    using g(2) by (auto simp: filter_id_conv)
  moreover have "mset (parseGroupsList lc s) = mset (truthy_strs (map trim (split_on 44 s)))"
    using assms(3) by (simp add: parseGroupsList_def)
  ultimately show ?thesis by (metis hd_append2 hd_replicate replicate_empty)
qed

text \<open>A witness: groups compared by length.\<close>

theorem groups_list_sorted_witness:
  "hd (parseGroupsList (\<lambda>a b. int (length a) - int (length b)) (js ''vip, default ,b'')) = js ''default''"
proof -
  have "comparator (\<lambda>a b :: jsstring. int (length a) - int (length b))" by (auto simp: comparator_def)
  moreover have "js ''default'' \<in> set (parseGroupsList (\<lambda>a b. int (length a) - int (length b)) (js ''vip, default ,b''))"
    by code_simp
  ultimately show ?thesis using groups_list_sorted [of "\<lambda>a b. int (length a) - int (length b)" "js ''vip, default ,b''"]
    by simp
qed

end
