(* ===== verification/ChannelForm.thy ===== *)
theory ChannelForm
  imports Channels JsNumber StatusRisk
begin

section \<open>The channel form\<close>

text \<open>
  Models \<^verbatim>\<open>web/default/src/features/channels/lib/channel-form.ts\<close>: the validators of the JSON
  fields, the cross-field checks of the schema, the default values, the transformation of a
  channel into form values and of form values into the payloads for creating and updating a
  channel, with the two embedded JSON documents \<^verbatim>\<open>setting\<close> and \<^verbatim>\<open>settings\<close>.

  A form field is \<open>None\<close> when it is \<open>undefined\<close>.  Fields that are filled from parsed JSON hold
  whatever the JSON held, so they are JSON values.  A payload is the association list of its
  properties, in the order of the object literal.  A \<open>TypeError\<close> is \<open>None\<close>.  The per-field
  checks of the validation library other than the refinements are not modelled.
\<close>

subsection \<open>Validators\<close>

datatype optional_json = JsonInvalid | JsonUndefined | JsonValue jsval

definition parseOptionalJson :: "jsstring option \<Rightarrow> optional_json" where
  "parseOptionalJson v =
     (case v of
        None \<Rightarrow> JsonUndefined
      | Some s \<Rightarrow>
          if trim s = [] then JsonUndefined
          else case JSON_parse s of None \<Rightarrow> JsonInvalid | Some x \<Rightarrow> JsonValue x)"

definition isJsonObjectValue :: "jsval \<Rightarrow> bool" where
  "isJsonObjectValue v = (case v of JObj _ \<Rightarrow> True | _ \<Rightarrow> False)"

definition isOptionalJsonObject :: "jsstring option \<Rightarrow> bool" where
  "isOptionalJsonObject v =
     (case parseOptionalJson v of
        JsonInvalid \<Rightarrow> False
      | JsonUndefined \<Rightarrow> True
      | JsonValue x \<Rightarrow> isJsonObjectValue x)"

definition is_string :: "jsval \<Rightarrow> bool" where
  "is_string v = (case v of JStr _ \<Rightarrow> True | _ \<Rightarrow> False)"

definition isOptionalModelMapping :: "jsstring option \<Rightarrow> bool" where
  "isOptionalModelMapping v =
     (case parseOptionalJson v of
        JsonInvalid \<Rightarrow> False
      | JsonUndefined \<Rightarrow> True
      | JsonValue (JObj ps) \<Rightarrow> list_all (\<lambda>(k, item). is_string item) ps
      | JsonValue _ \<Rightarrow> False)"

definition http_code :: "rat option \<Rightarrow> bool" where
  "http_code x \<longleftrightarrow> is_integer x \<and> 100 \<le> nullish x 0 \<and> nullish x 0 \<le> 599"

definition isOptionalStatusCodeMapping :: "jsstring option \<Rightarrow> bool" where
  "isOptionalStatusCodeMapping v =
     (case parseOptionalJson v of
        JsonInvalid \<Rightarrow> False
      | JsonUndefined \<Rightarrow> True
      | JsonValue (JObj ps) \<Rightarrow> list_all (\<lambda>(k, t). http_code (to_number_str k) \<and> http_code (to_number t)) ps
      | JsonValue _ \<Rightarrow> False)"

definition nonblank_prop :: "(jsstring \<times> jsval) list \<Rightarrow> jsstring \<Rightarrow> bool" where
  "nonblank_prop ps k =
     (case obj_get ps k of Some (JStr s) \<Rightarrow> 0 < length (trim s) | _ \<Rightarrow> False)"

definition isCodexCredential :: "jsstring option \<Rightarrow> bool" where
  "isCodexCredential v =
     (case parseOptionalJson v of
        JsonInvalid \<Rightarrow> False
      | JsonUndefined \<Rightarrow> True
      | JsonValue (JObj ps) \<Rightarrow> nonblank_prop ps (js ''access_token'') \<and> nonblank_prop ps (js ''account_id'')
      | JsonValue _ \<Rightarrow> False)"

definition isVertexJsonKey :: "jsstring option \<Rightarrow> bool" where
  "isVertexJsonKey v =
     (case parseOptionalJson v of
        JsonInvalid \<Rightarrow> False
      | JsonUndefined \<Rightarrow> True
      | JsonValue (JArr items) \<Rightarrow> list_all isJsonObjectValue items
      | JsonValue x \<Rightarrow> isJsonObjectValue x)"

definition validateJSON :: "jsstring \<Rightarrow> bool" where
  "validateJSON v \<longleftrightarrow> v = [] \<or> trim v = [] \<or> JSON_parse v \<noteq> None"

definition validateModelMapping :: "jsstring \<Rightarrow> bool" where
  "validateModelMapping v \<longleftrightarrow> v = [] \<or> trim v = [] \<or> validateJSON v"

subsection \<open>Form values\<close>

datatype AddMode = SingleMode | BatchMode | MultiToSingleMode
datatype KeyMode = AppendKeys | ReplaceKeys

record ChannelFormValues =
  fv_name :: jsstring
  fv_type :: int
  fv_base_url :: "jsstring option"
  fv_key :: jsstring
  fv_openai_organization :: "jsstring option"
  fv_models :: jsstring
  fv_group :: "jsstring list"
  fv_model_mapping :: "jsstring option"
  fv_priority :: "rat option"
  fv_weight :: "rat option"
  fv_test_model :: "jsstring option"
  fv_auto_ban :: "rat option"
  fv_status :: int
  fv_status_code_mapping :: "jsstring option"
  fv_tag :: "jsstring option"
  fv_remark :: "jsstring option"
  fv_setting :: "jsstring option"
  fv_param_override :: "jsstring option"
  fv_header_override :: "jsstring option"
  fv_settings :: "jsstring option"
  fv_other :: "jsstring option"
  fv_multi_key_mode :: "AddMode option"
  fv_multi_key_type :: "MultiKeyMode option"
  fv_batch_add_set_key_prefix_2_name :: "bool option"
  fv_key_mode :: "KeyMode option"
  fv_force_format :: "jsval option"
  fv_thinking_to_content :: "jsval option"
  fv_proxy :: "jsval option"
  fv_pass_through_body_enabled :: "jsval option"
  fv_system_prompt :: "jsval option"
  fv_system_prompt_override :: "jsval option"
  fv_is_enterprise_account :: "bool option"
  fv_vertex_key_type :: "jsval option"
  fv_aws_key_type :: "jsval option"
  fv_azure_responses_version :: "jsval option"
  fv_allow_service_tier :: "bool option"
  fv_disable_store :: "bool option"
  fv_allow_safety_identifier :: "bool option"
  fv_allow_include_obfuscation :: "bool option"
  fv_allow_inference_geo :: "bool option"
  fv_allow_speed :: "bool option"
  fv_claude_beta_query :: "bool option"
  fv_upstream_check_enabled :: "bool option"
  fv_upstream_auto_sync_enabled :: "bool option"
  fv_upstream_ignored_models :: "jsstring option"

definition CHANNEL_FORM_DEFAULT_VALUES :: ChannelFormValues where
  "CHANNEL_FORM_DEFAULT_VALUES =
     \<lparr>fv_name = [], fv_type = 1, fv_base_url = Some [], fv_key = [], fv_openai_organization = Some [],
      fv_models = [], fv_group = [js ''default''], fv_model_mapping = Some [], fv_priority = Some 0,
      fv_weight = Some 0, fv_test_model = Some [], fv_auto_ban = Some 1, fv_status = 1,
      fv_status_code_mapping = Some [], fv_tag = Some [], fv_remark = Some [], fv_setting = Some [],
      fv_param_override = Some [], fv_header_override = Some [], fv_settings = Some (js ''{}''),
      fv_other = Some [], fv_multi_key_mode = Some SingleMode, fv_multi_key_type = Some RandomMode,
      fv_batch_add_set_key_prefix_2_name = Some False, fv_key_mode = Some AppendKeys,
      fv_force_format = Some (JBool False), fv_thinking_to_content = Some (JBool False),
      fv_proxy = Some (JStr []), fv_pass_through_body_enabled = Some (JBool False),
      fv_system_prompt = Some (JStr []), fv_system_prompt_override = Some (JBool False),
      fv_is_enterprise_account = Some False, fv_vertex_key_type = Some (JStr (js ''json'')),
      fv_aws_key_type = Some (JStr (js ''ak_sk'')), fv_azure_responses_version = Some (JStr []),
      fv_allow_service_tier = Some False, fv_disable_store = Some False,
      fv_allow_safety_identifier = Some False, fv_allow_include_obfuscation = Some False,
      fv_allow_inference_geo = Some False, fv_allow_speed = Some False,
      fv_claude_beta_query = Some False, fv_upstream_check_enabled = Some False,
      fv_upstream_auto_sync_enabled = Some False, fv_upstream_ignored_models = Some []\<rparr>"

text \<open>The cross-field checks: the issues added, as the path and the message.\<close>

definition blank :: "jsstring option \<Rightarrow> bool" where
  "blank v = (case v of None \<Rightarrow> True | Some s \<Rightarrow> trim s = [])"

definition batch_mode :: "ChannelFormValues \<Rightarrow> bool" where
  "batch_mode d = (case fv_multi_key_mode d of None \<Rightarrow> False | Some m \<Rightarrow> m \<noteq> SingleMode)"

definition channel_form_issues :: "ChannelFormValues \<Rightarrow> (jsstring \<times> jsstring) list" where
  "channel_form_issues d =
     (if fv_type d \<in> {3, 8, 36, 45} \<and> blank (fv_base_url d)
      then [(js ''base_url'', js ''Base URL is required for this channel type'')] else []) @
     (if fv_type d \<in> {3, 18, 21, 39, 41, 49} \<and> blank (fv_other d)
      then [(js ''other'', js ''This channel type requires additional configuration'')] else []) @
     (if fv_type d = 57
      then (if batch_mode d
            then [(js ''multi_key_mode'', js ''Codex channels do not support batch creation'')] else []) @
           (if trim (fv_key d) \<noteq> [] \<and> \<not> isCodexCredential (Some (fv_key d))
            then [(js ''key'', js ''Codex credential must be a JSON object with access_token and account_id'')]
            else [])
      else []) @
     (if fv_type d = 41 \<and> fv_vertex_key_type d = Some (JStr (js ''json'')) \<and> trim (fv_key d) \<noteq> [] \<and>
         \<not> isVertexJsonKey (Some (fv_key d))
      then [(js ''key'', js ''Vertex AI service account key must be valid JSON'')] else []) @
     (if fv_type d = 41 \<and> fv_vertex_key_type d = Some (JStr (js ''api_key'')) \<and> batch_mode d
      then [(js ''multi_key_mode'', js ''Vertex AI API Key mode does not support batch creation'')] else [])"

subsection \<open>From a channel to the form\<close>

record extra_settings =
  es_force_format :: jsval
  es_thinking_to_content :: jsval
  es_proxy :: jsval
  es_pass_through_body_enabled :: jsval
  es_system_prompt :: jsval
  es_system_prompt_override :: jsval

definition default_extra :: extra_settings where
  "default_extra =
     \<lparr>es_force_format = JBool False, es_thinking_to_content = JBool False, es_proxy = JStr [],
      es_pass_through_body_enabled = JBool False, es_system_prompt = JStr [],
      es_system_prompt_override = JBool False\<rparr>"

text \<open>The value a settings document holds: \<open>None\<close> when the text is empty, no JSON, or \<open>null\<close>,
  whose properties cannot be read.\<close>

definition settings_value :: "jsstring \<Rightarrow> jsval option" where
  "settings_value s = (if s = [] then None else case JSON_parse s of Some JNull \<Rightarrow> None | v \<Rightarrow> v)"

definition parse_extra :: "jsstring \<Rightarrow> extra_settings" where
  "parse_extra s =
     (case settings_value s of
        None \<Rightarrow> default_extra
      | Some v \<Rightarrow>
          \<lparr>es_force_format = or_val (js_prop v (js ''force_format'')) (JBool False),
           es_thinking_to_content = or_val (js_prop v (js ''thinking_to_content'')) (JBool False),
           es_proxy = or_val (js_prop v (js ''proxy'')) (JStr []),
           es_pass_through_body_enabled =
             or_val (js_prop v (js ''pass_through_body_enabled'')) (JBool False),
           es_system_prompt = or_val (js_prop v (js ''system_prompt'')) (JStr []),
           es_system_prompt_override = or_val (js_prop v (js ''system_prompt_override'')) (JBool False)\<rparr>)"

definition is_true :: "jsval option \<Rightarrow> string \<Rightarrow> bool" where
  "is_true v k = (Option.bind v (\<lambda>p. js_prop p (js k)) = Some (JBool True))"

definition prop_or :: "jsval option \<Rightarrow> string \<Rightarrow> string \<Rightarrow> jsval" where
  "prop_or v k d = or_val (Option.bind v (\<lambda>p. js_prop p (js k))) (JStr (js d))"

definition ignored_models_text :: "jsval option \<Rightarrow> jsstring" where
  "ignored_models_text v =
     (case Option.bind v (\<lambda>p. js_prop p (js ''upstream_model_update_ignored_models'')) of
        Some (JArr items) \<Rightarrow> to_str (JArr items)
      | _ \<Rightarrow> [])"

definition str_or :: "jsstring option \<Rightarrow> jsstring \<Rightarrow> jsstring" where
  "str_or v d = (case v of None \<Rightarrow> d | Some s \<Rightarrow> if s = [] then d else s)"

definition transformChannelToFormDefaults :: "Channel \<Rightarrow> ChannelFormValues option" where
  "transformChannelToFormDefaults channel =
     (let extra = parse_extra (nullish (setting channel) []);
          other = settings_value (settings channel)
      in case channel_info channel of
           None \<Rightarrow> None
         | Some info \<Rightarrow> Some
     \<lparr>fv_name = ch_name channel, fv_type = ch_type channel, fv_base_url = Some (str_or (base_url channel) []),
      fv_key = [], fv_openai_organization = Some (str_or (openai_organization channel) []),
      fv_models = ch_models channel,
      fv_group = parseGroups (if ch_group channel = [] then js ''default'' else ch_group channel),
      fv_model_mapping = Some (str_or (model_mapping channel) []),
      fv_priority = Some (nullish (priority channel) 0), fv_weight = Some (nullish (weight channel) 0),
      fv_test_model = Some (str_or (test_model channel) []),
      fv_auto_ban = Some (nullish (auto_ban channel) 1), fv_status = ch_status channel,
      fv_status_code_mapping = Some (str_or (status_code_mapping channel) []),
      fv_tag = Some (str_or (ch_tag channel) []), fv_remark = Some (remark channel),
      fv_setting = Some (str_or (setting channel) []),
      fv_param_override = Some (str_or (param_override channel) []),
      fv_header_override = Some (str_or (header_override channel) []),
      fv_settings = Some (if settings channel = [] then js ''{}'' else settings channel),
      fv_other = Some (ch_other channel), fv_multi_key_mode = Some SingleMode,
      fv_multi_key_type = Some (multi_key_mode info), fv_batch_add_set_key_prefix_2_name = Some False,
      fv_key_mode = Some AppendKeys,
      fv_force_format = Some (es_force_format extra),
      fv_thinking_to_content = Some (es_thinking_to_content extra),
      fv_proxy = Some (es_proxy extra),
      fv_pass_through_body_enabled = Some (es_pass_through_body_enabled extra),
      fv_system_prompt = Some (es_system_prompt extra),
      fv_system_prompt_override = Some (es_system_prompt_override extra),
      fv_is_enterprise_account = Some (is_true other ''openrouter_enterprise''),
      fv_vertex_key_type = Some (prop_or other ''vertex_key_type'' ''json''),
      fv_aws_key_type = Some (prop_or other ''aws_key_type'' ''ak_sk''),
      fv_azure_responses_version = Some (prop_or other ''azure_responses_version'' []),
      fv_allow_service_tier = Some (is_true other ''allow_service_tier''),
      fv_disable_store = Some (is_true other ''disable_store''),
      fv_allow_safety_identifier = Some (is_true other ''allow_safety_identifier''),
      fv_allow_include_obfuscation = Some (is_true other ''allow_include_obfuscation''),
      fv_allow_inference_geo = Some (is_true other ''allow_inference_geo''),
      fv_allow_speed = Some (is_true other ''allow_speed''),
      fv_claude_beta_query = Some (is_true other ''claude_beta_query''),
      fv_upstream_check_enabled = Some (is_true other ''upstream_model_update_check_enabled''),
      fv_upstream_auto_sync_enabled = Some (is_true other ''upstream_model_update_auto_sync_enabled''),
      fv_upstream_ignored_models = Some (ignored_models_text other)\<rparr>)"

subsection \<open>The settings documents\<close>

definition setting_object :: "ChannelFormValues \<Rightarrow> (jsstring \<times> jsval) list" where
  "setting_object d =
     [(js ''force_format'', or_val (fv_force_format d) (JBool False)),
      (js ''thinking_to_content'', or_val (fv_thinking_to_content d) (JBool False)),
      (js ''proxy'', or_val (fv_proxy d) (JStr [])),
      (js ''pass_through_body_enabled'', or_val (fv_pass_through_body_enabled d) (JBool False)),
      (js ''system_prompt'', or_val (fv_system_prompt d) (JStr [])),
      (js ''system_prompt_override'', or_val (fv_system_prompt_override d) (JBool False))]"

definition buildSettingJSON :: "ChannelFormValues \<Rightarrow> jsstring" where
  "buildSettingJSON d = JSON_stringify (JObj (setting_object d))"

text \<open>One property of the settings: assigned when the channel type has it, deleted otherwise.\<close>

definition put_or_delete :: "bool \<Rightarrow> string \<Rightarrow> jsval \<Rightarrow> (jsstring \<times> jsval) list \<Rightarrow> (jsstring \<times> jsval) list" where
  "put_or_delete c k v ps = (if c then obj_put (js k) v ps else obj_delete (js k) ps)"

definition flag :: "bool option \<Rightarrow> jsval" where
  "flag b = JBool (b = Some True)"

definition type_settings :: "ChannelFormValues \<Rightarrow> (jsstring \<times> jsval) list \<Rightarrow> (jsstring \<times> jsval) list" where
  "type_settings d ps0 =
     (let ty = fv_type d;
          ps1 = put_or_delete (ty = 41) ''vertex_key_type''
                  (or_val (fv_vertex_key_type d) (JStr (js ''json''))) ps0;
          ps2 = put_or_delete (ty = 3 \<and> truthy_opt (fv_azure_responses_version d))
                  ''azure_responses_version'' (nullish (fv_azure_responses_version d) JNull) ps1;
          ps3 = put_or_delete (ty = 20) ''openrouter_enterprise'' (flag (fv_is_enterprise_account d)) ps2;
          ps4 = put_or_delete (ty = 33) ''aws_key_type''
                  (or_val (fv_aws_key_type d) (JStr (js ''ak_sk''))) ps3;
          ps5 = put_or_delete (ty = 1 \<or> ty = 14) ''allow_service_tier''
                  (flag (fv_allow_service_tier d)) ps4;
          ps6 = put_or_delete (ty = 1) ''disable_store'' (flag (fv_disable_store d)) ps5;
          ps7 = put_or_delete (ty = 1) ''allow_safety_identifier''
                  (flag (fv_allow_safety_identifier d)) ps6;
          ps8 = put_or_delete (ty = 1) ''allow_include_obfuscation''
                  (flag (fv_allow_include_obfuscation d)) ps7;
          ps9 = (if ty = 1 then obj_put (js ''allow_inference_geo'') (flag (fv_allow_inference_geo d)) ps8
                 else if ty \<noteq> 14 then obj_delete (js ''allow_inference_geo'') ps8 else ps8);
          ps10 = (if ty = 14 then obj_put (js ''allow_inference_geo'') (flag (fv_allow_inference_geo d)) ps9
                  else ps9);
          ps11 = put_or_delete (ty = 14) ''allow_speed'' (flag (fv_allow_speed d)) ps10
      in put_or_delete (ty = 14) ''claude_beta_query'' (flag (fv_claude_beta_query d)) ps11)"

definition is_array :: "jsval option \<Rightarrow> bool" where
  "is_array v = (case v of Some (JArr _) \<Rightarrow> True | _ \<Rightarrow> False)"

definition is_number :: "jsval option \<Rightarrow> bool" where
  "is_number v = (case v of Some (JNum _) \<Rightarrow> True | _ \<Rightarrow> False)"

definition ignored_models :: "ChannelFormValues \<Rightarrow> jsstring list" where
  "ignored_models d =
     set_of (truthy_strs (map trim (split_on 44 (nullish (fv_upstream_ignored_models d) []))))"

definition upstream_settings :: "ChannelFormValues \<Rightarrow> (jsstring \<times> jsval) list \<Rightarrow> (jsstring \<times> jsval) list" where
  "upstream_settings d ps0 =
     (if fv_type d \<notin> set MODEL_FETCHABLE_TYPES then ps0
      else
        let check = fv_upstream_check_enabled d = Some True;
            ps1 = obj_put (js ''upstream_model_update_check_enabled'') (JBool check) ps0;
            ps2 = obj_put (js ''upstream_model_update_auto_sync_enabled'')
                    (JBool (check \<and> fv_upstream_auto_sync_enabled d = Some True)) ps1;
            ps3 = obj_put (js ''upstream_model_update_ignored_models'')
                    (JArr (map JStr (ignored_models d))) ps2;
            ps4 = (if \<not> is_array (obj_get ps3 (js ''upstream_model_update_last_detected_models'')) \<or> \<not> check
                   then obj_put (js ''upstream_model_update_last_detected_models'') (JArr []) ps3 else ps3)
        in if \<not> is_number (obj_get ps4 (js ''upstream_model_update_last_check_time''))
           then obj_put (js ''upstream_model_update_last_check_time'') (JNum 0) ps4 else ps4)"

text \<open>The existing settings: an object, an array (whose named properties \<open>JSON.stringify\<close> leaves
  out), or another value, on which assigning or testing a property throws.\<close>

definition existing_settings :: "ChannelFormValues \<Rightarrow> jsval" where
  "existing_settings d =
     (case fv_settings d of
        None \<Rightarrow> JObj []
      | Some s \<Rightarrow> if s = [] \<or> s = js ''{}'' then JObj [] else nullish (JSON_parse s) (JObj []))"

definition buildSettingsJSON :: "ChannelFormValues \<Rightarrow> jsstring option" where
  "buildSettingsJSON d =
     (case existing_settings d of
        JObj ps \<Rightarrow> Some (JSON_stringify (JObj (upstream_settings d (type_settings d ps))))
      | JArr vs \<Rightarrow> Some (JSON_stringify (JArr vs))
      | _ \<Rightarrow> None)"

subsection \<open>Payloads\<close>

definition strip_slashes :: "jsstring \<Rightarrow> jsstring" where
  "strip_slashes s = rev (dropWhile (\<lambda>c. c = 47) (rev s))"

definition normalizeBaseUrl :: "jsstring option \<Rightarrow> jsstring" where
  "normalizeBaseUrl v = strip_slashes (trim (nullish v []))"

definition or_null :: "jsstring \<Rightarrow> jsval" where
  "or_null s = (if s = [] then JNull else JStr s)"

definition num_or_null :: "rat option \<Rightarrow> jsval" where
  "num_or_null x = (case x of None \<Rightarrow> JNull | Some r \<Rightarrow> if r = 0 then JNull else JNum r)"

definition num_or_zero :: "rat option \<Rightarrow> jsval" where
  "num_or_zero x = JNum (nullish x 0)"

type_synonym payload = "(jsstring \<times> jsval) list"

text \<open>The properties the two payloads share, around the priority and the weight.\<close>

definition payload_tail :: "ChannelFormValues \<Rightarrow> jsstring \<Rightarrow> payload" where
  "payload_tail d settingsJson =
     [(js ''test_model'', or_null (str_or (fv_test_model d) [])),
      (js ''auto_ban'', JNum (nullish (fv_auto_ban d) 1)),
      (js ''status'', JNum (of_int (fv_status d))),
      (js ''status_code_mapping'', or_null (str_or (fv_status_code_mapping d) [])),
      (js ''tag'', or_null (str_or (fv_tag d) [])),
      (js ''remark'', JStr (str_or (fv_remark d) [])),
      (js ''setting'', JStr (buildSettingJSON d)),
      (js ''param_override'', or_null (str_or (fv_param_override d) [])),
      (js ''header_override'', or_null (str_or (fv_header_override d) [])),
      (js ''settings'', JStr settingsJson),
      (js ''other'', JStr (str_or (fv_other d) []))]"

definition payload_mid :: "ChannelFormValues \<Rightarrow> payload" where
  "payload_mid d =
     [(js ''openai_organization'', or_null (str_or (fv_openai_organization d) [])),
      (js ''models'', JStr (fv_models d)),
      (js ''group'', JStr (formatGroups (fv_group d))),
      (js ''model_mapping'', or_null (str_or (fv_model_mapping d) []))]"

definition empty_to_null :: "payload \<Rightarrow> payload" where
  "empty_to_null ps = map (\<lambda>(k, v). (k, if v = JStr [] then JNull else v)) ps"

record create_payload =
  cp_mode :: AddMode
  cp_multi_key_mode :: "MultiKeyMode option"
  cp_batch_prefix :: "bool option"
  cp_channel :: payload

definition transformFormDataToCreatePayload :: "ChannelFormValues \<Rightarrow> create_payload option" where
  "transformFormDataToCreatePayload d =
     (case buildSettingsJSON d of
        None \<Rightarrow> None
      | Some settingsJson \<Rightarrow>
          let mode = nullish (fv_multi_key_mode d) SingleMode;
              channel =
                [(js ''name'', JStr (fv_name d)), (js ''type'', JNum (of_int (fv_type d))),
                 (js ''base_url'', or_null (normalizeBaseUrl (fv_base_url d))),
                 (js ''key'', JStr (fv_key d))] @
                payload_mid d @
                [(js ''priority'', num_or_null (fv_priority d)), (js ''weight'', num_or_null (fv_weight d))] @
                payload_tail d settingsJson
          in Some \<lparr>cp_mode = mode,
                   cp_multi_key_mode = (if mode = MultiToSingleMode then fv_multi_key_type d else None),
                   cp_batch_prefix =
                     (if mode = BatchMode then fv_batch_add_set_key_prefix_2_name d else None),
                   cp_channel = empty_to_null channel\<rparr>)"

definition explicit_strings :: "ChannelFormValues \<Rightarrow> (jsstring \<times> jsstring) list" where
  "explicit_strings d =
     [(js ''base_url'', normalizeBaseUrl (fv_base_url d)),
      (js ''openai_organization'', str_or (fv_openai_organization d) []),
      (js ''test_model'', str_or (fv_test_model d) []),
      (js ''tag'', str_or (fv_tag d) []),
      (js ''remark'', str_or (fv_remark d) []),
      (js ''model_mapping'', str_or (fv_model_mapping d) []),
      (js ''status_code_mapping'', str_or (fv_status_code_mapping d) []),
      (js ''param_override'', str_or (fv_param_override d) []),
      (js ''header_override'', str_or (fv_header_override d) [])]"

definition transformFormDataToUpdatePayload :: "ChannelFormValues \<Rightarrow> rat \<Rightarrow> payload option" where
  "transformFormDataToUpdatePayload d channelId =
     (case buildSettingsJSON d of
        None \<Rightarrow> None
      | Some settingsJson \<Rightarrow>
          let base =
                [(js ''id'', JNum channelId), (js ''name'', JStr (fv_name d)),
                 (js ''type'', JNum (of_int (fv_type d))),
                 (js ''base_url'', or_null (normalizeBaseUrl (fv_base_url d)))] @
                payload_mid d @
                [(js ''priority'', num_or_zero (fv_priority d)), (js ''weight'', num_or_zero (fv_weight d))] @
                payload_tail d settingsJson;
              withKey = (if fv_key d \<noteq> [] \<and> trim (fv_key d) \<noteq> []
                         then obj_put (js ''key'') (JStr (fv_key d)) base else base)
          in Some (foldl (\<lambda>ps (k, s). obj_put k (JStr s) ps) (empty_to_null withKey)
                     (explicit_strings d)))"

subsection \<open>What the settings document holds\<close>

text \<open>
  The specification of \<open>buildSettingsJSON\<close>: a table from the property names the form manages to
  the value the property has afterwards, \<open>None\<close> where it is absent.
\<close>

definition only_if :: "bool \<Rightarrow> jsval \<Rightarrow> jsval option" where
  "only_if c v = (if c then Some v else None)"

definition type_table :: "ChannelFormValues \<Rightarrow> (jsstring \<times> jsval option) list" where
  "type_table d =
     (let ty = fv_type d in
      [(js ''vertex_key_type'', only_if (ty = 41) (or_val (fv_vertex_key_type d) (JStr (js ''json'')))),
       (js ''azure_responses_version'',
          if ty = 3 \<and> truthy_opt (fv_azure_responses_version d) then fv_azure_responses_version d else None),
       (js ''openrouter_enterprise'', only_if (ty = 20) (flag (fv_is_enterprise_account d))),
       (js ''aws_key_type'', only_if (ty = 33) (or_val (fv_aws_key_type d) (JStr (js ''ak_sk'')))),
       (js ''allow_service_tier'', only_if (ty = 1 \<or> ty = 14) (flag (fv_allow_service_tier d))),
       (js ''disable_store'', only_if (ty = 1) (flag (fv_disable_store d))),
       (js ''allow_safety_identifier'', only_if (ty = 1) (flag (fv_allow_safety_identifier d))),
       (js ''allow_include_obfuscation'', only_if (ty = 1) (flag (fv_allow_include_obfuscation d))),
       (js ''allow_inference_geo'', only_if (ty = 1 \<or> ty = 14) (flag (fv_allow_inference_geo d))),
       (js ''allow_speed'', only_if (ty = 14) (flag (fv_allow_speed d))),
       (js ''claude_beta_query'', only_if (ty = 14) (flag (fv_claude_beta_query d)))])"

definition upstream_table ::
    "ChannelFormValues \<Rightarrow> (jsstring \<times> jsval) list \<Rightarrow> (jsstring \<times> jsval option) list" where
  "upstream_table d ps =
     (let check = fv_upstream_check_enabled d = Some True;
          detected = obj_get ps (js ''upstream_model_update_last_detected_models'');
          checked = obj_get ps (js ''upstream_model_update_last_check_time'')
      in if fv_type d \<notin> set MODEL_FETCHABLE_TYPES then []
         else
           [(js ''upstream_model_update_check_enabled'', Some (JBool check)),
            (js ''upstream_model_update_auto_sync_enabled'',
               Some (JBool (check \<and> fv_upstream_auto_sync_enabled d = Some True))),
            (js ''upstream_model_update_ignored_models'', Some (JArr (map JStr (ignored_models d)))),
            (js ''upstream_model_update_last_detected_models'',
               if check \<and> is_array detected then detected else Some (JArr [])),
            (js ''upstream_model_update_last_check_time'',
               if is_number checked then checked else Some (JNum 0))])"

definition apply_entry :: "jsstring \<times> jsval option \<Rightarrow> (jsstring \<times> jsval) list \<Rightarrow> (jsstring \<times> jsval) list" where
  "apply_entry e ps = (case e of (k, Some v) \<Rightarrow> obj_put k v ps | (k, None) \<Rightarrow> obj_delete k ps)"

lemma apply_entry_simps [simp]:
  "apply_entry (k, Some v) ps = obj_put k v ps" "apply_entry (k, None) ps = obj_delete k ps"
  by (simp_all add: apply_entry_def)

lemma apply_entry_when: "apply_entry (js k, only_if c v) ps = put_or_delete c k v ps"
  by (simp add: only_if_def put_or_delete_def)

lemma obj_get_apply_entries:
  "distinct (map fst es) \<Longrightarrow>
   obj_get (fold apply_entry es ps) k = (case map_of es k of Some r \<Rightarrow> r | None \<Rightarrow> obj_get ps k)"
proof (induction es arbitrary: ps)
  case (Cons e es)
  obtain j r where e: "e = (j, r)" by (cases e)
  have "map_of es j = None" using Cons.prems e by (simp add: map_of_eq_None_iff)
  then show ?case using Cons e by (cases r) (auto split: option.splits)
qed simp

lemma json_rt_apply_entries:
  "json_rt (JObj ps) \<Longrightarrow> list_all (\<lambda>(k, r). utf16 k \<and> (case r of None \<Rightarrow> True | Some v \<Rightarrow> json_rt v)) es \<Longrightarrow>
   json_rt (JObj (fold apply_entry es ps))"
proof (induction es arbitrary: ps)
  case (Cons e es)
  obtain k r where "e = (k, r)" by (cases e)
  then show ?case using Cons by (cases r) (simp_all del: json_rt.simps)
qed simp

lemma type_settings_table: "type_settings d ps = fold apply_entry (type_table d) ps"
proof -
  have azure: "apply_entry (js k, if c \<and> truthy_opt v then v else None) qs =
      put_or_delete (c \<and> truthy_opt v) k (nullish v JNull) qs" for k c v qs
    by (cases v) (simp_all add: put_or_delete_def truthy_opt_def)
  have geo: "(if ty = 14 then obj_put (js k) v (if ty = 1 then obj_put (js k) v qs
        else if ty \<noteq> 14 then obj_delete (js k) qs else qs)
      else if ty = 1 then obj_put (js k) v qs
        else if ty \<noteq> 14 then obj_delete (js k) qs else qs) = put_or_delete (ty = 1 \<or> ty = 14) k v qs"
    for ty :: int and k v qs
    by (simp add: put_or_delete_def)
  show ?thesis
    by (simp only: type_settings_def type_table_def Let_def fold_simps azure apply_entry_when geo)
qed

lemma obj_put_same: "obj_get ps k = Some v \<Longrightarrow> obj_put k v ps = ps"
proof -
  have "obj_get ps k = Some v \<Longrightarrow> obj_replace k v ps = ps" by (induction ps) auto
  then show "obj_get ps k = Some v \<Longrightarrow> obj_put k v ps = ps" by (simp add: obj_put_def)
qed

lemma upstream_settings_table: "upstream_settings d ps = fold apply_entry (upstream_table d ps) ps"
proof (cases "fv_type d \<in> set MODEL_FETCHABLE_TYPES")
  case True
  have keep: "(if c then obj_put k w qs else qs) = apply_entry (k, if \<not> c then v else Some w) qs"
    if "obj_get qs k = v" "v = None \<Longrightarrow> c" for c v k w qs
    using that by (cases v) (auto simp: obj_put_same)
  define check where "check = (fv_upstream_check_enabled d = Some True)"
  define ps3 where "ps3 = fold apply_entry (take 3 (upstream_table d ps)) ps"
  define detected where "detected = obj_get ps (js ''upstream_model_update_last_detected_models'')"
  define checked where "checked = obj_get ps (js ''upstream_model_update_last_check_time'')"
  define ps4 where "ps4 = apply_entry (js ''upstream_model_update_last_detected_models'',
      if \<not> (\<not> is_array detected \<or> \<not> check) then detected else Some (JArr [])) ps3"
  have get3: "obj_get ps3 (js ''upstream_model_update_last_detected_models'') = detected"
    "obj_get ps3 (js ''upstream_model_update_last_check_time'') = checked"
    using True by (simp_all add: ps3_def upstream_table_def Let_def detected_def checked_def)
  have ps4: "(if \<not> is_array detected \<or> \<not> check
      then obj_put (js ''upstream_model_update_last_detected_models'') (JArr []) ps3 else ps3) = ps4"
    unfolding ps4_def by (rule keep) (auto simp: get3 is_array_def)
  have get4: "obj_get ps4 (js ''upstream_model_update_last_check_time'') = checked"
    unfolding ps4 [symmetric] by (simp add: get3)
  have ps3: "ps3 = obj_put (js ''upstream_model_update_ignored_models'') (JArr (map JStr (ignored_models d)))
      (obj_put (js ''upstream_model_update_auto_sync_enabled'')
        (JBool (check \<and> fv_upstream_auto_sync_enabled d = Some True))
        (obj_put (js ''upstream_model_update_check_enabled'') (JBool check) ps))"
    using True by (simp add: ps3_def upstream_table_def Let_def check_def)
  have "upstream_settings d ps =
      (if \<not> is_number checked then obj_put (js ''upstream_model_update_last_check_time'') (JNum 0) ps4 else ps4)"
    using True
    by (simp only: upstream_settings_def Let_def check_def [symmetric] ps3 [symmetric] get3 ps4 get4
        not_True_eq_False if_False)
  also have "\<dots> = apply_entry (js ''upstream_model_update_last_check_time'',
      if \<not> \<not> is_number checked then checked else Some (JNum 0)) ps4"
    by (rule keep) (auto simp: get4 is_number_def)
  also have "\<dots> = fold apply_entry (upstream_table d ps) ps"
    using True by (simp add: ps4_def ps3_def upstream_table_def Let_def check_def detected_def checked_def conj_commute)
  finally show ?thesis .
next
  case False
  then show ?thesis by (simp add: upstream_settings_def upstream_table_def)
qed

lemma distinct_tables: "distinct (map fst (type_table d @ upstream_table d ps))"
  by (simp add: type_table_def upstream_table_def Let_def)

lemma upstream_table_stable: "upstream_table d (type_settings d ps) = upstream_table d ps"
proof -
  have "obj_get (type_settings d ps) k = obj_get ps k" if "map_of (type_table d) k = None" for k
    using that distinct_tables [of d ps] by (simp add: type_settings_table obj_get_apply_entries)
  then show ?thesis by (simp add: upstream_table_def type_table_def Let_def)
qed

definition printable_value :: "jsval option \<Rightarrow> bool" where
  "printable_value v = (case v of None \<Rightarrow> True | Some x \<Rightarrow> json_rt x)"

definition printable_settings :: "ChannelFormValues \<Rightarrow> bool" where
  "printable_settings d \<longleftrightarrow>
     list_all printable_value
       [fv_vertex_key_type d, fv_aws_key_type d, fv_azure_responses_version d, fv_force_format d,
        fv_thinking_to_content d, fv_proxy d, fv_pass_through_body_enabled d, fv_system_prompt d,
        fv_system_prompt_override d] \<and>
     utf16 (nullish (fv_upstream_ignored_models d) [])"

lemma printable_or_val: "printable_value v \<Longrightarrow> json_rt w \<Longrightarrow> json_rt (or_val v w)"
  by (cases v) (simp_all add: printable_value_def or_val_def)

lemma utf16_ignored_models:
  "utf16 (nullish (fv_upstream_ignored_models d) []) \<Longrightarrow> m \<in> set (ignored_models d) \<Longrightarrow> utf16 m"
proof -
  assume u: "utf16 (nullish (fv_upstream_ignored_models d) [])" and m: "m \<in> set (ignored_models d)"
  then obtain q where "q \<in> set (split_on 44 (nullish (fv_upstream_ignored_models d) []))" "m = trim q"
    by (auto simp: ignored_models_def truthy_strs_def)
  then have "set m \<subseteq> set (nullish (fv_upstream_ignored_models d) [])"
    using set_trim_subset split_on_pieces by fastforce
  then show ?thesis using u by (auto simp: utf16_def)
qed

lemma json_rt_obj_get: "json_rt (JObj ps) \<Longrightarrow> obj_get ps k = Some v \<Longrightarrow> json_rt v"
  by (induction ps k rule: obj_get.induct)
    (auto simp: obj_of_iff key_order_def split: if_splits)

lemma json_rt_tables:
  assumes "json_rt (JObj ps)" "printable_settings d"
  shows "list_all (\<lambda>(k, r). utf16 k \<and> (case r of None \<Rightarrow> True | Some v \<Rightarrow> json_rt v))
           (type_table d @ upstream_table d ps)"
proof -
  have get: "json_rt v" if "obj_get ps k = Some v" for k v using json_rt_obj_get assms(1) that by blast
  have ignored: "list_all utf16 (ignored_models d)"
    using assms(2) utf16_ignored_models [of d] by (auto simp: printable_settings_def list_all_iff)
  have v: "json_rt (or_val (fv_vertex_key_type d) (JStr (js ''json'')))"
    "json_rt (or_val (fv_aws_key_type d) (JStr (js ''ak_sk'')))"
    "fv_azure_responses_version d = Some x \<Longrightarrow> json_rt x" for x
    using assms(2) by (auto simp: printable_settings_def printable_value_def intro!: printable_or_val)
  have "list_all (\<lambda>(k, r). utf16 k \<and> (case r of None \<Rightarrow> True | Some v \<Rightarrow> json_rt v)) (type_table d)"
    using v by (simp add: type_table_def Let_def only_if_def flag_def split: option.splits)
  moreover have "list_all (\<lambda>(k, r). utf16 k \<and> (case r of None \<Rightarrow> True | Some v \<Rightarrow> json_rt v))
      (upstream_table d ps)"
    using get ignored
    by (simp add: upstream_table_def Let_def list.pred_map comp_def split: option.splits)
  ultimately show ?thesis by simp
qed

text \<open>The document, read back, is the table over the former properties.\<close>

lemma settings_document_lookup:
  assumes "existing_settings d = JObj ps" "json_rt (JObj ps)" "printable_settings d"
  obtains s qs where "buildSettingsJSON d = Some s" "s \<noteq> []" "JSON_parse s = Some (JObj qs)"
    "\<And>k. obj_get qs k = (case map_of (type_table d @ upstream_table d ps) k of
                           Some r \<Rightarrow> r | None \<Rightarrow> obj_get ps k)"
proof -
  define qs where "qs = fold apply_entry (type_table d @ upstream_table d ps) ps"
  have qs: "upstream_settings d (type_settings d ps) = qs"
    by (simp add: upstream_settings_table upstream_table_stable qs_def)
      (simp add: type_settings_table)
  have "json_rt (JObj qs)"
    unfolding qs_def using assms(2) json_rt_tables [OF assms(2, 3)] by (rule json_rt_apply_entries)
  then have "JSON_parse (JSON_stringify (JObj qs)) = Some (JObj qs)" by (rule JSON_parse_stringify)
  moreover have "buildSettingsJSON d = Some (JSON_stringify (JObj qs))"
    by (simp add: buildSettingsJSON_def assms(1) qs del: JSON_stringify.simps)
  moreover have "obj_get qs k = (case map_of (type_table d @ upstream_table d ps) k of
      Some r \<Rightarrow> r | None \<Rightarrow> obj_get ps k)" for k
    unfolding qs_def by (rule obj_get_apply_entries [OF distinct_tables])
  moreover have "JSON_stringify (JObj qs) \<noteq> []" by simp
  ultimately show thesis using that by blast
qed

subsection \<open>Properties\<close>

text \<open>
  Claim C10.  The settings document: for a form whose settings text holds an object (or nothing),
  the built document is valid JSON for an object in which every property the form manages has
  the value of the table (present only when the channel type has it, automatic sync only
  together with the check, the last check time a number, the detected models an array), and
  every other property is as it was.
\<close>

theorem settings_document:
  assumes "existing_settings d = JObj ps" "json_rt (JObj ps)" "printable_settings d"
  shows "\<exists>s qs. buildSettingsJSON d = Some s \<and> JSON_parse s = Some (JObj qs) \<and>
           (\<forall>k. obj_get qs k =
              (case map_of (type_table d @ upstream_table d ps) k of
                 Some r \<Rightarrow> r | None \<Rightarrow> obj_get ps k))"
proof -
  obtain s qs where "buildSettingsJSON d = Some s" "JSON_parse s = Some (JObj qs)"
    "\<And>k. obj_get qs k = (case map_of (type_table d @ upstream_table d ps) k of
                           Some r \<Rightarrow> r | None \<Rightarrow> obj_get ps k)"
    using settings_document_lookup [OF assms] by metis
  then show ?thesis by blast
qed

definition anthropic_form :: ChannelFormValues where
  "anthropic_form = CHANNEL_FORM_DEFAULT_VALUES
     \<lparr>fv_type := 14, fv_settings := Some (js ''{''  @ quote (js ''disable_store'') @ js '':true,'' @ quote (js ''x'') @ js '':7}''),
      fv_allow_speed := Some True, fv_upstream_auto_sync_enabled := Some True,
      fv_upstream_ignored_models := Some (js ''a, b,,a'')\<rparr>"

lemma anthropic_existing:
  "existing_settings anthropic_form = JObj [(js ''disable_store'', JBool True), (js ''x'', JNum 7)]"
  by code_simp

lemma anthropic_printable:
  "json_rt (JObj [(js ''disable_store'', JBool True), (js ''x'', JNum 7)])" "printable_settings anthropic_form"
  by code_simp+

theorem settings_document_witness:
  "\<exists>s qs. buildSettingsJSON anthropic_form = Some s \<and> JSON_parse s = Some (JObj qs) \<and>
     obj_get qs (js ''disable_store'') = None \<and> obj_get qs (js ''x'') = Some (JNum 7) \<and>
     obj_get qs (js ''allow_speed'') = Some (JBool True) \<and>
     obj_get qs (js ''upstream_model_update_auto_sync_enabled'') = Some (JBool False)"
proof -
  obtain s qs where *: "buildSettingsJSON anthropic_form = Some s" "JSON_parse s = Some (JObj qs)"
    "\<And>k. obj_get qs k =
       (case map_of (type_table anthropic_form @ upstream_table anthropic_form
          [(js ''disable_store'', JBool True), (js ''x'', JNum 7)]) k of
          Some r \<Rightarrow> r | None \<Rightarrow> obj_get [(js ''disable_store'', JBool True), (js ''x'', JNum 7)] k)"
    using settings_document [OF anthropic_existing anthropic_printable] by blast
  have "fv_type anthropic_form = 14" "fv_allow_speed anthropic_form = Some True"
    "fv_upstream_check_enabled anthropic_form = Some False"
    by (simp_all add: anthropic_form_def CHANNEL_FORM_DEFAULT_VALUES_def)
  then show ?thesis using *(1,2)
    by (intro exI [of _ s] exI [of _ qs])
      (simp add: *(3) type_table_def upstream_table_def Let_def only_if_def flag_def MODEL_FETCHABLE_TYPES_def)
qed

lemma or_val_again [simp]: "or_val (Some (or_val v w)) w = or_val v w"
  by (cases v) (auto simp: or_val_def truthy_opt_def)

lemma setting_document_read:
  assumes "printable_settings d"
  shows "parse_extra (buildSettingJSON d) =
    \<lparr>es_force_format = or_val (fv_force_format d) (JBool False),
     es_thinking_to_content = or_val (fv_thinking_to_content d) (JBool False),
     es_proxy = or_val (fv_proxy d) (JStr []),
     es_pass_through_body_enabled = or_val (fv_pass_through_body_enabled d) (JBool False),
     es_system_prompt = or_val (fv_system_prompt d) (JStr []),
     es_system_prompt_override = or_val (fv_system_prompt_override d) (JBool False)\<rparr>"
proof -
  have nil: "utf16 []" by (simp add: utf16_def)
  have rt: "json_rt (or_val v w)" if "printable_value v" "w = JBool False \<or> w = JStr []" for v w
    using that printable_or_val [of v w] nil by auto
  have ord: "key_order (setting_object d)"
    by (simp add: key_order_def setting_object_def key_before_def js_lits is_index_key_def all_digits_def is_digit_def)
  have "json_rt (JObj (setting_object d))"
    using assms ord by (simp add: obj_of_iff setting_object_def printable_settings_def rt)
  then have "JSON_parse (buildSettingJSON d) = Some (JObj (setting_object d))"
    unfolding buildSettingJSON_def by (rule JSON_parse_stringify)
  moreover have "buildSettingJSON d \<noteq> []" by (simp add: buildSettingJSON_def)
  ultimately have "settings_value (buildSettingJSON d) = Some (JObj (setting_object d))"
    by (simp add: settings_value_def)
  then show ?thesis
    by (simp add: parse_extra_def js_prop_def setting_object_def)
qed


lemma only_if_true: "only_if c (flag b) = Some (JBool True) \<longleftrightarrow> c \<and> b = Some True"
  by (simp add: only_if_def flag_def)

lemma or_val_only_if: "or_val (only_if c (or_val v w)) w = (if c then or_val v w else w)"
  by (simp add: only_if_def) (simp add: or_val_def truthy_opt_def)

lemma or_val_truthy_only: "or_val (if c \<and> truthy_opt v then v else None) w = (if c then or_val v w else w)"
  by (auto simp: or_val_def truthy_opt_def)

lemma ignored_models_join:
  assumes "fv_upstream_ignored_models f = Some (join [44] (ignored_models d))"
  shows "ignored_models f = ignored_models d"
proof -
  have clean: "list_all clean_name (ignored_models d)"
    using comma_pieces_clean [of "nullish (fv_upstream_ignored_models d) []"]
    by (simp add: ignored_models_def truthy_strs_def list_all_iff)
  have "distinct (ignored_models d)" by (simp add: ignored_models_def)
  moreover have "truthy_strs (map trim (split_on 44 (join [44] (ignored_models d)))) = ignored_models d"
    using clean by (cases "ignored_models d = []") (simp_all add: comma_pieces_join truthy_strs_def)
  ultimately show ?thesis unfolding ignored_models_def [of f] assms by simp
qed

lemma to_str_strings: "to_str (JArr (map JStr xs)) = join [44] xs"
  by (simp add: comp_def)

text \<open>
  Claim C11.  Saving and opening again: when the two documents a form builds are stored in a
  channel of the form's type, opening that channel gives a form with an empty key whose extra
  settings are those of the form, whose type-specific settings are those of the form where the
  channel type has them and the defaults otherwise, and, for the types whose models can be
  fetched, the same update settings, with automatic sync only when the check is enabled, and the
  ignored models without blanks and repetitions.
\<close>

theorem saved_form_reopens:
  assumes "existing_settings d = JObj ps" "json_rt (JObj ps)" "printable_settings d"
    and "setting c = Some (buildSettingJSON d)" "buildSettingsJSON d = Some (settings c)"
    and "ch_type c = fv_type d" "channel_info c = Some info"
  shows "\<exists>f. transformChannelToFormDefaults c = Some f \<and> fv_key f = [] \<and> fv_type f = fv_type d \<and>
     fv_force_format f = Some (or_val (fv_force_format d) (JBool False)) \<and>
     fv_thinking_to_content f = Some (or_val (fv_thinking_to_content d) (JBool False)) \<and>
     fv_proxy f = Some (or_val (fv_proxy d) (JStr [])) \<and>
     fv_pass_through_body_enabled f = Some (or_val (fv_pass_through_body_enabled d) (JBool False)) \<and>
     fv_system_prompt f = Some (or_val (fv_system_prompt d) (JStr [])) \<and>
     fv_system_prompt_override f = Some (or_val (fv_system_prompt_override d) (JBool False)) \<and>
     fv_vertex_key_type f =
       Some (if fv_type d = 41 then or_val (fv_vertex_key_type d) (JStr (js ''json'')) else JStr (js ''json'')) \<and>
     fv_aws_key_type f =
       Some (if fv_type d = 33 then or_val (fv_aws_key_type d) (JStr (js ''ak_sk'')) else JStr (js ''ak_sk'')) \<and>
     fv_azure_responses_version f =
       Some (if fv_type d = 3 then or_val (fv_azure_responses_version d) (JStr []) else JStr []) \<and>
     fv_is_enterprise_account f = Some (fv_type d = 20 \<and> fv_is_enterprise_account d = Some True) \<and>
     fv_allow_service_tier f = Some (fv_type d \<in> {1, 14} \<and> fv_allow_service_tier d = Some True) \<and>
     fv_disable_store f = Some (fv_type d = 1 \<and> fv_disable_store d = Some True) \<and>
     fv_allow_safety_identifier f = Some (fv_type d = 1 \<and> fv_allow_safety_identifier d = Some True) \<and>
     fv_allow_include_obfuscation f = Some (fv_type d = 1 \<and> fv_allow_include_obfuscation d = Some True) \<and>
     fv_allow_inference_geo f = Some (fv_type d \<in> {1, 14} \<and> fv_allow_inference_geo d = Some True) \<and>
     fv_allow_speed f = Some (fv_type d = 14 \<and> fv_allow_speed d = Some True) \<and>
     fv_claude_beta_query f = Some (fv_type d = 14 \<and> fv_claude_beta_query d = Some True) \<and>
     (fv_type d \<in> set MODEL_FETCHABLE_TYPES \<longrightarrow>
        fv_upstream_check_enabled f = Some (fv_upstream_check_enabled d = Some True) \<and>
        fv_upstream_auto_sync_enabled f =
          Some (fv_upstream_check_enabled d = Some True \<and> fv_upstream_auto_sync_enabled d = Some True) \<and>
        fv_upstream_ignored_models f = Some (join [44] (ignored_models d)) \<and>
        ignored_models f = ignored_models d)"
proof -
  obtain qs where s: "settings c \<noteq> []" "JSON_parse (settings c) = Some (JObj qs)"
    and get: "\<And>k. obj_get qs k = (case map_of (type_table d @ upstream_table d ps) k of
                           Some r \<Rightarrow> r | None \<Rightarrow> obj_get ps k)"
    using settings_document_lookup [OF assms(1-3)] assms(5) by (metis option.inject)
  have other: "settings_value (settings c) = Some (JObj qs)" using s by (simp add: settings_value_def)
  have extra: "parse_extra (nullish (setting c) []) = parse_extra (buildSettingJSON d)"
    using assms(4) by simp
  define f where "f = the (transformChannelToFormDefaults c)"
  have f: "transformChannelToFormDefaults c = Some f"
    using assms(7) by (simp add: f_def transformChannelToFormDefaults_def Let_def)
  note fields = f [unfolded transformChannelToFormDefaults_def Let_def assms(7) other extra
      setting_document_read [OF assms(3)], simplified, symmetric]
  have look: "list_all (\<lambda>(k, r). obj_get qs k = r) (type_table d @ upstream_table d ps)"
  proof -
    have "obj_get qs k = r" if "(k, r) \<in> set (type_table d @ upstream_table d ps)" for k r
      using map_of_is_SomeI [OF distinct_tables that] by (simp only: get option.case)
    then show ?thesis by (auto simp: list_all_iff)
  qed
  then have types: "list_all (\<lambda>(k, r). obj_get qs k = r) (type_table d)" by simp
  note types = types [unfolded type_table_def Let_def, simplified]
  have upstream: "fv_upstream_check_enabled f = Some (fv_upstream_check_enabled d = Some True) \<and>
      fv_upstream_auto_sync_enabled f =
        Some (fv_upstream_check_enabled d = Some True \<and> fv_upstream_auto_sync_enabled d = Some True) \<and>
      fv_upstream_ignored_models f = Some (join [44] (ignored_models d))"
    if "fv_type d \<in> set MODEL_FETCHABLE_TYPES"
    using look that
    by (simp add: upstream_table_def Let_def fields is_true_def js_prop_def ignored_models_text_def
        to_str_strings del: to_str.simps)
  show ?thesis
    using upstream ignored_models_join [of f d] f types assms(6)
    by (auto simp: fields is_true_def prop_or_def js_prop_def only_if_true or_val_only_if or_val_truthy_only)
qed


definition anthropic_channel :: Channel where
  "anthropic_channel = (demo_channel 2 0)
     \<lparr>ch_type := 14, setting := Some (buildSettingJSON anthropic_form),
      settings := the (buildSettingsJSON anthropic_form),
      channel_info := Some \<lparr>is_multi_key = False, multi_key_size = 0, multi_key_status_list = None,
        multi_key_disabled_reason = None, multi_key_disabled_time = None,
        multi_key_polling_index = 0, multi_key_mode = PollingMode\<rparr>\<rparr>"

theorem saved_form_reopens_witness:
  "\<exists>f. transformChannelToFormDefaults anthropic_channel = Some f \<and>
     fv_allow_speed f = Some True \<and> fv_disable_store f = Some False \<and>
     fv_upstream_auto_sync_enabled f = Some False \<and> ignored_models f = ignored_models anthropic_form"
proof -
  have form: "fv_type anthropic_form = 14" "fv_allow_speed anthropic_form = Some True"
    "fv_upstream_check_enabled anthropic_form = Some False" "14 \<in> set MODEL_FETCHABLE_TYPES"
    by (simp_all add: anthropic_form_def CHANNEL_FORM_DEFAULT_VALUES_def MODEL_FETCHABLE_TYPES_def)
  have "buildSettingsJSON anthropic_form = Some (settings anthropic_channel)"
    by (simp add: anthropic_channel_def buildSettingsJSON_def anthropic_existing del: JSON_stringify.simps)
  moreover have "ch_type anthropic_channel = fv_type anthropic_form"
    "setting anthropic_channel = Some (buildSettingJSON anthropic_form)"
    by (simp_all add: anthropic_channel_def form)
  ultimately show ?thesis
    using saved_form_reopens [OF anthropic_existing anthropic_printable, of anthropic_channel]
    by (fastforce simp: anthropic_channel_def form)
qed

lemma obj_get_puts:
  "obj_get (foldl (\<lambda>ps (k, s). obj_put k (JStr s) ps) ps es) k =
     (case map_of (rev es) k of Some s \<Rightarrow> Some (JStr s) | None \<Rightarrow> obj_get ps k)"
  by (induction es arbitrary: ps) (auto split: option.splits)

lemma obj_get_empty_to_null:
  "obj_get (empty_to_null ps) k = map_option (\<lambda>v. if v = JStr [] then JNull else v) (obj_get ps k)"
  unfolding empty_to_null_def by (induction ps) auto

lemma distinct_puts:
  "distinct (map fst ps) \<Longrightarrow> distinct (map fst (foldl (\<lambda>ps (k, s). obj_put k (JStr s) ps) ps es))"
  by (induction es arbitrary: ps) (auto simp: distinct_put)

lemma distinct_empty_to_null [simp]: "map fst (empty_to_null ps) = map fst ps"
  by (simp add: empty_to_null_def comp_def case_prod_beta)

lemma empty_to_null_no_empty: "(k, v) \<in> set (empty_to_null ps) \<Longrightarrow> v \<noteq> JStr []"
  by (auto simp: empty_to_null_def split: if_splits)

lemma buildSettingsJSON_defined: "isOptionalJsonObject (fv_settings d) \<Longrightarrow> buildSettingsJSON d \<noteq> None"
  using JSON_parse_blank
  by (fastforce simp: isOptionalJsonObject_def parseOptionalJson_def isJsonObjectValue_def
      buildSettingsJSON_def existing_settings_def split: option.splits jsval.splits if_splits)

text \<open>
  Claim C9.  The update payload of a form that passed validation: it is always built; it holds
  the key exactly when a key was entered, so an untouched key field never overwrites the stored
  one; the nullable text fields are sent as strings, empty ones included, so that they can be
  cleared, and no other field is an empty string; priority and weight are numbers; no
  property occurs twice.
\<close>

theorem update_payload_contract:
  assumes "isOptionalJsonObject (fv_settings d)"
  shows "\<exists>p. transformFormDataToUpdatePayload d i = Some p \<and> distinct (map fst p) \<and>
     obj_get p (js ''id'') = Some (JNum i) \<and>
     obj_get p (js ''key'') = (if trim (fv_key d) = [] then None else Some (JStr (fv_key d))) \<and>
     list_all (\<lambda>(k, s). obj_get p k = Some (JStr s)) (explicit_strings d) \<and>
     obj_get p (js ''priority'') = Some (JNum (nullish (fv_priority d) 0)) \<and>
     obj_get p (js ''weight'') = Some (JNum (nullish (fv_weight d) 0)) \<and>
     (\<forall>k. obj_get p k = Some (JStr []) \<longrightarrow> k \<in> set (map fst (explicit_strings d)))"
proof -
  obtain s where s: "buildSettingsJSON d = Some s" using buildSettingsJSON_defined [OF assms] by blast
  define base where "base = [(js ''id'', JNum i), (js ''name'', JStr (fv_name d)),
      (js ''type'', JNum (of_int (fv_type d))),
      (js ''base_url'', or_null (normalizeBaseUrl (fv_base_url d)))] @ payload_mid d @
      [(js ''priority'', num_or_zero (fv_priority d)), (js ''weight'', num_or_zero (fv_weight d))] @
      payload_tail d s"
  define q where "q = (if fv_key d \<noteq> [] \<and> trim (fv_key d) \<noteq> []
      then obj_put (js ''key'') (JStr (fv_key d)) base else base)"
  define p where "p = foldl (\<lambda>ps (k, s). obj_put k (JStr s) ps) (empty_to_null q) (explicit_strings d)"
  have p: "transformFormDataToUpdatePayload d i = Some p"
    unfolding transformFormDataToUpdatePayload_def s p_def q_def base_def by (simp add: Let_def)
  have base: "distinct (map fst base)" "obj_get base (js ''key'') = None"
    "obj_get base (js ''id'') = Some (JNum i)"
    "obj_get base (js ''priority'') = Some (num_or_zero (fv_priority d))"
    "obj_get base (js ''weight'') = Some (num_or_zero (fv_weight d))"
    by (simp_all add: base_def payload_mid_def payload_tail_def)
  have q: "distinct (map fst q)" "\<And>k. k \<noteq> js ''key'' \<Longrightarrow> obj_get q k = obj_get base k"
    "obj_get q (js ''key'') = (if trim (fv_key d) = [] then None else Some (JStr (fv_key d)))"
    using base by (auto simp: q_def distinct_put)
  have get: "obj_get p k = (case map_of (rev (explicit_strings d)) k of
      Some s \<Rightarrow> Some (JStr s) | None \<Rightarrow> obj_get (empty_to_null q) k)" for k
    unfolding p_def by (rule obj_get_puts)
  have strings: "list_all (\<lambda>(k, s). obj_get p k = Some (JStr s)) (explicit_strings d)"
    by (simp add: get explicit_strings_def)
  have key: "fv_key d \<noteq> []" if "trim (fv_key d) \<noteq> []" using that by auto
  have "k \<in> set (map fst (explicit_strings d))" if "obj_get p k = Some (JStr [])" for k
  proof (rule ccontr)
    assume "k \<notin> set (map fst (explicit_strings d))"
    then have "map_of (rev (explicit_strings d)) k = None" by (simp add: map_of_eq_None_iff)
    then show False using that by (auto simp: get obj_get_empty_to_null split: if_splits)
  qed
  moreover have "distinct (map fst p)"
    unfolding p_def by (rule distinct_puts) (simp add: q)
  moreover have "obj_get p k = obj_get (empty_to_null q) k" if "k \<notin> set (map fst (explicit_strings d))" for k
    using that by (simp add: get map_of_eq_None_iff [THEN iffD2])
  then have "obj_get p (js ''id'') = Some (JNum i)"
    "obj_get p (js ''key'') = (if trim (fv_key d) = [] then None else Some (JStr (fv_key d)))"
    "obj_get p (js ''priority'') = Some (JNum (nullish (fv_priority d) 0))"
    "obj_get p (js ''weight'') = Some (JNum (nullish (fv_weight d) 0))"
    using q base key by (simp_all add: explicit_strings_def obj_get_empty_to_null num_or_zero_def)
  ultimately show ?thesis using p strings by blast
qed

theorem update_payload_contract_witness:
  "\<exists>p. transformFormDataToUpdatePayload anthropic_form 5 = Some p \<and> obj_get p (js ''key'') = None"
proof -
  have "isOptionalJsonObject (fv_settings anthropic_form)" "trim (fv_key anthropic_form) = []"
    by code_simp+
  then show ?thesis using update_payload_contract [of anthropic_form 5] by auto
qed

definition create_fields :: "string list" where
  "create_fields =
     [''name'', ''type'', ''base_url'', ''key'', ''openai_organization'', ''models'', ''group'',
      ''model_mapping'', ''priority'', ''weight'', ''test_model'', ''auto_ban'', ''status'',
      ''status_code_mapping'', ''tag'', ''remark'', ''setting'', ''param_override'',
      ''header_override'', ''settings'', ''other'']"

lemma strip_slashes_end: "strip_slashes s = [] \<or> last (strip_slashes s) \<noteq> 47"
  using hd_dropWhile [of "\<lambda>c. c = 47" "rev s"]
  by (auto simp: strip_slashes_def last_rev)

lemma strip_slashes_idem: "strip_slashes (strip_slashes s) = strip_slashes s"
  by (simp add: strip_slashes_def)

text \<open>
  The creation payload of a form that passed validation: it is always built, has
  exactly the listed properties and none of them is an empty string; the base URL has no white
  space around it and no trailing slash; the key mode is sent only when several keys make one
  channel, and the naming option only when the channels are created in a batch.
\<close>

theorem create_payload_contract:
  assumes "isOptionalJsonObject (fv_settings d)"
  shows "\<exists>p. transformFormDataToCreatePayload d = Some p \<and>
     map fst (cp_channel p) = map js create_fields \<and>
     list_all (\<lambda>(k, v). v \<noteq> JStr []) (cp_channel p) \<and>
     obj_get (cp_channel p) (js ''base_url'') = Some (or_null (normalizeBaseUrl (fv_base_url d))) \<and>
     (normalizeBaseUrl (fv_base_url d) = [] \<or> last (normalizeBaseUrl (fv_base_url d)) \<noteq> 47) \<and>
     (cp_multi_key_mode p \<noteq> None \<longrightarrow> fv_multi_key_mode d = Some MultiToSingleMode) \<and>
     (cp_batch_prefix p \<noteq> None \<longrightarrow> fv_multi_key_mode d = Some BatchMode)"
proof -
  obtain s where s: "buildSettingsJSON d = Some s" using buildSettingsJSON_defined [OF assms] by blast
  define p where "p = the (transformFormDataToCreatePayload d)"
  have p: "transformFormDataToCreatePayload d = Some p"
    by (simp add: p_def transformFormDataToCreatePayload_def s Let_def)
  note fields = p [unfolded transformFormDataToCreatePayload_def s Let_def, simplified, symmetric]
  have "map fst (cp_channel p) = map js create_fields"
    by (simp add: fields create_fields_def payload_mid_def payload_tail_def)
  moreover have "list_all (\<lambda>(k, v). v \<noteq> JStr []) (cp_channel p)"
    using empty_to_null_no_empty by (auto simp: fields list_all_iff)
  moreover have "obj_get (cp_channel p) (js ''base_url'') = Some (or_null (normalizeBaseUrl (fv_base_url d)))"
    by (simp add: fields obj_get_empty_to_null or_null_def)
  moreover have "normalizeBaseUrl (fv_base_url d) = [] \<or> last (normalizeBaseUrl (fv_base_url d)) \<noteq> 47"
    unfolding normalizeBaseUrl_def by (rule strip_slashes_end)
  moreover have "cp_multi_key_mode p \<noteq> None \<longrightarrow> fv_multi_key_mode d = Some MultiToSingleMode"
    "cp_batch_prefix p \<noteq> None \<longrightarrow> fv_multi_key_mode d = Some BatchMode"
    by (cases "fv_multi_key_mode d"; simp add: fields)+
  ultimately show ?thesis using p by blast
qed

theorem create_payload_contract_witness:
  "\<exists>p. transformFormDataToCreatePayload anthropic_form = Some p \<and>
     map fst (cp_channel p) = map js create_fields \<and> cp_batch_prefix p = None"
proof -
  have "isOptionalJsonObject (fv_settings anthropic_form)" "fv_multi_key_mode anthropic_form = Some SingleMode"
    by code_simp+
  then show ?thesis using create_payload_contract [of anthropic_form] by auto
qed

lemma all_strings: "list_all (\<lambda>(k, item). is_string item) ps \<longleftrightarrow> \<not> list_ex (\<lambda>w. string_value w = None) (map snd ps)"
  by (induction ps) (auto simp: is_string_def string_value_def split: jsval.splits)

text \<open>
  The two validators of the model mapping agree: the schema of the form accepts a text
  exactly when the mapping check of the models editor finds no error, and every accepted text
  passes the weaker check for valid JSON.
\<close>

theorem mapping_validators_agree:
  "(isOptionalModelMapping (Some m) \<longleftrightarrow> validateModelMappingJson m = MappingValid) \<and>
   (isOptionalModelMapping (Some m) \<longleftrightarrow>
      isOptionalModelMapping (Some m) \<and> isOptionalJsonObject (Some m) \<and> validateModelMapping m)"
  by (auto simp: isOptionalModelMapping_def validateModelMappingJson_def parseOptionalJson_def
      isOptionalJsonObject_def isJsonObjectValue_def validateModelMapping_def validateJSON_def
      json_object_def all_strings split: option.splits jsval.splits if_splits)

end
