(* ===== verification/Upstream.thy ===== *)
theory Upstream
  imports ChannelForm Machine
begin

section \<open>Upstream model updates\<close>

text \<open>
  The page lets an administrator accept or ignore models that an upstream provider added or
  removed.  \<^verbatim>\<open>lib/upstream-update-utils.ts\<close> reads the pending updates from the settings of a
  channel, the hook \<^verbatim>\<open>hooks/use-channel-upstream-updates.ts\<close> runs four asynchronous calls, each
  guarded by a lock, and \<^verbatim>\<open>components/dialogs/upstream-update-dialog.tsx\<close> holds the selection.
  A call is cut at its two \<open>await\<close>s; a state lists the calls that wait, and the runtime resumes
  any of them with the outcome it waited for, so every interleaving of calls and clicks is a run
  of the step relation.  The lemmas show that the locks work, that the calls end, what a
  confirmation sends, and that the selection is not reset with the channel.
\<close>

subsection \<open>Model lists and the pending updates of a channel\<close>

text \<open>\<open>normalizeModelList\<close> on an array, and on any value; \<open>None\<close> is the type error of a value
  without the method \<open>map\<close>.\<close>

definition normalize_models :: "jsval list \<Rightarrow> jsstring list" where
  "normalize_models models =
     set_of (truthy_strs (map (\<lambda>m. trim (to_str (if truthy m then m else JStr []))) models))"

definition normalizeModelList :: "jsval option \<Rightarrow> jsstring list option" where
  "normalizeModelList models =
     (case or_val models (JArr []) of JArr vs \<Rightarrow> Some (normalize_models vs) | _ \<Rightarrow> None)"

record UpstreamUpdateMeta =
  um_enabled :: bool
  um_pendingAddModels :: "jsstring list"
  um_pendingRemoveModels :: "jsstring list"

text \<open>A value of type object, or the value that a string holds.  \<open>arrays\<close> tells whether an array counts as
  an object.\<close>

definition parsed_settings :: "bool \<Rightarrow> jsval option \<Rightarrow> jsval option" where
  "parsed_settings arrays stored =
     (case stored of
        Some (JObj ps) \<Rightarrow> Some (JObj ps)
      | Some (JArr vs) \<Rightarrow> if arrays then Some (JArr vs) else None
      | Some (JStr s) \<Rightarrow> JSON_parse s
      | _ \<Rightarrow> None)"

definition parseUpstreamUpdateMeta :: "jsval option \<Rightarrow> UpstreamUpdateMeta option" where
  "parseUpstreamUpdateMeta stored =
     (let none = \<lparr>um_enabled = False, um_pendingAddModels = [], um_pendingRemoveModels = []\<rparr>;
          read = (\<lambda>parsed.
            case (normalizeModelList (js_prop parsed (js ''upstream_model_update_last_detected_models'')),
                  normalizeModelList (js_prop parsed (js ''upstream_model_update_last_removed_models''))) of
              (Some add, Some remove) \<Rightarrow>
                Some \<lparr>um_enabled = (js_prop parsed (js ''upstream_model_update_check_enabled'') = Some (JBool True)),
                      um_pendingAddModels = add, um_pendingRemoveModels = remove\<rparr>
            | _ \<Rightarrow> None)
      in case parsed_settings False stored of
           Some (JObj ps) \<Rightarrow> read (JObj ps)
         | Some (JArr vs) \<Rightarrow> read (JArr vs)
         | _ \<Rightarrow> Some none)"

definition getManualIgnoredModelCount :: "jsval option \<Rightarrow> nat option" where
  "getManualIgnoredModelCount stored =
     (let parsed = parsed_settings True stored in
      if \<not> truthy_opt parsed then Some 0
      else map_option length
        (normalizeModelList (js_prop (the parsed) (js ''upstream_model_update_ignored_models''))))"

subsection \<open>The hook\<close>

datatype up_tab = AddTab | RemoveTab

datatype notice_text = Translated jsstring "(jsstring \<times> jsval option) list" | Given jsval

datatype notice = InfoNotice notice_text | SuccessNotice notice_text | ErrorNotice notice_text

text \<open>The four asynchronous calls, and where a running call waits: for the response to its request
  (keeping the models it asked to ignore) or for the refresh of the list.\<close>

datatype up_call = ApplyCall | ApplyAllCall | DetectCall | DetectAllCall

datatype up_phase = AwaitResponse "jsstring list" | AwaitRefresh

datatype up_request =
    PostApply int "jsstring list" "jsstring list" "jsstring list"
  | PostApplyAll
  | PostDetect int
  | PostDetectAll

text \<open>An error that was thrown: the message in the response, if any, and its own message.\<close>

record failure =
  response_message :: "jsval option"
  error_message :: "jsval option"

datatype up_outcome = Responded "jsval option" | Refreshed | Failed failure

record upstream =
  us_showModal :: bool
  us_channel :: "int option"
  us_addModels :: "jsstring list"
  us_removeModels :: "jsstring list"
  us_preferredTab :: up_tab
  us_applyLoading :: bool
  us_detectAllLoading :: bool
  us_applyAllLoading :: bool
  us_applyRef :: bool
  us_detectRef :: bool
  us_detectAllRef :: bool
  us_applyAllRef :: bool
  us_pending :: "(up_call \<times> up_phase) list"
  us_sent :: "up_request list"
  us_notices :: "notice list"
  ud_activeTab :: up_tab
  ud_searchAdd :: jsstring
  ud_searchRemove :: jsstring
  ud_selectedAdd :: "jsstring list"
  ud_selectedRemove :: "jsstring list"
  ud_partialConfirmOpen :: bool

definition upstream_start :: upstream where
  "upstream_start =
     \<lparr>us_showModal = False, us_channel = None, us_addModels = [], us_removeModels = [],
      us_preferredTab = AddTab, us_applyLoading = False, us_detectAllLoading = False,
      us_applyAllLoading = False, us_applyRef = False, us_detectRef = False, us_detectAllRef = False,
      us_applyAllRef = False, us_pending = [], us_sent = [], us_notices = [],
      ud_activeTab = AddTab, ud_searchAdd = [], ud_searchRemove = [], ud_selectedAdd = set_of [],
      ud_selectedRemove = set_of [], ud_partialConfirmOpen = False\<rparr>"

definition notify :: "notice \<Rightarrow> upstream \<Rightarrow> upstream" where
  "notify n st = st\<lparr>us_notices := us_notices st @ [n]\<rparr>"

text \<open>The record \<open>record?.id\<close> is falsy for no record and for the number 0.\<close>

definition has_id :: "int option \<Rightarrow> bool" where
  "has_id record = (record \<noteq> None \<and> record \<noteq> Some 0)"

definition openModal ::
    "int option \<Rightarrow> jsstring list \<Rightarrow> jsstring list \<Rightarrow> up_tab \<Rightarrow> upstream \<Rightarrow> upstream" where
  "openModal record pendingAdd pendingRemove tab st =
     (let normAdd = normalize_models (map JStr pendingAdd);
          normRemove = normalize_models (map JStr pendingRemove)
      in if \<not> has_id record \<or> (normAdd = [] \<and> normRemove = [])
         then notify (InfoNotice (Translated
                (js ''No processable upstream model updates for this channel'') [])) st
         else st\<lparr>us_channel := record, us_addModels := normAdd, us_removeModels := normRemove,
                us_preferredTab := tab, us_showModal := True\<rparr>)"

definition closeModal :: "upstream \<Rightarrow> upstream" where
  "closeModal st = st\<lparr>us_showModal := False, us_channel := None, us_addModels := [],
     us_removeModels := [], us_preferredTab := AddTab\<rparr>"

definition send :: "up_call \<Rightarrow> jsstring list \<Rightarrow> up_request \<Rightarrow> upstream \<Rightarrow> upstream" where
  "send c ignoreModels r st =
     st\<lparr>us_sent := us_sent st @ [r], us_pending := us_pending st @ [(c, AwaitResponse ignoreModels)]\<rparr>"

definition applyUpdates :: "jsstring list \<Rightarrow> jsstring list \<Rightarrow> upstream \<Rightarrow> upstream" where
  "applyUpdates selectedAdd selectedRemove st =
     (if us_applyRef st then st
      else if \<not> has_id (us_channel st) then closeModal st
      else
        let normSelectedAdd = normalize_models (map JStr selectedAdd);
            ignoreModels = filter (\<lambda>m. m \<notin> set normSelectedAdd) (us_addModels st)
        in send ApplyCall ignoreModels
             (PostApply (the (us_channel st)) normSelectedAdd ignoreModels
                (normalize_models (map JStr selectedRemove)))
             (st\<lparr>us_applyRef := True, us_applyLoading := True\<rparr>))"

definition applyAllUpdates :: "upstream \<Rightarrow> upstream" where
  "applyAllUpdates st =
     (if us_applyAllRef st then st
      else send ApplyAllCall [] PostApplyAll (st\<lparr>us_applyAllRef := True, us_applyAllLoading := True\<rparr>))"

definition detectChannelUpdates :: "int option \<Rightarrow> upstream \<Rightarrow> upstream" where
  "detectChannelUpdates ch st =
     (if us_detectRef st \<or> \<not> has_id ch then st
      else send DetectCall [] (PostDetect (the ch)) (st\<lparr>us_detectRef := True\<rparr>))"

definition detectAllUpdates :: "upstream \<Rightarrow> upstream" where
  "detectAllUpdates st =
     (if us_detectAllRef st then st
      else send DetectAllCall [] PostDetectAll (st\<lparr>us_detectAllRef := True, us_detectAllLoading := True\<rparr>))"

text \<open>The clauses \<open>finally\<close> and \<open>catch\<close> of the four calls.\<close>

fun finally_call :: "up_call \<Rightarrow> upstream \<Rightarrow> upstream" where
  "finally_call ApplyCall st = st\<lparr>us_applyRef := False, us_applyLoading := False\<rparr>"
| "finally_call ApplyAllCall st = st\<lparr>us_applyAllRef := False, us_applyAllLoading := False\<rparr>"
| "finally_call DetectCall st = st\<lparr>us_detectRef := False\<rparr>"
| "finally_call DetectAllCall st = st\<lparr>us_detectAllRef := False, us_detectAllLoading := False\<rparr>"

fun fallback_message :: "up_call \<Rightarrow> jsstring" where
  "fallback_message ApplyCall = js ''Operation failed''"
| "fallback_message ApplyAllCall = js ''Batch processing failed''"
| "fallback_message DetectCall = js ''Detection failed''"
| "fallback_message DetectAllCall = js ''Batch detection failed''"

definition or_message :: "jsval option \<Rightarrow> notice_text \<Rightarrow> notice_text" where
  "or_message v d = (if truthy_opt v then Given (the v) else d)"

definition catch_call :: "up_call \<Rightarrow> failure \<Rightarrow> upstream \<Rightarrow> upstream" where
  "catch_call c err st =
     notify (ErrorNotice (or_message (response_message err) (or_message (error_message err)
       (Translated (fallback_message c) [])))) st"

text \<open>Optional access \<open>v?.k\<close>, the property \<open>length\<close>, and the value of \<open>x || 0\<close>.\<close>

definition opt_prop :: "jsval option \<Rightarrow> string \<Rightarrow> jsval option" where
  "opt_prop v k = (case v of None \<Rightarrow> None | Some w \<Rightarrow> js_prop w (js k))"

definition opt_length :: "jsval option \<Rightarrow> jsval option" where
  "opt_length v =
     (case v of
        Some (JArr vs) \<Rightarrow> Some (JNum (of_nat (length vs)))
      | Some (JStr s) \<Rightarrow> Some (JNum (of_nat (length s)))
      | Some (JObj ps) \<Rightarrow> obj_get ps (js ''length'')
      | _ \<Rightarrow> None)"

definition or_zero :: "jsval option \<Rightarrow> jsval option" where
  "or_zero v = Some (or_val v (JNum 0))"

text \<open>
  What a call does with a successful response: the success notice, or \<open>None\<close> when
  composing it throws (the stored settings of the answer can hold anything).
\<close>

fun success_notice :: "up_call \<Rightarrow> jsstring list \<Rightarrow> jsval option \<Rightarrow> notice_text option" where
  "success_notice ApplyCall ignoreModels data =
     map_option (\<lambda>total. Translated (js ''Upstream model updates applied: {{added}} added, {{removed}} removed, {{ignored}} ignored this time, {{totalIgnored}} total ignored models'')
       [(js ''added'', or_zero (opt_length (opt_prop data ''added_models''))),
        (js ''removed'', or_zero (opt_length (opt_prop data ''removed_models''))),
        (js ''ignored'', Some (JNum (of_nat (length (normalize_models (map JStr ignoreModels)))))),
        (js ''totalIgnored'', Some (JNum (of_nat total)))])
       (getManualIgnoredModelCount (opt_prop data ''settings''))"
| "success_notice ApplyAllCall _ data =
     Some (Translated (js ''Batch upstream model updates applied: {{channels}} channels, {{added}} added, {{removed}} removed, {{fails}} failed'')
       [(js ''channels'', or_zero (opt_prop data ''processed_channels'')),
        (js ''added'', or_zero (opt_prop data ''added_models'')),
        (js ''removed'', or_zero (opt_prop data ''removed_models'')),
        (js ''fails'', opt_length (Some (or_val (opt_prop data ''failed_channel_ids'') (JArr []))))])"
| "success_notice DetectCall _ data =
     Some (Translated (js ''Detection complete: {{add}} to add, {{remove}} to remove'')
       [(js ''add'', or_zero (opt_length (opt_prop data ''add_models''))),
        (js ''remove'', or_zero (opt_length (opt_prop data ''remove_models'')))])"
| "success_notice DetectAllCall _ data =
     Some (Translated (js ''Batch detection complete: {{channels}} channels, {{add}} to add, {{remove}} to remove, {{fails}} failed'')
       [(js ''channels'', or_zero (opt_prop data ''processed_channels'')),
        (js ''add'', or_zero (opt_prop data ''detected_add_models'')),
        (js ''remove'', or_zero (opt_prop data ''detected_remove_models'')),
        (js ''fails'', opt_length (Some (or_val (opt_prop data ''failed_channel_ids'') (JArr []))))])"

text \<open>
  The continuation of a call after its \<open>await\<close>: the new phase, or \<open>None\<close> when the call has
  ended.  \<open>typeError\<close> is the message of the type error the language throws.
\<close>

definition end_call :: "up_call \<Rightarrow> upstream \<Rightarrow> up_phase option \<times> upstream" where
  "end_call c st = (None, finally_call c st)"

definition on_response ::
    "jsstring \<Rightarrow> up_call \<Rightarrow> jsstring list \<Rightarrow> jsval option \<Rightarrow> upstream \<Rightarrow> up_phase option \<times> upstream" where
  "on_response typeError c ignoreModels body st =
     (let body = or_val body (JObj []);
          success = opt_prop (Some body) ''success''; message = opt_prop (Some body) ''message'';
          data = opt_prop (Some body) ''data''
      in if \<not> truthy_opt success
         then end_call c (notify (ErrorNotice (or_message message (Translated (fallback_message c) []))) st)
         else case success_notice c ignoreModels data of
                None \<Rightarrow> end_call c (catch_call c
                  \<lparr>response_message = None, error_message = Some (JStr typeError)\<rparr> st)
              | Some n \<Rightarrow>
                  let st1 = notify (SuccessNotice n) st
                  in (Some AwaitRefresh, if c = ApplyCall then closeModal st1 else st1))"

fun continue_call ::
    "jsstring \<Rightarrow> up_call \<Rightarrow> up_phase \<Rightarrow> up_outcome \<Rightarrow> upstream \<Rightarrow> (up_phase option \<times> upstream) option" where
  "continue_call te c (AwaitResponse ig) (Responded body) st = Some (on_response te c ig body st)"
| "continue_call te c (AwaitResponse ig) (Failed err) st = Some (end_call c (catch_call c err st))"
| "continue_call te c AwaitRefresh Refreshed st = Some (end_call c st)"
| "continue_call te c AwaitRefresh (Failed err) st = Some (end_call c (catch_call c err st))"
| "continue_call te c _ _ st = None"

text \<open>The runtime resumes the pending call number \<open>k\<close> with the outcome it waited for.\<close>

definition resume :: "jsstring \<Rightarrow> nat \<Rightarrow> up_outcome \<Rightarrow> upstream \<Rightarrow> upstream option" where
  "resume te k out st =
     (if k < length (us_pending st)
      then let (c, ph) = us_pending st ! k;
               before = take k (us_pending st); after = drop (Suc k) (us_pending st)
           in map_option (\<lambda>(next, st').
                st'\<lparr>us_pending := before @ (case next of None \<Rightarrow> [] | Some ph' \<Rightarrow> [(c, ph')]) @ after\<rparr>)
                (continue_call te c ph out st)
      else None)"

subsection \<open>The dialog\<close>

text \<open>The dialog is mounted with the page, before any channel is chosen; its state starts from the
  empty lists of that moment (\<open>upstream_start\<close>).  \<open>lower\<close> is \<open>toLowerCase\<close>.\<close>

definition filter_models :: "(jsstring \<Rightarrow> jsstring) \<Rightarrow> jsstring \<Rightarrow> jsstring list \<Rightarrow> jsstring list" where
  "filter_models lower search models = filter (\<lambda>m. str_includes (lower m) (lower search)) models"

definition filteredAdd :: "(jsstring \<Rightarrow> jsstring) \<Rightarrow> upstream \<Rightarrow> jsstring list" where
  "filteredAdd lower st = filter_models lower (ud_searchAdd st) (us_addModels st)"

definition filteredRemove :: "(jsstring \<Rightarrow> jsstring) \<Rightarrow> upstream \<Rightarrow> jsstring list" where
  "filteredRemove lower st = filter_models lower (ud_searchRemove st) (us_removeModels st)"

definition toggleModel :: "jsstring \<Rightarrow> jsstring list \<Rightarrow> jsstring list" where
  "toggleModel model selected = (if model \<in> set selected then removeAll model selected else set_add selected model)"

definition toggleAllVisible :: "jsstring list \<Rightarrow> jsstring list \<Rightarrow> jsstring list" where
  "toggleAllVisible models selected =
     (if list_all (\<lambda>m. m \<in> set selected) models then foldl (\<lambda>ss m. removeAll m ss) selected models
      else foldl set_add selected models)"

definition confirm :: "upstream \<Rightarrow> upstream" where
  "confirm st = applyUpdates (ud_selectedAdd st) (ud_selectedRemove st) st"

definition handleConfirm :: "upstream \<Rightarrow> upstream" where
  "handleConfirm st =
     (if us_addModels st \<noteq> [] \<and> us_removeModels st \<noteq> [] \<and>
         (ud_selectedAdd st \<noteq> []) \<noteq> (ud_selectedRemove st \<noteq> [])
      then st\<lparr>ud_partialConfirmOpen := True\<rparr>
      else confirm st)"

definition confirmPartial :: "upstream \<Rightarrow> upstream" where
  "confirmPartial st = confirm (st\<lparr>ud_partialConfirmOpen := False\<rparr>)"

text \<open>The entry of the row menu, and the badges beside the channel name; a type error while reading
  the settings is \<open>None\<close>.\<close>

definition rowUpdates :: "int \<Rightarrow> jsval option \<Rightarrow> upstream \<Rightarrow> upstream option" where
  "rowUpdates i stored st =
     map_option (\<lambda>meta.
       if um_pendingAddModels meta \<noteq> [] \<or> um_pendingRemoveModels meta \<noteq> []
       then openModal (Some i) (um_pendingAddModels meta) (um_pendingRemoveModels meta)
              (if um_pendingAddModels meta \<noteq> [] then AddTab else RemoveTab) st
       else detectChannelUpdates (Some i) st)
       (parseUpstreamUpdateMeta stored)"

definition tagUpdates :: "int \<Rightarrow> jsval option \<Rightarrow> up_tab \<Rightarrow> upstream \<Rightarrow> upstream option" where
  "tagUpdates i stored tab st =
     (case parseUpstreamUpdateMeta stored of
        None \<Rightarrow> None
      | Some meta \<Rightarrow>
          if um_enabled meta \<and> (case tab of AddTab \<Rightarrow> um_pendingAddModels meta \<noteq> []
                                | RemoveTab \<Rightarrow> um_pendingRemoveModels meta \<noteq> [])
          then Some (openModal (Some i) (um_pendingAddModels meta) (um_pendingRemoveModels meta) tab st)
          else None)"

subsection \<open>The state machine\<close>

datatype up_event =
    UpRow int "jsval option" | UpTag int "jsval option" up_tab | UpCancel
  | UpToggleAdd jsstring | UpToggleRemove jsstring | UpToggleAllAdd | UpToggleAllRemove
  | UpSearchAdd jsstring | UpSearchRemove jsstring | UpTab up_tab
  | UpConfirm | UpPartialYes | UpPartialNo | UpApplyAll | UpDetectAll
  | UpResume nat up_outcome

text \<open>What the page does on an event; \<open>None\<close> where the event cannot be raised, because the control
  is not drawn or is disabled.\<close>

fun upstream_handle :: "(jsstring \<Rightarrow> jsstring) \<Rightarrow> jsstring \<Rightarrow> up_event \<Rightarrow> upstream \<Rightarrow> upstream option" where
  "upstream_handle lower te (UpRow i s) st = rowUpdates i s st"
| "upstream_handle lower te (UpTag i s tab) st = tagUpdates i s tab st"
| "upstream_handle lower te UpCancel st = (if us_showModal st then Some (closeModal st) else None)"
| "upstream_handle lower te (UpToggleAdd m) st =
     (if us_showModal st \<and> m \<in> set (filteredAdd lower st)
      then Some (st\<lparr>ud_selectedAdd := toggleModel m (ud_selectedAdd st)\<rparr>) else None)"
| "upstream_handle lower te (UpToggleRemove m) st =
     (if us_showModal st \<and> m \<in> set (filteredRemove lower st)
      then Some (st\<lparr>ud_selectedRemove := toggleModel m (ud_selectedRemove st)\<rparr>) else None)"
| "upstream_handle lower te UpToggleAllAdd st =
     (if us_showModal st \<and> filteredAdd lower st \<noteq> []
      then Some (st\<lparr>ud_selectedAdd := toggleAllVisible (filteredAdd lower st) (ud_selectedAdd st)\<rparr>) else None)"
| "upstream_handle lower te UpToggleAllRemove st =
     (if us_showModal st \<and> filteredRemove lower st \<noteq> []
      then Some (st\<lparr>ud_selectedRemove := toggleAllVisible (filteredRemove lower st) (ud_selectedRemove st)\<rparr>)
      else None)"
| "upstream_handle lower te (UpSearchAdd s) st = (if us_showModal st then Some (st\<lparr>ud_searchAdd := s\<rparr>) else None)"
| "upstream_handle lower te (UpSearchRemove s) st =
     (if us_showModal st then Some (st\<lparr>ud_searchRemove := s\<rparr>) else None)"
| "upstream_handle lower te (UpTab tab) st = (if us_showModal st then Some (st\<lparr>ud_activeTab := tab\<rparr>) else None)"
| "upstream_handle lower te UpConfirm st =
     (if us_showModal st \<and> \<not> us_applyLoading st \<and> \<not> (us_addModels st = [] \<and> us_removeModels st = [])
      then Some (handleConfirm st) else None)"
| "upstream_handle lower te UpPartialYes st =
     (if ud_partialConfirmOpen st then Some (confirmPartial st) else None)"
| "upstream_handle lower te UpPartialNo st =
     (if ud_partialConfirmOpen st then Some (st\<lparr>ud_partialConfirmOpen := False\<rparr>) else None)"
| "upstream_handle lower te UpApplyAll st = Some (applyAllUpdates st)"
| "upstream_handle lower te UpDetectAll st = Some (detectAllUpdates st)"
| "upstream_handle lower te (UpResume k out) st = resume te k out st"

definition upstream_step ::
    "(jsstring \<Rightarrow> jsstring) \<Rightarrow> jsstring \<Rightarrow> upstream \<Rightarrow> up_event \<Rightarrow> upstream \<Rightarrow> bool" where
  "upstream_step lower te st e st' \<longleftrightarrow> upstream_handle lower te e st = Some st'"

definition upstream_init :: "upstream \<Rightarrow> bool" where
  "upstream_init st \<longleftrightarrow> st = upstream_start"

subsection \<open>The invariant\<close>

text \<open>The lock of each call, the number of its running instances, and what an open dialog shows.\<close>

fun lock :: "up_call \<Rightarrow> upstream \<Rightarrow> bool" where
  "lock ApplyCall st = us_applyRef st"
| "lock ApplyAllCall st = us_applyAllRef st"
| "lock DetectCall st = us_detectRef st"
| "lock DetectAllCall st = us_detectAllRef st"

definition running :: "up_call \<Rightarrow> upstream \<Rightarrow> nat" where
  "running c st = length (filter (\<lambda>p. fst p = c) (us_pending st))"

definition clean_models :: "jsstring list \<Rightarrow> bool" where
  "clean_models ms \<longleftrightarrow> distinct ms \<and> list_all (\<lambda>m. trimmed m \<and> m \<noteq> []) ms"

definition good_request :: "up_request \<Rightarrow> bool" where
  "good_request r = (case r of
     PostApply i add ign rem \<Rightarrow> i \<noteq> 0 \<and> clean_models add \<and> clean_models ign \<and> clean_models rem \<and>
       set add \<inter> set ign = {}
   | PostDetect i \<Rightarrow> i \<noteq> 0 | _ \<Rightarrow> True)"

definition modal_inv :: "upstream \<Rightarrow> bool" where
  "modal_inv st \<longleftrightarrow> clean_models (us_addModels st) \<and> clean_models (us_removeModels st) \<and>
     (if us_showModal st then has_id (us_channel st) \<and> (us_addModels st \<noteq> [] \<or> us_removeModels st \<noteq> [])
      else us_channel st = None \<and> us_addModels st = [] \<and> us_removeModels st = [])"

definition locks_inv :: "upstream \<Rightarrow> bool" where
  "locks_inv st \<longleftrightarrow> (\<forall>c. running c st = (if lock c st then 1 else 0)) \<and>
     us_applyLoading st = us_applyRef st \<and> us_applyAllLoading st = us_applyAllRef st \<and>
     us_detectAllLoading st = us_detectAllRef st"

definition upstream_inv :: "upstream \<Rightarrow> bool" where
  "upstream_inv st \<longleftrightarrow> modal_inv st \<and> locks_inv st \<and> list_all good_request (us_sent st)"

lemma normalize_strs: "normalize_models (map JStr xs) = set_of (truthy_strs (map trim xs))"
proof -
  have "to_str (if truthy (JStr x) then JStr x else JStr []) = x" for x by (simp add: truthy_def)
  then show ?thesis by (simp add: normalize_models_def comp_def)
qed

lemma clean_normalize [simp]: "clean_models (normalize_models vs)"
  by (auto simp: clean_models_def normalize_models_def truthy_strs_def list_all_iff)

lemma clean_filter [simp]: "clean_models ms \<Longrightarrow> clean_models (filter P ms)"
  by (auto simp: clean_models_def list_all_iff)

lemma clean_Nil [simp]: "clean_models []"
  by (simp add: clean_models_def)

lemma all_up_call: "(\<forall>c. P c) \<longleftrightarrow> P ApplyCall \<and> P ApplyAllCall \<and> P DetectCall \<and> P DetectAllCall"
  by (metis up_call.exhaust)

lemmas upstream_inv_defs = upstream_inv_def modal_inv_def locks_inv_def all_up_call running_def

lemma inv_dialog [simp]:
  "upstream_inv (st\<lparr>ud_activeTab := tab\<rparr>) = upstream_inv st"
  "upstream_inv (st\<lparr>ud_searchAdd := s\<rparr>) = upstream_inv st"
  "upstream_inv (st\<lparr>ud_searchRemove := s\<rparr>) = upstream_inv st"
  "upstream_inv (st\<lparr>ud_selectedAdd := ms\<rparr>) = upstream_inv st"
  "upstream_inv (st\<lparr>ud_selectedRemove := ms\<rparr>) = upstream_inv st"
  "upstream_inv (st\<lparr>ud_partialConfirmOpen := b\<rparr>) = upstream_inv st"
  "upstream_inv (notify n st) = upstream_inv st"
  by (simp_all add: upstream_inv_defs notify_def)

lemma inv_openModal: "upstream_inv st \<Longrightarrow> upstream_inv (openModal record pa pr tab st)"
  by (auto simp: openModal_def Let_def) (auto simp: upstream_inv_defs)

lemma inv_closeModal: "upstream_inv st \<Longrightarrow> upstream_inv (closeModal st)"
  by (simp add: closeModal_def upstream_inv_defs)

lemma inv_applyUpdates: "upstream_inv st \<Longrightarrow> upstream_inv (applyUpdates sa sr st)"
  by (auto simp: applyUpdates_def Let_def inv_closeModal)
     (auto simp: upstream_inv_defs send_def good_request_def has_id_def split: if_splits)

lemma inv_other_calls:
  "upstream_inv st \<Longrightarrow> upstream_inv (applyAllUpdates st)"
  "upstream_inv st \<Longrightarrow> upstream_inv (detectChannelUpdates ch st)"
  "upstream_inv st \<Longrightarrow> upstream_inv (detectAllUpdates st)"
  by (auto simp: applyAllUpdates_def detectChannelUpdates_def detectAllUpdates_def upstream_inv_defs send_def
      good_request_def has_id_def split: if_splits)

text \<open>Resuming a call: the state without the call, and with the call in its next phase.\<close>

definition replace_call :: "nat \<Rightarrow> (up_call \<times> up_phase) list \<Rightarrow> upstream \<Rightarrow> upstream" where
  "replace_call k ps st = st\<lparr>us_pending := take k (us_pending st) @ ps @ drop (Suc k) (us_pending st)\<rparr>"

lemma running_replace:
  assumes "k < length (us_pending st)" "us_pending st ! k = (c, ph)"
  shows "running d (replace_call k ps st) + (if d = c then 1 else 0) =
    running d st + length (filter (\<lambda>p. fst p = d) ps)"
proof -
  have "us_pending st = take k (us_pending st) @ [(c, ph)] @ drop (Suc k) (us_pending st)"
    using id_take_nth_drop [OF assms(1)] assms(2) by simp
  then have "running d st =
      length (filter (\<lambda>p. fst p = d) (take k (us_pending st) @ [(c, ph)] @ drop (Suc k) (us_pending st)))"
    unfolding running_def by (rule arg_cong)
  then show ?thesis by (simp add: running_def replace_call_def)
qed

lemma replace_call_fields [simp]:
  "lock c (replace_call k ps st) = lock c st" "modal_inv (replace_call k ps st) = modal_inv st"
  "us_sent (replace_call k ps st) = us_sent st"
  "us_applyLoading (replace_call k ps st) = us_applyLoading st"
  "us_applyAllLoading (replace_call k ps st) = us_applyAllLoading st"
  "us_detectAllLoading (replace_call k ps st) = us_detectAllLoading st"
  "us_applyRef (replace_call k ps st) = us_applyRef st"
  "us_applyAllRef (replace_call k ps st) = us_applyAllRef st"
  "us_detectAllRef (replace_call k ps st) = us_detectAllRef st"
  by (cases c; simp add: replace_call_def modal_inv_def)+

lemma locks_next_phase:
  assumes "locks_inv st" "k < length (us_pending st)" "us_pending st ! k = (c, ph)"
  shows "locks_inv (replace_call k [(c, ph')] st)"
proof -
  have "running d (replace_call k [(c, ph')] st) = running d st" for d
    using running_replace [OF assms(2,3), of d "[(c, ph')]"] by (simp split: if_splits)
  then show ?thesis using assms(1) by (simp add: locks_inv_def)
qed

lemma locks_end:
  assumes "locks_inv st" "k < length (us_pending st)" "us_pending st ! k = (c, ph)"
  shows "locks_inv (finally_call c (replace_call k [] st))"
proof -
  have r: "running d (replace_call k [] st) = (if lock d st \<and> d \<noteq> c then 1 else 0)" for d
    using running_replace [OF assms(2,3), of d "[]"] assms(1) by (auto simp: locks_inv_def split: if_splits)
  have f: "running d (finally_call c s) = running d s" for d s by (cases c) (simp_all add: running_def)
  have "lock d (finally_call c s) = (lock d s \<and> d \<noteq> c)" for d s by (cases c; cases d) simp_all
  then have "\<forall>d. running d (finally_call c (replace_call k [] st)) =
      (if lock d (finally_call c (replace_call k [] st)) then 1 else 0)" by (simp add: r f)
  moreover have "us_applyLoading st = us_applyRef st" "us_applyAllLoading st = us_applyAllRef st"
    "us_detectAllLoading st = us_detectAllRef st" using assms(1) by (simp_all add: locks_inv_def)
  ultimately show ?thesis unfolding locks_inv_def by (cases c) simp_all
qed

lemma finally_modal [simp]:
  "modal_inv (finally_call c st) = modal_inv st" "us_sent (finally_call c st) = us_sent st"
  "us_pending (finally_call c st) = us_pending st"
  by (cases c; simp add: modal_inv_def)+

text \<open>A handler that touches neither the locks nor the pending calls commutes with the bookkeeping.\<close>

lemma resume_replace:
  assumes "resume te k out st = Some st'"
  obtains c ph nx st1 where "k < length (us_pending st)" "us_pending st ! k = (c, ph)"
    "continue_call te c ph out st = Some (nx, st1)"
    "st' = st1\<lparr>us_pending := take k (us_pending st) @
       (case nx of None \<Rightarrow> [] | Some ph' \<Rightarrow> [(c, ph')]) @ drop (Suc k) (us_pending st)\<rparr>"
  using assms by (auto simp: resume_def Let_def split: if_splits prod.splits)

lemma continue_cases:
  assumes "continue_call te c ph out st = Some (nx, st1)" "upstream_inv st"
  obtains "nx = None" "\<exists>n. st1 = finally_call c (notify n st) \<or> st1 = finally_call c st"
  | n where "nx = Some AwaitRefresh" "st1 = notify n st \<or> st1 = closeModal (notify n st)"
      "\<exists>ig. ph = AwaitResponse ig"
  using assms
  by (cases "(te, c, ph, out, st)" rule: continue_call.cases)
     (auto simp: end_call_def catch_call_def on_response_def Let_def split: if_splits option.splits)

lemma replace_commutes:
  "(finally_call c st)\<lparr>us_pending := ps\<rparr> = finally_call c (st\<lparr>us_pending := ps\<rparr>)"
  "(notify n st)\<lparr>us_pending := ps\<rparr> = notify n (st\<lparr>us_pending := ps\<rparr>)"
  "(closeModal st)\<lparr>us_pending := ps\<rparr> = closeModal (st\<lparr>us_pending := ps\<rparr>)"
  "finally_call c (notify n st) = notify n (finally_call c st)"
  by (cases c; simp add: notify_def closeModal_def)+

lemma inv_resume:
  assumes "upstream_inv st" "resume te k out st = Some st'"
  shows "upstream_inv st'"
proof -
  obtain c ph nx st1 where k: "k < length (us_pending st)" "us_pending st ! k = (c, ph)"
    and cont: "continue_call te c ph out st = Some (nx, st1)"
    and st': "st' = st1\<lparr>us_pending := take k (us_pending st) @
       (case nx of None \<Rightarrow> [] | Some ph' \<Rightarrow> [(c, ph')]) @ drop (Suc k) (us_pending st)\<rparr>"
    using resume_replace [OF assms(2)] by blast
  have l: "locks_inv st" and m: "modal_inv st" "list_all good_request (us_sent st)"
    using assms(1) by (simp_all add: upstream_inv_def)
  have step: "upstream_inv (replace_call k [(c, ph')] st)" for ph'
    using locks_next_phase [OF l k] m by (simp add: upstream_inv_def)
  have fin: "upstream_inv (finally_call c (replace_call k [] st))"
    using locks_end [OF l k] m by (simp add: upstream_inv_def)
  show ?thesis
  proof (rule continue_cases [OF cont assms(1)])
    assume "nx = None" "\<exists>n. st1 = finally_call c (notify n st) \<or> st1 = finally_call c st"
    then show ?thesis using fin by (auto simp: st' replace_commutes replace_call_def)
  next
    fix n assume "nx = Some AwaitRefresh" "st1 = notify n st \<or> st1 = closeModal (notify n st)"
    then show ?thesis using step inv_closeModal [OF step]
      by (auto simp: st' replace_commutes replace_call_def) (metis inv_closeModal inv_dialog(7))
  qed
qed

lemma inv_rows:
  "upstream_inv st \<Longrightarrow> rowUpdates i s st = Some st' \<Longrightarrow> upstream_inv st'"
  "upstream_inv st \<Longrightarrow> tagUpdates i s tab st = Some st' \<Longrightarrow> upstream_inv st'"
  by (auto simp: rowUpdates_def tagUpdates_def inv_openModal inv_other_calls split: if_splits option.splits up_tab.splits)

lemma inv_confirm:
  "upstream_inv st \<Longrightarrow> upstream_inv (handleConfirm st)" "upstream_inv st \<Longrightarrow> upstream_inv (confirmPartial st)"
  by (simp_all add: handleConfirm_def confirmPartial_def confirm_def inv_applyUpdates)

lemma upstream_step_inv: "upstream_inv st \<Longrightarrow> upstream_step lower te st e st' \<Longrightarrow> upstream_inv st'"
  by (cases e) (auto simp: upstream_step_def split: if_splits
      intro: inv_rows inv_closeModal inv_confirm inv_other_calls inv_resume)

interpretation updates: machine_invariant upstream_init "upstream_step lower te" upstream_inv for lower te
proof
  show "upstream_init s \<Longrightarrow> upstream_inv s" for s
    by (auto simp: upstream_init_def upstream_start_def upstream_inv_defs)
qed (rule upstream_step_inv)

subsection \<open>Resumptions come to an end\<close>

fun phase_work :: "up_phase \<Rightarrow> nat" where
  "phase_work (AwaitResponse ig) = 2"
| "phase_work AwaitRefresh = 1"

definition work :: "upstream \<Rightarrow> nat" where
  "work st = sum_list (map (phase_work \<circ> snd) (us_pending st))"

fun is_resume :: "up_event \<Rightarrow> bool" where
  "is_resume (UpResume k out) = True"
| "is_resume e = False"

lemma phase_work_bounds: "1 \<le> phase_work ph" "phase_work ph \<le> 2"
  by (cases ph; simp)+

lemma resume_works:
  assumes "upstream_inv st" "resume te k out st = Some st'"
  shows "work st' < work st"
proof -
  obtain c ph nx st1 where k: "k < length (us_pending st)" "us_pending st ! k = (c, ph)"
    and cont: "continue_call te c ph out st = Some (nx, st1)"
    and st': "st' = st1\<lparr>us_pending := take k (us_pending st) @
       (case nx of None \<Rightarrow> [] | Some ph' \<Rightarrow> [(c, ph')]) @ drop (Suc k) (us_pending st)\<rparr>"
    using resume_replace [OF assms(2)] by blast
  have "us_pending st = take k (us_pending st) @ [(c, ph)] @ drop (Suc k) (us_pending st)"
    using id_take_nth_drop [OF k(1)] k(2) by simp
  then have "work st = sum_list (map (phase_work \<circ> snd) (take k (us_pending st) @ [(c, ph)] @ drop (Suc k) (us_pending st)))"
    unfolding work_def by (rule arg_cong)
  moreover have "(case nx of None \<Rightarrow> 0 | Some ph' \<Rightarrow> phase_work ph') < phase_work ph"
    by (rule continue_cases [OF cont assms(1)]) (use phase_work_bounds(1) [of ph] in auto)
  ultimately show ?thesis by (cases nx) (simp_all add: work_def st')
qed

lemma work_bound: "locks_inv st \<Longrightarrow> work st \<le> 8"
proof -
  assume l: "locks_inv st"
  have "length (us_pending st) = (\<Sum>c\<in>{ApplyCall, ApplyAllCall, DetectCall, DetectAllCall}. running c st)"
  proof -
    have "length ps = (\<Sum>c\<in>{ApplyCall, ApplyAllCall, DetectCall, DetectAllCall}.
        length (filter (\<lambda>p. fst p = c) ps))" for ps :: "(up_call \<times> up_phase) list"
    proof (induction ps)
      case (Cons p ps)
      then show ?case by (cases "fst p") simp_all
    qed simp
    from this [of "us_pending st"] show ?thesis unfolding running_def .
  qed
  also have "\<dots> \<le> 4" using l by (simp add: locks_inv_def)
  finally have four: "length (us_pending st) \<le> 4" .
  have "sum_list (map (phase_work \<circ> snd) ps) \<le> 2 * length ps" for ps :: "(up_call \<times> up_phase) list"
  proof (induction ps)
    case (Cons p ps)
    then show ?case using phase_work_bounds(2) [of "snd p"] by simp
  qed simp
  from this [of "us_pending st"] have "work st \<le> 2 * length (us_pending st)" by (simp add: work_def)
  then show ?thesis using four by simp
qed

lemma run_resumes:
  "run (upstream_step lower te) st es st' \<Longrightarrow> upstream_inv st \<Longrightarrow> list_all is_resume es \<Longrightarrow>
   length es + work st' \<le> work st"
proof (induction rule: run.induct)
  case (run_Cons s e s' es s'')
  then obtain k out where e: "e = UpResume k out" by (cases e) auto
  have "work s' < work s" using resume_works run_Cons(1,4) by (auto simp: upstream_step_def e)
  moreover have "upstream_inv s'" using upstream_step_inv run_Cons(1,4) by blast
  ultimately show ?case using run_Cons(3,5) by simp
qed simp

lemma resume_possible:
  assumes "us_pending st \<noteq> []"
  shows "\<exists>out st'. upstream_step lower te st (UpResume 0 out) st'"
proof -
  obtain c ph ps where "us_pending st = (c, ph) # ps" using assms by (metis neq_Nil_conv surj_pair)
  then have "resume te 0 (Failed err) st \<noteq> None" for err
    by (cases ph) (auto simp: resume_def)
  then show ?thesis unfolding upstream_step_def upstream_handle.simps by blast
qed

subsection \<open>Properties\<close>

text \<open>
  Claim C12.  One call of each kind at a time: in every state that any interleaving of clicks,
  responses, failures and refreshes can reach, a call is running exactly when its lock is taken,
  and then only once; the loading flags are the locks; an open dialog has a channel and
  something to offer, a closed one nothing; and every request sent so far has an identifier,
  lists of clean distinct names, and adds no model that it also ignores.
\<close>

theorem upstream_calls_exclusive:
  assumes "reachable upstream_init (upstream_step lower te) st"
  shows "(\<forall>c. running c st = (if lock c st then 1 else 0)) \<and>
    us_applyLoading st = us_applyRef st \<and> us_applyAllLoading st = us_applyAllRef st \<and>
    us_detectAllLoading st = us_detectAllRef st \<and>
    (if us_showModal st then has_id (us_channel st) \<and> (us_addModels st \<noteq> [] \<or> us_removeModels st \<noteq> [])
     else us_channel st = None \<and> us_addModels st = [] \<and> us_removeModels st = []) \<and>
    list_all good_request (us_sent st)"
  using updates.reachable_inv [OF assms] unfolding upstream_inv_def locks_inv_def modal_inv_def by blast

text \<open>A page on which channel 7 offered the model \<open>a\<close>, the model was selected and the dialog
  cancelled; then channel 8 offers the model \<open>b\<close>.\<close>

definition offer :: "string \<Rightarrow> jsval option" where
  "offer m = Some (JObj [(js ''upstream_model_update_last_detected_models'', JArr [JStr (js m)])])"

definition cancelled_page :: upstream where
  "cancelled_page = closeModal ((the (rowUpdates 7 (offer ''a'') upstream_start))\<lparr>ud_selectedAdd := [js ''a'']\<rparr>)"

definition offered_page :: upstream where
  "offered_page = openModal (Some 8) [js ''b''] [] AddTab cancelled_page"

lemma cancelled_page_reachable: "reachable upstream_init (upstream_step (\<lambda>s. s) te) cancelled_page"
proof -
  let ?r = "reachable upstream_init (upstream_step (\<lambda>s. s) te)"
  let ?s1 = "the (rowUpdates 7 (offer ''a'') upstream_start)"
  have start: "?r upstream_start" by (rule reachable.start) (simp add: upstream_init_def)
  have "rowUpdates 7 (offer ''a'') upstream_start \<noteq> None" by code_simp
  then have "upstream_step (\<lambda>s. s) te upstream_start (UpRow 7 (offer ''a'')) ?s1"
    by (simp add: upstream_step_def)
  with start have s1: "?r ?s1" by (rule reachable.event)
  have "us_showModal ?s1" "js ''a'' \<in> set (filteredAdd (\<lambda>s. s) ?s1)"
    "toggleModel (js ''a'') (ud_selectedAdd ?s1) = [js ''a'']" by code_simp+
  then have "?r (?s1\<lparr>ud_selectedAdd := [js ''a'']\<rparr>)"
    by (intro reachable.event [OF s1, where e = "UpToggleAdd (js ''a'')"]) (simp add: upstream_step_def)
  then show ?thesis
    using \<open>us_showModal ?s1\<close> unfolding cancelled_page_def
    by (auto intro: reachable.event [where e = UpCancel] simp: upstream_step_def)
qed

lemma cancelled_page_fields:
  "\<not> us_showModal cancelled_page" "\<not> us_applyRef cancelled_page" "us_sent cancelled_page = []"
  "ud_selectedAdd cancelled_page = [js ''a'']" "ud_selectedRemove cancelled_page = []"
  "us_pending cancelled_page = []"
  by code_simp+

theorem upstream_calls_exclusive_witness:
  "running ApplyCall cancelled_page = 0 \<and> us_addModels cancelled_page = []"
  using upstream_calls_exclusive [OF cancelled_page_reachable [of "[]"]] cancelled_page_fields by simp

text \<open>
  Claim C13.  The calls come to an end: from any reachable state at most eight resumptions are possible
  without a further click, whatever the outcomes are; as long as a call is pending the first one
  can be resumed; and when none is pending every lock and every loading flag is released.
\<close>

theorem upstream_calls_settle:
  assumes "reachable upstream_init (upstream_step lower te) st"
    and "run (upstream_step lower te) st es st'" "list_all is_resume es"
  shows "length es \<le> 8 \<and>
    (us_pending st' \<noteq> [] \<longrightarrow> (\<exists>out st''. upstream_step lower te st' (UpResume 0 out) st'')) \<and>
    (us_pending st' = [] \<longrightarrow> (\<forall>c. \<not> lock c st') \<and> \<not> us_applyLoading st' \<and> \<not> us_applyAllLoading st' \<and>
       \<not> us_detectAllLoading st')"
proof -
  have inv: "upstream_inv st" "upstream_inv st'"
    using assms(1,2) updates.reachable_inv updates.run_inv by blast+
  have "length es \<le> 8"
    using run_resumes [OF assms(2) inv(1) assms(3)] work_bound inv(1) by (fastforce simp: upstream_inv_def)
  moreover have "(\<forall>c. \<not> lock c st') \<and> \<not> us_applyLoading st' \<and> \<not> us_applyAllLoading st' \<and> \<not> us_detectAllLoading st'"
    if "us_pending st' = []"
    using inv(2) that by (auto simp: upstream_inv_defs split: if_splits)
  ultimately show ?thesis using resume_possible by blast
qed

theorem upstream_calls_settle_witness:
  "(\<forall>c. \<not> lock c cancelled_page) \<and> \<not> us_applyLoading cancelled_page"
  using upstream_calls_settle [OF cancelled_page_reachable [of "[]"] run_Nil] cancelled_page_fields by simp

text \<open>
  What confirming sends: with the dialog open and no such call running, one request goes out, for
  the channel of the dialog; every offered model is either added or ignored and none is both,
  only offered models are ignored, and the lock keeps a second confirmation from sending anything.
\<close>

theorem confirm_decides_every_model:
  assumes "reachable upstream_init (upstream_step lower te) st" "us_showModal st" "\<not> us_applyRef st"
  shows "\<exists>i add ign rem. us_channel st = Some i \<and>
    us_sent (confirm st) = us_sent st @ [PostApply i add ign rem] \<and>
    set add = {m. \<exists>x\<in>set (ud_selectedAdd st). trim x = m} - {[]} \<and>
    set rem = {m. \<exists>x\<in>set (ud_selectedRemove st). trim x = m} - {[]} \<and>
    set ign = set (us_addModels st) - set add \<and> confirm (confirm st) = confirm st"
proof -
  obtain i where i: "us_channel st = Some i" "i \<noteq> 0"
    using updates.reachable_inv [OF assms(1)] assms(2)
    by (auto simp: upstream_inv_def modal_inv_def has_id_def)
  have norm: "set (normalize_models (map JStr xs)) = {m. \<exists>x\<in>set xs. trim x = m} - {[]}" for xs
    by (auto simp: normalize_strs truthy_strs_def)
  define add where "add = normalize_models (map JStr (ud_selectedAdd st))"
  define ign where "ign = filter (\<lambda>m. m \<notin> set add) (us_addModels st)"
  have "us_sent (confirm st) = us_sent st @
      [PostApply i add ign (normalize_models (map JStr (ud_selectedRemove st)))]" "us_applyRef (confirm st)"
    using assms(3) i by (simp_all add: confirm_def applyUpdates_def has_id_def Let_def send_def add_def ign_def)
  moreover have "confirm (confirm st) = confirm st" if "us_applyRef (confirm st)"
    using that by (subst confirm_def) (simp add: applyUpdates_def)
  moreover have "set ign = set (us_addModels st) - set add" by (auto simp: ign_def)
  ultimately show ?thesis using i(1) norm add_def by blast
qed

lemma offered_page_reachable: "reachable upstream_init (upstream_step (\<lambda>s. s) te) offered_page"
proof -
  have "map_option um_pendingAddModels (parseUpstreamUpdateMeta (offer ''b'')) = Some [js ''b'']"
    "map_option um_pendingRemoveModels (parseUpstreamUpdateMeta (offer ''b'')) = Some []" by code_simp+
  then have "rowUpdates 8 (offer ''b'') cancelled_page = Some offered_page"
    by (auto simp: rowUpdates_def offered_page_def)
  then show ?thesis
    by (intro reachable.event [OF cancelled_page_reachable, where e = "UpRow 8 (offer ''b'')"])
      (simp add: upstream_step_def)
qed

theorem confirm_decides_every_model_witness:
  "\<exists>i add ign rem. us_channel offered_page = Some i \<and>
    us_sent (confirm offered_page) = us_sent offered_page @ [PostApply i add ign rem] \<and>
    set ign = set (us_addModels offered_page) - set add"
proof -
  have "us_showModal offered_page" "\<not> us_applyRef offered_page" by code_simp+
  from confirm_decides_every_model [OF offered_page_reachable this]
  show ?thesis by (elim exE conjE) (intro exI conjI; assumption)
qed

text \<open>
  A defect: the selection belongs to the page and not to the channel.  Opening the dialog for a
  channel keeps whatever was selected before, so that confirming sends, for the new channel, the models
  that were selected for another one, and ignores every offered model that is not among them.  On a fresh
  page nothing is selected, and all offered models are ignored.
\<close>

theorem selection_outlives_channel:
  assumes "i \<noteq> 0" "\<not> us_applyRef st"
    and "offered = normalize_models (map JStr pa)" "offered \<noteq> [] \<or> normalize_models (map JStr pr) \<noteq> []"
  shows "us_channel (openModal (Some i) pa pr tab st) = Some i \<and>
    ud_selectedAdd (openModal (Some i) pa pr tab st) = ud_selectedAdd st \<and>
    us_sent (confirm (openModal (Some i) pa pr tab st)) = us_sent st @
      [PostApply i (normalize_models (map JStr (ud_selectedAdd st)))
         (filter (\<lambda>m. m \<notin> set (normalize_models (map JStr (ud_selectedAdd st)))) offered)
         (normalize_models (map JStr (ud_selectedRemove st)))]"
  using assms by (auto simp: openModal_def confirm_def applyUpdates_def has_id_def Let_def send_def)

theorem selection_outlives_channel_witness:
  "us_sent (confirm (openModal (Some 8) [js ''b''] [] AddTab cancelled_page)) =
     [PostApply 8 [js ''a''] [js ''b''] []] \<and>
   us_sent (confirm (openModal (Some 8) [js ''b''] [] AddTab upstream_start)) = [PostApply 8 [] [js ''b''] []]"
proof -
  have n: "normalize_models (map JStr [js ''b'']) = [js ''b'']" "normalize_models (map JStr [js ''a'']) = [js ''a'']"
    "normalize_models (map JStr []) = []" "js ''b'' \<noteq> js ''a''" by code_simp+
  have "\<not> us_applyRef upstream_start" "ud_selectedAdd upstream_start = []" "ud_selectedRemove upstream_start = []"
    "us_sent upstream_start = []" by code_simp+
  then show ?thesis
    using selection_outlives_channel [of 8 cancelled_page "[js ''b'']" "[js ''b'']" "[]" AddTab]
      selection_outlives_channel [of 8 upstream_start "[js ''b'']" "[js ''b'']" "[]" AddTab]
      cancelled_page_fields n by simp
qed

lemma normalize_clean: "clean_models ms \<Longrightarrow> normalize_models (map JStr ms) = ms"
proof -
  assume "clean_models ms"
  then have "map trim ms = ms" "truthy_strs ms = ms" "distinct ms"
    by (auto simp: clean_models_def list_all_iff trim_trimmed truthy_strs_def intro: map_idI)
  then show ?thesis by (simp add: normalize_strs)
qed

lemma normalize_ignored: "normalize_models (map JStr (ignored_models d)) = ignored_models d"
  by (rule normalize_clean) (auto simp: ignored_models_def clean_models_def truthy_strs_def list_all_iff)

end
