(* ===== verification/TableUrl.thy ===== *)
theory TableUrl
  imports Json Machine
begin

section \<open>Table state in the URL\<close>

text \<open>
  The hook \<open>useTableUrlState\<close> of \<open>hooks/use-table-url-state.ts\<close>, by which the tables of the console keep their
  page, their search text and their column filters in the parameters of the URL, and the configurations that the
  tables pass to it.  The state of the hook is the URL together with the two React states (the column filters and
  the search text); the handlers are functions on it, composed into a state machine whose other events are
  navigations from outside.  The locale \<open>url_table\<close> is what the hook relies on: its invariant is proved there once
  and holds for every table of the console.
\<close>

subsection \<open>Parameters\<close>

text \<open>The search parameters of the URL: an object; a property that is \<open>undefined\<close> is not there.\<close>

type_synonym SearchRecord = "(jsstring \<times> jsval) list"

definition set_param :: "jsstring \<Rightarrow> jsval option \<Rightarrow> SearchRecord \<Rightarrow> SearchRecord" where
  "set_param k v prev = (case v of Some w \<Rightarrow> obj_put k w prev | None \<Rightarrow> obj_delete k prev)"

datatype filter_type = StringFilter | ArrayFilter

text \<open>The transformers that a table may pass.\<close>

record ColumnFilterCfg =
  cc_columnId :: jsstring
  cc_searchKey :: jsstring
  cc_type :: "filter_type option"
  cc_serialize :: "(jsval \<Rightarrow> jsval option) option"
  cc_deserialize :: "(jsval option \<Rightarrow> jsval option) option"

record UseTableUrlStateParams =
  tp_pageKey :: "jsstring option"
  tp_pageSizeKey :: "jsstring option"
  tp_defaultPage :: "rat option"
  tp_defaultPageSize :: "rat option"
  tp_enabled :: "bool option"
  tp_key :: "jsstring option"
  tp_trim :: "bool option"
  tp_columnFilters :: "ColumnFilterCfg list"

definition pageKey :: "UseTableUrlStateParams \<Rightarrow> jsstring" where
  "pageKey p = nullish (tp_pageKey p) (js ''page'')"

definition pageSizeKey :: "UseTableUrlStateParams \<Rightarrow> jsstring" where
  "pageSizeKey p = nullish (tp_pageSizeKey p) (js ''pageSize'')"

definition defaultPage :: "UseTableUrlStateParams \<Rightarrow> rat" where
  "defaultPage p = nullish (tp_defaultPage p) 1"

definition defaultPageSize :: "UseTableUrlStateParams \<Rightarrow> rat" where
  "defaultPageSize p = nullish (tp_defaultPageSize p) 20"

definition globalFilterKey :: "UseTableUrlStateParams \<Rightarrow> jsstring" where
  "globalFilterKey p = nullish (tp_key p) (js ''filter'')"

definition globalFilterEnabled :: "UseTableUrlStateParams \<Rightarrow> bool" where
  "globalFilterEnabled p = nullish (tp_enabled p) True"

definition trimGlobal :: "UseTableUrlStateParams \<Rightarrow> bool" where
  "trimGlobal p = nullish (tp_trim p) True"

subsection \<open>Reading the URL\<close>

record ColumnFilter =
  cf_id :: jsstring
  cf_value :: jsval

text \<open>The operator \<open>??\<close> on an unknown value.\<close>

definition nullish_val :: "jsval option \<Rightarrow> jsval \<Rightarrow> jsval" where
  "nullish_val v d = (case v of None \<Rightarrow> d | Some JNull \<Rightarrow> d | Some w \<Rightarrow> w)"

text \<open>Is a value worth a filter of the given type?\<close>

definition keeps :: "filter_type option \<Rightarrow> jsval \<Rightarrow> bool" where
  "keeps ty v =
     (if ty = Some StringFilter then (case v of JStr s \<Rightarrow> trim s \<noteq> [] | _ \<Rightarrow> False)
      else (case v of JArr vs \<Rightarrow> vs \<noteq> [] | _ \<Rightarrow> False))"

definition read_filter :: "SearchRecord \<Rightarrow> ColumnFilterCfg \<Rightarrow> ColumnFilter option" where
  "read_filter search cfg =
     (let raw = obj_get search (cc_searchKey cfg);
          deserialize = nullish (cc_deserialize cfg) (\<lambda>v. v);
          value = nullish_val (deserialize raw)
                    (if cc_type cfg = Some StringFilter then JStr [] else JArr [])
      in if keeps (cc_type cfg) value then Some \<lparr>cf_id = cc_columnId cfg, cf_value = value\<rparr> else None)"

definition initialColumnFilters :: "UseTableUrlStateParams \<Rightarrow> SearchRecord \<Rightarrow> ColumnFilter list" where
  "initialColumnFilters p search = List.map_filter (read_filter search) (tp_columnFilters p)"

record PaginationState =
  pageIndex :: rat
  pageSize :: rat

definition number_or :: "jsval option \<Rightarrow> rat \<Rightarrow> rat" where
  "number_or v d = (case v of Some (JNum x) \<Rightarrow> x | _ \<Rightarrow> d)"

definition pagination :: "UseTableUrlStateParams \<Rightarrow> SearchRecord \<Rightarrow> PaginationState" where
  "pagination p search =
     \<lparr>pageIndex = max 0 (number_or (obj_get search (pageKey p)) (defaultPage p) - 1),
      pageSize = number_or (obj_get search (pageSizeKey p)) (defaultPageSize p)\<rparr>"

definition initialGlobalFilter :: "UseTableUrlStateParams \<Rightarrow> SearchRecord \<Rightarrow> jsstring option" where
  "initialGlobalFilter p search =
     (if \<not> globalFilterEnabled p then None
      else case obj_get search (globalFilterKey p) of Some (JStr s) \<Rightarrow> Some s | _ \<Rightarrow> Some [])"

subsection \<open>The hook\<close>

record table_state =
  ts_search :: SearchRecord
  ts_columnFilters :: "ColumnFilter list"
  ts_globalFilter :: "jsstring option"

definition mount :: "UseTableUrlStateParams \<Rightarrow> SearchRecord \<Rightarrow> table_state" where
  "mount p search =
     \<lparr>ts_search = search, ts_columnFilters = initialColumnFilters p search,
      ts_globalFilter = initialGlobalFilter p search\<rparr>"

type_synonym fresh_test = "SearchRecord \<Rightarrow> SearchRecord \<Rightarrow> bool"

text \<open>
  The router computes the next parameters from the previous ones, renders with them, and the
  effect that depends on \<open>search\<close> runs when the router hands out a new object: \<open>fresh old new\<close>.
\<close>

definition navigate ::
    "fresh_test \<Rightarrow> UseTableUrlStateParams \<Rightarrow> (SearchRecord \<Rightarrow> SearchRecord) \<Rightarrow>
     table_state \<Rightarrow> table_state" where
  "navigate fresh p f st =
     (let next = f (ts_search st); st' = st\<lparr>ts_search := next\<rparr>
      in if fresh (ts_search st) next then st'\<lparr>ts_columnFilters := initialColumnFilters p next\<rparr> else st')"

definition page_search :: "UseTableUrlStateParams \<Rightarrow> PaginationState \<Rightarrow> SearchRecord \<Rightarrow> SearchRecord" where
  "page_search p next prev =
     set_param (pageSizeKey p) (Some (JNum (pageSize next)))
       (set_param (pageKey p)
         (if pageIndex next + 1 \<le> defaultPage p then None else Some (JNum (pageIndex next + 1))) prev)"

definition onPaginationChange ::
    "fresh_test \<Rightarrow> UseTableUrlStateParams \<Rightarrow> PaginationState \<Rightarrow> table_state \<Rightarrow> table_state" where
  "onPaginationChange fresh p next st = navigate fresh p (page_search p next) st"

definition global_value :: "UseTableUrlStateParams \<Rightarrow> jsstring \<Rightarrow> jsstring" where
  "global_value p next = (if trimGlobal p then trim next else next)"

definition global_search :: "UseTableUrlStateParams \<Rightarrow> jsstring \<Rightarrow> SearchRecord \<Rightarrow> SearchRecord" where
  "global_search p value prev =
     set_param (globalFilterKey p) (if value \<noteq> [] then Some (JStr value) else None)
       (set_param (pageKey p) None prev)"

definition onGlobalFilterChange ::
    "fresh_test \<Rightarrow> UseTableUrlStateParams \<Rightarrow> jsstring \<Rightarrow> table_state \<Rightarrow> table_state" where
  "onGlobalFilterChange fresh p next st =
     (let value = global_value p next
      in navigate fresh p (global_search p value) (st\<lparr>ts_globalFilter := Some value\<rparr>))"

definition found_value :: "ColumnFilter list \<Rightarrow> ColumnFilterCfg \<Rightarrow> jsval option" where
  "found_value next cfg = map_option cf_value (List.find (\<lambda>f. cf_id f = cc_columnId cfg) next)"

definition filter_param :: "ColumnFilter list \<Rightarrow> ColumnFilterCfg \<Rightarrow> jsval option" where
  "filter_param next cfg =
     (let serialize = nullish (cc_serialize cfg) Some
      in if cc_type cfg = Some StringFilter
         then (case found_value next cfg of
                 Some (JStr s) \<Rightarrow> if trim s \<noteq> [] then serialize (JStr s) else None | _ \<Rightarrow> None)
         else (case found_value next cfg of
                 Some (JArr vs) \<Rightarrow> if vs \<noteq> [] then serialize (JArr vs) else None | _ \<Rightarrow> None))"

definition filters_search :: "UseTableUrlStateParams \<Rightarrow> ColumnFilter list \<Rightarrow> SearchRecord \<Rightarrow> SearchRecord" where
  "filters_search p next prev =
     foldl (\<lambda>s cfg. set_param (cc_searchKey cfg) (filter_param next cfg) s)
       (set_param (pageKey p) None prev) (tp_columnFilters p)"

definition onColumnFiltersChange ::
    "fresh_test \<Rightarrow> UseTableUrlStateParams \<Rightarrow> ColumnFilter list \<Rightarrow> table_state \<Rightarrow> table_state" where
  "onColumnFiltersChange fresh p next st =
     navigate fresh p (filters_search p next) (st\<lparr>ts_columnFilters := next\<rparr>)"

datatype reset_to = ToFirst | ToLast

definition range_search :: "UseTableUrlStateParams \<Rightarrow> rat \<Rightarrow> reset_to \<Rightarrow> SearchRecord \<Rightarrow> SearchRecord" where
  "range_search p pageCount resetTo prev =
     set_param (pageKey p) (if resetTo = ToLast then Some (JNum pageCount) else None) prev"

definition ensurePageInRange ::
    "fresh_test \<Rightarrow> UseTableUrlStateParams \<Rightarrow> rat \<Rightarrow> reset_to \<Rightarrow> table_state \<Rightarrow> table_state" where
  "ensurePageInRange fresh p pageCount resetTo st =
     (if pageCount > 0 \<and> number_or (obj_get (ts_search st) (pageKey p)) (defaultPage p) > pageCount
      then navigate fresh p (range_search p pageCount resetTo) st else st)"

subsection \<open>Reading back what was written\<close>

lemma get_set_param [simp]:
  "obj_get (set_param k v s) j = (if j = k then v else obj_get s j)"
  by (auto simp: set_param_def obj_get_put obj_get_delete split: option.splits)

lemma search_navigate [simp]: "ts_search (navigate fresh p f st) = f (ts_search st)"
  by (simp add: navigate_def Let_def)

lemma get_foldl_params:
  "distinct (map cc_searchKey cfgs) \<Longrightarrow>
   obj_get (foldl (\<lambda>s cfg. set_param (cc_searchKey cfg) (v cfg) s) s cfgs) k =
     (case List.find (\<lambda>cfg. cc_searchKey cfg = k) cfgs of Some cfg \<Rightarrow> v cfg | None \<Rightarrow> obj_get s k)"
proof (induction cfgs arbitrary: s)
  case (Cons c cfgs)
  have "List.find (\<lambda>cfg. cc_searchKey cfg = cc_searchKey c) cfgs = None"
    using Cons.prems by (auto simp: find_None_iff) (metis imageI)
  then show ?case using Cons by (auto split: option.splits)
qed simp

lemma find_by_key:
  "distinct (map f xs) \<Longrightarrow> x \<in> set xs \<Longrightarrow> List.find (\<lambda>y. f y = f x) xs = Some x"
  by (induction xs) auto

lemma map_filter_eq: "(\<And>x. x \<in> set xs \<Longrightarrow> f x = g x) \<Longrightarrow> List.map_filter f xs = List.map_filter g xs"
  by (induction xs) (auto simp: List.map_filter_simps split: option.splits)

text \<open>The filter of a column in a list of filters, when it is worth keeping.\<close>

definition effective :: "ColumnFilter list \<Rightarrow> ColumnFilterCfg \<Rightarrow> ColumnFilter option" where
  "effective filters cfg =
     (case found_value filters cfg of
        Some v \<Rightarrow> if keeps (cc_type cfg) v then Some \<lparr>cf_id = cc_columnId cfg, cf_value = v\<rparr> else None
      | None \<Rightarrow> None)"

lemma filter_param_keeps:
  "filter_param next cfg = (case found_value next cfg of
     Some v \<Rightarrow> if keeps (cc_type cfg) v then nullish (cc_serialize cfg) Some v else None | None \<Rightarrow> None)"
  by (auto simp: filter_param_def keeps_def Let_def split: option.splits jsval.splits)

lemma keeps_not_null: "keeps ty v \<Longrightarrow> v \<noteq> JNull"
  by (auto simp: keeps_def split: if_splits)

lemma found_initial:
  assumes "distinct (map cc_columnId cfgs)" "cfg \<in> set cfgs"
  shows "found_value (List.map_filter (read_filter s) cfgs) cfg = map_option cf_value (read_filter s cfg)"
  using assms
proof (induction cfgs)
  case (Cons c cfgs)
  have id: "read_filter s d = Some f \<Longrightarrow> cf_id f = cc_columnId d" for d f
    by (auto simp: read_filter_def Let_def split: if_splits)
  have none: "List.find (\<lambda>f. cf_id f = cc_columnId d) (List.map_filter (read_filter s) cfgs) = None"
    if "cc_columnId d \<notin> cc_columnId ` set cfgs" for d
    using that id by (force simp: find_None_iff map_filter_set)
  show ?case
  proof (cases "cfg = c")
    case True
    then show ?thesis using none [of c] Cons.prems id [of c]
      by (auto simp: found_value_def List.map_filter_simps split: option.splits)
  next
    case False
    then have "cc_columnId c \<noteq> cc_columnId cfg" using Cons.prems by auto
    then show ?thesis using Cons False id [of c]
      by (auto simp: found_value_def List.map_filter_simps split: option.splits)
  qed
qed simp

text \<open>The filters shown are those of the URL.\<close>

definition url_inv :: "UseTableUrlStateParams \<Rightarrow> table_state \<Rightarrow> bool" where
  "url_inv p st \<longleftrightarrow> list_all (\<lambda>cfg. effective (ts_columnFilters st) cfg = read_filter (ts_search st) cfg) (tp_columnFilters p)"

subsection \<open>The state machine\<close>

text \<open>The handlers of the hook, and a change of the URL by something else, such as the back button.\<close>

datatype table_event =
    EvPage PaginationState | EvGlobal jsstring | EvFilters "ColumnFilter list" | EvRange rat reset_to
  | EvUrl SearchRecord

fun table_handle :: "fresh_test \<Rightarrow> UseTableUrlStateParams \<Rightarrow> table_event \<Rightarrow> table_state \<Rightarrow> table_state option" where
  "table_handle fresh p (EvPage next) st = Some (onPaginationChange fresh p next st)"
| "table_handle fresh p (EvGlobal s) st =
     (if globalFilterEnabled p then Some (onGlobalFilterChange fresh p s st) else None)"
| "table_handle fresh p (EvFilters next) st = Some (onColumnFiltersChange fresh p next st)"
| "table_handle fresh p (EvRange n r) st = Some (ensurePageInRange fresh p n r st)"
| "table_handle fresh p (EvUrl search) st = Some (navigate fresh p (\<lambda>_. search) st)"

definition table_step :: "fresh_test \<Rightarrow> UseTableUrlStateParams \<Rightarrow> table_state \<Rightarrow> table_event \<Rightarrow> table_state \<Rightarrow> bool" where
  "table_step fresh p st e st' \<longleftrightarrow> table_handle fresh p e st = Some st'"

definition table_init :: "UseTableUrlStateParams \<Rightarrow> table_state \<Rightarrow> bool" where
  "table_init p st \<longleftrightarrow> (\<exists>search. st = mount p search)"

subsection \<open>The contract of a table\<close>

text \<open>
  What the hook relies on: different parameters for different purposes, transformers that are
  inverse on values worth keeping and give nothing for a missing parameter, and a router
  that hands out a new object whenever the parameters differ.
\<close>

locale url_table =
  fixes p :: UseTableUrlStateParams and fresh :: fresh_test
  assumes distinct_keys: "distinct (map cc_searchKey (tp_columnFilters p))"
    and distinct_columns: "distinct (map cc_columnId (tp_columnFilters p))"
    and own_keys: "cfg \<in> set (tp_columnFilters p) \<Longrightarrow> cc_searchKey cfg \<notin> {pageKey p, pageSizeKey p, globalFilterKey p}"
    and page_keys: "pageKey p \<noteq> pageSizeKey p" "globalFilterKey p \<notin> {pageKey p, pageSizeKey p}"
    and transform: "cfg \<in> set (tp_columnFilters p) \<Longrightarrow> keeps (cc_type cfg) v \<Longrightarrow>
      nullish (cc_deserialize cfg) (\<lambda>v. v) (nullish (cc_serialize cfg) Some v) = Some v"
    and transform_none: "cfg \<in> set (tp_columnFilters p) \<Longrightarrow> nullish (cc_deserialize cfg) (\<lambda>v. v) None = None"
    and router: "s \<noteq> s' \<Longrightarrow> fresh s s'"
begin

lemma find_cfg: "cfg \<in> set (tp_columnFilters p) \<Longrightarrow>
    List.find (\<lambda>c. cc_searchKey c = cc_searchKey cfg) (tp_columnFilters p) = Some cfg"
  by (rule find_by_key [OF distinct_keys])

lemma find_other: "k \<notin> cc_searchKey ` set (tp_columnFilters p) \<Longrightarrow>
    List.find (\<lambda>c. cc_searchKey c = k) (tp_columnFilters p) = None"
  by (auto simp: find_None_iff)

lemma read_cong: "obj_get s (cc_searchKey cfg) = obj_get s' (cc_searchKey cfg) \<Longrightarrow> read_filter s cfg = read_filter s' cfg"
  by (simp add: read_filter_def)

lemma read_written:
  assumes "cfg \<in> set (tp_columnFilters p)"
  shows "read_filter (filters_search p next s) cfg = effective next cfg"
proof -
  have "obj_get (filters_search p next s) (cc_searchKey cfg) = filter_param next cfg"
    unfolding filters_search_def get_foldl_params [OF distinct_keys] using find_cfg [OF assms] by simp
  then show ?thesis
    using transform [OF assms] transform_none [OF assms] keeps_not_null
    by (auto simp: read_filter_def effective_def filter_param_keeps nullish_val_def Let_def
        split: option.splits jsval.splits) (auto simp: keeps_def)
qed

lemma kept_params: "k \<notin> cc_searchKey ` set (tp_columnFilters p) \<Longrightarrow> k \<noteq> pageKey p \<Longrightarrow>
    obj_get (filters_search p next s) k = obj_get s k"
  unfolding filters_search_def get_foldl_params [OF distinct_keys] by (simp add: find_other)

lemma effective_initial:
  "cfg \<in> set (tp_columnFilters p) \<Longrightarrow> effective (initialColumnFilters p s) cfg = read_filter s cfg"
  unfolding effective_def initialColumnFilters_def
  using found_initial [OF distinct_columns]
  by (auto simp: read_filter_def Let_def split: option.splits)

lemma read_other_params:
  assumes "cfg \<in> set (tp_columnFilters p)"
  shows "read_filter (page_search p next s) cfg = read_filter s cfg"
    "read_filter (global_search p v s) cfg = read_filter s cfg"
    "read_filter (range_search p n r s) cfg = read_filter s cfg"
  using own_keys [OF assms] by (auto intro!: read_cong simp: page_search_def global_search_def range_search_def)

lemma navigate_inv:
  assumes "\<And>cfg. cfg \<in> set (tp_columnFilters p) \<Longrightarrow>
    effective (ts_columnFilters st) cfg = read_filter (f (ts_search st)) cfg"
  shows "url_inv p (navigate fresh p f st)"
  using assms by (auto simp: url_inv_def list_all_iff navigate_def Let_def effective_initial)

lemma init_url_inv: "table_init p st \<Longrightarrow> url_inv p st"
  by (auto simp: table_init_def mount_def url_inv_def list_all_iff effective_initial)

lemma url_change_inv: "url_inv p st \<Longrightarrow> url_inv p (navigate fresh p (\<lambda>_. search) st)"
  using router [of "ts_search st" search]
  by (cases "ts_search st = search") (auto simp: url_inv_def list_all_iff navigate_def Let_def effective_initial)

lemma step_url_inv:
  assumes "url_inv p st" "table_step fresh p st e st'"
  shows "url_inv p st'"
proof -
  have inv: "effective (ts_columnFilters st) cfg = read_filter (ts_search st) cfg" if "cfg \<in> set (tp_columnFilters p)" for cfg
    using assms(1) that by (simp add: url_inv_def list_all_iff)
  show ?thesis
  proof (cases e)
    case (EvUrl search)
    then show ?thesis using assms url_change_inv by (auto simp: table_step_def)
  qed (use assms inv in \<open>auto simp: table_step_def onPaginationChange_def onGlobalFilterChange_def
        onColumnFiltersChange_def ensurePageInRange_def Let_def read_other_params read_written
        split: if_splits intro!: navigate_inv\<close>)
qed

lemma reload_filters:
  "initialColumnFilters p (filters_search p next s) = List.map_filter (effective next) (tp_columnFilters p)"
  by (simp only: initialColumnFilters_def) (rule map_filter_eq, rule read_written)

end

sublocale url_table \<subseteq> machine_invariant "table_init p" "table_step fresh p" "url_inv p"
  by unfold_locales (auto intro: init_url_inv step_url_inv)

context url_table
begin

lemma reachable_url_inv: "reachable (table_init p) (table_step fresh p) st \<Longrightarrow> url_inv p st"
  by (rule reachable_inv)

end

subsection \<open>The tables of the console\<close>

definition plain_cfg :: "string \<Rightarrow> string \<Rightarrow> filter_type \<Rightarrow> ColumnFilterCfg" where
  "plain_cfg column key ty =
     \<lparr>cc_columnId = js column, cc_searchKey = js key, cc_type = Some ty, cc_serialize = None, cc_deserialize = None\<rparr>"

definition plain_table :: "rat \<Rightarrow> ColumnFilterCfg list \<Rightarrow> UseTableUrlStateParams" where
  "plain_table n cfgs =
     \<lparr>tp_pageKey = None, tp_pageSizeKey = None, tp_defaultPage = Some 1, tp_defaultPageSize = Some n,
      tp_enabled = Some True, tp_key = Some (js ''filter''), tp_trim = None, tp_columnFilters = cfgs\<rparr>"

definition channels_table :: "rat \<Rightarrow> UseTableUrlStateParams" where
  "channels_table n = plain_table n
     [plain_cfg ''status'' ''status'' ArrayFilter, plain_cfg ''type'' ''type'' ArrayFilter,
      plain_cfg ''group'' ''group'' ArrayFilter, plain_cfg ''model'' ''model'' StringFilter]"

definition users_table :: "rat \<Rightarrow> UseTableUrlStateParams" where
  "users_table n = plain_table n
     [plain_cfg ''status'' ''status'' ArrayFilter, plain_cfg ''role'' ''role'' ArrayFilter,
      plain_cfg ''group'' ''group'' StringFilter]"

definition redemptions_table :: "rat \<Rightarrow> UseTableUrlStateParams" where
  "redemptions_table n = plain_table n [plain_cfg ''status'' ''status'' ArrayFilter]"

definition api_keys_table :: UseTableUrlStateParams where
  "api_keys_table = plain_table 20
     [plain_cfg ''status'' ''status'' ArrayFilter, plain_cfg ''_tokenSearch'' ''token'' StringFilter]"

definition models_table :: "rat \<Rightarrow> UseTableUrlStateParams" where
  "models_table n = plain_table n
     [plain_cfg ''status'' ''status'' ArrayFilter, plain_cfg ''vendor_id'' ''vendor'' ArrayFilter,
      plain_cfg ''sync_official'' ''sync'' ArrayFilter]"

definition deployments_table :: "rat \<Rightarrow> UseTableUrlStateParams" where
  "deployments_table n = (plain_table n [plain_cfg ''status'' ''dStatus'' ArrayFilter])
     \<lparr>tp_pageKey := Some (js ''dPage''), tp_pageSizeKey := Some (js ''dPageSize''), tp_key := Some (js ''dFilter'')\<rparr>"

definition console_tables :: "rat \<Rightarrow> UseTableUrlStateParams list" where
  "console_tables n =
     [channels_table n, users_table n, redemptions_table n, api_keys_table, models_table n,
      deployments_table n]"

lemmas console_table_defs = console_tables_def channels_table_def users_table_def redemptions_table_def
  api_keys_table_def models_table_def deployments_table_def plain_table_def plain_cfg_def

lemmas table_keys = pageKey_def pageSizeKey_def globalFilterKey_def

lemma console_table_contract:
  assumes "p \<in> set (console_tables n)" "\<And>s s'. s \<noteq> s' \<Longrightarrow> fresh s s'"
  shows "url_table p fresh"
  using assms by unfold_locales (auto simp: console_table_defs table_keys)

interpretation channels_url: url_table "channels_table n" "(\<noteq>)" for n
  by (rule console_table_contract [of _ n]) (auto simp: console_tables_def)

interpretation deployments_url: url_table "deployments_table n" "(\<noteq>)" for n
  by (rule console_table_contract [of _ n]) (auto simp: console_tables_def)

subsection \<open>Properties\<close>


definition filtered_channels :: table_state where
  "filtered_channels = onColumnFiltersChange (\<noteq>) (channels_table 20)
     [\<lparr>cf_id = js ''model'', cf_value = JStr (js ''gpt'')\<rparr>, \<lparr>cf_id = js ''group'', cf_value = JArr []\<rparr>]
     (mount (channels_table 20) [(js ''page'', JNum 3), (js ''filter'', JStr (js ''x''))])"

lemma filtered_channels_reachable:
  "reachable (table_init (channels_table 20)) (table_step (\<noteq>) (channels_table 20)) filtered_channels"
proof (rule reachable.event)
  show "reachable (table_init (channels_table 20)) (table_step (\<noteq>) (channels_table 20))
      (mount (channels_table 20) [(js ''page'', JNum 3), (js ''filter'', JStr (js ''x''))])"
    by (rule reachable.start) (auto simp: table_init_def)
  show "table_step (\<noteq>) (channels_table 20)
      (mount (channels_table 20) [(js ''page'', JNum 3), (js ''filter'', JStr (js ''x''))])
      (EvFilters [\<lparr>cf_id = js ''model'', cf_value = JStr (js ''gpt'')\<rparr>, \<lparr>cf_id = js ''group'', cf_value = JArr []\<rparr>])
      filtered_channels"
    by (simp add: table_step_def filtered_channels_def)
qed


text \<open>
  Changing the filters of a table and reloading shows exactly those filters that are not blank, in the
  order of the columns, on the first page, with the same page size and search text, and leaves
  every other parameter of the URL alone.
\<close>

theorem table_filters_reload:
  assumes "p \<in> set (console_tables n)"
    and "s = ts_search (onColumnFiltersChange fresh p fs st)"
  shows "initialColumnFilters p s = List.map_filter (effective fs) (tp_columnFilters p) \<and>
    pageIndex (pagination p s) = 0 \<and> pageSize (pagination p s) = pageSize (pagination p (ts_search st)) \<and>
    initialGlobalFilter p s = initialGlobalFilter p (ts_search st) \<and>
    (\<forall>k. k \<notin> cc_searchKey ` set (tp_columnFilters p) \<longrightarrow> k \<noteq> pageKey p \<longrightarrow> obj_get s k = obj_get (ts_search st) k)"
proof -
  have t: "url_table p (\<noteq>)" by (rule console_table_contract [OF assms(1)]) simp
  have s: "s = filters_search p fs (ts_search st)"
    by (simp add: assms(2) onColumnFiltersChange_def)
  have own: "k \<notin> cc_searchKey ` set (tp_columnFilters p)" if "k \<in> {pageKey p, pageSizeKey p, globalFilterKey p}" for k
    using url_table.own_keys [OF t] that by auto
  have page: "obj_get s (pageKey p) = None"
    using url_table.find_other [OF t own] unfolding s filters_search_def get_foldl_params [OF url_table.distinct_keys [OF t]]
    by simp
  have kept: "k \<notin> cc_searchKey ` set (tp_columnFilters p) \<longrightarrow> k \<noteq> pageKey p \<longrightarrow> obj_get s k = obj_get (ts_search st) k" for k
    using url_table.kept_params [OF t] by (auto simp: s)
  have "defaultPage p = 1" using assms(1) by (auto simp: console_table_defs defaultPage_def)
  then have "pagination p s = \<lparr>pageIndex = 0, pageSize = pageSize (pagination p (ts_search st))\<rparr>"
    "initialGlobalFilter p s = initialGlobalFilter p (ts_search st)"
    using page kept own url_table.page_keys [OF t]
    by (auto simp: pagination_def number_or_def initialGlobalFilter_def)
  then show ?thesis
    using kept url_table.reload_filters [OF t, of fs "ts_search st"] by (simp add: s)
qed

theorem table_filters_reload_witness:
  "initialColumnFilters (channels_table 20) (ts_search filtered_channels) =
     List.map_filter (effective [\<lparr>cf_id = js ''model'', cf_value = JStr (js ''gpt'')\<rparr>, \<lparr>cf_id = js ''group'', cf_value = JArr []\<rparr>])
       (tp_columnFilters (channels_table 20)) \<and>
   pageIndex (pagination (channels_table 20) (ts_search filtered_channels)) = 0"
  using table_filters_reload [of "channels_table 20" 20 "ts_search filtered_channels" "(\<noteq>)"
      "[\<lparr>cf_id = js ''model'', cf_value = JStr (js ''gpt'')\<rparr>, \<lparr>cf_id = js ''group'', cf_value = JArr []\<rparr>]"
      "mount (channels_table 20) [(js ''page'', JNum 3), (js ''filter'', JStr (js ''x''))]"]
  by (simp add: console_tables_def filtered_channels_def)

text \<open>
  Pages: turning to a page and reading the URL again gives that page and page size; a
  correction for a list of at least one page always lands within the list, keeps the page size and the filters, changes
  nothing when the page was within the list, and a second correction changes nothing, so that the effect that
  calls it after every render comes to rest.
\<close>

theorem table_page_range:
  assumes "p \<in> set (console_tables n)" "0 \<le> pageIndex q" "1 \<le> pages"
    and "st' = ensurePageInRange fresh p pages r st"
  shows "pagination p (ts_search (onPaginationChange fresh p q st)) = q \<and>
    pageIndex (pagination p (ts_search st')) + 1 \<le> pages \<and>
    pageSize (pagination p (ts_search st')) = pageSize (pagination p (ts_search st)) \<and>
    initialColumnFilters p (ts_search st') = initialColumnFilters p (ts_search st) \<and>
    (pageIndex (pagination p (ts_search st)) + 1 \<le> pages \<longrightarrow> st' = st) \<and>
    ensurePageInRange fresh p pages r st' = st'"
proof -
  have t: "url_table p (\<noteq>)" by (rule console_table_contract [OF assms(1)]) simp
  have one: "defaultPage p = 1" using assms(1) by (auto simp: console_table_defs defaultPage_def)
  have page: "pageIndex (pagination p s) + 1 = max 1 (number_or (obj_get s (pageKey p)) 1)" for s
    by (simp add: pagination_def one max_def)
  have "pagination p (ts_search (onPaginationChange fresh p q st)) = q"
    using url_table.page_keys [OF t] assms(2)
    by (auto simp: onPaginationChange_def page_search_def pagination_def number_or_def one)
  moreover have filters: "initialColumnFilters p (range_search p pages r s) = initialColumnFilters p s" for s
    unfolding initialColumnFilters_def by (intro map_filter_eq) (rule url_table.read_other_params [OF t])
  moreover have "number_or (obj_get (ts_search st') (pageKey p)) 1 \<le> pages"
    using assms(3) by (auto simp: assms(4) ensurePageInRange_def range_search_def number_or_def one)
  ultimately show ?thesis
    using assms(3) page url_table.page_keys [OF t]
    by (auto simp: assms(4) ensurePageInRange_def one range_search_def pagination_def)
qed

theorem table_page_range_witness:
  "pagination (users_table 10) (ts_search (onPaginationChange (\<noteq>) (users_table 10) \<lparr>pageIndex = 4, pageSize = 50\<rparr>
      (mount (users_table 10) []))) = \<lparr>pageIndex = 4, pageSize = 50\<rparr> \<and>
   pageIndex (pagination (users_table 10) (ts_search (ensurePageInRange (\<noteq>) (users_table 10) 2 ToLast
      (mount (users_table 10) [(js ''page'', JNum 9)])))) + 1 \<le> 2"
proof -
  have "users_table 10 \<in> set (console_tables 10)" by (simp add: console_tables_def)
  note range = table_page_range [OF this, of "\<lparr>pageIndex = 4, pageSize = 50\<rparr>" 2 _ "(\<noteq>)" ToLast]
  show ?thesis
    using range [OF _ _ refl, of "mount (users_table 10) []"]
      range [OF _ _ refl, of "mount (users_table 10) [(js ''page'', JNum 9)]"] by simp
qed

text \<open>
  A defect: the search text does not follow the URL.  Whatever was typed into the search field of a
  table, and whatever parameters the URL has later (by the back button, say), there is a reachable state with
  that URL in which the table still searches for the typed text.
\<close>

theorem search_text_ignores_url:
  assumes "p \<in> set (console_tables n)"
  shows "\<exists>st. reachable (table_init p) (table_step fresh p) st \<and> ts_search st = s \<and> ts_globalFilter st = Some (trim typed)"
proof -
  let ?s1 = "onGlobalFilterChange fresh p typed (mount p [])"
  have enabled: "globalFilterEnabled p" "trimGlobal p"
    using assms by (auto simp: console_table_defs globalFilterEnabled_def trimGlobal_def)
  have "reachable (table_init p) (table_step fresh p) (mount p [])"
    by (rule reachable.start) (auto simp: table_init_def)
  moreover have "table_step fresh p (mount p []) (EvGlobal typed) ?s1" using enabled by (simp add: table_step_def)
  ultimately have "reachable (table_init p) (table_step fresh p) ?s1" by (rule reachable.event)
  then have "reachable (table_init p) (table_step fresh p) (navigate fresh p (\<lambda>_. s) ?s1)"
    by (rule reachable.event [where e = "EvUrl s"]) (simp add: table_step_def)
  moreover have "ts_globalFilter (navigate fresh p (\<lambda>_. s) ?s1) = Some (trim typed)"
    using enabled by (simp add: navigate_def onGlobalFilterChange_def global_value_def Let_def)
  ultimately show ?thesis by (intro exI [of _ "navigate fresh p (\<lambda>_. s) ?s1"]) simp
qed

theorem search_text_ignores_url_witness:
  "\<exists>st. reachable (table_init api_keys_table) (table_step (\<noteq>) api_keys_table) st \<and>
     ts_search st = [(js ''filter'', JStr (js ''b''))] \<and> ts_globalFilter st = Some (js ''a'')"
proof -
  have "trim (js '' a'') = js ''a''" by code_simp
  then show ?thesis
    using search_text_ignores_url [of api_keys_table 20 "(\<noteq>)" "[(js ''filter'', JStr (js ''b''))]" "js '' a''"]
    by (simp add: console_tables_def)
qed

text \<open>The parameters a table writes.\<close>

definition table_params :: "UseTableUrlStateParams \<Rightarrow> jsstring set" where
  "table_params p = {pageKey p, pageSizeKey p, globalFilterKey p} \<union> cc_searchKey ` set (tp_columnFilters p)"

fun own_event :: "table_event \<Rightarrow> bool" where
  "own_event (EvUrl search) = False"
| "own_event e = True"

lemma own_event_params:
  assumes "url_table p (\<noteq>)" "table_handle fresh p e st = Some st'" "own_event e" "k \<notin> table_params p"
  shows "obj_get (ts_search st') k = obj_get (ts_search st) k"
  using assms(2-4) url_table.kept_params [OF assms(1), of k]
  by (cases e) (auto simp: table_params_def onPaginationChange_def page_search_def onGlobalFilterChange_def
      global_search_def onColumnFiltersChange_def ensurePageInRange_def range_search_def Let_def split: if_splits)

lemma read_by_params:
  assumes "\<And>k. k \<in> table_params p \<Longrightarrow> obj_get s' k = obj_get s k"
  shows "initialColumnFilters p s' = initialColumnFilters p s" "pagination p s' = pagination p s"
    "initialGlobalFilter p s' = initialGlobalFilter p s"
  using assms
  by (auto simp: initialColumnFilters_def table_params_def pagination_def initialGlobalFilter_def read_filter_def
      intro!: map_filter_eq)

lemma models_page_params: "table_params (models_table n) \<inter> table_params (deployments_table m) = {}"
proof -
  have "table_params (models_table n) = js ` {''status'', ''vendor'', ''sync'', ''page'', ''pageSize'', ''filter''}"
    by (simp add: table_params_def table_keys models_table_def plain_table_def plain_cfg_def)
  moreover have "table_params (deployments_table m) = js ` {''dStatus'', ''dPage'', ''dPageSize'', ''dFilter''}"
    by (simp add: table_params_def table_keys deployments_table_def plain_table_def plain_cfg_def)
  ultimately show ?thesis by simp
qed

text \<open>
  The two tables of the models page share one URL and do not disturb each other: whatever is done
  in one of them, the filters, the page and the search text that the URL holds for the other stay as they are.
\<close>

theorem models_page_tables_independent:
  assumes "table_handle fresh p e st = Some st'" "own_event e"
    and "(p, q) \<in> {(models_table n, deployments_table m), (deployments_table m, models_table n)}"
  shows "initialColumnFilters q (ts_search st') = initialColumnFilters q (ts_search st) \<and>
    pagination q (ts_search st') = pagination q (ts_search st) \<and>
    initialGlobalFilter q (ts_search st') = initialGlobalFilter q (ts_search st)"
proof -
  have "p = models_table n \<or> p = deployments_table m" using assms(3) by blast
  then have "p \<in> set (console_tables n) \<union> set (console_tables m)"
    by (elim disjE) (simp_all add: console_tables_def)
  then have t: "url_table p (\<noteq>)"
    using console_table_contract [of p n "(\<noteq>)"] console_table_contract [of p m "(\<noteq>)"] by auto
  have "table_params p \<inter> table_params q = {}"
    using models_page_params [of n m] assms(3) by (elim insertE) (simp_all add: Int_commute)
  then have "obj_get (ts_search st') k = obj_get (ts_search st) k" if "k \<in> table_params q" for k
    using own_event_params [OF t assms(1,2)] that by blast
  then show ?thesis using read_by_params [of q "ts_search st'" "ts_search st"] by blast
qed

theorem models_page_tables_independent_witness:
  "pagination (models_table 20) (ts_search (onPaginationChange (\<noteq>) (deployments_table 10) \<lparr>pageIndex = 1, pageSize = 10\<rparr>
      (mount (deployments_table 10) [(js ''page'', JNum 3)]))) = \<lparr>pageIndex = 2, pageSize = 20\<rparr>"
proof -
  have "pagination (models_table 20) [(js ''page'', JNum 3)] = \<lparr>pageIndex = 2, pageSize = 20\<rparr>" by code_simp
  then show ?thesis
    using models_page_tables_independent [of "(\<noteq>)" "deployments_table 10" "EvPage \<lparr>pageIndex = 1, pageSize = 10\<rparr>"
        "mount (deployments_table 10) [(js ''page'', JNum 3)]" _ "models_table 20" 20 10]
    by (simp add: mount_def)
qed

end
