(* ===== verification/ParamOverride.thy ===== *)
theory ParamOverride
  imports ChannelForm
begin

section \<open>Parameter overrides\<close>

text \<open>
  Models the data and the pure functions of
  \<^verbatim>\<open>web/default/src/features/channels/components/dialogs/param-override-editor-dialog.tsx\<close>: the
  operations and conditions of an override, their tables, the templates, reading an override
  into editable operations, validating them and printing them as JSON, and the two structured
  editors for the values of \<open>return_error\<close> and \<open>prune_objects\<close>.

  The generator of local identifiers is a counter that every call advances; it is threaded through
  as \<open>seed\<close>, and \<open>clock n\<close> is what \<open>Date.now()\<close> returns at call number \<open>n\<close>.
  Reading a property of \<open>null\<close> throws; the result is then \<open>None\<close>.  The translation function
  \<open>t\<close> takes the message and the line number, when one is given.  Upper and lower case are
  only compared with ASCII words no other character is mapped into, so ASCII case is enough.
\<close>

subsection \<open>Types and tables\<close>

record ParamOverrideCondition =
  pc_id :: jsstring
  pc_path :: jsstring
  pc_mode :: jsstring
  pc_value_text :: jsstring
  pc_invert :: bool
  pc_pass_missing_key :: bool

record ParamOverrideOperation =
  po_id :: jsstring
  po_description :: jsstring
  po_path :: jsstring
  po_mode :: jsstring
  po_from :: jsstring
  po_to :: jsstring
  po_value_text :: jsstring
  po_keep_origin :: bool
  po_logic :: jsstring
  po_conditions :: "ParamOverrideCondition list"

definition OPERATION_MODE_OPTIONS :: "(jsstring \<times> jsstring) list" where
  "OPERATION_MODE_OPTIONS =
     [(js ''Set Field'', js ''set''), (js ''Delete Field'', js ''delete''),
      (js ''Append to End'', js ''append''), (js ''Prepend to Start'', js ''prepend''),
      (js ''Copy Field'', js ''copy''), (js ''Move Field'', js ''move''),
      (js ''String Replace'', js ''replace''), (js ''Regex Replace'', js ''regex_replace''),
      (js ''Trim Prefix'', js ''trim_prefix''), (js ''Trim Suffix'', js ''trim_suffix''),
      (js ''Ensure Prefix'', js ''ensure_prefix''), (js ''Ensure Suffix'', js ''ensure_suffix''),
      (js ''Trim Space'', js ''trim_space''), (js ''To Lowercase'', js ''to_lower''),
      (js ''To Uppercase'', js ''to_upper''), (js ''Return Custom Error'', js ''return_error''),
      (js ''Prune Object Items'', js ''prune_objects''),
      (js ''Pass Through Headers'', js ''pass_headers''), (js ''Sync Fields'', js ''sync_fields''),
      (js ''Set Request Header'', js ''set_header''),
      (js ''Delete Request Header'', js ''delete_header''),
      (js ''Copy Request Header'', js ''copy_header''),
      (js ''Move Request Header'', js ''move_header'')]"

definition OPERATION_MODE_VALUES :: "jsstring list" where
  "OPERATION_MODE_VALUES = map snd OPERATION_MODE_OPTIONS"

definition OPERATION_MODE_LABEL_MAP :: "(jsstring \<times> jsstring) list" where
  "OPERATION_MODE_LABEL_MAP = foldl (\<lambda>acc (l, v). obj_put v l acc) [] OPERATION_MODE_OPTIONS"

definition CONDITION_MODE_OPTIONS :: "(jsstring \<times> jsstring) list" where
  "CONDITION_MODE_OPTIONS =
     [(js ''Exact Match'', js ''full''), (js ''Prefix'', js ''prefix''), (js ''Suffix'', js ''suffix''),
      (js ''Contains'', js ''contains''), (js ''Greater Than'', js ''gt''),
      (js ''Greater Than or Equal'', js ''gte''), (js ''Less Than'', js ''lt''),
      (js ''Less Than or Equal'', js ''lte'')]"

definition CONDITION_MODE_VALUES :: "jsstring list" where
  "CONDITION_MODE_VALUES = map snd CONDITION_MODE_OPTIONS"

record mode_meta =
  mm_path :: bool
  mm_pathOptional :: bool
  mm_value :: bool
  mm_from :: bool
  mm_to :: bool
  mm_keepOrigin :: bool
  mm_pathAlias :: bool

definition meta :: "string list \<Rightarrow> mode_meta" where
  "meta fs =
     \<lparr>mm_path = (''path'' \<in> set fs), mm_pathOptional = (''pathOptional'' \<in> set fs),
      mm_value = (''value'' \<in> set fs), mm_from = (''from'' \<in> set fs), mm_to = (''to'' \<in> set fs),
      mm_keepOrigin = (''keepOrigin'' \<in> set fs), mm_pathAlias = (''pathAlias'' \<in> set fs)\<rparr>"

definition MODE_META :: "(jsstring \<times> mode_meta) list" where
  "MODE_META =
     [(js ''delete'', meta [''path'']),
      (js ''set'', meta [''path'', ''value'', ''keepOrigin'']),
      (js ''append'', meta [''path'', ''value'', ''keepOrigin'']),
      (js ''prepend'', meta [''path'', ''value'', ''keepOrigin'']),
      (js ''copy'', meta [''from'', ''to'']),
      (js ''move'', meta [''from'', ''to'']),
      (js ''replace'', meta [''path'', ''from'']),
      (js ''regex_replace'', meta [''path'', ''from'']),
      (js ''trim_prefix'', meta [''path'', ''value'']),
      (js ''trim_suffix'', meta [''path'', ''value'']),
      (js ''ensure_prefix'', meta [''path'', ''value'']),
      (js ''ensure_suffix'', meta [''path'', ''value'']),
      (js ''trim_space'', meta [''path'']),
      (js ''to_lower'', meta [''path'']),
      (js ''to_upper'', meta [''path'']),
      (js ''return_error'', meta [''value'']),
      (js ''prune_objects'', meta [''pathOptional'', ''value'']),
      (js ''pass_headers'', meta [''value'', ''keepOrigin'']),
      (js ''sync_fields'', meta [''from'', ''to'']),
      (js ''set_header'', meta [''path'', ''value'', ''keepOrigin'']),
      (js ''delete_header'', meta [''path'']),
      (js ''copy_header'', meta [''from'', ''to'', ''keepOrigin'', ''pathAlias'']),
      (js ''move_header'', meta [''from'', ''to'', ''keepOrigin'', ''pathAlias''])]"

definition VALUE_REQUIRED_MODES :: "jsstring list" where
  "VALUE_REQUIRED_MODES =
     [js ''trim_prefix'', js ''trim_suffix'', js ''ensure_prefix'', js ''ensure_suffix'',
      js ''set_header'', js ''return_error'', js ''prune_objects'', js ''pass_headers'']"

definition FROM_REQUIRED_MODES :: "jsstring list" where
  "FROM_REQUIRED_MODES =
     [js ''copy'', js ''move'', js ''replace'', js ''regex_replace'', js ''copy_header'',
      js ''move_header'', js ''sync_fields'']"

definition TO_REQUIRED_MODES :: "jsstring list" where
  "TO_REQUIRED_MODES = [js ''copy'', js ''move'', js ''copy_header'', js ''move_header'', js ''sync_fields'']"

text \<open>\<open>MODE_META[mode] || MODE_META.set\<close> for the mode of an operation, \<open>set\<close> when it is empty.\<close>

definition op_mode :: "ParamOverrideOperation \<Rightarrow> jsstring" where
  "op_mode op = (if po_mode op = [] then js ''set'' else po_mode op)"

definition meta_of :: "jsstring \<Rightarrow> mode_meta" where
  "meta_of mode = nullish (obj_get MODE_META mode) (meta [''path'', ''value'', ''keepOrigin''])"

definition SYNC_TARGET_TYPE_OPTIONS :: "(jsstring \<times> jsstring) list" where
  "SYNC_TARGET_TYPE_OPTIONS =
     [(js ''Request Body Field'', js ''json''), (js ''Request Header Field'', js ''header'')]"

definition MODE_DESCRIPTIONS :: "(jsstring \<times> jsstring) list" where
  "MODE_DESCRIPTIONS =
     [(js ''set'', js ''Write value to the target field''),
      (js ''delete'', js ''Remove the target field''),
      (js ''append'', js ''Append value to array / string / object end''),
      (js ''prepend'', js ''Prepend value to array / string / object start''),
      (js ''copy'', js ''Copy source field to target field''),
      (js ''move'', js ''Move source field to target field''),
      (js ''replace'', js ''Do string replacement in the target field''),
      (js ''regex_replace'', js ''Do regex replacement in the target field''),
      (js ''trim_prefix'', js ''Remove string prefix''),
      (js ''trim_suffix'', js ''Remove string suffix''),
      (js ''ensure_prefix'', js ''Ensure the string has a specified prefix''),
      (js ''ensure_suffix'', js ''Ensure the string has a specified suffix''),
      (js ''trim_space'', js ''Trim leading/trailing whitespace''),
      (js ''to_lower'', js ''Convert string to lowercase''),
      (js ''to_upper'', js ''Convert string to uppercase''),
      (js ''return_error'', js ''Return a custom error immediately''),
      (js ''prune_objects'', js ''Prune object items by conditions''),
      (js ''pass_headers'', js ''Pass specified request headers to upstream''),
      (js ''sync_fields'', js ''Auto-fill when one field exists and another is missing''),
      (js ''set_header'',
         js ''Set runtime request header: override entire value, or manipulate comma-separated tokens''),
      (js ''delete_header'', js ''Delete a runtime request header''),
      (js ''copy_header'', js ''Copy a request header''),
      (js ''move_header'', js ''Move a request header'')]"

subsection \<open>Templates\<close>

definition str :: "string \<Rightarrow> jsval" where
  "str s = JStr (js s)"

definition obj :: "(string \<times> jsval) list \<Rightarrow> jsval" where
  "obj ps = JObj (map (\<lambda>(k, v). (js k, v)) ps)"

definition LEGACY_TEMPLATE :: jsval where
  "LEGACY_TEMPLATE = obj [(''temperature'', JNum 0), (''max_tokens'', JNum 1000)]"

definition OPERATION_TEMPLATE :: jsval where
  "OPERATION_TEMPLATE =
     obj [(''operations'', JArr
       [obj [(''description'', str ''Set default temperature for openai/* models.''),
             (''path'', str ''temperature''), (''mode'', str ''set''), (''value'', JNum (7 / 10)),
             (''conditions'', JArr [obj [(''path'', str ''model''), (''mode'', str ''prefix''),
                                         (''value'', str ''openai/'')]]),
             (''logic'', str ''AND'')]])]"

definition HEADER_PASSTHROUGH_TEMPLATE :: jsval where
  "HEADER_PASSTHROUGH_TEMPLATE =
     obj [(''operations'', JArr
       [obj [(''description'', str ''Pass through X-Request-Id header to upstream.''),
             (''mode'', str ''pass_headers''), (''value'', JArr [str ''X-Request-Id'']),
             (''keep_origin'', JBool True)]])]"

definition GEMINI_IMAGE_4K_TEMPLATE :: jsval where
  "GEMINI_IMAGE_4K_TEMPLATE =
     obj [(''operations'', JArr
       [obj [(''description'',
                str ''Set imageSize to 4K when model contains gemini/image and ends with 4k.''),
             (''mode'', str ''set''), (''path'', str ''generationConfig.imageConfig.imageSize''),
             (''value'', str ''4K''),
             (''conditions'', JArr
               [obj [(''path'', str ''original_model''), (''mode'', str ''contains''), (''value'', str ''gemini'')],
                obj [(''path'', str ''original_model''), (''mode'', str ''contains''), (''value'', str ''image'')],
                obj [(''path'', str ''original_model''), (''mode'', str ''suffix''), (''value'', str ''4k'')]]),
             (''logic'', str ''AND'')]])]"

definition CODEX_CLI_HEADER_PASSTHROUGH_HEADERS :: "string list" where
  "CODEX_CLI_HEADER_PASSTHROUGH_HEADERS =
     [''Originator'', ''Session_id'', ''User-Agent'', ''X-Codex-Beta-Features'', ''X-Codex-Turn-Metadata'']"

definition CLAUDE_CLI_HEADER_PASSTHROUGH_HEADERS :: "string list" where
  "CLAUDE_CLI_HEADER_PASSTHROUGH_HEADERS =
     [''X-Stainless-Arch'', ''X-Stainless-Lang'', ''X-Stainless-Os'', ''X-Stainless-Package-Version'',
      ''X-Stainless-Retry-Count'', ''X-Stainless-Runtime'', ''X-Stainless-Runtime-Version'',
      ''X-Stainless-Timeout'', ''User-Agent'', ''X-App'', ''Anthropic-Beta'',
      ''Anthropic-Dangerous-Direct-Browser-Access'', ''Anthropic-Version'']"

definition buildPassHeadersTemplate :: "string list \<Rightarrow> jsval" where
  "buildPassHeadersTemplate headers =
     obj [(''operations'', JArr
       [obj [(''mode'', str ''pass_headers''), (''value'', JArr (map str headers)),
             (''keep_origin'', JBool True)]])]"

definition AWS_BEDROCK_ANTHROPIC_COMPAT_TEMPLATE :: jsval where
  "AWS_BEDROCK_ANTHROPIC_COMPAT_TEMPLATE =
     obj [(''operations'', JArr
       [obj [(''description'', str ''Normalize anthropic-beta header tokens for Bedrock compatibility.''),
             (''mode'', str ''set_header''), (''path'', str ''anthropic-beta''),
             (''value'', obj
               [(''advanced-tool-use-2025-11-20'', str ''tool-search-tool-2025-10-19''),
                (''bash_20241022'', JNull), (''bash_20250124'', JNull),
                (''code-execution-2025-08-25'', JNull),
                (''compact-2026-01-12'', str ''compact-2026-01-12''),
                (''computer-use-2025-01-24'', str ''computer-use-2025-01-24''),
                (''computer-use-2025-11-24'', str ''computer-use-2025-11-24''),
                (''context-1m-2025-08-07'', str ''context-1m-2025-08-07''),
                (''context-management-2025-06-27'', str ''context-management-2025-06-27''),
                (''effort-2025-11-24'', JNull), (''fast-mode-2026-02-01'', JNull),
                (''files-api-2025-04-14'', JNull), (''fine-grained-tool-streaming-2025-05-14'', JNull),
                (''interleaved-thinking-2025-05-14'', str ''interleaved-thinking-2025-05-14''),
                (''mcp-client-2025-11-20'', JNull), (''mcp-client-2025-04-04'', JNull),
                (''mcp-servers-2025-12-04'', JNull), (''output-128k-2025-02-19'', JNull),
                (''structured-output-2024-03-01'', JNull), (''prompt-caching-scope-2026-01-05'', JNull),
                (''skills-2025-10-02'', JNull), (''structured-outputs-2025-11-13'', JNull),
                (''text_editor_20241022'', JNull), (''text_editor_20250124'', JNull),
                (''token-efficient-tools-2025-02-19'', JNull),
                (''tool-search-tool-2025-10-19'', str ''tool-search-tool-2025-10-19''),
                (''web-fetch-2025-09-10'', JNull), (''web-search-2025-03-05'', JNull),
                (''oauth-2025-04-20'', JNull)])],
        obj [(''description'', str ''Remove all tools[*].custom.input_examples before upstream relay.''),
             (''mode'', str ''delete''), (''path'', str ''tools.*.custom.input_examples'')]])]"

datatype preset_kind = OperationsKind | LegacyKind

record TemplatePresetConfig =
  tp_label :: jsstring
  tp_kind :: preset_kind
  tp_payload :: jsval

definition TEMPLATE_PRESET_CONFIG :: "(jsstring \<times> TemplatePresetConfig) list" where
  "TEMPLATE_PRESET_CONFIG =
     [(js ''operations_default'', \<lparr>tp_label = js ''New Format Template'', tp_kind = OperationsKind,
         tp_payload = OPERATION_TEMPLATE\<rparr>),
      (js ''legacy_default'', \<lparr>tp_label = js ''Legacy Format Template'', tp_kind = LegacyKind,
         tp_payload = LEGACY_TEMPLATE\<rparr>),
      (js ''pass_headers_auth'', \<lparr>tp_label = js ''Header Passthrough (X-Request-Id)'',
         tp_kind = OperationsKind, tp_payload = HEADER_PASSTHROUGH_TEMPLATE\<rparr>),
      (js ''gemini_image_4k'', \<lparr>tp_label = js ''Gemini Image 4K'', tp_kind = OperationsKind,
         tp_payload = GEMINI_IMAGE_4K_TEMPLATE\<rparr>),
      (js ''claude_cli_headers_passthrough'', \<lparr>tp_label = js ''Claude CLI Header Passthrough'',
         tp_kind = OperationsKind,
         tp_payload = buildPassHeadersTemplate CLAUDE_CLI_HEADER_PASSTHROUGH_HEADERS\<rparr>),
      (js ''codex_cli_headers_passthrough'', \<lparr>tp_label = js ''Codex CLI Header Passthrough'',
         tp_kind = OperationsKind,
         tp_payload = buildPassHeadersTemplate CODEX_CLI_HEADER_PASSTHROUGH_HEADERS\<rparr>),
      (js ''aws_bedrock_anthropic_beta_override'', \<lparr>tp_label = js ''AWS Bedrock Claude Compat'',
         tp_kind = OperationsKind, tp_payload = AWS_BEDROCK_ANTHROPIC_COMPAT_TEMPLATE\<rparr>)]"

subsection \<open>Values and identifiers\<close>

definition nextLocalId :: "(nat \<Rightarrow> nat) \<Rightarrow> nat \<Rightarrow> jsstring \<times> nat" where
  "nextLocalId clock seed =
     (js ''po_'' @ show_nat (clock seed) @ js ''_'' @ show_nat seed, seed + 1)"

definition toValueText :: "jsval option \<Rightarrow> jsstring" where
  "toValueText v = (case v of None \<Rightarrow> [] | Some (JStr s) \<Rightarrow> s | Some x \<Rightarrow> JSON_stringify x)"

definition parseLooseValue :: "jsstring \<Rightarrow> jsval" where
  "parseLooseValue valueText =
     (let raw = trim valueText in if raw = [] then JStr [] else nullish (JSON_parse raw) (JStr raw))"

definition verifyJSON :: "jsstring \<Rightarrow> bool" where
  "verifyJSON s \<longleftrightarrow> JSON_parse s \<noteq> None"

definition str_prop :: "jsval \<Rightarrow> string \<Rightarrow> jsstring" where
  "str_prop v k = (case js_prop v (js k) of Some (JStr s) \<Rightarrow> s | _ \<Rightarrow> [])"

definition mode_prop :: "jsstring list \<Rightarrow> string \<Rightarrow> jsval \<Rightarrow> jsstring" where
  "mode_prop modes fallback v =
     (case js_prop v (js ''mode'') of
        Some (JStr m) \<Rightarrow> if m \<in> set modes then m else js fallback
      | _ \<Rightarrow> js fallback)"

definition true_prop :: "jsval \<Rightarrow> string \<Rightarrow> bool" where
  "true_prop v k \<longleftrightarrow> js_prop v (js k) = Some (JBool True)"

subsection \<open>Normalising conditions and operations\<close>

definition normalizeOverrideCondition ::
    "(nat \<Rightarrow> nat) \<Rightarrow> nat \<Rightarrow> jsval \<Rightarrow> (ParamOverrideCondition \<times> nat) option" where
  "normalizeOverrideCondition clock seed condition =
     (if condition = JNull then None
      else let (i, seed') = nextLocalId clock seed in
        Some (\<lparr>pc_id = i, pc_path = str_prop condition ''path'',
               pc_mode = mode_prop CONDITION_MODE_VALUES ''full'' condition,
               pc_value_text = toValueText (js_prop condition (js ''value'')),
               pc_invert = true_prop condition ''invert'',
               pc_pass_missing_key = true_prop condition ''pass_missing_key''\<rparr>, seed'))"

definition createDefaultCondition :: "(nat \<Rightarrow> nat) \<Rightarrow> nat \<Rightarrow> ParamOverrideCondition \<times> nat" where
  "createDefaultCondition clock seed = the (normalizeOverrideCondition clock seed (JObj []))"

text \<open>\<open>xs.map(f)\<close> for a function that advances the identifiers and may throw.\<close>

fun map_seed :: "(nat \<Rightarrow> 'a \<Rightarrow> ('b \<times> nat) option) \<Rightarrow> nat \<Rightarrow> 'a list \<Rightarrow> ('b list \<times> nat) option" where
  "map_seed f seed [] = Some ([], seed)"
| "map_seed f seed (x # xs) =
     (case f seed x of
        None \<Rightarrow> None
      | Some (y, seed') \<Rightarrow> map_option (apfst (Cons y)) (map_seed f seed' xs))"

definition logic_of :: "jsval \<Rightarrow> jsstring" where
  "logic_of operation =
     (if ascii_upper (to_str (or_val (js_prop operation (js ''logic'')) (JStr (js ''OR'')))) = js ''AND''
      then js ''AND'' else js ''OR'')"

definition normalizeOperation ::
    "(nat \<Rightarrow> nat) \<Rightarrow> nat \<Rightarrow> jsval \<Rightarrow> (ParamOverrideOperation \<times> nat) option" where
  "normalizeOperation clock seed operation =
     (if operation = JNull then None
      else let (i, seed1) = nextLocalId clock seed in
        case (case js_prop operation (js ''conditions'') of
                Some (JArr cs) \<Rightarrow> map_seed (normalizeOverrideCondition clock) seed1 cs
              | _ \<Rightarrow> Some ([], seed1)) of
          None \<Rightarrow> None
        | Some (conditions, seed2) \<Rightarrow>
            Some (\<lparr>po_id = i, po_description = str_prop operation ''description'',
                   po_path = str_prop operation ''path'',
                   po_mode = mode_prop OPERATION_MODE_VALUES ''set'' operation,
                   po_from = str_prop operation ''from'', po_to = str_prop operation ''to'',
                   po_value_text = toValueText (js_prop operation (js ''value'')),
                   po_keep_origin = true_prop operation ''keep_origin'',
                   po_logic = logic_of operation, po_conditions = conditions\<rparr>, seed2))"

definition createDefaultOperation :: "(nat \<Rightarrow> nat) \<Rightarrow> nat \<Rightarrow> ParamOverrideOperation \<times> nat" where
  "createDefaultOperation clock seed = the (normalizeOperation clock seed (obj [(''mode'', str ''set'')]))"

datatype drop_position = BeforeTarget | AfterTarget

fun find_op :: "jsstring \<Rightarrow> ParamOverrideOperation list \<Rightarrow> nat option" where
  "find_op i [] = None"
| "find_op i (op # ops) = (if po_id op = i then Some 0 else map_option Suc (find_op i ops))"

definition reorderOperations ::
    "ParamOverrideOperation list \<Rightarrow> jsstring \<Rightarrow> jsstring \<Rightarrow> drop_position \<Rightarrow> ParamOverrideOperation list" where
  "reorderOperations ops sourceId targetId position =
     (if sourceId = [] \<or> targetId = [] \<or> sourceId = targetId then ops
      else case find_op sourceId ops of
             None \<Rightarrow> ops
           | Some srcIdx \<Rightarrow>
               let moved = ops ! srcIdx;
                   next = take srcIdx ops @ drop (srcIdx + 1) ops
               in case find_op targetId next of
                    None \<Rightarrow> ops
                  | Some k \<Rightarrow>
                      let insertIdx = (if position = AfterTarget then k + 1 else k)
                      in take insertIdx next @ [moved] @ drop insertIdx next)"

definition isOperationBlank :: "ParamOverrideOperation \<Rightarrow> bool" where
  "isOperationBlank operation \<longleftrightarrow>
     (let hasCondition = list_ex (\<lambda>c. trim (pc_path c) \<noteq> [] \<or> trim (pc_value_text c) \<noteq> [] \<or>
            pc_mode c \<noteq> js ''full'' \<or> pc_invert c \<or> pc_pass_missing_key c) (po_conditions operation)
      in po_mode operation = js ''set'' \<and> trim (po_path operation) = [] \<and> trim (po_from operation) = [] \<and>
         trim (po_to operation) = [] \<and> trim (po_value_text operation) = [] \<and>
         \<not> po_keep_origin operation \<and> \<not> hasCondition)"

subsection \<open>Labels\<close>

definition first_text :: "jsstring list \<Rightarrow> jsstring" where
  "first_text xs = (case filter (\<lambda>s. s \<noteq> []) xs of [] \<Rightarrow> js ''-'' | s # _ \<Rightarrow> s)"

definition getOperationSummary :: "ParamOverrideOperation \<Rightarrow> nat \<Rightarrow> jsstring" where
  "getOperationSummary operation index =
     (let mode = op_mode operation;
          modeLabel = (case obj_get OPERATION_MODE_LABEL_MAP mode of
                         Some l \<Rightarrow> if l = [] then mode else l | None \<Rightarrow> mode);
          fr = trim (po_from operation);
          to = trim (po_to operation)
      in show_nat (index + 1) @ js ''. '' @ modeLabel @ [32, 183, 32] @
         (if mode = js ''sync_fields'' then first_text [fr, to]
          else first_text [trim (po_path operation), fr, to]))"

definition getModeTagTailwind :: "jsstring \<Rightarrow> jsstring" where
  "getModeTagTailwind mode =
     (if str_includes mode (js ''header'')
      then js ''bg-cyan-500/15 text-cyan-700 dark:text-cyan-300 border-cyan-500/20''
      else if str_includes mode (js ''replace'') \<or> str_includes mode (js ''trim'')
      then js ''bg-violet-500/15 text-violet-700 dark:text-violet-300 border-violet-500/20''
      else if str_includes mode (js ''copy'') \<or> str_includes mode (js ''move'')
      then js ''bg-blue-500/15 text-blue-700 dark:text-blue-300 border-blue-500/20''
      else if str_includes mode (js ''error'') \<or> str_includes mode (js ''prune'')
      then js ''bg-red-500/15 text-red-700 dark:text-red-300 border-red-500/20''
      else if str_includes mode (js ''sync'')
      then js ''bg-green-500/15 text-green-700 dark:text-green-300 border-green-500/20''
      else js ''bg-muted text-muted-foreground'')"

definition getModePathLabel :: "jsstring \<Rightarrow> jsstring" where
  "getModePathLabel mode =
     (if mode = js ''set_header'' \<or> mode = js ''delete_header'' then js ''Header Name''
      else if mode = js ''prune_objects'' then js ''Target Path (optional)''
      else js ''Target Field Path'')"

definition getModePathPlaceholder :: "jsstring \<Rightarrow> jsstring" where
  "getModePathPlaceholder mode =
     (if mode = js ''set_header'' then js ''Authorization''
      else if mode = js ''delete_header'' then js ''X-Debug-Mode''
      else if mode = js ''prune_objects'' then js ''messages''
      else js ''temperature'')"

definition getModeFromLabel :: "jsstring \<Rightarrow> jsstring" where
  "getModeFromLabel mode =
     (if mode = js ''replace'' then js ''Match Text''
      else if mode = js ''regex_replace'' then js ''Regex Pattern''
      else if mode = js ''copy_header'' \<or> mode = js ''move_header'' then js ''Source Header''
      else js ''Source Field'')"

definition getModeFromPlaceholder :: "jsstring \<Rightarrow> jsstring" where
  "getModeFromPlaceholder mode =
     (if mode = js ''replace'' then js ''openai/''
      else if mode = js ''regex_replace'' then js ''^gpt-''
      else if mode = js ''copy_header'' \<or> mode = js ''move_header'' then js ''Authorization''
      else js ''model'')"

definition getModeToLabel :: "jsstring \<Rightarrow> jsstring" where
  "getModeToLabel mode =
     (if mode = js ''replace'' \<or> mode = js ''regex_replace'' then js ''Replace With''
      else if mode = js ''copy_header'' \<or> mode = js ''move_header'' then js ''Target Header''
      else js ''Target Field'')"

definition getModeToPlaceholder :: "jsstring \<Rightarrow> jsstring" where
  "getModeToPlaceholder mode =
     (if mode = js ''replace'' then js ''(leave empty to delete)''
      else if mode = js ''regex_replace'' then js ''openai/gpt-''
      else if mode = js ''copy_header'' \<or> mode = js ''move_header'' then js ''X-Upstream-Auth''
      else js ''original_model'')"

definition affix_modes :: "jsstring list" where
  "affix_modes = [js ''trim_prefix'', js ''trim_suffix'', js ''ensure_prefix'', js ''ensure_suffix'']"

definition getModeValueLabel :: "jsstring \<Rightarrow> jsstring" where
  "getModeValueLabel mode =
     (if mode = js ''set_header'' then js ''Header Value (supports string or JSON mapping)''
      else if mode = js ''pass_headers'' then js ''Pass-through Headers (comma-separated or JSON array)''
      else if mode \<in> set affix_modes then js ''Prefix/Suffix Text''
      else if mode = js ''prune_objects'' then js ''Prune Rule (string or JSON object)''
      else js ''Value (supports JSON or plain text)'')"

definition getModeValuePlaceholder :: "jsstring \<Rightarrow> jsstring" where
  "getModeValuePlaceholder mode =
     (if mode = js ''set_header'' then js ''Bearer sk-xxx''
      else if mode = js ''pass_headers'' then js ''Authorization, X-Request-Id''
      else if mode \<in> set affix_modes then js ''openai/''
      else if mode = js ''prune_objects'' then [123, 34] @ js ''type'' @ [34, 58, 34] @ js ''redacted_thinking'' @ [34, 125]
      else js ''0.7'')"

subsection \<open>Structured values\<close>

definition parseSyncTargetSpec :: "jsstring \<Rightarrow> jsstring \<times> jsstring" where
  "parseSyncTargetSpec spec =
     (let raw = trim spec in
      if raw = [] then (js ''json'', [])
      else case index_of raw [58] 0 of
             None \<Rightarrow> (js ''json'', raw)
           | Some idx \<Rightarrow>
               let pre = ascii_lower (trim (take idx raw)); key = trim (drop (idx + 1) raw)
               in if pre = js ''header'' then (js ''header'', key) else (js ''json'', key))"

definition buildSyncTargetSpec :: "jsstring \<Rightarrow> jsstring \<Rightarrow> jsstring" where
  "buildSyncTargetSpec ty key =
     (let normalizedType = (if ty = js ''header'' then js ''header'' else js ''json'');
          normalizedKey = trim key
      in if normalizedKey = [] then [] else normalizedType @ [58] @ normalizedKey)"

record ReturnErrorDraft =
  re_message :: jsstring
  re_statusCode :: "rat option"
  re_code :: jsstring
  re_type :: jsstring
  re_skipRetry :: bool
  re_simpleMode :: bool

definition return_error_defaults :: ReturnErrorDraft where
  "return_error_defaults =
     \<lparr>re_message = [], re_statusCode = Some 400, re_code = [], re_type = [], re_skipRetry = True,
      re_simpleMode = True\<rparr>"

text \<open>\<open>String(a || b || '')\<close> and its trimmed form.\<close>

definition text_of :: "jsval option \<Rightarrow> jsstring" where
  "text_of v = trim (to_str (or_val v (JStr [])))"

definition valid_status :: "rat option \<Rightarrow> rat option" where
  "valid_status x = (if http_code x then x else Some 400)"

definition parseReturnErrorDraft :: "jsstring \<Rightarrow> ReturnErrorDraft" where
  "parseReturnErrorDraft valueText =
     (let raw = trim valueText in
      if raw = [] then return_error_defaults
      else case JSON_parse raw of
             Some (JObj ps) \<Rightarrow>
               let statusRaw = (if obj_get ps (js ''status_code'') \<noteq> None then obj_get ps (js ''status_code'')
                                else obj_get ps (js ''status''))
               in \<lparr>re_message = (if truthy_opt (obj_get ps (js ''message''))
                                 then text_of (obj_get ps (js ''message''))
                                 else text_of (obj_get ps (js ''msg''))),
                   re_statusCode = valid_status (Option.bind statusRaw to_number),
                   re_code = text_of (obj_get ps (js ''code'')),
                   re_type = text_of (obj_get ps (js ''type'')),
                   re_skipRetry = (obj_get ps (js ''skip_retry'') \<noteq> Some (JBool False)),
                   re_simpleMode = False\<rparr>
           | _ \<Rightarrow> return_error_defaults\<lparr>re_message := raw, re_simpleMode := True\<rparr>)"

definition buildReturnErrorValueText :: "ReturnErrorDraft \<Rightarrow> jsstring" where
  "buildReturnErrorValueText draft =
     (let message = trim (re_message draft) in
      if re_simpleMode draft then message
      else
        let code = trim (re_code draft); ty = trim (re_type draft);
            ps0 = [(js ''message'', JStr message),
                   (js ''status_code'', JNum (nullish (valid_status (re_statusCode draft)) 0))];
            ps1 = (if code \<noteq> [] then ps0 @ [(js ''code'', JStr code)] else ps0);
            ps2 = (if ty \<noteq> [] then ps1 @ [(js ''type'', JStr ty)] else ps1);
            ps3 = (if \<not> re_skipRetry draft then ps2 @ [(js ''skip_retry'', JBool False)] else ps2)
        in JSON_stringify (JObj ps3))"

type_synonym PruneRule = ParamOverrideCondition

record PruneObjectsDraft =
  pd_simpleMode :: bool
  pd_typeText :: jsstring
  pd_logic :: jsstring
  pd_recursive :: bool
  pd_rules :: "PruneRule list"

definition prune_defaults :: PruneObjectsDraft where
  "prune_defaults =
     \<lparr>pd_simpleMode = True, pd_typeText = [], pd_logic = js ''AND'', pd_recursive = True, pd_rules = []\<rparr>"

definition normalizePruneRule :: "(nat \<Rightarrow> nat) \<Rightarrow> nat \<Rightarrow> jsval \<Rightarrow> PruneRule \<times> nat" where
  "normalizePruneRule clock seed rule =
     (let (i, seed') = nextLocalId clock seed in
      (\<lparr>pc_id = i, pc_path = str_prop rule ''path'',
        pc_mode = mode_prop CONDITION_MODE_VALUES ''full'' rule,
        pc_value_text = toValueText (js_prop rule (js ''value'')),
        pc_invert = true_prop rule ''invert'',
        pc_pass_missing_key = true_prop rule ''pass_missing_key''\<rparr>, seed'))"

fun push_rules :: "(nat \<Rightarrow> nat) \<Rightarrow> nat \<Rightarrow> jsval list \<Rightarrow> PruneRule list \<times> nat" where
  "push_rules clock seed [] = ([], seed)"
| "push_rules clock seed (v # vs) =
     (let (r, seed1) = normalizePruneRule clock seed v; (rs, seed2) = push_rules clock seed1 vs
      in (r # rs, seed2))"

definition entry_rule :: "jsstring \<times> jsval \<Rightarrow> jsval" where
  "entry_rule e = JObj [(js ''path'', JStr (fst e)), (js ''mode'', str ''full''), (js ''value'', snd e)]"

definition rule_sources :: "(jsstring \<times> jsval) list \<Rightarrow> jsval list" where
  "rule_sources ps =
     (case obj_get ps (js ''where'') of Some (JObj ws) \<Rightarrow> map entry_rule ws | _ \<Rightarrow> []) @
     (case obj_get ps (js ''conditions'') of
        Some (JArr items) \<Rightarrow> filter (\<lambda>i. case i of JObj _ \<Rightarrow> True | JArr _ \<Rightarrow> True | _ \<Rightarrow> False) items
      | Some (JObj cs) \<Rightarrow> map entry_rule cs
      | _ \<Rightarrow> [])"

definition parsePruneObjectsDraft :: "(nat \<Rightarrow> nat) \<Rightarrow> nat \<Rightarrow> jsstring \<Rightarrow> PruneObjectsDraft \<times> nat" where
  "parsePruneObjectsDraft clock seed valueText =
     (let raw = trim valueText in
      if raw = [] then (prune_defaults, seed)
      else case JSON_parse raw of
             None \<Rightarrow> (prune_defaults\<lparr>pd_typeText := raw\<rparr>, seed)
           | Some (JStr s) \<Rightarrow> (prune_defaults\<lparr>pd_typeText := trim s\<rparr>, seed)
           | Some (JObj ps) \<Rightarrow>
               let (rules, seed') = push_rules clock seed (rule_sources ps)
               in (\<lparr>pd_simpleMode = (obj_get ps (js ''logic'') = None \<and> obj_get ps (js ''recursive'') = None \<and>
                      obj_get ps (js ''where'') = None \<and> obj_get ps (js ''conditions'') = None),
                    pd_typeText = (case obj_get ps (js ''type'') of None \<Rightarrow> [] | Some v \<Rightarrow> trim (to_str v)),
                    pd_logic = (if ascii_upper (to_str (or_val (obj_get ps (js ''logic'')) (str ''AND''))) = js ''OR''
                                then js ''OR'' else js ''AND''),
                    pd_recursive = (obj_get ps (js ''recursive'') \<noteq> Some (JBool False)),
                    pd_rules = rules\<rparr>, seed')
           | Some JNull \<Rightarrow> (prune_defaults, seed)
           | Some v \<Rightarrow> (prune_defaults\<lparr>pd_typeText := trim (to_str v)\<rparr>, seed))"

definition prune_condition :: "PruneRule \<Rightarrow> (jsstring \<times> jsval) list" where
  "prune_condition rule =
     (let valueRaw = trim (pc_value_text rule);
          ps0 = [(js ''path'', JStr (trim (pc_path rule))),
                 (js ''mode'', JStr (if pc_mode rule \<in> set CONDITION_MODE_VALUES then pc_mode rule else js ''full''))];
          ps1 = (if valueRaw \<noteq> [] then ps0 @ [(js ''value'', parseLooseValue valueRaw)] else ps0);
          ps2 = (if pc_invert rule then ps1 @ [(js ''invert'', JBool True)] else ps1)
      in if pc_pass_missing_key rule then ps2 @ [(js ''pass_missing_key'', JBool True)] else ps2)"

definition prune_conditions :: "PruneObjectsDraft \<Rightarrow> jsval list" where
  "prune_conditions draft = map (JObj \<circ> prune_condition) (filter (\<lambda>r. trim (pc_path r) \<noteq> []) (pd_rules draft))"

definition buildPruneObjectsValueText :: "PruneObjectsDraft \<Rightarrow> jsstring" where
  "buildPruneObjectsValueText draft =
     (let typeText = trim (pd_typeText draft) in
      if pd_simpleMode draft then typeText
      else
        let logic = (if pd_logic draft = [] then js ''AND'' else pd_logic draft);
            conditions = prune_conditions draft;
            ps = (if typeText \<noteq> [] then [(js ''type'', JStr typeText)] else []) @
                 (if ascii_upper logic = js ''OR'' then [(js ''logic'', str ''OR'')] else []) @
                 (if \<not> pd_recursive draft then [(js ''recursive'', JBool False)] else []) @
                 (if conditions \<noteq> [] then [(js ''conditions'', JArr conditions)] else [])
        in if typeText = [] \<and> conditions = [] then JSON_stringify (obj [(''logic'', str ''AND'')])
           else JSON_stringify (JObj ps))"

definition header_text :: "jsval \<Rightarrow> jsstring" where
  "header_text v = (case v of JNull \<Rightarrow> [] | _ \<Rightarrow> trim (to_str v))"

definition parsePassHeaderNames :: "jsval \<Rightarrow> jsstring list" where
  "parsePassHeaderNames rawValue =
     (case rawValue of
        JArr items \<Rightarrow> truthy_strs (map header_text items)
      | JObj ps \<Rightarrow>
          (case obj_get ps (js ''headers'') of
             Some (JArr items) \<Rightarrow> truthy_strs (map header_text items)
           | _ \<Rightarrow>
               (case obj_get ps (js ''header'') of
                  Some v \<Rightarrow> if header_text v = [] then [] else [header_text v]
                | None \<Rightarrow> []))
      | JStr s \<Rightarrow> truthy_strs (map trim (split_on 44 s))
      | _ \<Rightarrow> [])"

subsection \<open>Printing and validating operations\<close>

definition buildConditionPayload :: "ParamOverrideCondition \<Rightarrow> (jsstring \<times> jsval) list option" where
  "buildConditionPayload condition =
     (let path = trim (pc_path condition) in
      if path = [] then None
      else
        let ps0 = [(js ''path'', JStr path),
                   (js ''mode'', JStr (if pc_mode condition = [] then js ''full'' else pc_mode condition)),
                   (js ''value'', parseLooseValue (pc_value_text condition))];
            ps1 = (if pc_invert condition then ps0 @ [(js ''invert'', JBool True)] else ps0)
        in Some (if pc_pass_missing_key condition then ps1 @ [(js ''pass_missing_key'', JBool True)] else ps1))"

type_synonym translate = "jsstring \<Rightarrow> nat option \<Rightarrow> jsstring"

definition operation_error :: "translate \<Rightarrow> nat \<Rightarrow> ParamOverrideOperation \<Rightarrow> jsstring option" where
  "operation_error t line op =
     (let mode = op_mode op; m = meta_of mode;
          pathValue = trim (po_path op); fromValue = trim (po_from op); toValue = trim (po_to op);
          raw = trim (po_value_text op);
          missing = (\<lambda>msg. Some (t (js msg) (Some line)))
      in if mm_path m \<and> pathValue = [] then missing ''Rule {{line}} is missing target path''
         else if mode \<in> set FROM_REQUIRED_MODES \<and> fromValue = [] \<and> \<not> (mm_pathAlias m \<and> pathValue \<noteq> [])
         then missing ''Rule {{line}} is missing source field''
         else if mode \<in> set TO_REQUIRED_MODES \<and> toValue = [] \<and> \<not> (mm_pathAlias m \<and> pathValue \<noteq> [])
         then missing ''Rule {{line}} is missing target field''
         else if mode \<in> set VALUE_REQUIRED_MODES \<and> raw = []
         then missing ''Rule {{line}} is missing value''
         else if mode = js ''return_error'' then
           (if raw = [] then missing ''Rule {{line}} is missing value''
            else case JSON_parse raw of
                   Some (JObj ps) \<Rightarrow>
                     if text_of (obj_get ps (js ''message'')) = []
                     then missing ''Rule {{line}} return_error requires a message field'' else None
                 | _ \<Rightarrow> None)
         else if mode = js ''prune_objects'' then
           (if raw = [] then missing ''Rule {{line}} prune_objects is missing conditions'' else None)
         else if mode = js ''pass_headers'' then
           (if raw = [] then missing ''Rule {{line}} pass_headers is missing header names''
            else if length (parsePassHeaderNames (parseLooseValue raw)) = 0
            then missing ''Rule {{line}} pass_headers format is invalid'' else None)
         else None)"

fun validate_from :: "translate \<Rightarrow> nat \<Rightarrow> ParamOverrideOperation list \<Rightarrow> jsstring" where
  "validate_from t i [] = []"
| "validate_from t i (op # ops) =
     (case operation_error t (i + 1) op of Some msg \<Rightarrow> msg | None \<Rightarrow> validate_from t (i + 1) ops)"

definition validateOperations :: "ParamOverrideOperation list \<Rightarrow> translate \<Rightarrow> jsstring" where
  "validateOperations operations t = validate_from t 0 operations"

definition put_if :: "bool \<Rightarrow> string \<Rightarrow> jsval \<Rightarrow> (jsstring \<times> jsval) list \<Rightarrow> (jsstring \<times> jsval) list" where
  "put_if c k v ps = (if c then obj_put (js k) v ps else ps)"

definition operation_payload :: "ParamOverrideOperation \<Rightarrow> (jsstring \<times> jsval) list" where
  "operation_payload operation =
     (let mode = op_mode operation; m = meta_of mode;
          descriptionValue = trim (po_description operation); pathValue = trim (po_path operation);
          fromValue = trim (po_from operation); toValue = trim (po_to operation);
          p0 = [(js ''mode'', JStr mode)];
          p1 = put_if (descriptionValue \<noteq> []) ''description'' (JStr descriptionValue) p0;
          p2 = put_if (mm_path m) ''path'' (JStr pathValue) p1;
          p3 = put_if (mm_pathOptional m \<and> pathValue \<noteq> []) ''path'' (JStr pathValue) p2;
          p4 = put_if (mm_value m) ''value'' (parseLooseValue (po_value_text operation)) p3;
          p5 = put_if (mm_keepOrigin m \<and> po_keep_origin operation) ''keep_origin'' (JBool True) p4;
          p6 = put_if (mm_from m) ''from'' (JStr fromValue) p5;
          p7 = put_if (\<not> mm_to m \<and> toValue \<noteq> []) ''to'' (JStr toValue) p6;
          p8 = put_if (mm_to m) ''to'' (JStr toValue) p7;
          p9 = put_if (mm_pathAlias m \<and> \<not> truthy_opt (obj_get p8 (js ''from'')) \<and> pathValue \<noteq> [])
                 ''from'' (JStr pathValue) p8;
          p10 = put_if (mm_pathAlias m \<and> \<not> truthy_opt (obj_get p9 (js ''to'')) \<and> pathValue \<noteq> [])
                  ''to'' (JStr pathValue) p9;
          conditions = map JObj (List.map_filter buildConditionPayload (po_conditions operation));
          p11 = put_if (conditions \<noteq> []) ''conditions'' (JArr conditions) p10
      in put_if (conditions \<noteq> []) ''logic''
           (JStr (if po_logic operation = js ''AND'' then js ''AND'' else js ''OR'')) p11)"

definition buildOperationsJson :: "ParamOverrideOperation list \<Rightarrow> bool \<Rightarrow> translate \<Rightarrow> jsstring + jsstring" where
  "buildOperationsJson sourceOperations validate t =
     (let filteredOps = filter (\<lambda>op. \<not> isOperationBlank op) sourceOperations in
      if filteredOps = [] then Inr []
      else if validate \<and> validateOperations filteredOps t \<noteq> []
      then Inl (validateOperations filteredOps t)
      else Inr (JSON_pretty [] (JObj [(js ''operations'', JArr (map (JObj \<circ> operation_payload) filteredOps))])))"

subsection \<open>The state an override text opens with\<close>

datatype edit_mode = VisualEdit | JsonEdit
datatype visual_mode = OperationsMode | LegacyMode

record EditorState =
  es_editMode :: edit_mode
  es_visualMode :: visual_mode
  es_legacyValue :: jsstring
  es_operations :: "ParamOverrideOperation list"
  es_jsonText :: jsstring
  es_jsonError :: jsstring

definition operations_of :: "jsval \<Rightarrow> jsval list option" where
  "operations_of parsed =
     (case parsed of
        JObj ps \<Rightarrow> (case obj_get ps (js ''operations'') of Some (JArr ops) \<Rightarrow> Some ops | _ \<Rightarrow> None)
      | _ \<Rightarrow> None)"

definition read_operations ::
    "(nat \<Rightarrow> nat) \<Rightarrow> nat \<Rightarrow> jsval list \<Rightarrow> (ParamOverrideOperation list \<times> nat) option" where
  "read_operations clock seed ops =
     (if 0 < length ops then map_seed (normalizeOperation clock) seed ops
      else let (op, seed') = createDefaultOperation clock seed in Some ([op], seed'))"

definition parseInitialState :: "(nat \<Rightarrow> nat) \<Rightarrow> nat \<Rightarrow> jsstring \<Rightarrow> (EditorState \<times> nat) option" where
  "parseInitialState clock seed rawValue =
     (let trimmed = trim rawValue;
          (fallback, seed') = createDefaultOperation clock seed;
          base = \<lparr>es_editMode = VisualEdit, es_visualMode = OperationsMode, es_legacyValue = [],
                  es_operations = [fallback], es_jsonText = [], es_jsonError = []\<rparr>
      in if trimmed = [] then Some (base, seed')
         else case JSON_parse trimmed of
                None \<Rightarrow> Some (base\<lparr>es_editMode := JsonEdit, es_jsonText := rawValue,
                                   es_jsonError := js ''Invalid JSON format''\<rparr>, seed')
              | Some parsed \<Rightarrow>
                  let pretty = JSON_pretty [] parsed in
                  case operations_of parsed of
                    Some ops \<Rightarrow>
                      map_option (apfst (\<lambda>ops'. base\<lparr>es_operations := ops', es_jsonText := pretty\<rparr>))
                        (read_operations clock seed ops)
                  | None \<Rightarrow>
                      (case parsed of
                         JObj _ \<Rightarrow> Some (base\<lparr>es_visualMode := LegacyMode, es_legacyValue := pretty,
                                             es_jsonText := pretty\<rparr>, seed')
                       | _ \<Rightarrow> Some (base\<lparr>es_editMode := JsonEdit, es_jsonText := pretty\<rparr>, seed')))"

subsection \<open>Local identifiers are never repeated\<close>

definition local_id :: "(nat \<Rightarrow> nat) \<Rightarrow> nat \<Rightarrow> jsstring" where
  "local_id clock n = js ''po_'' @ show_nat (clock n) @ js ''_'' @ show_nat n"

lemma nextLocalId_local [simp]: "nextLocalId clock n = (local_id clock n, Suc n)"
  by (simp add: nextLocalId_def local_id_def)

lemma local_id_inj [simp]: "local_id clock m = local_id clock n \<longleftrightarrow> m = n"
proof
  assume "local_id clock m = local_id clock n"
  then have eq: "show_nat (clock m) @ 95 # show_nat m = show_nat (clock n) @ 95 # show_nat n"
    by (simp add: local_id_def js_lits)
  have "95 \<notin> set (show_nat k)" for k using show_nat_digits [of 95 k] by (auto simp: is_digit_def)
  then have "show_nat m = show_nat n" using eq first_delim_unique by metis
  then show "m = n" by simp
qed simp

lemma inj_local_id: "inj (local_id clock)"
  by (simp add: inj_def)

lemma local_id_not_Nil [simp]: "local_id clock n \<noteq> []"
  by (simp add: local_id_def)

definition op_ids :: "ParamOverrideOperation \<Rightarrow> jsstring list" where
  "op_ids op = po_id op # map pc_id (po_conditions op)"

lemma map_seed_ids:
  assumes "\<And>s x y s'. f s x = Some (y, s') \<Longrightarrow> s \<le> s' \<and> ids y = map (local_id clock) [s..<s']"
  shows "map_seed f s xs = Some (ys, s') \<Longrightarrow>
    s \<le> s' \<and> concat (map ids ys) = map (local_id clock) [s..<s']"
proof (induction xs arbitrary: s ys)
  case (Cons x xs)
  then obtain y s1 zs where y: "f s x = Some (y, s1)" and zs: "map_seed f s1 xs = Some (zs, s')"
    and ys: "ys = y # zs"
    by (auto split: option.splits)
  have "s \<le> s1" "s1 \<le> s'" "ids y = map (local_id clock) [s..<s1]"
    "concat (map ids zs) = map (local_id clock) [s1..<s']"
    using assms [OF y] Cons.IH [OF zs] by auto
  moreover have "[s..<s'] = [s..<s1] @ [s1..<s']"
    using \<open>s \<le> s1\<close> \<open>s1 \<le> s'\<close> by (metis le_add_diff_inverse upt_add_eq_append)
  ultimately show ?case using ys by simp
qed simp

lemma map_seed_length: "map_seed f s xs = Some (ys, s') \<Longrightarrow> length ys = length xs"
  by (induction xs arbitrary: s ys) (auto split: option.splits)

lemma condition_id:
  "normalizeOverrideCondition clock s c = Some (y, s') \<Longrightarrow> s' = Suc s \<and> pc_id y = local_id clock s"
  by (auto simp: normalizeOverrideCondition_def split: if_splits)

lemma conditions_ids:
  "map_seed (normalizeOverrideCondition clock) s cs = Some (ys, s') \<Longrightarrow>
   s \<le> s' \<and> map pc_id ys = map (local_id clock) [s..<s']"
proof -
  assume a: "map_seed (normalizeOverrideCondition clock) s cs = Some (ys, s')"
  have "s \<le> s' \<and> concat (map (\<lambda>c. [pc_id c]) ys) = map (local_id clock) [s..<s']"
    by (rule map_seed_ids [OF _ a]) (auto dest: condition_id)
  then show ?thesis by simp
qed

lemma operation_ids:
  assumes "normalizeOperation clock s v = Some (y, s')"
  shows "s < s' \<and> op_ids y = map (local_id clock) [s..<s']"
proof -
  obtain cs where cs: "Suc s \<le> s'" "map pc_id cs = map (local_id clock) [Suc s..<s']"
    "po_conditions y = cs" "po_id y = local_id clock s"
    using assms conditions_ids
    by (fastforce simp: normalizeOperation_def split: option.splits jsval.splits if_splits)
  then show ?thesis by (simp add: op_ids_def upt_conv_Cons)
qed

lemma operations_ids:
  "map_seed (normalizeOperation clock) s vs = Some (ys, s') \<Longrightarrow>
   s \<le> s' \<and> concat (map op_ids ys) = map (local_id clock) [s..<s']"
  using map_seed_ids [where f = "normalizeOperation clock" and ids = op_ids and clock = clock]
    operation_ids less_imp_le by blast

lemma default_operation:
  "createDefaultOperation clock s =
     (\<lparr>po_id = local_id clock s, po_description = [], po_path = [], po_mode = js ''set'', po_from = [],
       po_to = [], po_value_text = [], po_keep_origin = False, po_logic = js ''OR'', po_conditions = []\<rparr>, Suc s)"
  by (simp add: createDefaultOperation_def normalizeOperation_def str_prop_def js_prop_def
      obj_def str_def mode_prop_def OPERATION_MODE_VALUES_def OPERATION_MODE_OPTIONS_def toValueText_def
      true_prop_def logic_of_def or_val_def truthy_opt_def ascii_upper_def js_lits)

lemma default_ids: "op_ids (fst (createDefaultOperation clock s)) = [local_id clock s]"
  by (simp add: default_operation op_ids_def)

lemma read_operations_ids:
  "read_operations clock s vs = Some (ys, s') \<Longrightarrow>
   ys \<noteq> [] \<and> s \<le> s' \<and> concat (map op_ids ys) = map (local_id clock) [s..<s']"
  using operations_ids [of clock s vs ys s'] map_seed_length [of "normalizeOperation clock" s vs ys s']
  by (auto simp: read_operations_def default_operation op_ids_def split: if_splits)

end
