(* ===== verification/OverrideText.thy ===== *)
theory OverrideText
  imports ParamOverride
begin

section \<open>Override texts: reading, printing, validating\<close>

text \<open>
  What the functions of the parameter override editor promise: values, drafts and operations survive
  being printed and read again, reordering moves one operation and keeps the rest, and a saved
  override is complete.
\<close>

subsection \<open>Values survive the text field\<close>

lemma trimmed_stringify:
  assumes "json_rt v" "\<not> is_string v"
  shows "trimmed (JSON_stringify v)"
proof (cases v)
  case (JNum x)
  then have x: "decimal x" using assms(1) by simp
  have "\<not> is_ws c" if "c \<in> set (num_str x)" for c
    using num_str_chars [OF x that] by (elim disjE insertE) (simp_all add: is_ws_def is_digit_def)
  then show ?thesis using JNum hd_in_set [of "num_str x"] last_in_set [of "num_str x"] by (auto simp: trimmed_def)
qed (use assms(2) in \<open>auto simp: trimmed_def is_string_def is_ws_def js_lits\<close>)

lemma stringify_not_Nil: "json_rt v \<Longrightarrow> JSON_stringify v \<noteq> []"
  using json_roundtrip [of v] by (simp add: reads_def)

definition reopened_value :: "jsval \<Rightarrow> jsval" where
  "reopened_value v = (case v of JStr s \<Rightarrow> parseLooseValue s | _ \<Rightarrow> v)"

lemma loose_value_text: "json_rt v \<Longrightarrow> parseLooseValue (toValueText (Some v)) = reopened_value v"
  using trimmed_stringify [of v] stringify_not_Nil [of v] JSON_parse_stringify [of v]
  by (cases v) (simp_all add: toValueText_def reopened_value_def parseLooseValue_def Let_def trim_simps
      is_string_def del: JSON_stringify.simps json_rt.simps)

text \<open>
  A value shown in the text field of an operation and read back: every value that is
  not a string comes back unchanged; a string comes back trimmed when its text is no JSON, but a
  string whose text is JSON comes back as the value that text denotes.
\<close>

theorem override_value_roundtrip:
  assumes "json_rt v"
  shows "parseLooseValue (toValueText (Some v)) =
    (case v of
       JStr s \<Rightarrow> (case JSON_parse (trim s) of None \<Rightarrow> JStr (trim s) | Some w \<Rightarrow> w)
     | _ \<Rightarrow> v)"
proof -
  have "parseLooseValue s = (case JSON_parse (trim s) of None \<Rightarrow> JStr (trim s) | Some w \<Rightarrow> w)" for s
    using JSON_parse_blank [of "[]"] by (auto simp: parseLooseValue_def Let_def split: option.splits)
  then show ?thesis using loose_value_text [OF assms] by (simp add: reopened_value_def split: jsval.splits)
qed

text \<open>A witness, and the case that changes: the string \<open>12\<close> comes back as a number.\<close>

theorem override_value_roundtrip_witness:
  "parseLooseValue (toValueText (Some (JArr [JNum 7, str ''a'']))) = JArr [JNum 7, str ''a''] \<and>
   parseLooseValue (toValueText (Some (str ''12''))) = JNum 12"
proof -
  have "json_rt (JArr [JNum 7, str ''a''])" "json_rt (str ''12'')" by code_simp+
  moreover have "JSON_parse (trim (js ''12'')) = Some (JNum 12)" by code_simp
  ultimately show ?thesis
    using override_value_roundtrip [of "JArr [JNum 7, str ''a'']"] override_value_roundtrip [of "str ''12''"]
    by (simp add: str_def)
qed

subsection \<open>Reordering\<close>

lemma find_op_split:
  assumes "distinct (map po_id (xs @ [x] @ ys))"
  shows "find_op (po_id x) (xs @ [x] @ ys) = Some (length xs)"
  using assms by (induction xs) auto

lemma find_op_SomeD: "find_op i ops = Some k \<Longrightarrow> k < length ops \<and> po_id (ops ! k) = i"
  by (induction ops arbitrary: k) (auto split: if_splits)

lemma mset_reorder: "mset (reorderOperations ops s t p) = mset ops"
proof -
  have ins: "mset (take j xs @ [x] @ drop j xs) = add_mset x (mset xs)" for j x and xs :: "ParamOverrideOperation list"
    by (simp, simp flip: mset_append)
  have del: "add_mset (ops ! k) (mset (take k ops @ drop (k + 1) ops)) = mset ops" if "k < length ops" for k
    using arg_cong [OF id_take_nth_drop [OF that], of mset] by simp
  show ?thesis
    unfolding reorderOperations_def Let_def
    by (simp only: ins del split: option.split if_split) (auto dest: find_op_SomeD simp only: del)
qed

text \<open>
  Dropping an operation on another: the operations are the same ones, the dragged one
  ends directly before or after the target, and all others keep their order.
\<close>

theorem reorder_moves_next_to_target:
  assumes "distinct (map po_id ops)" "m \<in> set ops" "g \<in> set ops" "po_id m \<noteq> po_id g"
    and "po_id m \<noteq> []" "po_id g \<noteq> []"
  shows "\<exists>us vs. remove1 m ops = us @ [g] @ vs \<and>
     reorderOperations ops (po_id m) (po_id g) BeforeTarget = us @ [m, g] @ vs \<and>
     reorderOperations ops (po_id m) (po_id g) AfterTarget = us @ [g, m] @ vs"
proof -
  obtain as bs where ops: "ops = as @ [m] @ bs" using assms(2) by (auto simp: in_set_conv_decomp)
  have m: "m \<notin> set as" using assms(1) by (auto simp: ops)
  have "g \<in> set (as @ bs)" using assms(3,4) by (auto simp: ops)
  then obtain us vs where uv: "as @ bs = us @ [g] @ vs" using split_list [of g "as @ bs"] by auto
  have src: "find_op (po_id m) ops = Some (length as)"
    using find_op_split [of as m bs] assms(1) ops by simp
  have "distinct (map po_id (us @ [g] @ vs))" unfolding uv [symmetric] using assms(1) by (simp add: ops)
  then have "find_op (po_id g) (as @ bs) = Some (length us)"
    unfolding uv by (rule find_op_split)
  moreover have "take (length as) ops @ drop (length as + 1) ops = as @ bs" "ops ! length as = m"
    by (simp_all add: ops)
  ultimately have "reorderOperations ops (po_id m) (po_id g) BeforeTarget = us @ [m, g] @ vs"
    "reorderOperations ops (po_id m) (po_id g) AfterTarget = us @ [g, m] @ vs"
    using assms(4-6) by (simp_all add: reorderOperations_def src Let_def uv)
  moreover have "remove1 m ops = us @ [g] @ vs" using m uv by (simp add: ops remove1_append)
  ultimately show ?thesis by blast
qed

definition demo_op :: "string \<Rightarrow> ParamOverrideOperation" where
  "demo_op i =
     \<lparr>po_id = js i, po_description = [], po_path = js ''temperature'', po_mode = js ''set'', po_from = [],
      po_to = [], po_value_text = js ''1'', po_keep_origin = False, po_logic = js ''OR'', po_conditions = []\<rparr>"

theorem reorder_moves_next_to_target_witness:
  "\<exists>us vs. reorderOperations [demo_op ''a'', demo_op ''b'', demo_op ''c''] (js ''a'') (js ''c'') BeforeTarget =
     us @ [demo_op ''a'', demo_op ''c''] @ vs"
  using reorder_moves_next_to_target [of "[demo_op ''a'', demo_op ''b'', demo_op ''c'']" "demo_op ''a''" "demo_op ''c''"]
  by (auto simp: demo_op_def)

subsection \<open>Structured values survive their text\<close>

lemma ascii_lower_words [simp]: "ascii_lower (js ''header'') = js ''header''" "ascii_lower (js ''json'') = js ''json''"
  by (simp_all add: ascii_lower_def js_lits)

text \<open>
  The two ends of a field synchronisation: a target built from a type and a key is read
  back as that type and the trimmed key, also when the key contains colons.
\<close>

theorem sync_target_roundtrip:
  assumes "trim key \<noteq> []"
  shows "parseSyncTargetSpec (buildSyncTargetSpec ty key) =
    (if ty = js ''header'' then js ''header'' else js ''json'', trim key)"
proof -
  let ?ty = "if ty = js ''header'' then js ''header'' else js ''json''"
  have ty: "58 \<notin> set ?ty" "\<forall>c\<in>set ?ty. \<not> is_ws c" "?ty \<noteq> []" "ascii_lower ?ty = ?ty"
    by (auto simp: js_lits is_ws_def ascii_lower_def)
  let ?s = "?ty @ [58] @ trim key"
  have "trimmed ?s"
    using ty trim_trimmed_nonempty [OF assms] assms by (auto simp: trimmed_def hd_append)
  then have raw: "trim ?s = ?s" by (rule trim_trimmed)
  have "find_sub [58] (u @ 58 # v) = Some (length u)" if "58 \<notin> set u" for u v :: jsstring
    using that by (induction u) auto
  then have "index_of ?s [58] 0 = Some (length ?ty)" using ty(1) by (simp add: index_of_def)
  moreover have "trim ?ty = ?ty" using ty(2) by (rule trim_no_ws)
  ultimately show ?thesis
    using assms ty(3,4) raw unfolding parseSyncTargetSpec_def buildSyncTargetSpec_def Let_def
    by (simp split del: if_split) auto
qed

theorem sync_target_roundtrip_witness:
  "parseSyncTargetSpec (buildSyncTargetSpec (js ''header'') (js '' X-A:b '')) = (js ''header'', js ''X-A:b'')"
proof -
  have "trim (js '' X-A:b '') = js ''X-A:b''" by code_simp
  then show ?thesis using sync_target_roundtrip [of "js '' X-A:b ''" "js ''header''"] by simp
qed

subsection \<open>What reading keeps, up to identifiers\<close>

definition strip_condition :: "ParamOverrideCondition \<Rightarrow> ParamOverrideCondition" where
  "strip_condition c = c\<lparr>pc_id := []\<rparr>"

definition strip_operation :: "ParamOverrideOperation \<Rightarrow> ParamOverrideOperation" where
  "strip_operation op = op\<lparr>po_id := [], po_conditions := map strip_condition (po_conditions op)\<rparr>"

definition condition_content :: "jsval \<Rightarrow> ParamOverrideCondition" where
  "condition_content v =
     \<lparr>pc_id = [], pc_path = str_prop v ''path'', pc_mode = mode_prop CONDITION_MODE_VALUES ''full'' v,
      pc_value_text = toValueText (js_prop v (js ''value'')), pc_invert = true_prop v ''invert'',
      pc_pass_missing_key = true_prop v ''pass_missing_key''\<rparr>"

lemma map_seed_content:
  assumes "\<And>s x. x \<in> set xs \<Longrightarrow> \<exists>y s'. f s x = Some (y, s') \<and> g y = h x"
  shows "\<exists>ys s'. map_seed f s xs = Some (ys, s') \<and> map g ys = map h xs"
  using assms
proof (induction xs arbitrary: s)
  case (Cons x xs)
  obtain y s1 where y: "f s x = Some (y, s1)" "g y = h x" using Cons.prems by (metis list.set_intros(1))
  obtain ys s2 where "map_seed f s1 xs = Some (ys, s2)" "map g ys = map h xs"
    using Cons.IH [of s1] Cons.prems by auto
  then show ?case using y by simp
qed simp

lemma condition_content_eq:
  "v \<noteq> JNull \<Longrightarrow> \<exists>c s'. normalizeOverrideCondition clock s v = Some (c, s') \<and> strip_condition c = condition_content v"
  by (simp add: normalizeOverrideCondition_def strip_condition_def condition_content_def)

lemma push_rules_content: "map strip_condition (fst (push_rules clock s vs)) = map condition_content vs"
  by (induction vs arbitrary: s)
    (simp_all add: normalizePruneRule_def strip_condition_def condition_content_def split_beta)

lemma push_rules_ids:
  "push_rules clock s vs = (rs, s') \<Longrightarrow> s \<le> s' \<and> map pc_id rs = map (local_id clock) [s..<s']"
proof (induction vs arbitrary: s rs)
  case (Cons v vs)
  obtain rs1 where rs: "push_rules clock (Suc s) vs = (rs1, s')" "map pc_id rs = local_id clock s # map pc_id rs1"
    using Cons.prems by (auto simp: normalizePruneRule_def split: prod.splits)
  then show ?case using Cons.IH [OF rs(1)] by (auto simp: upt_conv_Cons)
qed simp

subsection \<open>The return error editor\<close>

lemma json_rt_status: "http_code x \<Longrightarrow> json_rt (JNum (nullish x 0))"
proof (cases x)
  case (Some r)
  assume "http_code x"
  then have "r = of_int \<lfloor>r\<rfloor>" using Some by (simp add: http_code_def is_integer_def)
  then show ?thesis using Some decimal_of_int [of "\<lfloor>r\<rfloor>"] by simp
qed simp

lemma text_of_str [simp]: "text_of (Some (JStr s)) = trim s" "text_of None = []"
  by (simp_all add: text_of_def or_val_def truthy_opt_def truthy_def)

lemma http_code_400 [simp]: "http_code (Some 400)"
  by (simp add: http_code_def is_integer_def)

lemma valid_status_ok [simp]: "http_code (valid_status x)" "valid_status (valid_status x) = valid_status x"
  "Some (nullish (valid_status x) 0) = valid_status x"
  by (cases x; simp add: valid_status_def http_code_def is_integer_def)+

definition plain_keys :: "(jsstring \<times> jsval) list \<Rightarrow> bool" where
  "plain_keys ps \<longleftrightarrow> distinct (map fst ps) \<and> list_all (\<lambda>p. \<not> is_index_key (fst p)) ps"

lemma plain_keys_rt:
  "plain_keys ps \<Longrightarrow> list_all (\<lambda>(k, v). utf16 k \<and> json_rt v) ps \<Longrightarrow> json_rt (JObj ps)"
  using obj_of_plain [of ps] by (auto simp: plain_keys_def list_all_iff)

lemma word_not_index: "\<not> is_digit (of_char c) \<Longrightarrow> \<not> is_index_key (js (c # cs))"
  by (simp add: is_index_key_def all_digits_def js_lits)

text \<open>
  The editor of custom errors: a draft that was written to the text of an operation is
  read back with its texts trimmed and an invalid status replaced by 400; a simple message comes
  back as a simple message, provided it is not itself the text of a JSON object.
\<close>

theorem return_error_roundtrip:
  assumes "utf16 (re_message d)" "utf16 (re_code d)" "utf16 (re_type d)"
    and "\<And>ps. re_simpleMode d \<Longrightarrow> JSON_parse (trim (re_message d)) \<noteq> Some (JObj ps)"
  shows "parseReturnErrorDraft (buildReturnErrorValueText d) =
    (if re_simpleMode d then return_error_defaults\<lparr>re_message := trim (re_message d)\<rparr>
     else d\<lparr>re_message := trim (re_message d), re_statusCode := valid_status (re_statusCode d),
            re_code := trim (re_code d), re_type := trim (re_type d)\<rparr>)"
proof (cases "re_simpleMode d")
  case True
  then show ?thesis using assms(4)
    by (auto simp: parseReturnErrorDraft_def buildReturnErrorValueText_def Let_def return_error_defaults_def
        split: option.splits jsval.splits)
next
  case False
  define ps where "ps =
    [(js ''message'', JStr (trim (re_message d))),
     (js ''status_code'', JNum (nullish (valid_status (re_statusCode d)) 0))] @
    (if trim (re_code d) \<noteq> [] then [(js ''code'', JStr (trim (re_code d)))] else []) @
    (if trim (re_type d) \<noteq> [] then [(js ''type'', JStr (trim (re_type d)))] else []) @
    (if \<not> re_skipRetry d then [(js ''skip_retry'', JBool False)] else [])"
  have build: "buildReturnErrorValueText d = JSON_stringify (JObj ps)"
    using False by (simp add: buildReturnErrorValueText_def Let_def ps_def)
  have u: "utf16 (trim s)" if "utf16 s" for s using that set_trim_subset by (fastforce simp: utf16_def)
  have "plain_keys ps" by (auto simp: plain_keys_def ps_def word_not_index is_digit_def)
  then have rt: "json_rt (JObj ps)"
    using assms u json_rt_status [OF valid_status_ok(1)]
    by (intro plain_keys_rt) (auto simp: ps_def simp del: json_rt.simps(3))
  have raw: "trim (JSON_stringify (JObj ps)) = JSON_stringify (JObj ps)"
    using trimmed_stringify [OF rt] by (simp add: trim_trimmed is_string_def del: JSON_stringify.simps)
  have get: "obj_get ps (js ''message'') = Some (JStr (trim (re_message d)))"
    "obj_get ps (js ''msg'') = None"
    "obj_get ps (js ''status_code'') = Some (JNum (nullish (valid_status (re_statusCode d)) 0))"
    "text_of (obj_get ps (js ''code'')) = trim (re_code d)"
    "text_of (obj_get ps (js ''type'')) = trim (re_type d)"
    "obj_get ps (js ''skip_retry'') = (if re_skipRetry d then None else Some (JBool False))"
    by (auto simp: ps_def)
  have "JSON_stringify (JObj ps) \<noteq> []" by simp
  then show ?thesis
    using False unfolding parseReturnErrorDraft_def build raw Let_def
    by (simp add: JSON_parse_stringify [OF rt] get to_number_def truthy_opt_def truthy_def
        del: JSON_stringify.simps)
qed


definition refused_draft :: ReturnErrorDraft where
  "refused_draft =
     \<lparr>re_message = js '' refused '', re_statusCode = Some 700, re_code = [], re_type = js ''policy'',
      re_skipRetry = False, re_simpleMode = False\<rparr>"

theorem return_error_roundtrip_witness:
  "parseReturnErrorDraft (buildReturnErrorValueText refused_draft) =
     \<lparr>re_message = js ''refused'', re_statusCode = Some 400, re_code = [], re_type = js ''policy'',
      re_skipRetry = False, re_simpleMode = False\<rparr>"
proof -
  have "trim (js '' refused '') = js ''refused''" "trim (js ''policy'') = js ''policy''" by code_simp+
  moreover have "valid_status (Some 700) = Some 400" by (simp add: valid_status_def http_code_def)
  moreover have "utf16 []" by (simp add: utf16_def)
  ultimately show ?thesis
    using return_error_roundtrip [of refused_draft] by (simp add: refused_draft_def)
qed

subsection \<open>The prune editor\<close>

definition saved_rule :: "PruneRule \<Rightarrow> PruneRule" where
  "saved_rule r =
     \<lparr>pc_id = [], pc_path = trim (pc_path r),
      pc_mode = (if pc_mode r \<in> set CONDITION_MODE_VALUES then pc_mode r else js ''full''),
      pc_value_text = (if trim (pc_value_text r) = [] then []
                       else toValueText (Some (parseLooseValue (trim (pc_value_text r))))),
      pc_invert = pc_invert r, pc_pass_missing_key = pc_pass_missing_key r\<rparr>"

definition kept_rules :: "PruneObjectsDraft \<Rightarrow> PruneRule list" where
  "kept_rules d = filter (\<lambda>r. trim (pc_path r) \<noteq> []) (pd_rules d)"

definition printable_condition :: "ParamOverrideCondition \<Rightarrow> bool" where
  "printable_condition c \<longleftrightarrow> utf16 (pc_path c) \<and> utf16 (pc_mode c) \<and> json_rt (parseLooseValue (pc_value_text c))"

lemma parseLooseValue_trim [simp]: "parseLooseValue (trim s) = parseLooseValue s"
  by (simp add: parseLooseValue_def)

lemma utf16_trim: "utf16 s \<Longrightarrow> utf16 (trim s)"
  using set_trim_subset by (fastforce simp: utf16_def)

lemma full_mode [simp]: "js ''full'' \<in> set CONDITION_MODE_VALUES"
  by (simp add: CONDITION_MODE_VALUES_def CONDITION_MODE_OPTIONS_def)

lemma prune_condition_read: "condition_content (JObj (prune_condition r)) = saved_rule r"
  by (simp add: condition_content_def saved_rule_def prune_condition_def Let_def str_prop_def js_prop_def
      mode_prop_def true_prop_def toValueText_def)

lemma prune_condition_rt: "printable_condition r \<Longrightarrow> json_rt (JObj (prune_condition r))"
  by (rule plain_keys_rt)
    (auto simp: prune_condition_def Let_def plain_keys_def word_not_index is_digit_def
      printable_condition_def utf16_trim)

definition prune_or :: "PruneObjectsDraft \<Rightarrow> bool" where
  "prune_or d \<longleftrightarrow> ascii_upper (pd_logic d) = js ''OR''"

definition prune_object :: "PruneObjectsDraft \<Rightarrow> (jsstring \<times> jsval) list" where
  "prune_object d =
     (if trim (pd_typeText d) \<noteq> [] then [(js ''type'', JStr (trim (pd_typeText d)))] else []) @
     (if prune_or d then [(js ''logic'', str ''OR'')] else []) @
     (if \<not> pd_recursive d then [(js ''recursive'', JBool False)] else []) @
     (if kept_rules d \<noteq> [] then [(js ''conditions'', JArr (map (JObj \<circ> prune_condition) (kept_rules d)))] else [])"

lemma build_prune:
  assumes "\<not> pd_simpleMode d" "trim (pd_typeText d) \<noteq> [] \<or> kept_rules d \<noteq> []"
  shows "buildPruneObjectsValueText d = JSON_stringify (JObj (prune_object d))"
proof -
  have "ascii_upper (js ''AND'') \<noteq> js ''OR''" "ascii_upper [] \<noteq> js ''OR''" by (simp_all add: ascii_upper_def js_lits)
  then show ?thesis using assms
    by (auto simp: buildPruneObjectsValueText_def Let_def prune_object_def prune_or_def prune_conditions_def
        kept_rules_def)
qed

lemma prune_object_rt:
  assumes "utf16 (pd_typeText d)" "list_all printable_condition (kept_rules d)"
  shows "json_rt (JObj (prune_object d))"
proof (rule plain_keys_rt)
  show "plain_keys (prune_object d)"
    by (auto simp: prune_object_def plain_keys_def word_not_index is_digit_def)
  have "list_all json_rt (map (JObj \<circ> prune_condition) (kept_rules d))"
    using assms(2) prune_condition_rt by (auto simp: list_all_iff simp del: json_rt.simps)
  then show "list_all (\<lambda>(k, v). utf16 k \<and> json_rt v) (prune_object d)"
    using assms(1) by (auto simp: prune_object_def utf16_trim str_def)
qed

lemma prune_object_get:
  "obj_get (prune_object d) (js ''type'') =
     (if trim (pd_typeText d) = [] then None else Some (JStr (trim (pd_typeText d))))"
  "obj_get (prune_object d) (js ''logic'') = (if prune_or d then Some (str ''OR'') else None)"
  "obj_get (prune_object d) (js ''recursive'') = (if pd_recursive d then None else Some (JBool False))"
  "obj_get (prune_object d) (js ''where'') = None"
  "obj_get (prune_object d) (js ''conditions'') =
     (if kept_rules d = [] then None else Some (JArr (map (JObj \<circ> prune_condition) (kept_rules d))))"
  by (auto simp: prune_object_def)

lemma prune_object_rules: "map condition_content (rule_sources (prune_object d)) = map saved_rule (kept_rules d)"
proof -
  have all: "list_all (\<lambda>i. case i of JObj _ \<Rightarrow> True | JArr _ \<Rightarrow> True | _ \<Rightarrow> False)
      (map (JObj \<circ> prune_condition) rs)" for rs
    by (simp add: list_all_iff)
  have "rule_sources (prune_object d) = map (JObj \<circ> prune_condition) (kept_rules d)"
    using all [of "kept_rules d"] by (simp add: rule_sources_def prune_object_get list_all_iff)
  then show ?thesis by (simp add: prune_condition_read comp_def)
qed

text \<open>
  The prune editor: an advanced draft with a type or a condition is read back with the
  same type, logic, recursion and conditions (trimmed, those without a path dropped, under new
  identifiers); it is shown as advanced exactly when its logic is \<open>OR\<close>, it is not recursive or
  it has a condition.
\<close>

theorem prune_draft_roundtrip:
  assumes "\<not> pd_simpleMode d" "trim (pd_typeText d) \<noteq> [] \<or> kept_rules d \<noteq> []"
    and "utf16 (pd_typeText d)" "list_all printable_condition (kept_rules d)"
  shows "\<exists>f s'. parsePruneObjectsDraft clock s (buildPruneObjectsValueText d) = (f, s') \<and>
     pd_typeText f = trim (pd_typeText d) \<and>
     pd_logic f = (if ascii_upper (pd_logic d) = js ''OR'' then js ''OR'' else js ''AND'') \<and>
     pd_recursive f = pd_recursive d \<and>
     map strip_condition (pd_rules f) = map saved_rule (kept_rules d) \<and>
     pd_simpleMode f = (ascii_upper (pd_logic d) \<noteq> js ''OR'' \<and> pd_recursive d \<and> kept_rules d = [])"
proof -
  note rt = prune_object_rt [OF assms(3,4)]
  have raw: "trim (JSON_stringify (JObj (prune_object d))) = JSON_stringify (JObj (prune_object d))"
    using trimmed_stringify [OF rt] by (simp add: trim_trimmed is_string_def del: JSON_stringify.simps)
  obtain rules s' where rules: "push_rules clock s (rule_sources (prune_object d)) = (rules, s')" by fastforce
  have content: "map strip_condition rules = map saved_rule (kept_rules d)"
    using push_rules_content [of clock s "rule_sources (prune_object d)"] by (simp add: rules prune_object_rules)
  have or: "ascii_upper (js ''OR'') = js ''OR''" "ascii_upper (js ''AND'') \<noteq> js ''OR''"
    by (simp_all add: ascii_upper_def js_lits)
  have ne: "JSON_stringify (JObj (prune_object d)) \<noteq> []" by simp
  show ?thesis
    unfolding build_prune [OF assms(1,2)] parsePruneObjectsDraft_def raw Let_def
    using ne content or
    by (simp add: JSON_parse_stringify [OF rt] rules prune_object_get prune_or_def str_def or_val_def
        truthy_opt_def truthy_def del: JSON_stringify.simps)
qed

definition prune_demo :: PruneObjectsDraft where
  "prune_demo =
     \<lparr>pd_simpleMode = False, pd_typeText = js ''thinking'', pd_logic = js ''OR'', pd_recursive = True,
      pd_rules = [\<lparr>pc_id = js ''r'', pc_path = js ''size'', pc_mode = js ''gt'', pc_value_text = js ''3'',
                   pc_invert = False, pc_pass_missing_key = True\<rparr>]\<rparr>"

theorem prune_draft_roundtrip_witness:
  "\<exists>f s'. parsePruneObjectsDraft (\<lambda>n. 0) 5 (buildPruneObjectsValueText prune_demo) = (f, s') \<and>
     pd_logic f = js ''OR'' \<and> \<not> pd_simpleMode f \<and> length (pd_rules f) = 1"
proof -
  have kept: "kept_rules prune_demo = pd_rules prune_demo" "length (pd_rules prune_demo) = 1"
    "ascii_upper (pd_logic prune_demo) = js ''OR''" by code_simp+
  have "\<not> pd_simpleMode prune_demo" "trim (pd_typeText prune_demo) \<noteq> [] \<or> kept_rules prune_demo \<noteq> []"
    "utf16 (pd_typeText prune_demo)" "list_all printable_condition (kept_rules prune_demo)"
    by code_simp+
  from prune_draft_roundtrip [OF this, of "\<lambda>n. 0" 5] show ?thesis
    using kept by (metis length_map)
qed

subsection \<open>Saving and opening operations\<close>

definition kept_conditions :: "ParamOverrideOperation \<Rightarrow> ParamOverrideCondition list" where
  "kept_conditions op = filter (\<lambda>c. trim (pc_path c) \<noteq> []) (po_conditions op)"

definition saved_condition :: "ParamOverrideCondition \<Rightarrow> ParamOverrideCondition" where
  "saved_condition c =
     \<lparr>pc_id = [], pc_path = trim (pc_path c),
      pc_mode = (if pc_mode c \<in> set CONDITION_MODE_VALUES then pc_mode c else js ''full''),
      pc_value_text = toValueText (Some (parseLooseValue (pc_value_text c))),
      pc_invert = pc_invert c, pc_pass_missing_key = pc_pass_missing_key c\<rparr>"

text \<open>The source and the target of an operation; the two header operations that copy take the
  path for a missing one.\<close>

definition source_text :: "ParamOverrideOperation \<Rightarrow> jsstring" where
  "source_text op =
     (let m = meta_of (op_mode op); f = (if mm_from m then trim (po_from op) else [])
      in if mm_pathAlias m \<and> f = [] then trim (po_path op) else f)"

definition target_text :: "ParamOverrideOperation \<Rightarrow> jsstring" where
  "target_text op =
     (let m = meta_of (op_mode op)
      in if mm_pathAlias m \<and> trim (po_to op) = [] then trim (po_path op) else trim (po_to op))"

definition saved_operation :: "ParamOverrideOperation \<Rightarrow> ParamOverrideOperation" where
  "saved_operation op =
     (let m = meta_of (op_mode op) in
      \<lparr>po_id = [], po_description = trim (po_description op),
       po_path = (if mm_path m \<or> mm_pathOptional m then trim (po_path op) else []),
       po_mode = (if op_mode op \<in> set OPERATION_MODE_VALUES then op_mode op else js ''set''),
       po_from = source_text op, po_to = target_text op,
       po_value_text = (if mm_value m then toValueText (Some (parseLooseValue (po_value_text op))) else []),
       po_keep_origin = (mm_keepOrigin m \<and> po_keep_origin op),
       po_logic = (if kept_conditions op \<noteq> [] \<and> po_logic op = js ''AND'' then js ''AND'' else js ''OR''),
       po_conditions = map saved_condition (kept_conditions op)\<rparr>)"

definition condition_payloads :: "ParamOverrideOperation \<Rightarrow> jsval list" where
  "condition_payloads op = map JObj (List.map_filter buildConditionPayload (po_conditions op))"

lemma condition_payloads_Cons:
  "List.map_filter buildConditionPayload (c # cs) =
     (case buildConditionPayload c of None \<Rightarrow> [] | Some p \<Rightarrow> [p]) @ List.map_filter buildConditionPayload cs"
  by (simp add: map_filter_simps split: option.splits)

lemma condition_payload_read:
  "trim (pc_path c) \<noteq> [] \<Longrightarrow>
   \<exists>p. buildConditionPayload c = Some p \<and> condition_content (JObj p) = saved_condition c"
  by (simp add: buildConditionPayload_def Let_def condition_content_def saved_condition_def str_prop_def
      js_prop_def mode_prop_def true_prop_def)
     (auto simp: CONDITION_MODE_VALUES_def CONDITION_MODE_OPTIONS_def js_lits)

lemma condition_payloads_read: "map condition_content (condition_payloads op) = map saved_condition (kept_conditions op)"
proof -
  have "map (\<lambda>p. condition_content (JObj p)) (List.map_filter buildConditionPayload cs) =
      map saved_condition (filter (\<lambda>c. trim (pc_path c) \<noteq> []) cs)" for cs
  proof (induction cs)
    case (Cons c cs)
    have none: "trim (pc_path c) = [] \<Longrightarrow> buildConditionPayload c = None"
      by (simp add: buildConditionPayload_def)
    show ?case using Cons none condition_payload_read [of c]
      by (cases "trim (pc_path c) = []") (auto simp: condition_payloads_Cons)
  qed (simp add: map_filter_simps)
  then show ?thesis by (simp add: condition_payloads_def kept_conditions_def comp_def)
qed

lemma condition_payloads_empty [simp]: "condition_payloads op = [] \<longleftrightarrow> kept_conditions op = []"
  using condition_payloads_read [of op] by (metis map_is_Nil_conv)

lemma condition_payloads_rt:
  "list_all printable_condition (po_conditions op) \<Longrightarrow> list_all json_rt (condition_payloads op)"
proof -
  have "json_rt (JObj p)" if "printable_condition c" "buildConditionPayload c = Some p" for c p
    using that
    by (intro plain_keys_rt)
      (auto simp: buildConditionPayload_def Let_def plain_keys_def word_not_index is_digit_def
        printable_condition_def utf16_trim split: if_splits)
  then show "list_all printable_condition (po_conditions op) \<Longrightarrow> list_all json_rt (condition_payloads op)"
    by (auto simp: condition_payloads_def map_filter_set list_all_iff simp del: json_rt.simps)
qed

lemma put_if_get [simp]:
  "obj_get (put_if c k v ps) (js j) = (if c \<and> j = k then Some v else obj_get ps (js j))"
  by (simp add: put_if_def)

lemma put_if_rt [simp]:
  "json_rt (JObj ps) \<Longrightarrow> (c \<Longrightarrow> json_rt v) \<Longrightarrow> json_rt (JObj (put_if c k v ps))"
  by (simp add: put_if_def del: json_rt.simps)

lemma truthy_str [simp]: "truthy_opt (Some (JStr s)) \<longleftrightarrow> s \<noteq> []" "\<not> truthy_opt None"
  by (simp_all add: truthy_opt_def truthy_def)

lemma operation_payload_get:
  assumes "m = meta_of (op_mode op)"
  shows "obj_get (operation_payload op) (js ''mode'') = Some (JStr (op_mode op))"
    "obj_get (operation_payload op) (js ''description'') =
       (if trim (po_description op) = [] then None else Some (JStr (trim (po_description op))))"
    "obj_get (operation_payload op) (js ''path'') =
       (if mm_path m \<or> mm_pathOptional m \<and> trim (po_path op) \<noteq> [] then Some (JStr (trim (po_path op))) else None)"
    "obj_get (operation_payload op) (js ''value'') =
       (if mm_value m then Some (parseLooseValue (po_value_text op)) else None)"
    "obj_get (operation_payload op) (js ''keep_origin'') =
       (if mm_keepOrigin m \<and> po_keep_origin op then Some (JBool True) else None)"
    "obj_get (operation_payload op) (js ''from'') =
       (if mm_from m \<or> source_text op \<noteq> [] then Some (JStr (source_text op)) else None)"
    "obj_get (operation_payload op) (js ''to'') =
       (if mm_to m \<or> target_text op \<noteq> [] then Some (JStr (target_text op)) else None)"
    "obj_get (operation_payload op) (js ''conditions'') =
       (if kept_conditions op = [] then None else Some (JArr (condition_payloads op)))"
    "obj_get (operation_payload op) (js ''logic'') =
       (if kept_conditions op = [] then None
        else Some (JStr (if po_logic op = js ''AND'' then js ''AND'' else js ''OR'')))"
  using condition_payloads_empty [of op]
  by (simp_all add: operation_payload_def Let_def assms source_text_def target_text_def
      condition_payloads_def [symmetric] del: condition_payloads_empty)

definition printable_operation :: "ParamOverrideOperation \<Rightarrow> bool" where
  "printable_operation op \<longleftrightarrow>
     list_all utf16 [po_description op, po_path op, po_mode op, po_from op, po_to op] \<and>
     json_rt (parseLooseValue (po_value_text op)) \<and> list_all printable_condition (po_conditions op)"

lemma operation_payload_rt: "printable_operation op \<Longrightarrow> json_rt (JObj (operation_payload op))"
proof -
  assume p: "printable_operation op"
  have "json_rt (JObj [(js ''mode'', JStr (op_mode op))])"
    using p by (intro plain_keys_rt)
      (auto simp: plain_keys_def word_not_index is_digit_def printable_operation_def op_mode_def)
  then show ?thesis
    using p condition_payloads_rt [of op]
    unfolding operation_payload_def Let_def condition_payloads_def [symmetric] printable_operation_def
    by (intro put_if_rt) (simp_all add: utf16_trim)
qed

lemma upper_words: "ascii_upper (js ''AND'') = js ''AND''" "ascii_upper (js ''OR'') = js ''OR''"
  by (simp_all add: ascii_upper_def js_lits)

lemma operation_read:
  "\<exists>y s'. normalizeOperation clock s (JObj (operation_payload op)) = Some (y, s') \<and>
     strip_operation y = saved_operation op"
proof -
  let ?v = "JObj (operation_payload op)"
  let ?cs = "if kept_conditions op = [] then Some ([], Suc s)
    else map_seed (normalizeOverrideCondition clock) (Suc s) (condition_payloads op)"
  obtain ys s' where cs: "?cs = Some (ys, s')" "map strip_condition ys = map saved_condition (kept_conditions op)"
  proof (cases "kept_conditions op = []")
    case False
    have "\<exists>c s'. normalizeOverrideCondition clock t v = Some (c, s') \<and> strip_condition c = condition_content v"
      if "v \<in> set (condition_payloads op)" for t v
      using that by (intro condition_content_eq) (auto simp: condition_payloads_def)
    then obtain ys s' where "map_seed (normalizeOverrideCondition clock) (Suc s) (condition_payloads op) = Some (ys, s')"
      "map strip_condition ys = map condition_content (condition_payloads op)"
      using map_seed_content [of "condition_payloads op" "normalizeOverrideCondition clock" strip_condition
          condition_content "Suc s"] by blast
    with that False show ?thesis by (simp add: condition_payloads_read)
  qed (use that in auto)
  note get = operation_payload_get [OF refl, of op]
  have logic: "logic_of ?v = po_logic (saved_operation op)"
    by (simp add: logic_of_def js_prop_def get saved_operation_def Let_def or_val_def upper_words)
  have conds: "(case js_prop ?v (js ''conditions'') of
      Some (JArr cs) \<Rightarrow> map_seed (normalizeOverrideCondition clock) (Suc s) cs
    | _ \<Rightarrow> Some ([], Suc s)) = Some (ys, s')"
    using cs(1) by (auto simp: js_prop_def get split: if_splits)
  show ?thesis
    unfolding normalizeOperation_def
    by (simp add: conds logic)
      (simp add: strip_operation_def saved_operation_def Let_def cs(2) str_prop_def mode_prop_def
        true_prop_def js_prop_def get toValueText_def)
qed

lemma map_seed_map: "map_seed f s (map p xs) = map_seed (\<lambda>s x. f s (p x)) s xs"
  by (induction xs arbitrary: s) (auto split: option.splits)

lemma printed_operations:
  assumes "buildOperationsJson ops validate t = Inr s" "filter (\<lambda>op. \<not> isOperationBlank op) ops \<noteq> []"
    and "list_all printable_operation ops"
  obtains v vs ys n where "trim s = s" "s \<noteq> []" "JSON_parse s = Some v" "JSON_pretty [] v = s"
    "operations_of v = Some vs" "read_operations clock seed vs = Some (ys, n)"
    "map strip_operation ys = map saved_operation (filter (\<lambda>op. \<not> isOperationBlank op) ops)"
proof -
  define kept where "kept = filter (\<lambda>op. \<not> isOperationBlank op) ops"
  define vs where "vs = map (JObj \<circ> operation_payload) kept"
  define v where "v = JObj [(js ''operations'', JArr vs)]"
  have s: "s = JSON_pretty [] v"
    using assms(1,2) by (auto simp: buildOperationsJson_def Let_def v_def vs_def kept_def split: if_splits)
  have "list_all json_rt vs"
    using assms(3) operation_payload_rt by (auto simp: vs_def kept_def list_all_iff simp del: json_rt.simps)
  then have rt: "json_rt v"
    unfolding v_def by (intro plain_keys_rt) (auto simp: plain_keys_def word_not_index is_digit_def)
  have "trimmed s" "s \<noteq> []" by (auto simp: s v_def trimmed_def is_ws_def)
  have "map_seed (normalizeOperation clock) seed vs =
      map_seed (\<lambda>n op. normalizeOperation clock n (JObj (operation_payload op))) seed kept"
    by (simp add: vs_def map_seed_map)
  then obtain ys n where ys: "map_seed (normalizeOperation clock) seed vs = Some (ys, n)"
    "map strip_operation ys = map saved_operation kept"
    using map_seed_content [of kept "\<lambda>n op. normalizeOperation clock n (JObj (operation_payload op))"
        strip_operation saved_operation seed] operation_read by auto
  moreover have "operations_of v = Some vs" "0 < length vs"
    using assms(2) by (simp_all add: v_def operations_of_def vs_def kept_def)
  ultimately show thesis
    using that [of v vs ys n] \<open>trimmed s\<close> \<open>s \<noteq> []\<close> JSON_parse_pretty [OF rt]
    by (simp add: s [symmetric] read_operations_def kept_def trim_trimmed)
qed

text \<open>
  Claim C6.  Saving operations and opening the override again: the saved text is valid JSON, opens
  in the visual editor, and shows, in order and under fresh distinct identifiers, every operation
  that was not blank, with its texts trimmed, the fields its mode does not use cleared, the
  conditions without a path dropped, and its values as printed.
\<close>

theorem saved_operations_reopen:
  assumes "buildOperationsJson ops validate t = Inr s" "filter (\<lambda>op. \<not> isOperationBlank op) ops \<noteq> []"
    and "list_all printable_operation ops"
  shows "\<exists>st n. parseInitialState clock seed s = Some (st, n) \<and> es_editMode st = VisualEdit \<and>
     es_visualMode st = OperationsMode \<and> es_jsonText st = s \<and> es_jsonError st = [] \<and>
     map strip_operation (es_operations st) =
       map saved_operation (filter (\<lambda>op. \<not> isOperationBlank op) ops) \<and>
     distinct (concat (map op_ids (es_operations st)))"
proof -
  obtain v vs ys n where read: "trim s = s" "s \<noteq> []" "JSON_parse s = Some v" "JSON_pretty [] v = s"
    "operations_of v = Some vs" "read_operations clock seed vs = Some (ys, n)"
    "map strip_operation ys = map saved_operation (filter (\<lambda>op. \<not> isOperationBlank op) ops)"
    using printed_operations [OF assms] by blast
  have "distinct (concat (map op_ids ys))"
    using read_operations_ids [OF read(6)] by (simp add: distinct_map inj_on_def)
  then show ?thesis
    using read by (simp add: parseInitialState_def Let_def default_operation)
qed

definition header_op :: ParamOverrideOperation where
  "header_op =
     \<lparr>po_id = js ''x'', po_description = js '' copy '', po_path = js ''X-Id'', po_mode = js ''copy_header'',
      po_from = [], po_to = js ''X-Up'', po_value_text = js ''7'', po_keep_origin = True, po_logic = js ''AND'',
      po_conditions = [\<lparr>pc_id = js ''c'', pc_path = js ''model'', pc_mode = js ''prefix'', pc_value_text = js ''gpt'',
        pc_invert = True, pc_pass_missing_key = False\<rparr>]\<rparr>"

theorem saved_operations_reopen_witness:
  "\<exists>s st n. buildOperationsJson [header_op] True (\<lambda>m l. m) = Inr s \<and>
     parseInitialState (\<lambda>n. 9) 4 s = Some (st, n) \<and>
     map po_from (es_operations st) = [js ''X-Id''] \<and> map po_value_text (es_operations st) = [[]]"
proof -
  have ok: "isOperationBlank header_op = False" "validateOperations [header_op] (\<lambda>m l. m) = []"
    "list_all printable_operation [header_op]" by code_simp+
  have saved: "po_from (saved_operation header_op) = js ''X-Id''" "po_value_text (saved_operation header_op) = []"
    by code_simp+
  obtain s where s: "buildOperationsJson [header_op] True (\<lambda>m l. m) = Inr s"
    using ok by (simp add: buildOperationsJson_def)
  obtain st n where st: "parseInitialState (\<lambda>n. 9) 4 s = Some (st, n)"
    "map strip_operation (es_operations st) = [saved_operation header_op]"
    using saved_operations_reopen [OF s, of "\<lambda>n. 9" 4] ok by auto
  have "map po_from (es_operations st) = map po_from (map strip_operation (es_operations st))"
    "map po_value_text (es_operations st) = map po_value_text (map strip_operation (es_operations st))"
    by (simp_all add: strip_operation_def)
  then show ?thesis using s st(1) unfolding st(2) by (auto simp: saved)
qed

subsection \<open>Validation\<close>

lemma validate_from_ok:
  assumes "\<And>m l. t m l \<noteq> []"
  shows "validate_from t i ops = [] \<longleftrightarrow> (\<forall>k<length ops. operation_error t (i + k + 1) (ops ! k) = None)"
proof (induction ops arbitrary: i)
  case (Cons op ops)
  have ne: "operation_error t l op \<noteq> Some []" for l
    using assms by (auto simp: operation_error_def Let_def split: option.splits jsval.splits if_splits)
  have "(\<forall>k<length (op # ops). P k) \<longleftrightarrow> P 0 \<and> (\<forall>k<length ops. P (Suc k))" for P
    by (auto simp: less_Suc_eq_0_disj)
  then show ?case using Cons ne [of "Suc i"] by (auto split: option.splits)
qed simp

lemma mode_tables:
  "list_all (\<lambda>m. mm_from (meta_of m)) FROM_REQUIRED_MODES"
  "list_all (\<lambda>m. mm_to (meta_of m)) TO_REQUIRED_MODES"
  "list_all (\<lambda>m. mm_value (meta_of m)) VALUE_REQUIRED_MODES"
  by code_simp+

lemma required_modes:
  "m \<in> set FROM_REQUIRED_MODES \<Longrightarrow> mm_from (meta_of m)"
  "m \<in> set TO_REQUIRED_MODES \<Longrightarrow> mm_to (meta_of m)"
  "m \<in> set VALUE_REQUIRED_MODES \<Longrightarrow> mm_value (meta_of m)"
  using mode_tables by (auto simp: list_all_iff)

lemma operation_error_None:
  assumes "operation_error t l op = None" "m = op_mode op"
  shows "mm_path (meta_of m) \<longrightarrow> trim (po_path op) \<noteq> []"
    "m \<in> set FROM_REQUIRED_MODES \<longrightarrow> source_text op \<noteq> []"
    "m \<in> set TO_REQUIRED_MODES \<longrightarrow> target_text op \<noteq> []"
    "m \<in> set VALUE_REQUIRED_MODES \<longrightarrow> trim (po_value_text op) \<noteq> []"
    "m = js ''pass_headers'' \<longrightarrow> parsePassHeaderNames (parseLooseValue (po_value_text op)) \<noteq> []"
    "m = js ''return_error'' \<longrightarrow> (\<forall>ps. parseLooseValue (po_value_text op) = JObj ps \<longrightarrow>
       text_of (obj_get ps (js ''message'')) \<noteq> [])"
proof -
  note e = assms(1) [unfolded operation_error_def Let_def assms(2) [symmetric]]
  show "mm_path (meta_of m) \<longrightarrow> trim (po_path op) \<noteq> []" using e by (auto split: if_splits)
  show "m \<in> set FROM_REQUIRED_MODES \<longrightarrow> source_text op \<noteq> []"
    using e required_modes(1) [of m] by (auto simp: source_text_def Let_def assms(2) [symmetric] split: if_splits)
  show "m \<in> set TO_REQUIRED_MODES \<longrightarrow> target_text op \<noteq> []"
    using e required_modes(2) [of m] by (auto simp: target_text_def Let_def assms(2) [symmetric] split: if_splits)
  show "m \<in> set VALUE_REQUIRED_MODES \<longrightarrow> trim (po_value_text op) \<noteq> []"
    using e by (auto split: if_splits)
  show "m = js ''pass_headers'' \<longrightarrow> parsePassHeaderNames (parseLooseValue (po_value_text op)) \<noteq> []"
    using e by (auto split: if_splits)
  show "m = js ''return_error'' \<longrightarrow> (\<forall>ps. parseLooseValue (po_value_text op) = JObj ps \<longrightarrow>
       text_of (obj_get ps (js ''message'')) \<noteq> [])"
    using e by (auto simp: parseLooseValue_def Let_def split: if_splits option.splits)
qed



end
