(* ===== verification/OverrideEditor.thy ===== *)
theory OverrideEditor
  imports OverrideText Machine
begin

section \<open>The parameter override dialog\<close>

text \<open>
  Models the component \<open>ParamOverrideEditorDialog\<close> of
  \<^verbatim>\<open>web/default/src/features/channels/components/dialogs/param-override-editor-dialog.tsx\<close> as a state
  machine: the state variables of the component with the counter of local identifiers, and one
  function per handler and effect.  \<open>ed_saved\<close> lists the values passed to \<open>onSave\<close> and
  \<open>ed_toasts\<close> the error messages shown.

  A handler that throws is \<open>None\<close>: the state stays, but identifiers may have been used up.
  A state updater that runs late leaves the selection alone when an operation is duplicated, which
  is the flag of that event.  Drawing the prune editor reads its draft and uses identifiers too.
\<close>

subsection \<open>State and derived values\<close>

record editor =
  ed_seed :: nat
  ed_open :: bool
  ed_editMode :: edit_mode
  ed_visualMode :: visual_mode
  ed_legacyValue :: jsstring
  ed_operations :: "ParamOverrideOperation list"
  ed_jsonText :: jsstring
  ed_jsonError :: jsstring
  ed_search :: jsstring
  ed_selected :: jsstring
  ed_expanded :: "(jsstring \<times> bool) list"
  ed_dragged :: jsstring
  ed_dragOver :: jsstring
  ed_dragPosition :: drop_position
  ed_preset :: jsstring
  ed_saved :: "jsstring list"
  ed_toasts :: "jsstring list"

definition editor_start :: "(nat \<Rightarrow> nat) \<Rightarrow> nat \<Rightarrow> editor" where
  "editor_start clock seed =
     (let (op, seed') = createDefaultOperation clock seed in
      \<lparr>ed_seed = seed', ed_open = False, ed_editMode = VisualEdit, ed_visualMode = OperationsMode,
       ed_legacyValue = [], ed_operations = [op], ed_jsonText = [], ed_jsonError = [], ed_search = [],
       ed_selected = [], ed_expanded = [], ed_dragged = [], ed_dragOver = [],
       ed_dragPosition = BeforeTarget, ed_preset = js ''operations_default'', ed_saved = [],
       ed_toasts = []\<rparr>)"

definition first_id :: "ParamOverrideOperation list \<Rightarrow> jsstring" where
  "first_id ops = (case ops of [] \<Rightarrow> [] | op # _ \<Rightarrow> po_id op)"

definition openDialog :: "(nat \<Rightarrow> nat) \<Rightarrow> jsstring \<Rightarrow> editor \<Rightarrow> editor option" where
  "openDialog clock value ed =
     (case parseInitialState clock (ed_seed ed) value of
        None \<Rightarrow> None
      | Some (st, seed') \<Rightarrow> Some (ed
          \<lparr>ed_seed := seed', ed_open := True, ed_editMode := es_editMode st,
           ed_visualMode := es_visualMode st, ed_legacyValue := es_legacyValue st,
           ed_operations := es_operations st, ed_jsonText := es_jsonText st,
           ed_jsonError := es_jsonError st, ed_search := [],
           ed_selected := first_id (es_operations st), ed_expanded := [], ed_dragged := [],
           ed_dragOver := [], ed_dragPosition := BeforeTarget,
           ed_preset := (if es_visualMode st = LegacyMode then js ''legacy_default''
                         else js ''operations_default'')\<rparr>))"

definition keepSelection :: "editor \<Rightarrow> editor" where
  "keepSelection ed =
     (if length (ed_operations ed) = 0 then ed\<lparr>ed_selected := []\<rparr>
      else if \<not> list_ex (\<lambda>op. po_id op = ed_selected ed) (ed_operations ed)
      then ed\<lparr>ed_selected := first_id (ed_operations ed)\<rparr>
      else ed)"

definition templatePresetOptions :: "(jsstring \<times> jsstring) list" where
  "templatePresetOptions = map (\<lambda>(k, c). (k, tp_label c)) TEMPLATE_PRESET_CONFIG"

definition operationCount :: "editor \<Rightarrow> nat" where
  "operationCount ed = length (filter (\<lambda>op. \<not> isOperationBlank op) (ed_operations ed))"

definition filteredOperations :: "(jsstring \<Rightarrow> jsstring) \<Rightarrow> editor \<Rightarrow> ParamOverrideOperation list" where
  "filteredOperations toLowerCase ed =
     (let keyword = toLowerCase (trim (ed_search ed)) in
      if keyword = [] then ed_operations ed
      else filter (\<lambda>op. str_includes
             (toLowerCase (join [32] (truthy_strs [po_description op, po_mode op, po_path op, po_from op,
                po_to op, po_value_text op]))) keyword) (ed_operations ed))"

definition selectedOperation :: "editor \<Rightarrow> ParamOverrideOperation option" where
  "selectedOperation ed = List.find (\<lambda>op. po_id op = ed_selected ed) (ed_operations ed)"

definition selectedOperationIndex :: "editor \<Rightarrow> int" where
  "selectedOperationIndex ed =
     (case find_op (ed_selected ed) (ed_operations ed) of None \<Rightarrow> -1 | Some k \<Rightarrow> int k)"

definition returnErrorDraft :: "editor \<Rightarrow> ReturnErrorDraft option" where
  "returnErrorDraft ed =
     (case selectedOperation ed of
        None \<Rightarrow> None
      | Some op \<Rightarrow> if po_mode op \<noteq> js ''return_error'' then None
                   else Some (parseReturnErrorDraft (po_value_text op)))"

definition pruneObjectsDraft :: "(nat \<Rightarrow> nat) \<Rightarrow> editor \<Rightarrow> PruneObjectsDraft option \<times> editor" where
  "pruneObjectsDraft clock ed =
     (case selectedOperation ed of
        None \<Rightarrow> (None, ed)
      | Some op \<Rightarrow>
          if po_mode op \<noteq> js ''prune_objects'' then (None, ed)
          else let (draft, seed') = parsePruneObjectsDraft clock (ed_seed ed) (po_value_text op)
               in (Some draft, ed\<lparr>ed_seed := seed'\<rparr>))"

definition topOperationModes :: "editor \<Rightarrow> (jsstring \<times> nat) list" where
  "topOperationModes ed =
     (let counts = foldl (\<lambda>acc op. obj_put (op_mode op) (nullish (obj_get acc (op_mode op)) 0 + 1) acc) []
            (ed_operations ed)
      in take 4 (js_sort (\<lambda>a b. int (snd b) - int (snd a)) counts))"

subsection \<open>Operations and conditions\<close>

datatype op_patch =
    PatchDescription jsstring | PatchPath jsstring | PatchMode jsstring | PatchFrom jsstring
  | PatchTo jsstring | PatchValueText jsstring | PatchKeepOrigin bool | PatchLogic jsstring

fun patch_operation :: "op_patch \<Rightarrow> ParamOverrideOperation \<Rightarrow> ParamOverrideOperation" where
  "patch_operation (PatchDescription x) op = op\<lparr>po_description := x\<rparr>"
| "patch_operation (PatchPath x) op = op\<lparr>po_path := x\<rparr>"
| "patch_operation (PatchMode x) op = op\<lparr>po_mode := x\<rparr>"
| "patch_operation (PatchFrom x) op = op\<lparr>po_from := x\<rparr>"
| "patch_operation (PatchTo x) op = op\<lparr>po_to := x\<rparr>"
| "patch_operation (PatchValueText x) op = op\<lparr>po_value_text := x\<rparr>"
| "patch_operation (PatchKeepOrigin b) op = op\<lparr>po_keep_origin := b\<rparr>"
| "patch_operation (PatchLogic x) op = op\<lparr>po_logic := x\<rparr>"

datatype condition_patch =
    CondPath jsstring | CondMode jsstring | CondValueText jsstring | CondInvert bool | CondPassMissing bool

fun patch_condition :: "condition_patch \<Rightarrow> ParamOverrideCondition \<Rightarrow> ParamOverrideCondition" where
  "patch_condition (CondPath x) c = c\<lparr>pc_path := x\<rparr>"
| "patch_condition (CondMode x) c = c\<lparr>pc_mode := x\<rparr>"
| "patch_condition (CondValueText x) c = c\<lparr>pc_value_text := x\<rparr>"
| "patch_condition (CondInvert b) c = c\<lparr>pc_invert := b\<rparr>"
| "patch_condition (CondPassMissing b) c = c\<lparr>pc_pass_missing_key := b\<rparr>"

definition on_op :: "jsstring \<Rightarrow> (ParamOverrideOperation \<Rightarrow> ParamOverrideOperation) \<Rightarrow>
    ParamOverrideOperation list \<Rightarrow> ParamOverrideOperation list" where
  "on_op i f ops = map (\<lambda>op. if po_id op = i then f op else op) ops"

definition updateOperation :: "jsstring \<Rightarrow> op_patch \<Rightarrow> editor \<Rightarrow> editor" where
  "updateOperation i patch ed = ed\<lparr>ed_operations := on_op i (patch_operation patch) (ed_operations ed)\<rparr>"

definition addOperation :: "(nat \<Rightarrow> nat) \<Rightarrow> editor \<Rightarrow> editor" where
  "addOperation clock ed =
     (let (created, seed') = createDefaultOperation clock (ed_seed ed) in
      ed\<lparr>ed_seed := seed', ed_operations := ed_operations ed @ [created], ed_selected := po_id created\<rparr>)"

definition clone_source :: "ParamOverrideOperation \<Rightarrow> jsval" where
  "clone_source source =
     obj [(''description'', JStr (po_description source)), (''path'', JStr (po_path source)),
          (''mode'', JStr (po_mode source)), (''value'', parseLooseValue (po_value_text source)),
          (''keep_origin'', JBool (po_keep_origin source)), (''from'', JStr (po_from source)),
          (''to'', JStr (po_to source)), (''logic'', JStr (po_logic source)),
          (''conditions'', JArr (map (\<lambda>c.
             obj [(''path'', JStr (pc_path c)), (''mode'', JStr (pc_mode c)),
                  (''value'', parseLooseValue (pc_value_text c)), (''invert'', JBool (pc_invert c)),
                  (''pass_missing_key'', JBool (pc_pass_missing_key c))]) (po_conditions source)))]"

definition duplicateOperation :: "(nat \<Rightarrow> nat) \<Rightarrow> jsstring \<Rightarrow> bool \<Rightarrow> editor \<Rightarrow> editor option" where
  "duplicateOperation clock i eager ed =
     (case find_op i (ed_operations ed) of
        None \<Rightarrow> Some ed
      | Some idx \<Rightarrow>
          (case normalizeOperation clock (ed_seed ed) (clone_source (ed_operations ed ! idx)) of
             None \<Rightarrow> None
           | Some (cloned, seed') \<Rightarrow> Some (ed
               \<lparr>ed_seed := seed',
                ed_operations := take (idx + 1) (ed_operations ed) @ [cloned] @ drop (idx + 1) (ed_operations ed),
                ed_selected := (if eager then po_id cloned else ed_selected ed)\<rparr>)))"

definition removeOperation :: "(nat \<Rightarrow> nat) \<Rightarrow> jsstring \<Rightarrow> editor \<Rightarrow> editor" where
  "removeOperation clock i ed =
     (if length (ed_operations ed) \<le> 1
      then let (created, seed') = createDefaultOperation clock (ed_seed ed)
           in ed\<lparr>ed_seed := seed', ed_operations := [created]\<rparr>
      else ed\<lparr>ed_operations := filter (\<lambda>op. po_id op \<noteq> i) (ed_operations ed)\<rparr>)"

definition addCondition :: "(nat \<Rightarrow> nat) \<Rightarrow> jsstring \<Rightarrow> editor \<Rightarrow> editor" where
  "addCondition clock i ed =
     (let (created, seed') = createDefaultCondition clock (ed_seed ed) in
      ed\<lparr>ed_seed := seed',
         ed_operations := on_op i (\<lambda>op. op\<lparr>po_conditions := po_conditions op @ [created]\<rparr>) (ed_operations ed),
         ed_expanded := obj_put (pc_id created) True (ed_expanded ed)\<rparr>)"

definition updateCondition :: "jsstring \<Rightarrow> jsstring \<Rightarrow> condition_patch \<Rightarrow> editor \<Rightarrow> editor" where
  "updateCondition i c patch ed =
     ed\<lparr>ed_operations := on_op i (\<lambda>op. op\<lparr>po_conditions :=
          map (\<lambda>x. if pc_id x = c then patch_condition patch x else x) (po_conditions op)\<rparr>) (ed_operations ed)\<rparr>"

definition removeCondition :: "jsstring \<Rightarrow> jsstring \<Rightarrow> editor \<Rightarrow> editor" where
  "removeCondition i c ed =
     ed\<lparr>ed_operations := on_op i (\<lambda>op. op\<lparr>po_conditions :=
          filter (\<lambda>x. pc_id x \<noteq> c) (po_conditions op)\<rparr>) (ed_operations ed)\<rparr>"

subsection \<open>Drafts\<close>

definition updateReturnErrorDraft :: "jsstring \<Rightarrow> (ReturnErrorDraft \<Rightarrow> ReturnErrorDraft) \<Rightarrow> editor \<Rightarrow> editor" where
  "updateReturnErrorDraft i patch ed =
     ed\<lparr>ed_operations := on_op i (\<lambda>op. op\<lparr>po_value_text :=
          buildReturnErrorValueText (patch (parseReturnErrorDraft (po_value_text op)))\<rparr>) (ed_operations ed)\<rparr>"

text \<open>An updater of the prune draft may use identifiers itself.\<close>

type_synonym prune_updater = "nat \<Rightarrow> PruneObjectsDraft \<Rightarrow> PruneObjectsDraft \<times> nat"

fun prune_ops :: "(nat \<Rightarrow> nat) \<Rightarrow> jsstring \<Rightarrow> prune_updater \<Rightarrow> nat \<Rightarrow> ParamOverrideOperation list \<Rightarrow>
    ParamOverrideOperation list \<times> nat" where
  "prune_ops clock i upd seed [] = ([], seed)"
| "prune_ops clock i upd seed (op # ops) =
     (if po_id op \<noteq> i then apfst (Cons op) (prune_ops clock i upd seed ops)
      else let (draft, seed1) = parsePruneObjectsDraft clock seed (po_value_text op);
               (nextDraft, seed2) = upd seed1 draft
           in apfst (Cons (op\<lparr>po_value_text := buildPruneObjectsValueText nextDraft\<rparr>))
                (prune_ops clock i upd seed2 ops))"

definition updatePruneObjectsDraft :: "(nat \<Rightarrow> nat) \<Rightarrow> jsstring \<Rightarrow> prune_updater \<Rightarrow> editor \<Rightarrow> editor" where
  "updatePruneObjectsDraft clock i upd ed =
     (let (ops, seed') = prune_ops clock i upd (ed_seed ed) (ed_operations ed)
      in ed\<lparr>ed_seed := seed', ed_operations := ops\<rparr>)"

definition patch_draft :: "(PruneObjectsDraft \<Rightarrow> PruneObjectsDraft) \<Rightarrow> prune_updater" where
  "patch_draft f seed draft = (f draft, seed)"

definition add_rule :: "(nat \<Rightarrow> nat) \<Rightarrow> prune_updater" where
  "add_rule clock seed draft =
     (let (r, seed') = normalizePruneRule clock seed (JObj [])
      in (draft\<lparr>pd_simpleMode := False, pd_rules := pd_rules draft @ [r]\<rparr>, seed'))"

definition update_rule :: "jsstring \<Rightarrow> condition_patch \<Rightarrow> PruneObjectsDraft \<Rightarrow> PruneObjectsDraft" where
  "update_rule ruleId patch draft =
     draft\<lparr>pd_rules := map (\<lambda>r. if pc_id r = ruleId then patch_condition patch r else r) (pd_rules draft)\<rparr>"

definition remove_rule :: "jsstring \<Rightarrow> PruneObjectsDraft \<Rightarrow> PruneObjectsDraft" where
  "remove_rule ruleId draft = draft\<lparr>pd_rules := filter (\<lambda>r. pc_id r \<noteq> ruleId) (pd_rules draft)\<rparr>"

definition addPruneRule :: "(nat \<Rightarrow> nat) \<Rightarrow> jsstring \<Rightarrow> editor \<Rightarrow> editor" where
  "addPruneRule clock i = updatePruneObjectsDraft clock i (add_rule clock)"

definition updatePruneRule :: "(nat \<Rightarrow> nat) \<Rightarrow> jsstring \<Rightarrow> jsstring \<Rightarrow> condition_patch \<Rightarrow> editor \<Rightarrow> editor" where
  "updatePruneRule clock i ruleId patch = updatePruneObjectsDraft clock i (patch_draft (update_rule ruleId patch))"

definition removePruneRule :: "(nat \<Rightarrow> nat) \<Rightarrow> jsstring \<Rightarrow> jsstring \<Rightarrow> editor \<Rightarrow> editor" where
  "removePruneRule clock i ruleId = updatePruneObjectsDraft clock i (patch_draft (remove_rule ruleId))"

subsection \<open>Dragging\<close>

definition resetDragState :: "editor \<Rightarrow> editor" where
  "resetDragState ed = ed\<lparr>ed_dragged := [], ed_dragOver := [], ed_dragPosition := BeforeTarget\<rparr>"

definition handleDragStart :: "jsstring \<Rightarrow> editor \<Rightarrow> editor" where
  "handleDragStart i ed = ed\<lparr>ed_dragged := i, ed_selected := i\<rparr>"

definition handleDragOver :: "jsstring \<Rightarrow> rat \<Rightarrow> rat \<Rightarrow> rat \<Rightarrow> editor \<Rightarrow> editor" where
  "handleDragOver i clientY rectTop rectHeight ed =
     (if ed_dragged ed = [] \<or> ed_dragged ed = i then ed
      else ed\<lparr>ed_dragOver := i,
              ed_dragPosition := (if clientY - rectTop > rectHeight / 2 then AfterTarget else BeforeTarget)\<rparr>)"

definition handleDrop :: "jsstring \<Rightarrow> jsstring \<Rightarrow> editor \<Rightarrow> editor" where
  "handleDrop i transferred ed =
     (let sourceId = (if ed_dragged ed = [] then transferred else ed_dragged ed);
          position = (if ed_dragOver ed = i then ed_dragPosition ed else BeforeTarget)
      in resetDragState
           (if sourceId \<noteq> [] \<and> i \<noteq> [] \<and> sourceId \<noteq> i
            then ed\<lparr>ed_operations := reorderOperations (ed_operations ed) sourceId i position,
                    ed_selected := sourceId\<rparr>
            else ed))"

subsection \<open>Modes, templates, saving\<close>

definition buildVisualJson :: "translate \<Rightarrow> editor \<Rightarrow> jsstring + jsstring" where
  "buildVisualJson t ed =
     (if ed_visualMode ed = LegacyMode then
        let trimmed = trim (ed_legacyValue ed) in
        if trimmed = [] then Inr []
        else case JSON_parse trimmed of
               None \<Rightarrow> Inl (t (js ''Parameter override must be valid JSON format'') None)
             | Some (JObj ps) \<Rightarrow> Inr (JSON_pretty [] (JObj ps))
             | Some _ \<Rightarrow> Inl (t (js ''Legacy format must be a JSON object'') None)
      else buildOperationsJson (ed_operations ed) True t)"

definition toast :: "jsstring \<Rightarrow> editor \<Rightarrow> editor" where
  "toast msg ed = ed\<lparr>ed_toasts := ed_toasts ed @ [msg]\<rparr>"

definition switchToJsonMode :: "translate \<Rightarrow> editor \<Rightarrow> editor" where
  "switchToJsonMode t ed =
     (if ed_editMode ed = JsonEdit then ed
      else case buildVisualJson t ed of
             Inr s \<Rightarrow> ed\<lparr>ed_jsonText := s, ed_jsonError := [], ed_editMode := JsonEdit\<rparr>
           | Inl msg \<Rightarrow>
               toast msg (ed
                 \<lparr>ed_jsonText := (if ed_visualMode ed = LegacyMode then ed_legacyValue ed
                                  else case buildOperationsJson (ed_operations ed) False t of
                                         Inr s \<Rightarrow> s | Inl m \<Rightarrow> m),
                  ed_jsonError := (if msg = [] then t (js ''Parameter configuration error'') None else msg),
                  ed_editMode := JsonEdit\<rparr>))"

definition switchToVisualMode :: "(nat \<Rightarrow> nat) \<Rightarrow> translate \<Rightarrow> editor \<Rightarrow> editor option" where
  "switchToVisualMode clock t ed =
     (if ed_editMode ed = VisualEdit then Some ed
      else
        let trimmed = trim (ed_jsonText ed);
            (fallback, seed') = createDefaultOperation clock (ed_seed ed)
        in if trimmed = [] then Some (ed
             \<lparr>ed_seed := seed', ed_visualMode := OperationsMode, ed_operations := [fallback],
              ed_selected := po_id fallback, ed_legacyValue := [], ed_jsonError := [],
              ed_editMode := VisualEdit\<rparr>)
           else case JSON_parse trimmed of
             None \<Rightarrow> Some (toast (t (js ''Parameter override must be valid JSON format'') None) ed)
           | Some parsed \<Rightarrow>
               (case operations_of parsed of
                  Some ops \<Rightarrow>
                    (case read_operations clock (ed_seed ed) ops of
                       None \<Rightarrow> None
                     | Some (nextOps, seed1) \<Rightarrow> Some (ed
                         \<lparr>ed_seed := seed1, ed_visualMode := OperationsMode, ed_operations := nextOps,
                          ed_selected := first_id nextOps, ed_legacyValue := [], ed_jsonError := [],
                          ed_editMode := VisualEdit, ed_preset := js ''operations_default''\<rparr>))
                | None \<Rightarrow>
                    (case parsed of
                       JObj ps \<Rightarrow> Some (ed
                         \<lparr>ed_seed := seed', ed_visualMode := LegacyMode,
                          ed_legacyValue := JSON_pretty [] parsed, ed_operations := [fallback],
                          ed_selected := po_id fallback, ed_jsonError := [], ed_editMode := VisualEdit,
                          ed_preset := js ''legacy_default''\<rparr>)
                     | _ \<Rightarrow> Some (toast (t (js ''Parameter override must be a valid JSON object'') None) ed))))"

text \<open>The own enumerable properties that a spread copies: the entries of an object, the elements
  of an array or the code units of a string by index, nothing for other values.\<close>

definition index_entries :: "jsval list \<Rightarrow> (jsstring \<times> jsval) list" where
  "index_entries vs = map (\<lambda>k. (show_nat k, vs ! k)) [0..<length vs]"

definition spread :: "jsval \<Rightarrow> (jsstring \<times> jsval) list" where
  "spread v =
     (case v of
        JObj ps \<Rightarrow> ps
      | JArr vs \<Rightarrow> index_entries vs
      | JStr s \<Rightarrow> index_entries (map (\<lambda>c. JStr [c]) s)
      | _ \<Rightarrow> [])"

definition fill_legacy :: "(nat \<Rightarrow> nat) \<Rightarrow> jsval \<Rightarrow> editor \<Rightarrow> editor" where
  "fill_legacy clock v ed =
     (let (created, seed') = createDefaultOperation clock (ed_seed ed); s = JSON_pretty [] v
      in ed\<lparr>ed_seed := seed', ed_visualMode := LegacyMode, ed_legacyValue := s, ed_operations := [created],
            ed_jsonText := s, ed_jsonError := [], ed_editMode := VisualEdit\<rparr>)"

definition fillTemplate :: "(nat \<Rightarrow> nat) \<Rightarrow> translate \<Rightarrow> bool \<Rightarrow> editor \<Rightarrow> editor option" where
  "fillTemplate clock t appending ed =
     (let preset = nullish (obj_get TEMPLATE_PRESET_CONFIG (ed_preset ed))
                     (the (obj_get TEMPLATE_PRESET_CONFIG (js ''operations_default'')));
          payload = tp_payload preset
      in if tp_kind preset = LegacyKind then
           (if appending \<and> ed_visualMode ed = LegacyMode then
              let trimmed = trim (ed_legacyValue ed) in
              if trimmed = [] then Some (fill_legacy clock (JObj (obj_of (spread payload))) ed)
              else case JSON_parse trimmed of
                     None \<Rightarrow> Some (toast (t (js ''Current legacy JSON is invalid, cannot append'') None) ed)
                   | Some current \<Rightarrow>
                       Some (fill_legacy clock (JObj (obj_of (spread payload @ spread current))) ed)
            else Some (fill_legacy clock payload ed))
         else
           let operationsPayload = nullish (operations_of payload) [] in
           if appending then
             (case map_seed (normalizeOperation clock) (ed_seed ed) operationsPayload of
                None \<Rightarrow> None
              | Some (appended, seed') \<Rightarrow>
                  let existing = (if ed_visualMode ed = OperationsMode
                                  then filter (\<lambda>op. \<not> isOperationBlank op) (ed_operations ed) else []);
                      nextOps = existing @ appended
                  in Some (ed\<lparr>ed_seed := seed', ed_visualMode := OperationsMode, ed_operations := nextOps,
                              ed_selected := first_id nextOps, ed_legacyValue := [], ed_jsonError := [],
                              ed_editMode := VisualEdit, ed_jsonText := []\<rparr>))
           else
             (case read_operations clock (ed_seed ed) operationsPayload of
                None \<Rightarrow> None
              | Some (finalOps, seed') \<Rightarrow>
                  Some (ed\<lparr>ed_seed := seed', ed_visualMode := OperationsMode, ed_operations := finalOps,
                           ed_selected := first_id finalOps,
                           ed_jsonText := JSON_pretty [] (JObj [(js ''operations'', JArr operationsPayload)]),
                           ed_jsonError := [], ed_editMode := VisualEdit\<rparr>)))"

definition resetEditorState :: "(nat \<Rightarrow> nat) \<Rightarrow> editor \<Rightarrow> editor" where
  "resetEditorState clock ed =
     (let (fallback, seed') = createDefaultOperation clock (ed_seed ed) in
      ed\<lparr>ed_seed := seed', ed_visualMode := OperationsMode, ed_legacyValue := [],
         ed_operations := [fallback], ed_selected := po_id fallback, ed_jsonText := [], ed_jsonError := [],
         ed_preset := js ''operations_default'', ed_editMode := VisualEdit\<rparr>)"

definition handleJsonChange :: "translate \<Rightarrow> jsstring \<Rightarrow> editor \<Rightarrow> editor" where
  "handleJsonChange t nextValue ed =
     (let trimmed = trim nextValue in
      ed\<lparr>ed_jsonText := nextValue,
         ed_jsonError := (if trimmed = [] then [] else if verifyJSON trimmed then []
                          else t (js ''JSON format error'') None)\<rparr>)"

definition formatJson :: "translate \<Rightarrow> editor \<Rightarrow> editor" where
  "formatJson t ed =
     (let trimmed = trim (ed_jsonText ed) in
      if trimmed = [] then ed
      else case JSON_parse trimmed of
             None \<Rightarrow> toast (t (js ''Parameter override must be valid JSON format'') None) ed
           | Some v \<Rightarrow> ed\<lparr>ed_jsonText := JSON_pretty [] v, ed_jsonError := []\<rparr>)"

definition visualValidationError :: "translate \<Rightarrow> editor \<Rightarrow> jsstring" where
  "visualValidationError t ed =
     (if ed_editMode ed \<noteq> VisualEdit then []
      else case buildVisualJson t ed of
             Inr _ \<Rightarrow> []
           | Inl msg \<Rightarrow> if msg = [] then t (js ''Parameter configuration error'') None else msg)"

definition save_result :: "translate \<Rightarrow> editor \<Rightarrow> jsstring + jsstring" where
  "save_result t ed =
     (if ed_editMode ed = JsonEdit then
        let trimmed = trim (ed_jsonText ed) in
        if trimmed = [] then Inr []
        else case JSON_parse trimmed of
               None \<Rightarrow> Inl (t (js ''Parameter override must be valid JSON format'') None)
             | Some v \<Rightarrow> Inr (JSON_pretty [] v)
      else buildVisualJson t ed)"

definition handleSave :: "translate \<Rightarrow> editor \<Rightarrow> editor" where
  "handleSave t ed =
     (case save_result t ed of
        Inr s \<Rightarrow> ed\<lparr>ed_saved := ed_saved ed @ [s], ed_open := False\<rparr>
      | Inl msg \<Rightarrow> toast msg ed)"

definition set_conditions :: "bool \<Rightarrow> editor \<Rightarrow> editor" where
  "set_conditions b ed =
     (case selectedOperation ed of
        None \<Rightarrow> ed
      | Some op \<Rightarrow> ed\<lparr>ed_expanded := foldl (\<lambda>m c. obj_put (pc_id c) b m) (ed_expanded ed) (po_conditions op)\<rparr>)"

definition expandAllConditions :: "editor \<Rightarrow> editor" where
  "expandAllConditions = set_conditions True"

definition collapseAllConditions :: "editor \<Rightarrow> editor" where
  "collapseAllConditions = set_conditions False"

subsection \<open>The machine\<close>

datatype editor_event =
    EvOpen jsstring | EvKeepSelection | EvSelect jsstring
  | EvUpdate jsstring op_patch | EvAdd | EvDuplicate jsstring bool | EvRemove jsstring
  | EvAddCondition jsstring | EvUpdateCondition jsstring jsstring condition_patch
  | EvRemoveCondition jsstring jsstring
  | EvReturnError jsstring "ReturnErrorDraft \<Rightarrow> ReturnErrorDraft"
  | EvPruneDraft jsstring "PruneObjectsDraft \<Rightarrow> PruneObjectsDraft"
  | EvAddPruneRule jsstring | EvUpdatePruneRule jsstring jsstring condition_patch
  | EvRemovePruneRule jsstring jsstring | EvDrawPrune
  | EvDragStart jsstring | EvDragOver jsstring rat rat rat | EvDrop jsstring jsstring | EvDragEnd
  | EvToJson | EvToVisual | EvFillTemplate bool | EvReset | EvJsonChange jsstring | EvFormat
  | EvSave | EvCancel | EvLegacy jsstring | EvSearch jsstring | EvPreset jsstring
  | EvExpandAll | EvCollapseAll

fun editor_handle :: "(nat \<Rightarrow> nat) \<Rightarrow> translate \<Rightarrow> editor_event \<Rightarrow> editor \<Rightarrow> editor option" where
  "editor_handle clock t (EvOpen v) ed = openDialog clock v ed"
| "editor_handle clock t EvKeepSelection ed = Some (keepSelection ed)"
| "editor_handle clock t (EvSelect i) ed = Some (ed\<lparr>ed_selected := i\<rparr>)"
| "editor_handle clock t (EvUpdate i p) ed = Some (updateOperation i p ed)"
| "editor_handle clock t EvAdd ed = Some (addOperation clock ed)"
| "editor_handle clock t (EvDuplicate i e) ed = duplicateOperation clock i e ed"
| "editor_handle clock t (EvRemove i) ed = Some (removeOperation clock i ed)"
| "editor_handle clock t (EvAddCondition i) ed = Some (addCondition clock i ed)"
| "editor_handle clock t (EvUpdateCondition i c p) ed = Some (updateCondition i c p ed)"
| "editor_handle clock t (EvRemoveCondition i c) ed = Some (removeCondition i c ed)"
| "editor_handle clock t (EvReturnError i f) ed = Some (updateReturnErrorDraft i f ed)"
| "editor_handle clock t (EvPruneDraft i f) ed = Some (updatePruneObjectsDraft clock i (patch_draft f) ed)"
| "editor_handle clock t (EvAddPruneRule i) ed = Some (addPruneRule clock i ed)"
| "editor_handle clock t (EvUpdatePruneRule i r p) ed = Some (updatePruneRule clock i r p ed)"
| "editor_handle clock t (EvRemovePruneRule i r) ed = Some (removePruneRule clock i r ed)"
| "editor_handle clock t EvDrawPrune ed = Some (snd (pruneObjectsDraft clock ed))"
| "editor_handle clock t (EvDragStart i) ed = Some (handleDragStart i ed)"
| "editor_handle clock t (EvDragOver i y rt rh) ed = Some (handleDragOver i y rt rh ed)"
| "editor_handle clock t (EvDrop i d) ed = Some (handleDrop i d ed)"
| "editor_handle clock t EvDragEnd ed = Some (resetDragState ed)"
| "editor_handle clock t EvToJson ed = Some (switchToJsonMode t ed)"
| "editor_handle clock t EvToVisual ed = switchToVisualMode clock t ed"
| "editor_handle clock t (EvFillTemplate a) ed = fillTemplate clock t a ed"
| "editor_handle clock t EvReset ed = Some (resetEditorState clock ed)"
| "editor_handle clock t (EvJsonChange v) ed = Some (handleJsonChange t v ed)"
| "editor_handle clock t EvFormat ed = Some (formatJson t ed)"
| "editor_handle clock t EvSave ed = Some (handleSave t ed)"
| "editor_handle clock t EvCancel ed = Some (ed\<lparr>ed_open := False\<rparr>)"
| "editor_handle clock t (EvLegacy v) ed = Some (ed\<lparr>ed_legacyValue := v\<rparr>)"
| "editor_handle clock t (EvSearch v) ed = Some (ed\<lparr>ed_search := v\<rparr>)"
| "editor_handle clock t (EvPreset v) ed =
     Some (ed\<lparr>ed_preset := (if v = [] then js ''operations_default'' else v)\<rparr>)"
| "editor_handle clock t EvExpandAll ed = Some (expandAllConditions ed)"
| "editor_handle clock t EvCollapseAll ed = Some (collapseAllConditions ed)"

text \<open>The selectors of the dialog offer only the listed modes and the two words of the logic.\<close>

fun event_offered :: "editor_event \<Rightarrow> bool" where
  "event_offered (EvUpdate i (PatchMode m)) = (m \<in> set OPERATION_MODE_VALUES)"
| "event_offered (EvUpdate i (PatchLogic l)) = (l = js ''AND'' \<or> l = js ''OR'')"
| "event_offered (EvUpdateCondition i c (CondMode m)) = (m \<in> set CONDITION_MODE_VALUES)"
| "event_offered _ = True"

inductive editor_step :: "(nat \<Rightarrow> nat) \<Rightarrow> translate \<Rightarrow> editor \<Rightarrow> editor_event \<Rightarrow> editor \<Rightarrow> bool"
  for clock t where
  handled: "event_offered e \<Longrightarrow> editor_handle clock t e ed = Some ed' \<Longrightarrow> editor_step clock t ed e ed'"
| thrown: "event_offered e \<Longrightarrow> editor_handle clock t e ed = None \<Longrightarrow>
     editor_step clock t ed e (ed\<lparr>ed_seed := ed_seed ed + k\<rparr>)"

definition editor_init :: "(nat \<Rightarrow> nat) \<Rightarrow> editor \<Rightarrow> bool" where
  "editor_init clock ed \<longleftrightarrow> (\<exists>seed. ed = editor_start clock seed)"

subsection \<open>The invariant\<close>

definition ids_of :: "ParamOverrideOperation list \<Rightarrow> jsstring list" where
  "ids_of ops = concat (map op_ids ops)"

definition typed_condition :: "ParamOverrideCondition \<Rightarrow> bool" where
  "typed_condition c \<longleftrightarrow> pc_mode c \<in> set CONDITION_MODE_VALUES"

definition typed_operation :: "ParamOverrideOperation \<Rightarrow> bool" where
  "typed_operation op \<longleftrightarrow> po_mode op \<in> set OPERATION_MODE_VALUES \<and>
     (po_logic op = js ''AND'' \<or> po_logic op = js ''OR'') \<and> list_all typed_condition (po_conditions op)"

definition fresh_ids :: "(nat \<Rightarrow> nat) \<Rightarrow> nat \<Rightarrow> jsstring list \<Rightarrow> bool" where
  "fresh_ids clock seed is \<longleftrightarrow> distinct is \<and> set is \<subseteq> local_id clock ` {..<seed}"

definition ops_inv :: "(nat \<Rightarrow> nat) \<Rightarrow> nat \<Rightarrow> ParamOverrideOperation list \<Rightarrow> bool" where
  "ops_inv clock seed ops \<longleftrightarrow> ops \<noteq> [] \<and> fresh_ids clock seed (ids_of ops) \<and> list_all typed_operation ops"

definition editor_inv :: "(nat \<Rightarrow> nat) \<Rightarrow> editor \<Rightarrow> bool" where
  "editor_inv clock ed \<longleftrightarrow> ops_inv clock (ed_seed ed) (ed_operations ed)"

lemma fresh_ids_mono: "fresh_ids clock s is \<Longrightarrow> s \<le> s' \<Longrightarrow> fresh_ids clock s' is"
  by (force simp: fresh_ids_def)

lemma fresh_ids_new: "fresh_ids clock s' (map (local_id clock) [s..<s'])"
  by (auto simp: fresh_ids_def distinct_map inj_on_def)

lemma ops_inv_mono: "ops_inv clock s ops \<Longrightarrow> s \<le> s' \<Longrightarrow> ops_inv clock s' ops"
  by (auto simp: ops_inv_def intro: fresh_ids_mono)

lemma fresh_ids_append:
  assumes "fresh_ids clock s is" "s \<le> s'"
  shows "fresh_ids clock s' (is @ map (local_id clock) [s..<s'])"
proof -
  have "set is \<inter> set (map (local_id clock) [s..<s']) = {}"
    using assms(1) by (auto simp: fresh_ids_def)
  then show ?thesis
    using fresh_ids_mono [OF assms] fresh_ids_new [of clock s' s] by (auto simp: fresh_ids_def)
qed

lemma fresh_ids_mset: "mset is = mset is' \<Longrightarrow> fresh_ids clock s is \<longleftrightarrow> fresh_ids clock s is'"
  unfolding fresh_ids_def by (metis mset_eq_imp_distinct_iff mset_eq_setD)

lemma ids_of_simps [simp]: "ids_of [] = []" "ids_of (op # ops) = op_ids op @ ids_of ops"
  "ids_of (xs @ ys) = ids_of xs @ ids_of ys"
  by (simp_all add: ids_of_def)

lemma distinct_po_ids: "distinct (ids_of ops) \<Longrightarrow> distinct (map po_id ops)"
proof (induction ops)
  case (Cons op ops)
  have "po_id x \<in> set (ids_of ops)" if "x \<in> set ops" for x
    using that by (auto simp: ids_of_def op_ids_def)
  then show ?case using Cons by (auto simp: op_ids_def)
qed simp

text \<open>Reading yields typed operations.\<close>

lemma mode_prop_in: "js fallback \<in> set modes \<Longrightarrow> mode_prop modes fallback v \<in> set modes"
  by (auto simp: mode_prop_def split: option.splits jsval.splits)

lemma set_mode [simp]: "js ''set'' \<in> set OPERATION_MODE_VALUES"
  by (simp add: OPERATION_MODE_VALUES_def OPERATION_MODE_OPTIONS_def)

lemma map_seed_all:
  assumes "\<And>s x y s'. f s x = Some (y, s') \<Longrightarrow> P y"
  shows "map_seed f s xs = Some (ys, s') \<Longrightarrow> list_all P ys"
proof (induction xs arbitrary: s ys)
  case (Cons x xs)
  then obtain y s1 zs where "f s x = Some (y, s1)" "map_seed f s1 xs = Some (zs, s')" "ys = y # zs"
    by (auto split: option.splits)
  then show ?case using assms Cons.IH by auto
qed simp

lemma typed_condition_read: "normalizeOverrideCondition clock s v = Some (c, s') \<Longrightarrow> typed_condition c"
  by (auto simp: normalizeOverrideCondition_def typed_condition_def mode_prop_in split: if_splits)

lemma typed_operation_read:
  assumes "normalizeOperation clock s v = Some (op, s')"
  shows "typed_operation op"
proof -
  have "po_mode op \<in> set OPERATION_MODE_VALUES" "po_logic op = js ''AND'' \<or> po_logic op = js ''OR''"
    using assms mode_prop_in
    by (auto simp: normalizeOperation_def logic_of_def split: option.splits jsval.splits if_splits)
  moreover have "list_all typed_condition (po_conditions op)"
    using assms map_seed_all [of "normalizeOverrideCondition clock" typed_condition] typed_condition_read
    by (fastforce simp: normalizeOperation_def split: option.splits jsval.splits if_splits)
  ultimately show ?thesis by (simp add: typed_operation_def)
qed

lemma typed_default: "typed_operation (fst (createDefaultOperation clock s))"
  by (simp add: default_operation typed_operation_def)

lemma ops_inv_default: "createDefaultOperation clock s = (op, s') \<Longrightarrow> ops_inv clock s' [op]"
  using typed_default [of clock s] default_ids [of clock s]
  by (auto simp: default_operation ops_inv_def fresh_ids_def)

lemma typed_operations_read:
  "map_seed (normalizeOperation clock) s vs = Some (ys, s') \<Longrightarrow> list_all typed_operation ys"
  by (rule map_seed_all [where f = "normalizeOperation clock"]) (auto intro: typed_operation_read)

lemma ops_inv_read:
  assumes "read_operations clock s vs = Some (ys, s')"
  shows "ops_inv clock s' ys"
proof -
  have "list_all typed_operation ys"
    using assms typed_operations_read typed_default [of clock s]
    by (auto simp: read_operations_def default_operation split: if_splits)
  then show ?thesis
    using read_operations_ids [OF assms] fresh_ids_new [of clock s' s] by (simp add: ops_inv_def ids_of_def)
qed

lemma ops_inv_append:
  assumes "fresh_ids clock s (ids_of ops)" "list_all typed_operation ops"
    and "map_seed (normalizeOperation clock) s vs = Some (ys, s')" "ops @ ys \<noteq> []"
  shows "ops_inv clock s' (ops @ ys)"
proof -
  have "s \<le> s'" "ids_of ys = map (local_id clock) [s..<s']"
    using operations_ids [OF assms(3)] by (simp_all add: ids_of_def)
  then show ?thesis
    using assms typed_operations_read [OF assms(3)] fresh_ids_append [OF assms(1)] by (simp add: ops_inv_def)
qed

lemma ops_inv_map:
  assumes "ops_inv clock s ops"
    and "\<And>op. op \<in> set ops \<Longrightarrow> distinct (op_ids op) \<Longrightarrow> typed_operation op \<Longrightarrow>
      distinct (op_ids (f op)) \<and> set (op_ids (f op)) \<subseteq> set (op_ids op) \<and> typed_operation (f op)"
  shows "ops_inv clock s (map f ops)"
proof -
  have "distinct (ids_of (map f ops)) \<and> set (ids_of (map f ops)) \<subseteq> set (ids_of ops) \<and>
      list_all typed_operation (map f ops)"
    if "distinct (ids_of ops)" "list_all typed_operation ops"
      "\<And>op. op \<in> set ops \<Longrightarrow> distinct (op_ids op) \<Longrightarrow> typed_operation op \<Longrightarrow>
        distinct (op_ids (f op)) \<and> set (op_ids (f op)) \<subseteq> set (op_ids op) \<and> typed_operation (f op)" for ops
    using that
  proof (induction ops)
    case (Cons op ops)
    have "distinct (op_ids (f op))" "set (op_ids (f op)) \<subseteq> set (op_ids op)" "typed_operation (f op)"
      using Cons.prems by auto
    moreover have "distinct (ids_of (map f ops)) \<and> set (ids_of (map f ops)) \<subseteq> set (ids_of ops) \<and>
        list_all typed_operation (map f ops)"
      using Cons by simp
    ultimately show ?case using Cons.prems(1) by (simp, blast)
  qed simp
  from this [of ops] show ?thesis using assms by (auto simp: ops_inv_def fresh_ids_def)
qed


lemma ops_inv_mset:
  assumes "ops_inv clock s ops" "mset ops' = mset ops"
  shows "ops_inv clock s ops'"
proof -
  have "mset (ids_of xs) = \<Sum>\<^sub># (image_mset (\<lambda>op. mset (op_ids op)) (mset xs))" for xs
    by (induction xs) simp_all
  then have "mset (ids_of ops') = mset (ids_of ops)" using assms(2) by simp
  then show ?thesis
    using assms fresh_ids_mset [of "ids_of ops'" "ids_of ops"] mset_eq_setD [OF assms(2)]
    by (auto simp: ops_inv_def list_all_iff)
qed

lemma ops_inv_on_op:
  assumes "ops_inv clock s ops"
    and "\<And>op. distinct (op_ids op) \<Longrightarrow> typed_operation op \<Longrightarrow>
      distinct (op_ids (f op)) \<and> set (op_ids (f op)) \<subseteq> set (op_ids op) \<and> typed_operation (f op)"
  shows "ops_inv clock s (on_op i f ops)"
  unfolding on_op_def using assms(2) by (intro ops_inv_map [OF assms(1)]) auto

lemma on_op_split:
  assumes "distinct (map po_id ops)" "op \<in> set ops"
  shows "\<exists>as bs. ops = as @ op # bs \<and> on_op (po_id op) f ops = as @ f op # bs"
proof -
  obtain as bs where "ops = as @ op # bs" using assms(2) by (auto simp: in_set_conv_decomp)
  moreover have "on_op (po_id op) f xs = xs" if "po_id op \<notin> po_id ` set xs" for xs
    using that by (induction xs) (auto simp: on_op_def)
  ultimately show ?thesis using assms(1) by (auto simp: on_op_def)
qed

lemma on_op_absent: "i \<notin> po_id ` set ops \<Longrightarrow> on_op i f ops = ops"
  by (induction ops) (auto simp: on_op_def)

lemma fresh_ids_filter: "fresh_ids clock s (ids_of ops) \<Longrightarrow> fresh_ids clock s (ids_of (filter P ops))"
proof -
  have sub: "set (ids_of (filter P ops)) \<subseteq> set (ids_of ops)" for ops by (auto simp: ids_of_def)
  have "distinct (ids_of ops) \<Longrightarrow> distinct (ids_of (filter P ops))"
  proof (induction ops)
    case (Cons op ops)
    then show ?case using sub [of ops] by auto
  qed simp
  then show "fresh_ids clock s (ids_of ops) \<Longrightarrow> fresh_ids clock s (ids_of (filter P ops))"
    unfolding fresh_ids_def using sub [of ops] by blast
qed

lemma ops_inv_filter:
  assumes "ops_inv clock s ops" "1 < length ops"
  shows "ops_inv clock s (filter (\<lambda>op. po_id op \<noteq> i) ops)"
proof -
  have "filter (\<lambda>op. po_id op \<noteq> i) ops \<noteq> []"
  proof
    assume "filter (\<lambda>op. po_id op \<noteq> i) ops = []"
    then have "set (map po_id ops) \<subseteq> {i}" by (auto simp: filter_empty_conv)
    then have "card (set (map po_id ops)) \<le> card {i}" by (intro card_mono) auto
    moreover have "distinct (map po_id ops)"
      using assms(1) by (intro distinct_po_ids) (simp add: ops_inv_def fresh_ids_def)
    ultimately show False using distinct_card [of "map po_id ops"] assms(2) by simp
  qed
  then show ?thesis using assms(1) fresh_ids_filter by (auto simp: ops_inv_def list_all_iff)
qed

lemma ops_inv_add_condition:
  assumes "ops_inv clock s ops" "createDefaultCondition clock s = (c, s')"
  shows "ops_inv clock s' (on_op i (\<lambda>op. op\<lparr>po_conditions := po_conditions op @ [c]\<rparr>) ops)"
proof -
  let ?f = "\<lambda>op. op\<lparr>po_conditions := po_conditions op @ [c]\<rparr>"
  have read: "normalizeOverrideCondition clock s (JObj []) = Some (c, s')"
    using assms(2) by (simp add: createDefaultCondition_def normalizeOverrideCondition_def)
  have c: "s' = Suc s" "pc_id c = local_id clock s" "typed_condition c"
    using condition_id [OF read] typed_condition_read [OF read] by simp_all
  show ?thesis
  proof (cases "i \<in> po_id ` set ops")
    case True
    then obtain op where op: "op \<in> set ops" "po_id op = i" by auto
    have "distinct (map po_id ops)"
      using assms(1) by (intro distinct_po_ids) (simp add: ops_inv_def fresh_ids_def)
    then obtain as bs where ab: "ops = as @ op # bs" "on_op i ?f ops = as @ ?f op # bs"
      using on_op_split [of ops op ?f] op by auto
    have "mset (ids_of (as @ ?f op # bs)) = mset (ids_of (as @ op # bs) @ map (local_id clock) [s..<Suc s])"
      by (simp add: op_ids_def c)
    then have "mset (ids_of (on_op i ?f ops)) = mset (ids_of ops @ map (local_id clock) [s..<Suc s])"
      by (simp only: ab(2) ab(1) [symmetric])
    moreover have "fresh_ids clock (Suc s) (ids_of ops @ map (local_id clock) [s..<Suc s])"
      using assms(1) by (intro fresh_ids_append) (simp_all add: ops_inv_def)
    ultimately have "fresh_ids clock s' (ids_of (on_op i ?f ops))"
      unfolding c(1) by (rule fresh_ids_mset [THEN iffD2])
    then show ?thesis
      using assms(1) c(3) unfolding ops_inv_def by (auto simp: typed_operation_def on_op_def list_all_iff)
  qed (use assms(1) c(1) in \<open>simp add: on_op_absent ops_inv_mono\<close>)
qed

lemma parsePrune_seed:
  assumes "parsePruneObjectsDraft clock s v = (d, s')"
  shows "s \<le> s' \<and> map pc_id (pd_rules d) = map (local_id clock) [s..<s']"
  using assms push_rules_ids [of clock s]
  by (auto simp: parsePruneObjectsDraft_def prune_defaults_def Let_def split: if_splits option.splits
      jsval.splits prod.splits)

definition grows :: "prune_updater \<Rightarrow> bool" where
  "grows upd \<longleftrightarrow> (\<forall>s d. s \<le> snd (upd s d))"

lemma grows_updaters [simp]: "grows (patch_draft f)" "grows (add_rule clock)"
  by (auto simp: grows_def patch_draft_def add_rule_def normalizePruneRule_def Let_def)

lemma prune_ops_ids:
  assumes "grows upd"
  shows "prune_ops clock i upd s ops = (ops', s') \<Longrightarrow>
    s \<le> s' \<and> ids_of ops' = ids_of ops \<and> (list_all typed_operation ops \<longrightarrow> list_all typed_operation ops') \<and>
    length ops' = length ops"
proof (induction ops arbitrary: s ops')
  case (Cons op ops)
  show ?case
  proof (cases "po_id op = i")
    case True
    obtain d s1 where d: "parsePruneObjectsDraft clock s (po_value_text op) = (d, s1)" by fastforce
    obtain d2 s2 where d2: "upd s1 d = (d2, s2)" by fastforce
    obtain ops2 where rest: "prune_ops clock i upd s2 ops = (ops2, s')"
      "ops' = op\<lparr>po_value_text := buildPruneObjectsValueText d2\<rparr> # ops2"
      using Cons.prems True d d2 by (auto simp: apfst_def map_prod_def split: prod.splits)
    have "s1 \<le> s2" using assms d2 by (metis grows_def snd_conv)
    then show ?thesis
      using Cons.IH [OF rest(1)] rest(2) parsePrune_seed [OF d] by (auto simp: op_ids_def typed_operation_def)
  next
    case False
    then obtain ops2 where "prune_ops clock i upd s ops = (ops2, s')" "ops' = op # ops2"
      using Cons.prems by (auto simp: apfst_def map_prod_def split: prod.splits)
    then show ?thesis using Cons.IH by auto
  qed
qed simp

lemma inv_updatePrune: "editor_inv clock ed \<Longrightarrow> grows upd \<Longrightarrow> editor_inv clock (updatePruneObjectsDraft clock i upd ed)"
  using prune_ops_ids [of upd clock i "ed_seed ed" "ed_operations ed"]
  by (auto simp: updatePruneObjectsDraft_def editor_inv_def ops_inv_def intro: fresh_ids_mono split: prod.splits)

lemma inv_patch_operation:
  assumes "editor_inv clock ed" "event_offered (EvUpdate i p)"
  shows "editor_inv clock (updateOperation i p ed)"
proof -
  have "op_ids (patch_operation p op) = op_ids op \<and> (typed_operation op \<longrightarrow> typed_operation (patch_operation p op))" for op
    using assms(2) by (cases p) (auto simp: op_ids_def typed_operation_def)
  then show ?thesis
    using assms(1) ops_inv_on_op [of clock "ed_seed ed" "ed_operations ed" "patch_operation p" i]
    by (simp add: editor_inv_def updateOperation_def)
qed

lemma inv_updateCondition:
  assumes "editor_inv clock ed" "event_offered (EvUpdateCondition i c p)"
  shows "editor_inv clock (updateCondition i c p ed)"
proof -
  let ?f = "\<lambda>op. op\<lparr>po_conditions := map (\<lambda>x. if pc_id x = c then patch_condition p x else x) (po_conditions op)\<rparr>"
  have "pc_id (patch_condition p x) = pc_id x" "typed_condition x \<longrightarrow> typed_condition (patch_condition p x)" for x
    using assms(2) by (cases p; auto simp: typed_condition_def)+
  then have "op_ids (?f op) = op_ids op \<and> (typed_operation op \<longrightarrow> typed_operation (?f op))" for op
    by (auto simp: op_ids_def typed_operation_def list_all_iff comp_def)
  then show ?thesis
    using assms(1) ops_inv_on_op [of clock "ed_seed ed" "ed_operations ed" ?f i]
    by (simp add: editor_inv_def updateCondition_def)
qed

lemma inv_removeCondition:
  assumes "editor_inv clock ed"
  shows "editor_inv clock (removeCondition i c ed)"
proof -
  have "distinct (op_ids op) \<Longrightarrow> typed_operation op \<Longrightarrow>
      distinct (op_ids (op\<lparr>po_conditions := filter P (po_conditions op)\<rparr>)) \<and>
      set (op_ids (op\<lparr>po_conditions := filter P (po_conditions op)\<rparr>)) \<subseteq> set (op_ids op) \<and>
      typed_operation (op\<lparr>po_conditions := filter P (po_conditions op)\<rparr>)" for op P
    by (auto simp: op_ids_def typed_operation_def list_all_iff distinct_map_filter)
  then show ?thesis
    using assms unfolding editor_inv_def removeCondition_def by (simp add: ops_inv_on_op)
qed

lemma inv_duplicate:
  assumes "editor_inv clock ed" "duplicateOperation clock i e ed = Some ed'"
  shows "editor_inv clock ed'"
proof (cases "find_op i (ed_operations ed)")
  case (Some k)
  obtain cl s' where cl: "normalizeOperation clock (ed_seed ed) (clone_source (ed_operations ed ! k)) = Some (cl, s')"
    using assms(2) Some by (auto simp: duplicateOperation_def split: option.splits)
  have new: "map_seed (normalizeOperation clock) (ed_seed ed) [clone_source (ed_operations ed ! k)] = Some ([cl], s')"
    using cl by simp
  have "ops_inv clock s' (ed_operations ed @ [cl])"
    using assms(1) by (intro ops_inv_append [OF _ _ new]) (auto simp: editor_inv_def ops_inv_def)
  moreover have "mset (take (k + 1) (ed_operations ed) @ [cl] @ drop (k + 1) (ed_operations ed)) =
      mset (ed_operations ed @ [cl])"
    by (simp, simp flip: mset_append)
  ultimately show ?thesis
    using assms(2) Some cl ops_inv_mset by (auto simp: duplicateOperation_def editor_inv_def)
qed (use assms in \<open>simp add: duplicateOperation_def\<close>)

lemma inv_open: "openDialog clock v ed = Some ed' \<Longrightarrow> editor_inv clock ed'"
  using ops_inv_default [of clock "ed_seed ed"] ops_inv_read [of clock "ed_seed ed"]
  by (auto simp: openDialog_def parseInitialState_def Let_def editor_inv_def apfst_def map_prod_def
      split: option.splits if_splits jsval.splits prod.splits)

lemma inv_toVisual: "editor_inv clock ed \<Longrightarrow> switchToVisualMode clock t ed = Some ed' \<Longrightarrow> editor_inv clock ed'"
  using ops_inv_default [of clock "ed_seed ed"] ops_inv_read [of clock "ed_seed ed"]
  by (auto simp: switchToVisualMode_def Let_def editor_inv_def toast_def
      split: option.splits if_splits jsval.splits prod.splits)

lemma inv_fill_legacy: "editor_inv clock (fill_legacy clock v ed)"
  using ops_inv_default [of clock "ed_seed ed"]
  by (auto simp: fill_legacy_def editor_inv_def Let_def split: prod.splits)

lemma presets_have_operations:
  "list_all (\<lambda>(k, c). tp_kind c = LegacyKind \<or> nullish (operations_of (tp_payload c)) [] \<noteq> []) TEMPLATE_PRESET_CONFIG"
  by code_simp

lemma preset_operations:
  assumes "tp_kind (nullish (obj_get TEMPLATE_PRESET_CONFIG k)
      (the (obj_get TEMPLATE_PRESET_CONFIG (js ''operations_default'')))) \<noteq> LegacyKind"
  shows "nullish (operations_of (tp_payload (nullish (obj_get TEMPLATE_PRESET_CONFIG k)
      (the (obj_get TEMPLATE_PRESET_CONFIG (js ''operations_default'')))))) [] \<noteq> []"
proof -
  have in_table: "(j, c) \<in> set TEMPLATE_PRESET_CONFIG" if "obj_get TEMPLATE_PRESET_CONFIG j = Some c" for j c
    using that by (simp add: obj_get_map_of map_of_SomeD)
  have "obj_get TEMPLATE_PRESET_CONFIG (js ''operations_default'') \<noteq> None"
    by (simp add: TEMPLATE_PRESET_CONFIG_def)
  then show ?thesis
    using assms presets_have_operations in_table
    by (cases "obj_get TEMPLATE_PRESET_CONFIG k") (fastforce simp: list_all_iff)+
qed

lemma inv_fillTemplate:
  assumes "editor_inv clock ed" "fillTemplate clock t a ed = Some ed'"
  shows "editor_inv clock ed'"
proof -
  have "fresh_ids clock (ed_seed ed) (ids_of (ed_operations ed))" "list_all typed_operation (ed_operations ed)"
    using assms(1) by (simp_all add: editor_inv_def ops_inv_def)
  then have kept: "fresh_ids clock (ed_seed ed) (ids_of (if c then filter P (ed_operations ed) else []))"
    "list_all typed_operation (if c then filter P (ed_operations ed) else [])" for P c
    using fresh_ids_filter by (auto simp: list_all_iff fresh_ids_def)
  have app: "ops_inv clock s' ((if c then filter P (ed_operations ed) else []) @ ys)"
    if "map_seed (normalizeOperation clock) (ed_seed ed) vs = Some (ys, s')" "vs \<noteq> []" for vs ys s' P c
    using that map_seed_length [OF that(1)] by (intro ops_inv_append [OF kept that(1)]) auto
  define preset where "preset = nullish (obj_get TEMPLATE_PRESET_CONFIG (ed_preset ed))
      (the (obj_get TEMPLATE_PRESET_CONFIG (js ''operations_default'')))"
  note fill = assms(2) [unfolded fillTemplate_def preset_def [symmetric] Let_def]
  show ?thesis
  proof (cases "tp_kind preset = LegacyKind")
    case True
    then show ?thesis using fill assms(1) inv_fill_legacy
      by (auto simp: editor_inv_def toast_def split: if_splits option.splits)
  next
    case False
    then have ne: "nullish (operations_of (tp_payload preset)) [] \<noteq> []"
      unfolding preset_def by (rule preset_operations)
    show ?thesis
    proof (cases a)
      case True
      then obtain ys s' where "map_seed (normalizeOperation clock) (ed_seed ed) (nullish (operations_of (tp_payload preset)) []) = Some (ys, s')"
        using fill False by (auto split: option.splits)
      with app [OF this ne] show ?thesis using fill False True by (auto simp: editor_inv_def)
    next
      case a: False
      then show ?thesis using fill False ops_inv_read by (auto simp: editor_inv_def split: option.splits)
    qed
  qed
qed

text \<open>The other handlers leave the operations and the identifiers alone.\<close>

lemma same_operations [simp]:
  "ed_operations (keepSelection ed) = ed_operations ed" "ed_seed (keepSelection ed) = ed_seed ed"
  "ed_operations (handleDragStart i ed) = ed_operations ed" "ed_seed (handleDragStart i ed) = ed_seed ed"
  "ed_operations (handleDragOver i y a h ed) = ed_operations ed" "ed_seed (handleDragOver i y a h ed) = ed_seed ed"
  "ed_operations (resetDragState ed) = ed_operations ed" "ed_seed (resetDragState ed) = ed_seed ed"
  "ed_operations (toast m ed) = ed_operations ed" "ed_seed (toast m ed) = ed_seed ed"
  "ed_operations (switchToJsonMode t ed) = ed_operations ed" "ed_seed (switchToJsonMode t ed) = ed_seed ed"
  "ed_operations (handleJsonChange t v ed) = ed_operations ed" "ed_seed (handleJsonChange t v ed) = ed_seed ed"
  "ed_operations (formatJson t ed) = ed_operations ed" "ed_seed (formatJson t ed) = ed_seed ed"
  "ed_operations (handleSave t ed) = ed_operations ed" "ed_seed (handleSave t ed) = ed_seed ed"
  "ed_operations (expandAllConditions ed) = ed_operations ed" "ed_seed (expandAllConditions ed) = ed_seed ed"
  "ed_operations (collapseAllConditions ed) = ed_operations ed" "ed_seed (collapseAllConditions ed) = ed_seed ed"
  by (simp_all add: keepSelection_def handleDragStart_def handleDragOver_def resetDragState_def toast_def
      switchToJsonMode_def handleJsonChange_def formatJson_def handleSave_def expandAllConditions_def
      collapseAllConditions_def set_conditions_def Let_def split: sum.splits option.splits)

lemma inv_step:
  assumes "editor_inv clock ed" "event_offered e" "editor_handle clock t e ed = Some ed'"
  shows "editor_inv clock ed'"
  using assms
proof (cases e)
  case (EvAdd)
  obtain op s' where op: "createDefaultOperation clock (ed_seed ed) = (op, s')" by fastforce
  then have new: "map_seed (normalizeOperation clock) (ed_seed ed) [obj [(''mode'', str ''set'')]] = Some ([op], s')"
    by (simp add: createDefaultOperation_def normalizeOperation_def obj_def js_prop_def)
  have "ops_inv clock s' (ed_operations ed @ [op])"
    using assms(1) by (intro ops_inv_append [OF _ _ new]) (auto simp: editor_inv_def ops_inv_def)
  then show ?thesis using EvAdd assms(3) op by (auto simp: addOperation_def editor_inv_def)
next
  case (EvRemove i)
  then show ?thesis
    using assms ops_inv_default [of clock "ed_seed ed"] ops_inv_filter [of clock "ed_seed ed" "ed_operations ed" i]
    by (auto simp: removeOperation_def editor_inv_def split: if_splits prod.splits)
next
  case (EvAddCondition i)
  then show ?thesis
    using assms ops_inv_add_condition [of clock "ed_seed ed" "ed_operations ed"]
    by (auto simp: addCondition_def editor_inv_def split: prod.splits)
next
  case (EvReturnError i f)
  then show ?thesis
    using assms ops_inv_on_op [of clock "ed_seed ed" "ed_operations ed"
        "\<lambda>op. op\<lparr>po_value_text := buildReturnErrorValueText (f (parseReturnErrorDraft (po_value_text op)))\<rparr>" i]
    by (auto simp: updateReturnErrorDraft_def editor_inv_def op_ids_def typed_operation_def)
next
  case EvDrawPrune
  then show ?thesis
    using assms parsePrune_seed [of clock "ed_seed ed"]
    by (auto simp: pruneObjectsDraft_def editor_inv_def intro: ops_inv_mono split: option.splits if_splits prod.splits)
next
  case (EvDrop i d)
  then show ?thesis
    using assms ops_inv_mset [OF _ mset_reorder]
    by (auto simp: handleDrop_def resetDragState_def editor_inv_def Let_def)
next
  case EvReset
  then show ?thesis
    using assms ops_inv_default [of clock "ed_seed ed"]
    by (auto simp: resetEditorState_def editor_inv_def split: prod.splits)
next
  case (EvOpen v)
  then show ?thesis using assms(3) inv_open by simp
next
  case (EvUpdate i p)
  then show ?thesis using assms inv_patch_operation [of clock ed i p] by simp
next
  case (EvUpdateCondition i c p)
  then show ?thesis using assms inv_updateCondition [of clock ed i c p] by simp
next
  case (EvRemoveCondition i c)
  then show ?thesis using assms inv_removeCondition by auto
next
  case (EvDuplicate i b)
  then show ?thesis using assms inv_duplicate by simp
next
  case EvToVisual
  then show ?thesis using assms inv_toVisual by simp
next
  case (EvFillTemplate a)
  then show ?thesis using assms inv_fillTemplate by simp
qed (use assms(1,3) inv_updatePrune in \<open>auto simp: editor_inv_def addPruneRule_def updatePruneRule_def removePruneRule_def\<close>)

lemma inv_init: "editor_init clock ed \<Longrightarrow> editor_inv clock ed"
  by (auto simp: editor_init_def editor_start_def editor_inv_def default_operation
      intro!: ops_inv_default)

interpretation dialog: machine_invariant "editor_init clock" "editor_step clock t" "editor_inv clock"
  for clock t
proof
  show "editor_init clock ed \<Longrightarrow> editor_inv clock ed" for ed by (rule inv_init)
  show "editor_inv clock ed \<Longrightarrow> editor_step clock t ed e ed' \<Longrightarrow> editor_inv clock ed'" for ed e ed'
  proof (erule editor_step.cases)
    fix e' a b assume "editor_inv clock ed" "ed = a" "event_offered e'" "editor_handle clock t e' a = Some b" "ed' = b"
    then show "editor_inv clock ed'" using inv_step by blast
  qed (auto simp: editor_inv_def ops_inv_mono)
qed

subsection \<open>Properties\<close>

text \<open>
  Claim C5.  In every state the dialog can reach, whatever is clicked, typed, dragged or thrown,
  there is at least one operation, all identifiers of operations and conditions are different
  and older than the next one handed out, every mode and logic word is one the tables know, and
  the effect that follows leaves an existing operation selected.
\<close>

theorem editor_state_invariant:
  assumes "reachable (editor_init clock) (editor_step clock t) ed"
  shows "ed_operations ed \<noteq> [] \<and> distinct (ids_of (ed_operations ed)) \<and>
     (\<forall>n\<ge>ed_seed ed. local_id clock n \<notin> set (ids_of (ed_operations ed))) \<and>
     list_all typed_operation (ed_operations ed) \<and>
     ed_selected (keepSelection ed) \<in> po_id ` set (ed_operations ed)"
proof -
  have inv: "ops_inv clock (ed_seed ed) (ed_operations ed)"
    using dialog.reachable_inv [OF assms] by (simp add: editor_inv_def)
  then obtain op ops where "ed_operations ed = op # ops" by (cases "ed_operations ed") (auto simp: ops_inv_def)
  then have "ed_selected (keepSelection ed) \<in> po_id ` set (ed_operations ed)"
    by (auto simp: keepSelection_def first_id_def list_ex_iff intro: rev_image_eqI)
  moreover have "local_id clock n \<notin> set (ids_of (ed_operations ed))" if "n \<ge> ed_seed ed" for n
    using inv that by (auto simp: ops_inv_def fresh_ids_def)
  ultimately show ?thesis using inv by (auto simp: ops_inv_def fresh_ids_def)
qed

theorem editor_state_invariant_witness:
  "ed_operations (addOperation (\<lambda>n. 0) (editor_start (\<lambda>n. 0) 0)) \<noteq> [] \<and>
   distinct (ids_of (ed_operations (addOperation (\<lambda>n. 0) (editor_start (\<lambda>n. 0) 0))))"
proof -
  have "reachable (editor_init (\<lambda>n. 0)) (editor_step (\<lambda>n. 0) (\<lambda>m l. m)) (editor_start (\<lambda>n. 0) 0)"
    by (rule reachable.start) (auto simp: editor_init_def)
  moreover have "editor_step (\<lambda>n. 0) (\<lambda>m l. m) (editor_start (\<lambda>n. 0) 0) EvAdd
      (addOperation (\<lambda>n. 0) (editor_start (\<lambda>n. 0) 0))"
    by (rule handled) simp_all
  ultimately have "reachable (editor_init (\<lambda>n. 0)) (editor_step (\<lambda>n. 0) (\<lambda>m l. m))
      (addOperation (\<lambda>n. 0) (editor_start (\<lambda>n. 0) 0))"
    by (rule reachable.event)
  then show ?thesis using editor_state_invariant [of "\<lambda>n. 0" "\<lambda>m l. m"] by blast
qed



subsection \<open>Edits of prune rules are lost\<close>

lemma parseInitialState_seed: "parseInitialState clock s v = Some (st, s') \<Longrightarrow> s \<le> s'"
  using read_operations_ids [of clock s]
  by (auto simp: parseInitialState_def Let_def default_operation apfst_def map_prod_def
      split: if_splits option.splits jsval.splits prod.splits)

lemma prune_seed: "grows upd \<Longrightarrow> ed_seed ed \<le> ed_seed (updatePruneObjectsDraft clock i upd ed)"
  using prune_ops_ids [of upd clock i "ed_seed ed" "ed_operations ed"]
  by (auto simp: updatePruneObjectsDraft_def split: prod.splits)

lemma fillTemplate_seed: "fillTemplate clock t a ed = Some ed' \<Longrightarrow> ed_seed ed \<le> ed_seed ed'"
  using read_operations_ids [of clock "ed_seed ed"] operations_ids [of clock "ed_seed ed"]
  by (auto simp: fillTemplate_def fill_legacy_def default_operation Let_def split: if_splits option.splits prod.splits)

lemma handle_seed: "editor_handle clock t e ed = Some ed' \<Longrightarrow> ed_seed ed \<le> ed_seed ed'"
proof (cases e)
  case (EvOpen v)
  then show "editor_handle clock t e ed = Some ed' \<Longrightarrow> ?thesis"
    using parseInitialState_seed by (auto simp: openDialog_def split: option.splits prod.splits)
next
  case (EvDuplicate i b)
  then show "editor_handle clock t e ed = Some ed' \<Longrightarrow> ?thesis"
    using operation_ids by (fastforce simp: duplicateOperation_def split: option.splits prod.splits)
next
  case EvDrawPrune
  then show "editor_handle clock t e ed = Some ed' \<Longrightarrow> ?thesis"
    using parsePrune_seed by (auto simp: pruneObjectsDraft_def split: option.splits prod.splits)
next
  case EvToVisual
  then show "editor_handle clock t e ed = Some ed' \<Longrightarrow> ?thesis"
    using read_operations_ids [of clock "ed_seed ed"]
    by (auto simp: switchToVisualMode_def Let_def default_operation toast_def
        split: if_splits option.splits jsval.splits prod.splits)
next
  case (EvFillTemplate a)
  then show "editor_handle clock t e ed = Some ed' \<Longrightarrow> ?thesis" using fillTemplate_seed by simp
next
  case (EvAddCondition i)
  then show "editor_handle clock t e ed = Some ed' \<Longrightarrow> ?thesis"
    by (auto simp: addCondition_def createDefaultCondition_def normalizeOverrideCondition_def)
next
  case (EvDrop i d)
  then show "editor_handle clock t e ed = Some ed' \<Longrightarrow> ?thesis" by (auto simp: handleDrop_def Let_def)
qed (auto simp: prune_seed addPruneRule_def updatePruneRule_def removePruneRule_def updateOperation_def
    addOperation_def removeOperation_def updateCondition_def removeCondition_def updateReturnErrorDraft_def
    resetEditorState_def default_operation)

lemma run_seed: "run (editor_step clock t) ed es ed' \<Longrightarrow> ed_seed ed \<le> ed_seed ed'"
proof (induction rule: run.induct)
  case (run_Cons s e s' es s'')
  have "ed_seed s \<le> ed_seed s'" using run_Cons(1) handle_seed by (auto elim!: editor_step.cases)
  then show ?case using run_Cons by simp
qed simp

lemma prune_ops_absent: "i \<notin> po_id ` set ops \<Longrightarrow> prune_ops clock i upd s ops = (ops, s)"
  by (induction ops) auto

lemma prune_ops_distinct:
  "distinct (map po_id ops) \<Longrightarrow>
   fst (prune_ops clock i upd s ops) = on_op i (\<lambda>op. op\<lparr>po_value_text := buildPruneObjectsValueText
     (fst (upd (snd (parsePruneObjectsDraft clock s (po_value_text op)))
            (fst (parsePruneObjectsDraft clock s (po_value_text op)))))\<rparr>) ops"
proof (induction ops)
  case (Cons op ops)
  show ?case
  proof (cases "po_id op = i")
    case True
    then have "i \<notin> po_id ` set ops" using Cons.prems by auto
    then show ?thesis using True on_op_absent [of i ops]
      by (simp add: prune_ops_absent split_beta on_op_def)
  qed (use Cons in \<open>simp add: on_op_def\<close>)
qed (simp add: on_op_def)

lemma updatePrune_cong:
  assumes "distinct (map po_id (ed_operations ed))"
    and "\<And>v d s. parsePruneObjectsDraft clock (ed_seed ed) v = (d, s) \<Longrightarrow>
      buildPruneObjectsValueText (fst (f s d)) = buildPruneObjectsValueText (fst (g s d))"
  shows "ed_operations (updatePruneObjectsDraft clock i f ed) = ed_operations (updatePruneObjectsDraft clock i g ed)"
proof -
  have ops: "ed_operations (updatePruneObjectsDraft clock i h ed) =
      fst (prune_ops clock i h (ed_seed ed) (ed_operations ed))" for h
    by (simp add: updatePruneObjectsDraft_def split_beta)
  show ?thesis
    unfolding ops prune_ops_distinct [OF assms(1)] using assms(2)
    by (simp add: prod.collapse)
qed

text \<open>
  The rules of the prune editor cannot be edited.  Take the draft drawn at some moment
  and any later state: changing or deleting one of the drawn rules by its identifier rewrites the
  operations exactly as an update that changes nothing would, and adding a rule rewrites them exactly
  as switching to the advanced mode would, without a rule.
\<close>

theorem prune_rule_edits_lost:
  assumes "reachable (editor_init clock) (editor_step clock t) ed0"
    and "pruneObjectsDraft clock ed0 = (Some shown, ed1)" "run (editor_step clock t) ed1 es ed"
    and "r \<in> set (pd_rules shown)"
  shows "ed_operations (updatePruneRule clock i (pc_id r) p ed) =
       ed_operations (updatePruneObjectsDraft clock i (patch_draft (\<lambda>d. d)) ed) \<and>
     ed_operations (removePruneRule clock i (pc_id r) ed) =
       ed_operations (updatePruneObjectsDraft clock i (patch_draft (\<lambda>d. d)) ed) \<and>
     ed_operations (addPruneRule clock i ed) =
       ed_operations (updatePruneObjectsDraft clock i (patch_draft (\<lambda>d. d\<lparr>pd_simpleMode := False\<rparr>)) ed)"
proof -
  have step: "editor_step clock t ed0 EvDrawPrune ed1" by (rule handled) (simp_all add: assms(2))
  have "reachable (editor_init clock) (editor_step clock t) ed"
    using reachable_run [OF assms(3)] reachable.event [OF assms(1) step] by blast
  then have d: "distinct (map po_id (ed_operations ed))"
    using dialog.reachable_inv by (auto simp: editor_inv_def ops_inv_def fresh_ids_def intro: distinct_po_ids)
  obtain op :: ParamOverrideOperation where shown: "parsePruneObjectsDraft clock (ed_seed ed0) (po_value_text op) = (shown, ed_seed ed1)"
    using assms(2) by (auto simp: pruneObjectsDraft_def split: option.splits if_splits prod.splits)
  have old: "pc_id r \<in> local_id clock ` {..<ed_seed ed}"
  proof -
    have "pc_id r \<in> local_id clock ` {ed_seed ed0..<ed_seed ed1}"
      using parsePrune_seed [OF shown] assms(4) by (metis image_set imageI set_upt)
    then show ?thesis using run_seed [OF assms(3)] by auto
  qed
  have new: "pc_id r \<notin> pc_id ` set (pd_rules q)" if "parsePruneObjectsDraft clock (ed_seed ed) v = (q, s)" for v q s
  proof -
    have "pc_id ` set (pd_rules q) = local_id clock ` {ed_seed ed..<s}"
      using parsePrune_seed [OF that] by (metis image_set set_upt)
    then show ?thesis using old by auto
  qed
  then have upd: "update_rule (pc_id r) p q = q" and rem: "remove_rule (pc_id r) q = q"
    if "parsePruneObjectsDraft clock (ed_seed ed) v = (q, s)" for v q s
  proof -
    have "pc_id x \<noteq> pc_id r" if "x \<in> set (pd_rules q)" for x
      using that new [OF \<open>parsePruneObjectsDraft clock (ed_seed ed) v = (q, s)\<close>] by (metis imageI)
    then have "map (\<lambda>x. if pc_id x = pc_id r then patch_condition p x else x) (pd_rules q) = pd_rules q"
      "filter (\<lambda>x. pc_id x \<noteq> pc_id r) (pd_rules q) = pd_rules q"
      by (simp_all add: map_idI)
    then show "update_rule (pc_id r) p q = q" "remove_rule (pc_id r) q = q"
      by (simp_all add: update_rule_def remove_rule_def)
  qed
  have add: "buildPruneObjectsValueText (fst (add_rule clock s q)) =
      buildPruneObjectsValueText (q\<lparr>pd_simpleMode := False\<rparr>)" for s q
    by (simp add: add_rule_def normalizePruneRule_def buildPruneObjectsValueText_def prune_conditions_def
        str_prop_def js_prop_def Let_def)
  show ?thesis
    unfolding updatePruneRule_def removePruneRule_def addPruneRule_def
    using updatePrune_cong [OF d] upd rem add by (auto simp: patch_draft_def)
qed

definition prune_text :: jsstring where
  "prune_text = JSON_stringify (obj [(''operations'', JArr [obj [(''mode'', str ''prune_objects''),
     (''value'', obj [(''conditions'', JArr [obj [(''path'', str ''kind''), (''value'', str ''x'')]])])]])])"

definition prune_editor :: editor where
  "prune_editor = the (openDialog (\<lambda>n. 0) prune_text (editor_start (\<lambda>n. 0) 0))"

lemma prune_editor_shown:
  "openDialog (\<lambda>n. 0) prune_text (editor_start (\<lambda>n. 0) 0) \<noteq> None"
  "length (pd_rules (the (fst (pruneObjectsDraft (\<lambda>n. 0) prune_editor)))) = 1"
  "fst (pruneObjectsDraft (\<lambda>n. 0) prune_editor) \<noteq> None"
  by code_simp+

theorem prune_rule_edits_lost_witness:
  "\<exists>shown ed1. pruneObjectsDraft (\<lambda>n. 0) prune_editor = (Some shown, ed1) \<and> pd_rules shown \<noteq> [] \<and>
     ed_operations (removePruneRule (\<lambda>n. 0) (ed_selected ed1) (pc_id (hd (pd_rules shown))) ed1) =
       ed_operations (updatePruneObjectsDraft (\<lambda>n. 0) (ed_selected ed1) (patch_draft (\<lambda>d. d)) ed1)"
proof -
  obtain shown ed1 where shown: "pruneObjectsDraft (\<lambda>n. 0) prune_editor = (Some shown, ed1)"
    using prune_editor_shown(3) by (cases "pruneObjectsDraft (\<lambda>n. 0) prune_editor") auto
  have rules: "pd_rules shown \<noteq> []" using prune_editor_shown(2) shown by auto
  have "editor_step (\<lambda>n. 0) (\<lambda>m l. m) (editor_start (\<lambda>n. 0) 0) (EvOpen prune_text) prune_editor"
    using prune_editor_shown(1) by (intro handled) (auto simp: prune_editor_def)
  moreover have "reachable (editor_init (\<lambda>n. 0)) (editor_step (\<lambda>n. 0) (\<lambda>m l. m)) (editor_start (\<lambda>n. 0) 0)"
    by (rule reachable.start) (auto simp: editor_init_def)
  ultimately have "reachable (editor_init (\<lambda>n. 0)) (editor_step (\<lambda>n. 0) (\<lambda>m l. m)) prune_editor"
    by (blast intro: reachable.event)
  from prune_rule_edits_lost [OF this shown run_Nil, of "hd (pd_rules shown)"] shown rules show ?thesis
    by auto
qed

end
