(* ===== verification/PriceCatalogue.thy ===== *)
theory PriceCatalogue
  imports ModelPricing
begin

section \<open>The price catalogue\<close>

text \<open>
  The public page of models and prices: \<^verbatim>\<open>features/pricing/hooks/use-pricing-data.ts\<close> joins the models of the
  server with their vendors, \<^verbatim>\<open>hooks/use-filters.ts\<close> keeps the filters, \<^verbatim>\<open>lib/filters.ts\<close> selects and sorts,
  \<^verbatim>\<open>lib/price.ts\<close> and \<^verbatim>\<open>lib/dynamic-price.ts\<close> compute and print the prices.  Numbers are exact; the conversion to
  lower case and the comparison of the locale are arguments of the functions that use them.
\<close>

subsection \<open>Types and constants\<close>

datatype TokenUnit = UnitM | UnitK

datatype PriceType =
  InputPrice | OutputPrice | CachePrice | CreateCachePrice | ImagePrice | AudioInputPrice | AudioOutputPrice

record PricingVendor =
  vd_id :: rat
  vd_name :: jsstring
  vd_icon :: "jsstring option"
  vd_description :: "jsstring option"

text \<open>A model with the fields that the code below reads; the descriptive ones are left out.\<close>

record PricingModel =
  pm_id :: rat
  pm_model_name :: "jsstring option"
  pm_description :: "jsstring option"
  pm_vendor_id :: "rat option"
  pm_vendor_name :: "jsstring option"
  pm_vendor_icon :: "jsstring option"
  pm_vendor_description :: "jsstring option"
  pm_quota_type :: rat
  pm_model_ratio :: rat
  pm_completion_ratio :: rat
  pm_model_price :: "rat option"
  pm_cache_ratio :: "rat option"
  pm_create_cache_ratio :: "rat option"
  pm_image_ratio :: "rat option"
  pm_audio_ratio :: "rat option"
  pm_audio_completion_ratio :: "rat option"
  pm_enable_groups :: "jsstring list option"
  pm_tags :: "jsstring option"
  pm_supported_endpoint_types :: "jsstring list option"
  pm_key :: "jsstring option"
  pm_group_ratio :: "(jsstring \<times> rat) list option"
  pm_billing_mode :: "jsstring option"
  pm_billing_expr :: "jsstring option"

record PricingData =
  pd_data :: "PricingModel list option"
  pd_vendors :: "PricingVendor list option"
  pd_group_ratio :: "(jsstring \<times> rat) list option"

definition FILTER_ALL :: jsstring where "FILTER_ALL = js ''all''"
definition SORT_NAME :: jsstring where "SORT_NAME = js ''name''"
definition SORT_PRICE_LOW :: jsstring where "SORT_PRICE_LOW = js ''price-low''"
definition SORT_PRICE_HIGH :: jsstring where "SORT_PRICE_HIGH = js ''price-high''"
definition QUOTA_ALL :: jsstring where "QUOTA_ALL = js ''all''"
definition QUOTA_TOKEN :: jsstring where "QUOTA_TOKEN = js ''token''"
definition ENDPOINT_ALL :: jsstring where "ENDPOINT_ALL = js ''all''"
definition QUOTA_VALUE_TOKEN :: rat where "QUOTA_VALUE_TOKEN = 0"
definition QUOTA_VALUE_REQUEST :: rat where "QUOTA_VALUE_REQUEST = 1"
definition EXCLUDED_GROUPS :: "jsstring list" where "EXCLUDED_GROUPS = [[], js ''auto'']"

fun TOKEN_UNIT_DIVISORS :: "TokenUnit \<Rightarrow> rat" where
  "TOKEN_UNIT_DIVISORS UnitM = 1"
| "TOKEN_UNIT_DIVISORS UnitK = 1000"

subsection \<open>Filters\<close>

definition field_includes :: "(jsstring \<Rightarrow> jsstring) \<Rightarrow> jsstring \<Rightarrow> jsstring option \<Rightarrow> bool" where
  "field_includes lower lowerQuery v = (case v of None \<Rightarrow> False | Some s \<Rightarrow> str_includes (lower s) lowerQuery)"

definition filterBySearch :: "(jsstring \<Rightarrow> jsstring) \<Rightarrow> PricingModel list \<Rightarrow> jsstring \<Rightarrow> PricingModel list" where
  "filterBySearch lower models query =
     (if query = [] then models
      else let lowerQuery = lower query
           in filter (\<lambda>m. field_includes lower lowerQuery (pm_model_name m) \<or> field_includes lower lowerQuery (pm_description m) \<or>
                field_includes lower lowerQuery (pm_tags m) \<or> field_includes lower lowerQuery (pm_vendor_name m)) models)"

definition filterByVendor :: "PricingModel list \<Rightarrow> jsstring \<Rightarrow> PricingModel list" where
  "filterByVendor models vendor = (if vendor = FILTER_ALL then models else filter (\<lambda>m. pm_vendor_name m = Some vendor) models)"

definition lists_member :: "jsstring list option \<Rightarrow> jsstring \<Rightarrow> bool" where
  "lists_member v x = (case v of None \<Rightarrow> False | Some xs \<Rightarrow> x \<in> set xs)"

definition filterByGroup :: "PricingModel list \<Rightarrow> jsstring \<Rightarrow> PricingModel list" where
  "filterByGroup models grp =
     (if grp = FILTER_ALL then models else filter (\<lambda>m. lists_member (pm_enable_groups m) grp) models)"

definition filterByQuotaType :: "PricingModel list \<Rightarrow> jsstring \<Rightarrow> PricingModel list" where
  "filterByQuotaType models quotaType =
     (if quotaType = QUOTA_ALL then models
      else let targetType = (if quotaType = QUOTA_TOKEN then QUOTA_VALUE_TOKEN else QUOTA_VALUE_REQUEST)
           in filter (\<lambda>m. pm_quota_type m = targetType) models)"

definition filterByEndpointType :: "PricingModel list \<Rightarrow> jsstring \<Rightarrow> PricingModel list" where
  "filterByEndpointType models endpointType =
     (if endpointType = ENDPOINT_ALL then models
      else filter (\<lambda>m. lists_member (pm_supported_endpoint_types m) endpointType) models)"

definition getModelPrice :: "PricingModel \<Rightarrow> rat" where
  "getModelPrice model = (if pm_quota_type model = 0 then pm_model_ratio model else nullish (pm_model_price model) 0)"

text \<open>A comparator is used for the sign of its result only.\<close>

definition sign_of :: "rat \<Rightarrow> int" where
  "sign_of x = (if x < 0 then - 1 else if 0 < x then 1 else 0)"

definition name_compare :: "(jsstring \<Rightarrow> jsstring \<Rightarrow> int) \<Rightarrow> PricingModel \<Rightarrow> PricingModel \<Rightarrow> int" where
  "name_compare localeCompare a b = localeCompare (nullish (pm_model_name a) []) (nullish (pm_model_name b) [])"

definition sortModels :: "(jsstring \<Rightarrow> jsstring \<Rightarrow> int) \<Rightarrow> PricingModel list \<Rightarrow> jsstring \<Rightarrow> PricingModel list" where
  "sortModels localeCompare models sortBy =
     (if sortBy = SORT_NAME then js_sort (name_compare localeCompare) models
      else if sortBy = SORT_PRICE_LOW then js_sort (\<lambda>a b. sign_of (getModelPrice a - getModelPrice b)) models
      else if sortBy = SORT_PRICE_HIGH then js_sort (\<lambda>a b. sign_of (getModelPrice b - getModelPrice a)) models
      else models)"

text \<open>The pieces of a text between runs of separators.\<close>

function split_runs :: "('a \<Rightarrow> bool) \<Rightarrow> 'a list \<Rightarrow> 'a list list" where
  "split_runs p s =
     (let r = dropWhile (\<lambda>c. \<not> p c) s
      in takeWhile (\<lambda>c. \<not> p c) s # (if r = [] then [] else split_runs p (dropWhile p r)))"
  by auto
termination
proof (relation "measure (\<lambda>(p, s). length s)")
  fix p :: "'a \<Rightarrow> bool" and s r
  assume r: "r = dropWhile (\<lambda>c. \<not> p c) s" "r \<noteq> []"
  then have "p (hd r)" using hd_dropWhile by metis
  then have "length (dropWhile p r) < length r"
    using r(2) by (cases r) (auto simp: length_dropWhile_le le_imp_less_Suc)
  also have "\<dots> \<le> length s" unfolding r(1) by (rule length_dropWhile_le)
  finally show "((p, dropWhile p r), p, s) \<in> measure (\<lambda>(p, s). length s)" by simp
qed simp

declare split_runs.simps [simp del]

definition tag_separator :: "jschar \<Rightarrow> bool" where
  "tag_separator c \<longleftrightarrow> c = 44 \<or> c = 59 \<or> c = 124 \<or> is_ws c"

definition parseTags :: "jsstring option \<Rightarrow> jsstring list" where
  "parseTags tagsString =
     (if nullish tagsString [] = [] then [] else truthy_strs (map trim (split_runs tag_separator (nullish tagsString []))))"

definition extractAllTags :: "(jsstring \<Rightarrow> jsstring) \<Rightarrow> (jsstring \<Rightarrow> jsstring \<Rightarrow> int) \<Rightarrow> PricingModel list \<Rightarrow> jsstring list" where
  "extractAllTags lower localeCompare models =
     js_sort localeCompare (set_of (concat (map (\<lambda>model. map lower (parseTags (pm_tags model))) models)))"

definition filterByTag :: "(jsstring \<Rightarrow> jsstring) \<Rightarrow> PricingModel list \<Rightarrow> jsstring \<Rightarrow> PricingModel list" where
  "filterByTag lower models tag =
     (if tag = FILTER_ALL then models
      else let tagLower = lower tag
           in filter (\<lambda>m. if nullish (pm_tags m) [] = [] then False else tagLower \<in> set (map lower (parseTags (pm_tags m)))) models)"

record catalogue_filters =
  cf_search :: jsstring
  cf_vendor :: jsstring
  cf_group :: jsstring
  cf_quotaType :: jsstring
  cf_endpointType :: jsstring
  cf_tag :: jsstring
  cf_sortBy :: jsstring

definition filterAndSortModels ::
  "(jsstring \<Rightarrow> jsstring) \<Rightarrow> (jsstring \<Rightarrow> jsstring \<Rightarrow> int) \<Rightarrow> PricingModel list \<Rightarrow> catalogue_filters \<Rightarrow> PricingModel list" where
  "filterAndSortModels lower localeCompare models filters =
     (let result = filterBySearch lower models (cf_search filters);
          result = filterByVendor result (cf_vendor filters);
          result = filterByGroup result (cf_group filters);
          result = filterByQuotaType result (cf_quotaType filters);
          result = filterByEndpointType result (cf_endpointType filters);
          result = filterByTag lower result (cf_tag filters)
      in sortModels localeCompare result (cf_sortBy filters))"

subsection \<open>The filter state\<close>

text \<open>A key that is missing and one that is undefined read alike, so deleting the undefined keys is the identity here.\<close>

record FilterState =
  fs_search :: "jsstring option"
  fs_sort :: "jsstring option"
  fs_vendor :: "jsstring option"
  fs_group :: "jsstring option"
  fs_quotaType :: "jsstring option"
  fs_endpointType :: "jsstring option"
  fs_tag :: "jsstring option"
  fs_tokenUnit :: "TokenUnit option"
  fs_view :: "jsstring option"
  fs_rechargePrice :: "bool option"

definition or_text :: "jsstring option \<Rightarrow> jsstring \<Rightarrow> jsstring" where
  "or_text v d = (case v of None \<Rightarrow> d | Some s \<Rightarrow> if s = [] then d else s)"

definition searchInput :: "FilterState \<Rightarrow> jsstring" where "searchInput st = or_text (fs_search st) []"
definition sortBy :: "FilterState \<Rightarrow> jsstring" where "sortBy st = or_text (fs_sort st) SORT_NAME"
definition vendorFilter :: "FilterState \<Rightarrow> jsstring" where "vendorFilter st = or_text (fs_vendor st) FILTER_ALL"
definition groupFilter :: "FilterState \<Rightarrow> jsstring" where "groupFilter st = or_text (fs_group st) FILTER_ALL"
definition quotaTypeFilter :: "FilterState \<Rightarrow> jsstring" where "quotaTypeFilter st = or_text (fs_quotaType st) QUOTA_ALL"
definition endpointTypeFilter :: "FilterState \<Rightarrow> jsstring" where "endpointTypeFilter st = or_text (fs_endpointType st) ENDPOINT_ALL"
definition tagFilter :: "FilterState \<Rightarrow> jsstring" where "tagFilter st = or_text (fs_tag st) FILTER_ALL"
definition tokenUnit :: "FilterState \<Rightarrow> TokenUnit" where "tokenUnit st = (if fs_tokenUnit st = Some UnitK then UnitK else UnitM)"

definition normalizeViewMode :: "jsstring option \<Rightarrow> jsstring" where
  "normalizeViewMode v = (if v = Some (js ''table'') then js ''table'' else js ''card'')"

definition viewMode :: "FilterState \<Rightarrow> jsstring" where "viewMode st = normalizeViewMode (fs_view st)"
definition showRechargePrice :: "FilterState \<Rightarrow> bool" where "showRechargePrice st \<longleftrightarrow> fs_rechargePrice st = Some True"

definition unless_value :: "'a \<Rightarrow> 'a \<Rightarrow> 'a option" where
  "unless_value d v = (if v = d then None else Some v)"

definition setSearchInput :: "jsstring \<Rightarrow> FilterState \<Rightarrow> FilterState" where
  "setSearchInput v st = st\<lparr>fs_search := unless_value [] v\<rparr>"
definition setSortBy :: "jsstring \<Rightarrow> FilterState \<Rightarrow> FilterState" where
  "setSortBy v st = st\<lparr>fs_sort := unless_value SORT_NAME v\<rparr>"
definition setVendorFilter :: "jsstring \<Rightarrow> FilterState \<Rightarrow> FilterState" where
  "setVendorFilter v st = st\<lparr>fs_vendor := unless_value FILTER_ALL v\<rparr>"
definition setGroupFilter :: "jsstring \<Rightarrow> FilterState \<Rightarrow> FilterState" where
  "setGroupFilter v st = st\<lparr>fs_group := unless_value FILTER_ALL v\<rparr>"
definition setQuotaTypeFilter :: "jsstring \<Rightarrow> FilterState \<Rightarrow> FilterState" where
  "setQuotaTypeFilter v st = st\<lparr>fs_quotaType := unless_value QUOTA_ALL v\<rparr>"
definition setEndpointTypeFilter :: "jsstring \<Rightarrow> FilterState \<Rightarrow> FilterState" where
  "setEndpointTypeFilter v st = st\<lparr>fs_endpointType := unless_value ENDPOINT_ALL v\<rparr>"
definition setTagFilter :: "jsstring \<Rightarrow> FilterState \<Rightarrow> FilterState" where
  "setTagFilter v st = st\<lparr>fs_tag := unless_value FILTER_ALL v\<rparr>"
definition setTokenUnit :: "TokenUnit \<Rightarrow> FilterState \<Rightarrow> FilterState" where
  "setTokenUnit v st = st\<lparr>fs_tokenUnit := unless_value UnitM v\<rparr>"
definition setViewMode :: "jsstring \<Rightarrow> FilterState \<Rightarrow> FilterState" where
  "setViewMode v st = st\<lparr>fs_view := unless_value (js ''card'') v\<rparr>"
definition setShowRechargePrice :: "bool \<Rightarrow> FilterState \<Rightarrow> FilterState" where
  "setShowRechargePrice v st = st\<lparr>fs_rechargePrice := unless_value False v\<rparr>"

definition availableTags :: "(jsstring \<Rightarrow> jsstring) \<Rightarrow> (jsstring \<Rightarrow> jsstring \<Rightarrow> int) \<Rightarrow> PricingModel list \<Rightarrow> jsstring list" where
  "availableTags lower localeCompare models = (if models = [] then [] else extractAllTags lower localeCompare models)"

definition filteredModels ::
  "(jsstring \<Rightarrow> jsstring) \<Rightarrow> (jsstring \<Rightarrow> jsstring \<Rightarrow> int) \<Rightarrow> PricingModel list \<Rightarrow> FilterState \<Rightarrow> PricingModel list" where
  "filteredModels lower localeCompare models st =
     (if models = [] then []
      else filterAndSortModels lower localeCompare models
        \<lparr>cf_search = searchInput st, cf_vendor = vendorFilter st, cf_group = groupFilter st, cf_quotaType = quotaTypeFilter st,
         cf_endpointType = endpointTypeFilter st, cf_tag = tagFilter st, cf_sortBy = sortBy st\<rparr>)"

definition hasActiveFilters :: "FilterState \<Rightarrow> bool" where
  "hasActiveFilters st \<longleftrightarrow> vendorFilter st \<noteq> FILTER_ALL \<or> groupFilter st \<noteq> FILTER_ALL \<or> quotaTypeFilter st \<noteq> QUOTA_ALL \<or>
     endpointTypeFilter st \<noteq> ENDPOINT_ALL \<or> tagFilter st \<noteq> FILTER_ALL"

definition activeFilterCount :: "FilterState \<Rightarrow> nat" where
  "activeFilterCount st =
     (if vendorFilter st \<noteq> FILTER_ALL then 1 else 0) + (if groupFilter st \<noteq> FILTER_ALL then 1 else 0) +
     (if quotaTypeFilter st \<noteq> QUOTA_ALL then 1 else 0) + (if endpointTypeFilter st \<noteq> ENDPOINT_ALL then 1 else 0) +
     (if tagFilter st \<noteq> FILTER_ALL then 1 else 0)"

definition clearFilters :: "FilterState \<Rightarrow> FilterState" where
  "clearFilters st = st\<lparr>fs_vendor := None, fs_group := None, fs_quotaType := None, fs_endpointType := None, fs_tag := None\<rparr>"

definition clearSearch :: "FilterState \<Rightarrow> FilterState" where
  "clearSearch st = st\<lparr>fs_search := None\<rparr>"

subsection \<open>The data of the page\<close>

definition priceRate :: "rat option \<Rightarrow> rat" where
  "priceRate price = max (nullish price 1) (1 / 1000)"

definition usdExchangeRate :: "rat option \<Rightarrow> rat option \<Rightarrow> rat" where
  "usdExchangeRate rate price = max (nullish rate (priceRate price)) (1 / 1000)"

text \<open>A map built from pairs keeps the last vendor of an identifier.\<close>

definition vendor_of :: "PricingVendor list \<Rightarrow> rat \<Rightarrow> PricingVendor option" where
  "vendor_of vendors i = List.find (\<lambda>v. vd_id v = i) (rev vendors)"

definition join_vendor :: "PricingVendor list \<Rightarrow> (jsstring \<times> rat) list option \<Rightarrow> PricingModel \<Rightarrow> PricingModel" where
  "join_vendor vendors groupRatio model =
     (let vendor = (case pm_vendor_id model of None \<Rightarrow> None | Some i \<Rightarrow> if i = 0 then None else vendor_of vendors i)
      in model\<lparr>pm_key := pm_model_name model, pm_vendor_name := map_option vd_name vendor,
           pm_vendor_icon := Option.bind vendor vd_icon, pm_vendor_description := Option.bind vendor vd_description,
           pm_group_ratio := groupRatio\<rparr>)"

definition catalogue_models :: "PricingData option \<Rightarrow> PricingModel list" where
  "catalogue_models data =
     (case data of
        None \<Rightarrow> []
      | Some d \<Rightarrow> (case (pd_data d, pd_vendors d) of
                    (Some models, Some vendors) \<Rightarrow> map (join_vendor vendors (pd_group_ratio d)) models
                  | _ \<Rightarrow> []))"

definition getAvailableGroups :: "PricingModel \<Rightarrow> (jsstring \<times> 'v) list \<Rightarrow> jsstring list" where
  "getAvailableGroups model usableGroup =
     (let modelEnableGroups = nullish (pm_enable_groups model) []
      in filter (\<lambda>g. g \<in> set modelEnableGroups) (filter (\<lambda>g. g \<notin> set EXCLUDED_GROUPS) (map fst usableGroup)))"

definition isTokenBasedModel :: "PricingModel \<Rightarrow> bool" where
  "isTokenBasedModel model \<longleftrightarrow> pm_quota_type model = QUOTA_VALUE_TOKEN"

subsection \<open>Prices\<close>

text \<open>The result of an operation on numbers: a finite number, an infinity with its sign, or not a number.\<close>

datatype fnum = Fin rat | Infinite bool | NotNumber

fun fmult :: "fnum \<Rightarrow> rat \<Rightarrow> fnum" where
  "fmult (Fin x) r = Fin (x * r)"
| "fmult (Infinite neg) r = (if r = 0 then NotNumber else Infinite (neg \<noteq> (r < 0)))"
| "fmult NotNumber r = NotNumber"

fun fdivide :: "fnum \<Rightarrow> rat \<Rightarrow> fnum" where
  "fdivide (Fin x) r = (if r \<noteq> 0 then Fin (x / r) else if x = 0 then NotNumber else Infinite (x < 0))"
| "fdivide (Infinite neg) r = Infinite (neg \<noteq> (r < 0))"
| "fdivide NotNumber r = NotNumber"

text \<open>\<^verbatim>\<open>replace(/\.?0+$/, '')\<close>: the zeros at the end and a point before them.\<close>

definition strip_zero_suffix :: "jsstring \<Rightarrow> jsstring" where
  "strip_zero_suffix s =
     (let t = strip_zeros s in if t = s then s else if t \<noteq> [] \<and> last t = 46 then butlast t else t)"

definition formatPlainNumber :: "fnum \<Rightarrow> nat \<Rightarrow> nat \<Rightarrow> jsstring" where
  "formatPlainNumber v digitsLarge digitsSmall =
     (case v of
        Fin x \<Rightarrow> let digits = (if \<bar>x\<bar> \<ge> 1 then digitsLarge else digitsSmall) in strip_zero_suffix (toFixed digits x)
      | _ \<Rightarrow> js ''-'')"

definition min_ratio_step :: "(jsstring \<times> rat) list \<Rightarrow> rat option \<Rightarrow> jsstring \<Rightarrow> rat option" where
  "min_ratio_step groupRatio minRatio grp =
     (case obj_get groupRatio grp of
        None \<Rightarrow> minRatio
      | Some ratio \<Rightarrow> (case minRatio of None \<Rightarrow> Some ratio | Some m \<Rightarrow> if ratio < m then Some ratio else minRatio))"

text \<open>\<open>None\<close> stands for the positive infinity that the search starts with.\<close>

definition getMinGroupRatio :: "jsstring list \<Rightarrow> (jsstring \<times> rat) list \<Rightarrow> rat" where
  "getMinGroupRatio enableGroups groupRatio =
     (if enableGroups = [] then 1 else nullish (foldl (min_ratio_step groupRatio) None enableGroups) 1)"

definition ratio_price :: "rat \<Rightarrow> rat option \<Rightarrow> fnum" where
  "ratio_price base r = (case r of None \<Rightarrow> NotNumber | Some x \<Rightarrow> Fin (base * x))"

definition calculateTokenPrice :: "PricingModel \<Rightarrow> PriceType \<Rightarrow> rat \<Rightarrow> fnum" where
  "calculateTokenPrice model type ratio =
     (let base = pm_model_ratio model * 2 * ratio in
      case type of
        InputPrice \<Rightarrow> Fin base
      | OutputPrice \<Rightarrow> Fin (base * pm_completion_ratio model)
      | CachePrice \<Rightarrow> ratio_price base (pm_cache_ratio model)
      | CreateCachePrice \<Rightarrow> ratio_price base (pm_create_cache_ratio model)
      | ImagePrice \<Rightarrow> ratio_price base (pm_image_ratio model)
      | AudioInputPrice \<Rightarrow> ratio_price base (pm_audio_ratio model)
      | AudioOutputPrice \<Rightarrow>
          (case (pm_audio_ratio model, pm_audio_completion_ratio model) of
             (Some a, Some ac) \<Rightarrow> Fin (base * a * ac)
           | _ \<Rightarrow> NotNumber))"

definition applyRechargeRate :: "fnum \<Rightarrow> bool \<Rightarrow> rat \<Rightarrow> rat \<Rightarrow> fnum" where
  "applyRechargeRate price showWithRecharge rate usdRate =
     (if \<not> showWithRecharge then price else fdivide (fmult price rate) usdRate)"

definition min_ratio_of :: "PricingModel \<Rightarrow> rat" where
  "min_ratio_of model = getMinGroupRatio (nullish (pm_enable_groups model) []) (nullish (pm_group_ratio model) [])"

definition formatPrice :: "PricingModel \<Rightarrow> PriceType \<Rightarrow> TokenUnit \<Rightarrow> bool \<Rightarrow> rat \<Rightarrow> rat \<Rightarrow> jsstring" where
  "formatPrice model type unit showWithRecharge rate usdRate =
     (if pm_quota_type model = QUOTA_VALUE_REQUEST then js ''-''
      else let minRatio = min_ratio_of model;
               priceInUSD = applyRechargeRate (calculateTokenPrice model type minRatio) showWithRecharge rate usdRate;
               price = fdivide priceInUSD (TOKEN_UNIT_DIVISORS unit)
           in formatPlainNumber price 4 6)"

text \<open>\<open>groupRatio[group] || 1\<close>\<close>

definition ratio_or_one :: "(jsstring \<times> rat) list \<Rightarrow> jsstring \<Rightarrow> rat" where
  "ratio_or_one groupRatio grp =
     (case obj_get groupRatio grp of None \<Rightarrow> 1 | Some r \<Rightarrow> if r = 0 then 1 else r)"

definition formatGroupPrice ::
  "PricingModel \<Rightarrow> jsstring \<Rightarrow> PriceType \<Rightarrow> TokenUnit \<Rightarrow> bool \<Rightarrow> rat \<Rightarrow> rat \<Rightarrow> (jsstring \<times> rat) list \<Rightarrow> jsstring" where
  "formatGroupPrice model grp type unit showWithRecharge rate usdRate groupRatio =
     (if pm_quota_type model = QUOTA_VALUE_REQUEST then js ''-''
      else let ratio = ratio_or_one groupRatio grp;
               priceInUSD = applyRechargeRate (calculateTokenPrice model type ratio) showWithRecharge rate usdRate;
               price = fdivide priceInUSD (TOKEN_UNIT_DIVISORS unit)
           in formatPlainNumber price 4 6)"

definition formatFixedPrice ::
  "PricingModel \<Rightarrow> jsstring \<Rightarrow> bool \<Rightarrow> rat \<Rightarrow> rat \<Rightarrow> (jsstring \<times> rat) list \<Rightarrow> jsstring" where
  "formatFixedPrice model grp showWithRecharge rate usdRate groupRatio =
     (if pm_quota_type model \<noteq> QUOTA_VALUE_REQUEST then js ''-''
      else let ratio = ratio_or_one groupRatio grp;
               priceInUSD = applyRechargeRate (Fin (nullish (pm_model_price model) 0 * ratio)) showWithRecharge rate usdRate
           in formatPlainNumber priceInUSD 4 4)"

definition formatRequestPrice :: "PricingModel \<Rightarrow> bool \<Rightarrow> rat \<Rightarrow> rat \<Rightarrow> jsstring" where
  "formatRequestPrice model showWithRecharge rate usdRate =
     (if pm_quota_type model \<noteq> QUOTA_VALUE_REQUEST then js ''-''
      else let minRatio = min_ratio_of model;
               priceInUSD = applyRechargeRate (Fin (nullish (pm_model_price model) 0 * minRatio)) showWithRecharge rate usdRate
           in formatPlainNumber priceInUSD 4 4)"

subsection \<open>Dynamic prices\<close>

record DynamicPriceOptions =
  do_tokenUnit :: TokenUnit
  do_showRechargePrice :: "bool option"
  do_priceRate :: "rat option"
  do_usdExchangeRate :: "rat option"
  do_groupRatioMultiplier :: "rat option"

record DynamicPriceEntry =
  de_key :: jsstring
  de_field :: jsstring
  de_label :: jsstring
  de_shortLabel :: jsstring
  de_value :: rat
  de_formatted :: jsstring
  de_variable :: BillingVar

record DynamicPricingSummary =
  dy_tiers :: "ParsedTier list"
  dy_tier :: "ParsedTier option"
  dy_tierCount :: nat
  dy_hasRequestRules :: bool
  dy_isSpecialExpression :: bool
  dy_rawExpression :: jsstring
  dy_entries :: "DynamicPriceEntry list"
  dy_primaryEntries :: "DynamicPriceEntry list"
  dy_secondaryEntries :: "DynamicPriceEntry list"

definition PRIMARY_DYNAMIC_FIELDS :: "jsstring list" where
  "PRIMARY_DYNAMIC_FIELDS = [js ''inputPrice'', js ''outputPrice'']"

definition isDynamicPricingModel :: "PricingModel \<Rightarrow> bool" where
  "isDynamicPricingModel model \<longleftrightarrow> pm_billing_mode model = Some (js ''tiered_expr'') \<and> nullish (pm_billing_expr model) [] \<noteq> []"

definition getDynamicDisplayGroupRatio :: "PricingModel \<Rightarrow> rat" where
  "getDynamicDisplayGroupRatio model =
     (let groups = nullish (pm_enable_groups model) []; ratios = nullish (pm_group_ratio model) []
      in if groups = [] then 1 else nullish (foldl (min_ratio_step ratios) None groups) 1)"

definition dynamicRechargeRate :: "fnum \<Rightarrow> bool \<Rightarrow> rat \<Rightarrow> rat \<Rightarrow> fnum" where
  "dynamicRechargeRate price showWithRecharge rate usdRate =
     (if \<not> showWithRecharge then price else fdivide (fmult price rate) usdRate)"

text \<open>\<open>toFixed\<close> of a number that is not finite is its name.\<close>

definition fnum_fixed :: "fnum \<Rightarrow> jsstring" where
  "fnum_fixed v =
     (case v of
        Fin x \<Rightarrow> toFixed (if \<bar>x\<bar> \<ge> 1 then 4 else 6) x
      | Infinite neg \<Rightarrow> (if neg then js ''-Infinity'' else js ''Infinity'')
      | NotNumber \<Rightarrow> js ''NaN'')"

definition formatDynamicUnitPrice :: "rat \<Rightarrow> DynamicPriceOptions \<Rightarrow> jsstring" where
  "formatDynamicUnitPrice valuePerMillionTokens options =
     (let groupRatio = nullish (do_groupRatioMultiplier options) 1;
          rate = nullish (do_priceRate options) 1;
          usdRate = nullish (do_usdExchangeRate options) 1;
          priceUSD = Fin (valuePerMillionTokens * groupRatio / TOKEN_UNIT_DIVISORS (do_tokenUnit options));
          displayPrice = dynamicRechargeRate priceUSD (nullish (do_showRechargePrice options) False) rate usdRate
      in strip_zero_suffix (fnum_fixed displayPrice))"

definition getDynamicPricingTiers :: "PricingModel \<Rightarrow> js_error + ParsedTier list" where
  "getDynamicPricingTiers model =
     (if \<not> isDynamicPricingModel model then Inr []
      else case splitBillingExprAndRequestRules (nullish (pm_billing_expr model) []) of
             Inl e \<Rightarrow> Inl e
           | Inr s \<Rightarrow> Inr (parseTiersFromExpr (billingExpr s)))"

definition hasDynamicRequestRules :: "PricingModel \<Rightarrow> js_error + bool" where
  "hasDynamicRequestRules model =
     (if \<not> isDynamicPricingModel model then Inr False
      else case splitBillingExprAndRequestRules (nullish (pm_billing_expr model) []) of
             Inl e \<Rightarrow> Inl e
           | Inr s \<Rightarrow> (case tryParseRequestRuleExpr (requestRuleExpr s) of
                        Inl e \<Rightarrow> Inl e
                      | Inr groups \<Rightarrow> Inr (case groups of Some (g # gs) \<Rightarrow> True | _ \<Rightarrow> False)))"

definition price_entry :: "ParsedTier \<Rightarrow> DynamicPriceOptions \<Rightarrow> BillingVar \<Rightarrow> DynamicPriceEntry list" where
  "price_entry tier options variable =
     (case bv_field variable of
        None \<Rightarrow> []
      | Some fld \<Rightarrow>
          (case obj_get (pt_prices tier) fld of
             None \<Rightarrow> []
           | Some v \<Rightarrow>
               if v \<le> 0 then []
               else [\<lparr>de_key = bv_key variable, de_field = fld, de_label = bv_label variable, de_shortLabel = bv_shortLabel variable,
                      de_value = v, de_formatted = formatDynamicUnitPrice v options, de_variable = variable\<rparr>]))"

definition is_primary :: "DynamicPriceEntry \<Rightarrow> bool" where
  "is_primary entry \<longleftrightarrow> de_field entry \<in> set PRIMARY_DYNAMIC_FIELDS"

definition primary_compare :: "DynamicPriceEntry \<Rightarrow> DynamicPriceEntry \<Rightarrow> int" where
  "primary_compare a b = (if is_primary a \<noteq> is_primary b then if is_primary a then - 1 else 1 else 0)"

definition getDynamicPriceEntries :: "ParsedTier option \<Rightarrow> DynamicPriceOptions \<Rightarrow> DynamicPriceEntry list" where
  "getDynamicPriceEntries tier options =
     (case tier of
        None \<Rightarrow> []
      | Some t \<Rightarrow> js_sort primary_compare (concat (map (price_entry t options) BILLING_PRICING_VARS)))"

definition getDynamicPricingSummary :: "PricingModel \<Rightarrow> DynamicPriceOptions \<Rightarrow> js_error + DynamicPricingSummary option" where
  "getDynamicPricingSummary model options =
     (if \<not> isDynamicPricingModel model then Inr None
      else case getDynamicPricingTiers model of
             Inl e \<Rightarrow> Inl e
           | Inr tiers \<Rightarrow>
               (let tier = (case tiers of [] \<Rightarrow> None | t # _ \<Rightarrow> Some t);
                    entries = getDynamicPriceEntries tier options;
                    rawExpression = nullish (pm_billing_expr model) []
                in case hasDynamicRequestRules model of
                     Inl e \<Rightarrow> Inl e
                   | Inr rules \<Rightarrow>
                       Inr (Some \<lparr>dy_tiers = tiers, dy_tier = tier, dy_tierCount = length tiers, dy_hasRequestRules = rules,
                         dy_isSpecialExpression = (trim rawExpression \<noteq> [] \<and> tiers = []), dy_rawExpression = rawExpression,
                         dy_entries = entries, dy_primaryEntries = filter is_primary entries,
                         dy_secondaryEntries = filter (\<lambda>entry. \<not> is_primary entry) entries\<rparr>)))"

subsection \<open>Selecting and sorting\<close>

text \<open>What the page shows: the models that match every filter, in the order of the chosen option.\<close>

definition search_matches :: "(jsstring \<Rightarrow> jsstring) \<Rightarrow> jsstring \<Rightarrow> PricingModel \<Rightarrow> bool" where
  "search_matches lower q m \<longleftrightarrow> q = [] \<or>
     (\<exists>v\<in>{pm_model_name m, pm_description m, pm_tags m, pm_vendor_name m}. field_includes lower (lower q) v)"

definition matches :: "(jsstring \<Rightarrow> jsstring) \<Rightarrow> catalogue_filters \<Rightarrow> PricingModel \<Rightarrow> bool" where
  "matches lower f m \<longleftrightarrow> search_matches lower (cf_search f) m \<and>
     (cf_vendor f = js ''all'' \<or> pm_vendor_name m = Some (cf_vendor f)) \<and>
     (cf_group f = js ''all'' \<or> lists_member (pm_enable_groups m) (cf_group f)) \<and>
     (cf_quotaType f = js ''all'' \<or> pm_quota_type m = (if cf_quotaType f = js ''token'' then 0 else 1)) \<and>
     (cf_endpointType f = js ''all'' \<or> lists_member (pm_supported_endpoint_types m) (cf_endpointType f)) \<and>
     (cf_tag f = js ''all'' \<or> lower (cf_tag f) \<in> lower ` set (parseTags (pm_tags m)))"

definition rank_compare :: "(jsstring \<Rightarrow> jsstring \<Rightarrow> int) \<Rightarrow> jsstring \<Rightarrow> PricingModel \<Rightarrow> PricingModel \<Rightarrow> int" where
  "rank_compare localeCompare order a b =
     (if order = js ''name'' then name_compare localeCompare a b
      else if order = js ''price-low'' then sign_of (getModelPrice a - getModelPrice b)
      else if order = js ''price-high'' then sign_of (getModelPrice b - getModelPrice a) else 0)"

definition page_filters :: "FilterState \<Rightarrow> catalogue_filters" where
  "page_filters st = \<lparr>cf_search = searchInput st, cf_vendor = vendorFilter st, cf_group = groupFilter st,
     cf_quotaType = quotaTypeFilter st, cf_endpointType = endpointTypeFilter st, cf_tag = tagFilter st, cf_sortBy = sortBy st\<rparr>"

lemma parseTags_empty: "nullish v [] = [] \<Longrightarrow> parseTags v = []"
  by (simp add: parseTags_def)

lemmas catalogue_constants = FILTER_ALL_def QUOTA_ALL_def QUOTA_TOKEN_def ENDPOINT_ALL_def QUOTA_VALUE_TOKEN_def
  QUOTA_VALUE_REQUEST_def SORT_NAME_def SORT_PRICE_LOW_def SORT_PRICE_HIGH_def

lemma filter_stages:
  "filterBySearch lower models q = filter (search_matches lower q) models"
  "filterByVendor models v = filter (\<lambda>m. v = js ''all'' \<or> pm_vendor_name m = Some v) models"
  "filterByGroup models g = filter (\<lambda>m. g = js ''all'' \<or> lists_member (pm_enable_groups m) g) models"
  "filterByQuotaType models t = filter (\<lambda>m. t = js ''all'' \<or> pm_quota_type m = (if t = js ''token'' then 0 else 1)) models"
  "filterByEndpointType models e = filter (\<lambda>m. e = js ''all'' \<or> lists_member (pm_supported_endpoint_types m) e) models"
  "filterByTag lower models tag =
     filter (\<lambda>m. tag = js ''all'' \<or> lower tag \<in> lower ` set (parseTags (pm_tags m))) models"
  by (auto simp: filterBySearch_def search_matches_def filterByVendor_def filterByGroup_def filterByQuotaType_def
      filterByEndpointType_def filterByTag_def catalogue_constants Let_def parseTags_empty intro!: filter_cong)

lemma sortModels_eq: "sortModels lc models order = js_sort (rank_compare lc order) models"
proof -
  have "rank_compare lc order =
    (if order = js ''name'' then name_compare lc
     else if order = js ''price-low'' then (\<lambda>a b. sign_of (getModelPrice a - getModelPrice b))
     else if order = js ''price-high'' then (\<lambda>a b. sign_of (getModelPrice b - getModelPrice a)) else (\<lambda>a b. 0))"
    by (auto simp: rank_compare_def fun_eq_iff)
  then show ?thesis by (simp add: sortModels_def catalogue_constants)
qed

lemma filterAndSort_eq:
  "filterAndSortModels lower lc models f = js_sort (rank_compare lc (cf_sortBy f)) (filter (matches lower f) models)"
  unfolding filterAndSortModels_def filter_stages sortModels_eq Let_def filter_filter matches_def [abs_def]
  by (rule arg_cong [where f = "js_sort _"], rule filter_cong) auto

lemma filteredModels_eq:
  "filteredModels lower lc models st = js_sort (rank_compare lc (sortBy st)) (filter (matches lower (page_filters st)) models)"
  by (simp add: filteredModels_def filterAndSort_eq page_filters_def js_sort_def)

lemma sign_of_simps: "sign_of x < 0 \<longleftrightarrow> x < 0" "0 < sign_of x \<longleftrightarrow> 0 < x" "sign_of x \<le> 0 \<longleftrightarrow> x \<le> 0"
  by (auto simp: sign_of_def)

lemma comparator_rank: "comparator lc \<Longrightarrow> comparator (rank_compare lc order)"
  unfolding comparator_def rank_compare_def name_compare_def by (simp add: sign_of_simps)

text \<open>The specification: a list is the stable arrangement of the wanted elements of another.\<close>

definition arranges :: "('a \<Rightarrow> 'a \<Rightarrow> int) \<Rightarrow> ('a \<Rightarrow> bool) \<Rightarrow> 'a list \<Rightarrow> 'a list \<Rightarrow> bool" where
  "arranges cmp wanted xs ys \<longleftrightarrow> mset ys = filter_mset wanted (mset xs) \<and> sorted_wrt (\<lambda>a b. cmp a b \<le> 0) ys \<and>
     (\<forall>x. filter (\<lambda>y. cmp x y = 0) ys = filter (\<lambda>y. wanted y \<and> cmp x y = 0) xs)"

text \<open>
  Claim C19.  The page shows what its filters say: the list that is computed by six successive filters and a sort holds
  exactly the models that match the search and every filter of the state, each as often as the server sent it, ordered by the
  chosen option, and models that the order does not tell apart stay in the order of the server.
\<close>

theorem catalogue_view:
  assumes "comparator lc"
  shows "arranges (rank_compare lc (sortBy st)) (matches lower (page_filters st)) models (filteredModels lower lc models st)"
  using sorted_js_sort [OF comparator_rank [OF assms]] stable_js_sort [OF comparator_rank [OF assms]]
  by (simp add: arranges_def filteredModels_eq conj_commute)

subsection \<open>Tags\<close>

lemma parseTags_member: "t \<in> set (parseTags v) \<Longrightarrow> t \<noteq> []"
  by (auto simp: parseTags_def truthy_strs_def split: if_splits)

lemma available_tags: "t \<in> set (availableTags lower lc models) \<longleftrightarrow> (\<exists>m\<in>set models. t \<in> lower ` set (parseTags (pm_tags m)))"
  by (auto simp: availableTags_def extractAllTags_def)

lemma tag_read_back: "t \<noteq> [] \<Longrightarrow> tagFilter (setTagFilter t st) = t"
  by (simp add: tagFilter_def setTagFilter_def unless_value_def or_text_def FILTER_ALL_def)

text \<open>
  Every tag that is offered selects exactly the models that have it, and at least one, provided that it is not called
  ``all'', which is the value for no filter.
\<close>

theorem offered_tags_select:
  assumes "\<And>s. lower (lower s) = lower s" "t \<in> set (availableTags lower lc models)" "t \<notin> {[], js ''all''}"
    and "st' = setTagFilter t (clearFilters (clearSearch st))"
  shows "set (filteredModels lower lc models st') = {m \<in> set models. t \<in> lower ` set (parseTags (pm_tags m))} \<and>
    filteredModels lower lc models st' \<noteq> []"
proof -
  have l: "lower t = t" using assms(1,2) unfolding available_tags by force
  have f: "page_filters st' = \<lparr>cf_search = [], cf_vendor = js ''all'', cf_group = js ''all'', cf_quotaType = js ''all'',
     cf_endpointType = js ''all'', cf_tag = t, cf_sortBy = sortBy st\<rparr>"
    using assms(3,4) tag_read_back [of t]
    by (simp add: page_filters_def clearFilters_def clearSearch_def setTagFilter_def or_text_def searchInput_def vendorFilter_def
      groupFilter_def quotaTypeFilter_def endpointTypeFilter_def sortBy_def catalogue_constants)
  have "matches lower (page_filters st') m \<longleftrightarrow> t \<in> lower ` set (parseTags (pm_tags m))" for m
    using assms(3) l by (simp add: f matches_def search_matches_def)
  then have s: "set (filteredModels lower lc models st') = {m \<in> set models. t \<in> lower ` set (parseTags (pm_tags m))}"
    by (simp add: filteredModels_eq)
  moreover have "\<dots> \<noteq> {}" using assms(2) unfolding available_tags by blast
  ultimately show ?thesis by force
qed

subsection \<open>The filter state\<close>

lemma count_active: "hasActiveFilters st \<longleftrightarrow> 0 < activeFilterCount st"
  by (simp add: hasActiveFilters_def activeFilterCount_def)

theorem clear_filters:
  "hasActiveFilters st = (0 < activeFilterCount st) \<and> activeFilterCount (clearFilters st) = 0 \<and>
   filteredModels lower lc models (clearFilters st) = sortModels lc (filterBySearch lower models (searchInput st)) (sortBy st)"
proof -
  have "page_filters (clearFilters st) = \<lparr>cf_search = searchInput st, cf_vendor = js ''all'', cf_group = js ''all'',
     cf_quotaType = js ''all'', cf_endpointType = js ''all'', cf_tag = js ''all'', cf_sortBy = sortBy st\<rparr>" "sortBy (clearFilters st) = sortBy st"
    by (simp_all add: page_filters_def clearFilters_def or_text_def searchInput_def vendorFilter_def tagFilter_def
      groupFilter_def quotaTypeFilter_def endpointTypeFilter_def sortBy_def catalogue_constants)
  then show ?thesis
    using count_active
    by (auto simp: filteredModels_eq sortModels_eq filter_stages matches_def [abs_def] activeFilterCount_def clearFilters_def
      vendorFilter_def tagFilter_def groupFilter_def quotaTypeFilter_def endpointTypeFilter_def or_text_def)
qed

subsection \<open>The smallest ratio\<close>

text \<open>Both copies of the search compute the smallest ratio that is known for a group of the model.\<close>

definition known_ratios :: "jsstring list \<Rightarrow> (jsstring \<times> rat) list \<Rightarrow> rat list" where
  "known_ratios groups ratios = List.map_filter (obj_get ratios) groups"

lemma min_ratio_simps:
  "obj_get ratios g = None \<Longrightarrow> min_ratio_step ratios acc g = acc"
  "obj_get ratios g = Some r \<Longrightarrow> min_ratio_step ratios None g = Some r"
  "obj_get ratios g = Some r \<Longrightarrow> min_ratio_step ratios (Some m) g = Some (min m r)"
  by (simp_all add: min_ratio_step_def min_def)

lemma min_ratio_fold:
  "foldl (min_ratio_step ratios) (Some m) groups = Some (foldl min m (known_ratios groups ratios))"
  "foldl (min_ratio_step ratios) None groups =
     (case known_ratios groups ratios of [] \<Rightarrow> None | r # rs \<Rightarrow> Some (foldl min r rs))"
proof -
  show 1: "foldl (min_ratio_step ratios) (Some m) groups = Some (foldl min m (known_ratios groups ratios))" for m groups
  proof (induction groups arbitrary: m)
    case (Cons g groups)
    then show ?case by (cases "obj_get ratios g") (simp_all add: min_ratio_simps known_ratios_def List.map_filter_simps)
  qed (simp add: known_ratios_def List.map_filter_simps)
  show "foldl (min_ratio_step ratios) None groups =
     (case known_ratios groups ratios of [] \<Rightarrow> None | r # rs \<Rightarrow> Some (foldl min r rs))"
  proof (induction groups)
    case (Cons g groups)
    then show ?case by (cases "obj_get ratios g") (simp_all add: min_ratio_simps 1 known_ratios_def List.map_filter_simps)
  qed (simp add: known_ratios_def List.map_filter_simps)
qed

lemma foldl_min: "foldl min m rs = Min (set (m # rs))" for m :: rat
proof (induction rs arbitrary: m)
  case (Cons r rs)
  then show ?case by (cases "rs = []") (simp_all add: min.assoc)
qed simp

lemma getMinGroupRatio_eq:
  "getMinGroupRatio groups ratios = (if known_ratios groups ratios = [] then 1 else Min (set (known_ratios groups ratios)))"
  by (auto simp: getMinGroupRatio_def min_ratio_fold foldl_min known_ratios_def List.map_filter_simps split: list.split)

lemma dynamic_ratio: "getDynamicDisplayGroupRatio model = min_ratio_of model"
  by (simp add: getDynamicDisplayGroupRatio_def min_ratio_of_def getMinGroupRatio_def Let_def)

subsection \<open>Printed prices\<close>

lemma strip_zeros_point: "strip_zeros (u @ 46 # fs) = u @ 46 # strip_zeros fs"
proof -
  have "dropWhile (\<lambda>c. c = 48) (rev fs @ 46 # rev u) = dropWhile (\<lambda>c. c = 48) (rev fs) @ 46 # rev u" for fs u :: jsstring
    by (induction fs rule: rev_induct) auto
  then show ?thesis by (simp add: strip_zeros_def)
qed

lemma strip_suffix_layout:
  assumes "fs \<noteq> []" "\<forall>c\<in>set fs. is_digit c"
  shows "strip_zero_suffix (u @ layout a fs None) = u @ layout a (strip_zeros fs) None"
proof -
  have l: "u @ layout a fs None = (u @ a) @ 46 # fs" using assms(1) by (simp add: layout_def exponent_str_def)
  obtain n where n: "fs = strip_zeros fs @ replicate n 48" using strip_zeros by blast
  have "c \<noteq> 46" if "c \<in> set (strip_zeros fs)" for c
  proof -
    have "c \<in> set fs" using that by (subst n) simp
    then show ?thesis using assms(2) by (auto simp: is_digit_def)
  qed
  then have "strip_zeros fs \<noteq> [] \<Longrightarrow> last (strip_zeros fs) \<noteq> 46" by simp
  then show ?thesis
    using assms(1) unfolding strip_zero_suffix_def l strip_zeros_point
    by (auto simp: layout_def exponent_str_def Let_def butlast_append)
qed

lemma strip_layout:
  assumes "good_layout a fs"
  shows "good_layout a (strip_zeros fs)" "layout_val a (strip_zeros fs) None = layout_val a fs None"
proof -
  obtain n where n: "fs = strip_zeros fs @ replicate n 48" using strip_zeros by blast
  define g where "g = strip_zeros fs"
  have fs: "fs = g @ replicate n 48" using n g_def by simp
  show "good_layout a (strip_zeros fs)" using assms unfolding g_def [symmetric] by (simp add: good_layout_def fs)
  have z: "digits_val (ds @ replicate n 48) = digits_val ds * 10 ^ n" for ds by (simp add: digits_val_append)
  have "digits_val (a @ fs) = digits_val (a @ g) * 10 ^ n" using z [of "a @ g"] by (simp add: fs)
  moreover have "pow10 (- int (length g)) = 10 ^ n * pow10 (- int (length fs))"
    using pow10_add [of "int n" "- int (length fs)"] by (simp add: fs)
  ultimately show "layout_val a (strip_zeros fs) None = layout_val a fs None"
    unfolding g_def [symmetric] by (simp add: layout_val_def mult_ac)
qed

text \<open>A printed price reads as the rounded number.\<close>

lemma stripped_price:
  assumes "0 < f" "\<bar>x\<bar> < 10 ^ 21"
  shows "parse_float (strip_zero_suffix (toFixed f x)) = Some (fixed_val f x)"
proof -
  obtain a fs where l: "good_layout a fs" "fs \<noteq> []" "layout_val a fs None = \<bar>fixed_val f x\<bar>"
    "to_fixed f x = (if x < 0 then 45 # layout a fs None else layout a fs None)"
    using to_fixed_layout [OF assms(1), of x] by blast
  have d: "\<forall>c\<in>set fs. is_digit c" using l(1) by (simp add: good_layout_def)
  have "strip_zero_suffix (toFixed f x) = (if x < 0 then 45 # layout a (strip_zeros fs) None else layout a (strip_zeros fs) None)"
    using strip_suffix_layout [OF l(2) d, of "[45]" a] strip_suffix_layout [OF l(2) d, of "[]" a] assms(2) l(4) by (simp add: toFixed_def)
  moreover have "x < 0 \<Longrightarrow> \<bar>fixed_val f x\<bar> = - fixed_val f x" "\<not> x < 0 \<Longrightarrow> \<bar>fixed_val f x\<bar> = fixed_val f x"
    by (simp_all add: fixed_val_def)
  ultimately show ?thesis using parse_layout [OF strip_layout(1) [OF l(1)]] strip_layout(2) [OF l(1)] l(3) by simp
qed

lemma plain_number_near:
  assumes "\<bar>x\<bar> < 10 ^ 21" "0 < d" "0 < e"
  shows "\<exists>v. parse_float (formatPlainNumber (Fin x) d e) = Some v \<and> \<bar>v - x\<bar> \<le> 1 / (2 * 10 ^ (if 1 \<le> \<bar>x\<bar> then d else e))"
  using stripped_price [OF _ assms(1)] assms(2,3) fixed_val_near by (simp add: formatPlainNumber_def Let_def)

lemma rates_positive: "0 < priceRate price" "0 < usdExchangeRate rate price"
  by (simp_all add: priceRate_def usdExchangeRate_def less_max_iff_disj)

lemma divisor_positive [simp]: "TOKEN_UNIT_DIVISORS unit \<noteq> 0"
  by (cases unit) simp_all

text \<open>The number behind a price on the page.\<close>

definition shown_price :: "rat \<Rightarrow> TokenUnit \<Rightarrow> bool \<Rightarrow> rat \<Rightarrow> rat \<Rightarrow> rat" where
  "shown_price p unit recharge rate usdRate = (if recharge then p * rate / usdRate else p) / TOKEN_UNIT_DIVISORS unit"

lemma formatPrice_eq:
  assumes "pm_quota_type m \<noteq> 1" "usdRate \<noteq> 0"
  shows "formatPrice m type unit recharge rate usdRate =
    (case calculateTokenPrice m type (min_ratio_of m) of
       Fin p \<Rightarrow> formatPlainNumber (Fin (shown_price p unit recharge rate usdRate)) 4 6 | _ \<Rightarrow> js ''-'')"
proof -
  have "calculateTokenPrice m type r \<noteq> Infinite b" for r b
    by (cases type) (auto simp: calculateTokenPrice_def Let_def ratio_price_def split: option.splits)
  then show ?thesis
    using assms by (auto simp: formatPrice_def QUOTA_VALUE_REQUEST_def applyRechargeRate_def shown_price_def Let_def
      formatPlainNumber_def [of NotNumber] split: fnum.split)
qed

text \<open>
  A price reads as the exact price up to half a unit of its last decimal: four decimals from one on, six below.  The rates
  of the page are never zero, so the division is always defined.
\<close>

theorem displayed_price_accuracy:
  assumes "pm_quota_type m \<noteq> 1" "calculateTokenPrice m type (min_ratio_of m) = Fin p"
    and "x = shown_price p unit recharge (priceRate price) (usdExchangeRate rate price)" "\<bar>x\<bar> < 10 ^ 21"
  shows "\<exists>v. parse_float (formatPrice m type unit recharge (priceRate price) (usdExchangeRate rate price)) = Some v \<and>
    \<bar>v - x\<bar> \<le> (if 1 \<le> \<bar>x\<bar> then 1 / 20000 else 1 / 2000000)"
proof -
  have "usdExchangeRate rate price \<noteq> 0" using rates_positive(2) [of rate price] by simp
  then have "formatPrice m type unit recharge (priceRate price) (usdExchangeRate rate price) = formatPlainNumber (Fin x) 4 6"
    using formatPrice_eq [OF assms(1)] assms(2,3) by simp
  then show ?thesis using plain_number_near [OF assms(4), of 4 6] by (simp add: if_distrib cong: if_cong)
qed

text \<open>
  Claim C20.  A group with ratio zero uses a model for free, and the list of models says so; but the table of prices by group takes the ratio
  zero for a missing one and prints the full price of the model.
\<close>

theorem free_group_shown_at_full_price:
  assumes "pm_quota_type m = 0" "pm_enable_groups m = Some [g]" "pm_group_ratio m = Some ratios" "obj_get ratios g = Some 0"
    and "usdRate \<noteq> 0"
  shows "formatPrice m InputPrice unit recharge rate usdRate = js ''0'' \<and>
    formatGroupPrice m g InputPrice unit recharge rate usdRate ratios =
      formatPlainNumber (Fin (shown_price (pm_model_ratio m * 2) unit recharge rate usdRate)) 4 6"
proof -
  have "min_ratio_of m = 0"
    using assms(2-4) by (simp add: min_ratio_of_def getMinGroupRatio_def min_ratio_simps)
  then have "formatPrice m InputPrice unit recharge rate usdRate = formatPlainNumber (Fin 0) 4 6"
    using assms(1,5) by (simp add: formatPrice_eq calculateTokenPrice_def shown_price_def)
  moreover have "formatPlainNumber (Fin 0) 4 6 = js ''0''" by code_simp
  moreover have "formatGroupPrice m g InputPrice unit recharge rate usdRate ratios =
      formatPlainNumber (Fin (shown_price (pm_model_ratio m * 2) unit recharge rate usdRate)) 4 6"
    using assms(1,4,5) by (simp add: formatGroupPrice_def ratio_or_one_def QUOTA_VALUE_REQUEST_def calculateTokenPrice_def
      applyRechargeRate_def shown_price_def)
  ultimately show ?thesis by simp
qed

subsection \<open>Entries of a tier\<close>

lemma comparator_primary: "comparator primary_compare"
  by (auto simp: comparator_def primary_compare_def)

lemma primary_first: "js_sort primary_compare xs = filter is_primary xs @ filter (\<lambda>e. \<not> is_primary e) xs"
proof -
  have ins: "sort_insert primary_compare x (ps @ ss) =
    (if is_primary x then ps @ x # ss else ps @ ss @ [x])" if "\<forall>p\<in>set ps. is_primary p" "\<forall>p\<in>set ss. \<not> is_primary p" for x ps ss
  proof -
    have "sort_insert primary_compare x ss = (if is_primary x then x # ss else ss @ [x])"
      using that(2) by (induction ss) (auto simp: primary_compare_def)
    then show ?thesis using that(1) by (induction ps) (auto simp: primary_compare_def)
  qed
  have "fold (sort_insert primary_compare) xs (filter is_primary acc @ filter (\<lambda>e. \<not> is_primary e) acc) =
    filter is_primary (acc @ xs) @ filter (\<lambda>e. \<not> is_primary e) (acc @ xs)" for acc
  proof (induction xs arbitrary: acc)
    case (Cons x xs)
    have "sort_insert primary_compare x (filter is_primary acc @ filter (\<lambda>e. \<not> is_primary e) acc) =
      filter is_primary (acc @ [x]) @ filter (\<lambda>e. \<not> is_primary e) (acc @ [x])"
      by (subst ins) auto
    then show ?case using Cons [of "acc @ [x]"] by simp
  qed simp
  from this [of "[]"] show ?thesis by (simp add: js_sort_def)
qed

subsection \<open>Examples\<close>

definition plain_model :: PricingModel where
  "plain_model = \<lparr>pm_id = 1, pm_model_name = Some (js ''m''), pm_description = None, pm_vendor_id = None, pm_vendor_name = None,
     pm_vendor_icon = None, pm_vendor_description = None, pm_quota_type = 0, pm_model_ratio = 1 / 20000, pm_completion_ratio = 1,
     pm_model_price = None, pm_cache_ratio = None, pm_create_cache_ratio = None, pm_image_ratio = None, pm_audio_ratio = None,
     pm_audio_completion_ratio = None, pm_enable_groups = Some [js ''vip''], pm_tags = Some (js ''New, fast''),
     pm_supported_endpoint_types = None, pm_key = None, pm_group_ratio = Some [(js ''vip'', 0)], pm_billing_mode = None,
     pm_billing_expr = None\<rparr>"

theorem free_group_shown_at_full_price_witness:
  "formatPrice plain_model InputPrice UnitM False 1 1 = js ''0'' \<and>
   formatGroupPrice plain_model (js ''vip'') InputPrice UnitM False 1 1 [(js ''vip'', 0)] = js ''0.0001''"
proof -
  have "formatPlainNumber (Fin (shown_price (pm_model_ratio plain_model * 2) UnitM False 1 1)) 4 6 = js ''0.0001''" by code_simp
  then show ?thesis
    using free_group_shown_at_full_price [of plain_model "js ''vip''" "[(js ''vip'', 0)]" 1 UnitM False 1] by (simp add: plain_model_def)
qed

definition no_filters :: FilterState where
  "no_filters = \<lparr>fs_search = None, fs_sort = None, fs_vendor = None, fs_group = None, fs_quotaType = None, fs_endpointType = None,
     fs_tag = None, fs_tokenUnit = None, fs_view = None, fs_rechargePrice = None\<rparr>"

theorem catalogue_view_witness:
  "arranges (rank_compare (\<lambda>a b. int (length a) - int (length b)) (js ''price-high'')) (matches ascii_lower (page_filters (setSortBy (js ''price-high'') no_filters)))
     [plain_model, plain_model\<lparr>pm_id := 2, pm_model_ratio := 7\<rparr>]
     [plain_model\<lparr>pm_id := 2, pm_model_ratio := 7\<rparr>, plain_model]"
proof -
  have "comparator (\<lambda>a b :: jsstring. int (length a) - int (length b))" by (auto simp: comparator_def)
  moreover have "filteredModels ascii_lower (\<lambda>a b. int (length a) - int (length b)) [plain_model, plain_model\<lparr>pm_id := 2, pm_model_ratio := 7\<rparr>]
      (setSortBy (js ''price-high'') no_filters) = [plain_model\<lparr>pm_id := 2, pm_model_ratio := 7\<rparr>, plain_model]"
    by code_simp
  moreover have "sortBy (setSortBy (js ''price-high'') no_filters) = js ''price-high''" by code_simp
  ultimately show ?thesis using catalogue_view by metis
qed

theorem offered_tags_select_witness:
  "filteredModels ascii_lower (\<lambda>a b. int (length a) - int (length b)) [plain_model]
     (setTagFilter (js ''fast'') (clearFilters (clearSearch no_filters))) \<noteq> []"
proof -
  have "ascii_lower (ascii_lower s) = ascii_lower s" for s by (auto simp: ascii_lower_def)
  moreover have "js ''fast'' \<in> set (availableTags ascii_lower (\<lambda>a b. int (length a) - int (length b)) [plain_model])" by code_simp
  ultimately show ?thesis using offered_tags_select [of ascii_lower "js ''fast''"] by auto
qed

end
