(* ===== verification/PublishedPrices.thy ===== *)
theory PublishedPrices
  imports PriceCatalogue
begin

section \<open>Published prices\<close>

text \<open>
  What an administrator edits and what the page of prices shows: the tiers that the tier editor prints are read
  by the patterns of the page, and the price typed in the panel is the price that is printed for visitors.  The server passes
  the stored documents on; that it does so unchanged is a hypothesis on the fields of the model.
\<close>

subsection \<open>The tiers of the editor on the price page\<close>

definition raw_tier_rx :: "(jsstring \<times> jsstring) rx" where
  "raw_tier_rx =
     rx_seq (js ''tier(\"'') (rx_bind (rx_star not_quote) (\<lambda>label. rx_seq (js ''\",'')
     (rx_bind (rx_star is_ws) (\<lambda>_. rx_bind (rx_plus (\<lambda>c. c \<noteq> 41)) (\<lambda>body.
     rx_seq (js '')'') (rx_return (label, body)))))))"

lemma tier_rx_guarded: "tier_rx = guarded raw_tier_rx"
  by (simp add: tier_rx_def guarded_def raw_tier_rx_def sp_def rx_bind_assoc rx_bind_seq js_lits)

definition body_text :: "tier_match \<Rightarrow> jsstring" where
  "body_text m = (case m of (label, ic, oc, xs) \<Rightarrow> js ''p * '' @ ic @ js '' + c * '' @ oc @ opt_terms_str cacheVarNames xs)"

lemma body_no_paren:
  assumes "good_match m"
  shows "\<forall>c\<in>set (body_text m). c \<noteq> 41" "\<exists>s. body_text m = 112 # s"
proof -
  obtain label ic oc xs where m: "m = (label, ic, oc, xs)" by (cases m)
  show "\<forall>c\<in>set (body_text m). c \<noteq> 41"
    using assms number_no_parens opt_terms_no_parens [OF cacheVarNames_facts(2), of xs] by (auto simp: m body_text_def js_lits)
  show "\<exists>s. body_text m = 112 # s" by (simp add: m body_text_def js_lits)
qed

lemma raw_first:
  assumes "good_match m"
  shows "\<exists>ys. raw_tier_rx (tier_text m @ t) = ((fst m, body_text m), t) # ys"
proof -
  obtain label ic oc xs where m: "m = (label, ic, oc, xs)" by (cases m)
  note b = body_no_paren [OF assms]
  let ?k = "\<lambda>label. rx_seq (js ''\",'')
     (rx_bind (rx_star is_ws) (\<lambda>_. rx_bind (rx_plus (\<lambda>c. c \<noteq> 41)) (\<lambda>body. rx_seq (js '')'') (rx_return (label, body)))))"
  let ?b = "\<lambda>label. rx_bind (rx_plus (\<lambda>c. c \<noteq> 41)) (\<lambda>body. rx_seq (js '')'') (rx_return (label, body)))"
  have whole: "tier_text m @ t = js ''tier(\"'' @ label @ 34 # 44 # 32 # body_text m @ 41 # t"
    by (simp add: m tier_text_def body_text_def js_lits)
  have "?b label (body_text m @ 41 # t) = rx_seq (js '')'') (rx_return (label, body_text m)) (41 # t)"
    using b by (intro rx_plus_bind_in) (auto simp: js_lits)
  then have body: "?b label (body_text m @ 41 # t) = [((label, body_text m), t)]" by (simp add: js_lits rx_return_def)
  have "rx_star is_ws (32 # body_text m @ 41 # t) = [([32], body_text m @ 41 # t), ([], 32 # body_text m @ 41 # t)]"
    using b(2) by (auto simp: rx_star_def is_ws_def)
  then have "\<exists>ys. rx_bind (rx_star is_ws) (\<lambda>_. ?b label) (32 # body_text m @ 41 # t) = ((label, body_text m), t) # ys"
    using body by (simp add: rx_bind_def)
  then have "\<exists>ys. ?k label (34 # 44 # 32 # body_text m @ 41 # t) = ((label, body_text m), t) # ys" by (simp add: js_lits)
  moreover have "rx_bind (rx_star not_quote) ?k (label @ 34 # 44 # 32 # body_text m @ 41 # t) = ?k label (34 # 44 # 32 # body_text m @ 41 # t)"
    using assms by (intro rx_star_bind_in) (auto simp: m list_all_iff not_quote_def js_lits)
  ultimately show ?thesis unfolding raw_tier_rx_def whole by (simp add: m)
qed

lemma raw_tier_hd: "c \<noteq> 116 \<Longrightarrow> raw_tier_rx (c # s) = []"
  by (simp add: raw_tier_rx_def js_lits)

interpretation page: tier_pattern raw_tier_rx tier_text "\<lambda>m. (fst m, body_text m)" good_match
  by unfold_locales (simp_all add: raw_first raw_tier_hd tier_text_hd)

text \<open>The variables and numbers of a body.\<close>

definition terms_text :: "(jsstring \<times> jsstring) list \<Rightarrow> jsstring" where
  "terms_text ts = join (js '' + '') (map (\<lambda>(v, n). v @ js '' * '' @ n) ts)"

definition pricing_keys :: "jsstring list" where
  "pricing_keys = map bv_key BILLING_PRICING_VARS"

lemma pricing_keys_eq: "pricing_keys = js ''p'' # js ''c'' # cacheVarNames"
  by code_simp

lemma pricing_keys_words: "list_all is_word pricing_keys" "distinct pricing_keys"
  by code_simp+

lemma key_Cons:
  assumes "v \<in> set pricing_keys"
  obtains c u where "v = c # u" "word_char c"
proof -
  have "is_word v" using assms pricing_keys_words(1) by (simp add: list_all_iff)
  then show thesis using that by (cases v rule: list.exhaust) (auto simp: is_word_def)
qed

definition at_word_start :: "jschar option \<Rightarrow> bool" where
  "at_word_start b \<longleftrightarrow> (case b of None \<Rightarrow> True | Some c \<Rightarrow> \<not> word_char c)"

lemma rx_seq_if: "rx_seq v p s = (if prefix v s then p (drop (length v) s) else [])"
  by (auto simp: prefix_def)

lemma var_regex_terms:
  "BILLING_VAR_REGEX b s =
     (if word_boundary b s then concat (map (\<lambda>v. term_rx v (\<lambda>n. rx_return (v, n)) s) pricing_keys) else [])"
  by (simp add: BILLING_VAR_REGEX_def pricing_keys_def rx_one_of_bind term_rx_def sp_def js_lits rx_seq_if [of "_ :: jsstring" _ s] comp_def)

lemma numeric_first:
  assumes "plain_number n" "t = [] \<or> \<not> numeric_char (hd t)"
  shows "\<exists>ys. rx_bind (rx_plus numeric_char) (\<lambda>n. rx_return (v, n)) (n @ t) = ((v, n), t) # ys"
proof -
  have n: "n \<noteq> []" "\<forall>c\<in>set n. numeric_char c" using assms(1) by (auto simp: plain_number_def list_all_iff)
  then show ?thesis using rx_star_unfold [OF n(2) assms(2)] by (simp add: rx_plus_def rx_map_return)
qed

lemma term_first:
  assumes "plain_number n" "t = [] \<or> \<not> numeric_char (hd t)"
  shows "\<exists>ys. term_rx v (\<lambda>n. rx_return (v, n)) (v @ js '' * '' @ n @ t) = ((v, n), t) # ys"
proof -
  obtain c m where n: "n = c # m" "\<not> is_ws c" using plain_number_hd [OF assms(1)] by blast
  then have "term_rx v (\<lambda>n. rx_return (v, n)) (v @ js '' * '' @ n @ t) =
      rx_bind (rx_plus numeric_char) (\<lambda>n. rx_return (v, n)) (n @ t)"
    by (simp add: term_rx_def js_lits sp_one numeric_ws)
  then show ?thesis using numeric_first [OF assms] by simp
qed

lemma var_first:
  assumes "v \<in> set pricing_keys" "plain_number n" "t = [] \<or> \<not> numeric_char (hd t)" "at_word_start b"
  shows "\<exists>ys. BILLING_VAR_REGEX b (v @ js '' * '' @ n @ t) = ((v, n), t) # ys"
proof -
  let ?s = "v @ js '' * '' @ n @ t"
  have word: "is_word v" using assms(1) pricing_keys_words(1) by (simp add: list_all_iff)
  then have b: "word_boundary b ?s"
    using assms(4) by (cases v) (auto simp: word_boundary_def at_word_start_def is_word_def split: option.split)
  obtain us ws where k: "pricing_keys = us @ v # ws" using assms(1) by (meson split_list)
  have "term_rx w (\<lambda>n. rx_return (w, n)) ?s = []" if "w \<in> set pricing_keys" "w \<noteq> v" for w
    using term_rx_other [of w v "\<lambda>n. rx_return (w, n)" "42 # 32 # n @ t"] that word pricing_keys_words(1)
    by (auto simp: list_all_iff js_lits)
  moreover have "w \<in> set pricing_keys \<and> w \<noteq> v" if "w \<in> set us" for w
    using that pricing_keys_words(2) unfolding k by auto
  ultimately have us: "concat (map (\<lambda>v. term_rx v (\<lambda>n. rx_return (v, n)) ?s) us) = []" by simp
  obtain ys where "term_rx v (\<lambda>n. rx_return (v, n)) ?s = ((v, n), t) # ys" using term_first [OF assms(2,3)] by blast
  then show ?thesis using b unfolding var_regex_terms k map_append concat_append list.map concat.simps us by simp
qed

lemma var_none:
  assumes "\<not> word_char c"
  shows "BILLING_VAR_REGEX b (c # s) = []"
proof -
  have "term_rx v f (c # s) = []" if "v \<in> set pricing_keys" for v and f :: "jsstring \<Rightarrow> (jsstring \<times> jsstring) rx"
    using that by (rule key_Cons) (use assms in \<open>auto simp: term_rx_def\<close>)
  then show ?thesis by (simp add: var_regex_terms)
qed

lemma var_empty: "BILLING_VAR_REGEX b [] = []"
  by (auto simp: var_regex_terms term_rx_def elim: key_Cons)

lemma var_hit:
  assumes "v \<in> set pricing_keys" "plain_number n" "t = [] \<or> \<not> numeric_char (hd t)" "at_word_start b"
  shows "\<exists>b'. rx_search BILLING_VAR_REGEX b (v @ js '' * '' @ n @ t) = (v, n) # rx_search BILLING_VAR_REGEX b' t"
proof -
  obtain ys where y: "BILLING_VAR_REGEX b (v @ js '' * '' @ n @ t) = ((v, n), t) # ys" using var_first [OF assms] by blast
  obtain c u where u: "v @ js '' * '' @ n = c # u"
    using assms(1) by (rule key_Cons) auto
  then have eq: "v @ js '' * '' @ n @ t = c # u @ t" by (metis append_Cons append_assoc)
  show ?thesis using y unfolding eq by auto
qed

lemma body_search:
  assumes "list_all (\<lambda>(v, n). v \<in> set pricing_keys \<and> plain_number n) ts" "at_word_start b"
  shows "rx_search BILLING_VAR_REGEX b (terms_text ts) = ts"
  using assms
proof (induction ts arbitrary: b)
  case Nil
  show ?case by (simp add: terms_text_def var_empty)
next
  case (Cons p ts)
  obtain v n where p: "p = (v, n)" by (cases p)
  have vn: "v \<in> set pricing_keys" "plain_number n" using Cons.prems(1) by (simp_all add: p)
  show ?case
  proof (cases "ts = []")
    case True
    then show ?thesis using var_hit [OF vn _ Cons.prems(2), of "[]"] by (auto simp: terms_text_def p var_empty)
  next
    case False
    have t: "terms_text (p # ts) = v @ js '' * '' @ n @ js '' + '' @ terms_text ts"
      using False by (simp add: terms_text_def p join_Cons)
    have "\<not> word_char 32" "\<not> word_char 43" "\<not> numeric_char 32" by (simp_all add: word_char_def numeric_char_def is_digit_def)
    then have skip: "rx_search BILLING_VAR_REGEX b' (js '' + '' @ terms_text ts) = rx_search BILLING_VAR_REGEX (Some 32) (terms_text ts)" for b'
      by (simp add: js_lits var_none)
    have "rx_search BILLING_VAR_REGEX (Some 32) (terms_text ts) = ts"
      using Cons by (intro Cons.IH) (auto simp: at_word_start_def \<open>\<not> word_char 32\<close>)
    moreover have "js '' + '' @ terms_text ts = [] \<or> \<not> numeric_char (hd (js '' + '' @ terms_text ts))"
      using \<open>\<not> numeric_char 32\<close> by (simp add: js_lits)
    ultimately show ?thesis using var_hit [OF vn _ Cons.prems(2)] skip t by (metis p)
  qed
qed

text \<open>The terms that are printed for a tier, and the coefficients that are read from them.\<close>

definition extra_terms :: "(jsstring \<Rightarrow> js_num option) \<Rightarrow> (jsstring \<times> jsstring) list \<Rightarrow> (jsstring \<times> jsstring) list" where
  "extra_terms g fs = List.map_filter (\<lambda>(fld, v). map_option (Pair v) (extra_number (g fld))) fs"

definition tier_terms :: "VisualTier \<Rightarrow> (jsstring \<times> jsstring) list" where
  "tier_terms t = (js ''p'', js_num_str (vt_input_unit_cost t)) # (js ''c'', js_num_str (vt_output_unit_cost t)) #
     extra_terms (tier_field t) BILLING_CACHE_VAR_MAP"

lemma extra_terms_text:
  "opt_terms_str (map snd fs) (map (\<lambda>(fld, v). extra_number (g fld)) fs) =
     concat (map (\<lambda>(v, n). js '' + '' @ v @ js '' * '' @ n) (extra_terms g fs))"
  by (induction fs) (auto simp: extra_terms_def List.map_filter_simps opt_term_str_def split: option.split)

lemma body_terms: "body_text (match_of t) = terms_text (tier_terms t)"
  using extra_terms_text [of BILLING_CACHE_VAR_MAP "tier_field t"]
  by (simp add: body_text_def match_of_def terms_text_def tier_terms_def join_concat cacheVarNames_def js_lits comp_def split_def)

lemma extra_terms_keys: "set (map fst (extra_terms g fs)) \<subseteq> set (map snd fs)"
  by (induction fs) (auto simp: extra_terms_def List.map_filter_simps split: option.splits)

lemma obj_get_extra:
  assumes "distinct (map snd fs)" "(fld, v) \<in> set fs"
  shows "obj_get (map (\<lambda>(v, n). (v, js_number n)) (extra_terms g fs)) v = map_option js_number (extra_number (g fld))"
  using assms
proof (induction fs)
  case (Cons p fs)
  obtain f w where p: "p = (f, w)" by (cases p)
  have none: "obj_get (map (\<lambda>(v, n). (v, js_number n)) (extra_terms g fs)) w = None" if "w \<notin> set (map snd fs)" for w
  proof -
    have "w \<notin> set (map fst xs) \<Longrightarrow> obj_get (map (\<lambda>(v, n). (v, js_number n)) xs) w = None" for xs by (induction xs) auto
    then show ?thesis using that extra_terms_keys [of g fs] by blast
  qed
  show ?case
    using Cons none by (cases "extra_number (g f)") (auto simp: p extra_terms_def List.map_filter_simps image_iff)
qed simp

definition published_prices :: "VisualTier \<Rightarrow> (jsstring \<times> rat) list" where
  "published_prices t =
     [(js ''inputPrice'', nullish (vt_input_unit_cost t) 0), (js ''outputPrice'', nullish (vt_output_unit_cost t) 0),
      (js ''cacheReadPrice'', nullish (vt_cache_read_unit_cost t) 0), (js ''cacheCreatePrice'', nullish (vt_cache_create_unit_cost t) 0),
      (js ''cacheCreate1hPrice'', nullish (vt_cache_create_1h_unit_cost t) 0), (js ''imagePrice'', nullish (vt_image_unit_cost t) 0),
      (js ''imageOutputPrice'', nullish (vt_image_output_unit_cost t) 0), (js ''audioInputPrice'', nullish (vt_audio_input_unit_cost t) 0),
      (js ''audioOutputPrice'', nullish (vt_audio_output_unit_cost t) 0)]"

lemma coefficient_read:
  assumes "good_cost x"
  shows "(case js_number (js_num_str x) of Some r \<Rightarrow> r | None \<Rightarrow> 0) = nullish x 0"
    "(case map_option js_number (extra_number (Some x)) of Some (Some r) \<Rightarrow> r | _ \<Rightarrow> 0) = nullish x 0"
  using good_cost_facts [OF assms] assms by (auto simp: extra_number_def good_cost_def split: option.splits)

lemma tier_terms_good:
  assumes "good_tier t"
  shows "list_all (\<lambda>(v, n). v \<in> set pricing_keys \<and> plain_number n) (tier_terms t)"
proof -
  have m: "plain_number (js_num_str (vt_input_unit_cost t))" "plain_number (js_num_str (vt_output_unit_cost t))"
    "list_all (pred_option plain_number) (map (\<lambda>(fld, v). extra_number (tier_field t fld)) BILLING_CACHE_VAR_MAP)"
    using match_of_good [OF assms] by (simp_all add: match_of_def)
  have "v \<in> set cacheVarNames \<and> plain_number n" if vn: "(v, n) \<in> set (extra_terms (tier_field t) BILLING_CACHE_VAR_MAP)" for v n
  proof -
    obtain fld where "(fld, v) \<in> set BILLING_CACHE_VAR_MAP" "extra_number (tier_field t fld) = Some n"
      using vn by (auto simp: extra_terms_def map_filter_set)
    moreover have "pred_option plain_number (extra_number (tier_field t fld))"
      using m(3) calculation(1) by (auto simp: list_all_iff)
    ultimately show ?thesis by (auto simp: cacheVarNames_def image_iff intro: bexI [of _ "(fld, v)"])
  qed
  then show ?thesis using m(1,2) by (auto simp: tier_terms_def pricing_keys_eq list_all_iff)
qed

lemma body_prices:
  assumes "good_tier t"
  shows "parseTierBody (body_text (match_of t)) = published_prices t"
proof -
  have c: "good_cost (vt_input_unit_cost t)" "good_cost (vt_output_unit_cost t)" "good_cost (vt_cache_read_unit_cost t)"
    "good_cost (vt_cache_create_unit_cost t)" "good_cost (vt_cache_create_1h_unit_cost t)" "good_cost (vt_image_unit_cost t)"
    "good_cost (vt_image_output_unit_cost t)" "good_cost (vt_audio_input_unit_cost t)" "good_cost (vt_audio_output_unit_cost t)"
    using assms by (simp_all add: good_tier_def)
  have terms: "list_all (\<lambda>(v, n). v \<in> set pricing_keys \<and> plain_number n) (tier_terms t)" by (rule tier_terms_good [OF assms])
  have search: "rx_search BILLING_VAR_REGEX None (body_text (match_of t)) = tier_terms t"
    using body_search [OF terms, of None] by (simp add: body_terms at_word_start_def)
  define coeffs where "coeffs = map (\<lambda>(v, n). (v, js_number n)) (tier_terms t)"
  have fields: "BILLING_VAR_KEY_TO_FIELD =
    [(js ''p'', js ''inputPrice''), (js ''c'', js ''outputPrice''), (js ''cr'', js ''cacheReadPrice''), (js ''cc'', js ''cacheCreatePrice''),
     (js ''cc1h'', js ''cacheCreate1hPrice''), (js ''img'', js ''imagePrice''), (js ''img_o'', js ''imageOutputPrice''),
     (js ''ai'', js ''audioInputPrice''), (js ''ao'', js ''audioOutputPrice'')]" by code_simp
  have extra: "obj_get coeffs v = map_option js_number (extra_number (tier_field t fld))"
    if "(fld, v) \<in> set BILLING_CACHE_VAR_MAP" for fld v
  proof -
    have "distinct (map snd BILLING_CACHE_VAR_MAP)" using cacheVarNames_facts(1) by (simp add: cacheVarNames_def)
    moreover have "v \<noteq> js ''p''" "v \<noteq> js ''c''" using that by (auto simp: cache_vars)
    ultimately show ?thesis using obj_get_extra [OF _ that] by (simp add: coeffs_def tier_terms_def)
  qed
  have read: "(case obj_get coeffs v of Some (Some x) \<Rightarrow> x | _ \<Rightarrow> 0) = nullish x 0"
    if "(fld, v) \<in> set BILLING_CACHE_VAR_MAP" "tier_field t fld = Some x" "good_cost x" for fld v x
    using extra [OF that(1)] coefficient_read(2) [OF that(3)] that(2) by (simp add: split: option.splits)
  have pc: "(case obj_get coeffs (js ''p'') of Some (Some x) \<Rightarrow> x | _ \<Rightarrow> 0) = nullish (vt_input_unit_cost t) 0"
    "(case obj_get coeffs (js ''c'') of Some (Some x) \<Rightarrow> x | _ \<Rightarrow> 0) = nullish (vt_output_unit_cost t) 0"
    using c(1,2)[THEN coefficient_read(1)] by (simp_all add: coeffs_def tier_terms_def split: option.splits)
  have "(js f, js v) \<in> set BILLING_CACHE_VAR_MAP" if "(f, v) \<in> set [(''cache_read_unit_cost'', ''cr''), (''cache_create_unit_cost'', ''cc''), (''cache_create_1h_unit_cost'', ''cc1h''), (''image_unit_cost'', ''img''), (''image_output_unit_cost'', ''img_o''), (''audio_input_unit_cost'', ''ai''), (''audio_output_unit_cost'', ''ao'')]" for f v
    using that by (auto simp: cache_vars)
  then show ?thesis
    unfolding parseTierBody_def search Let_def coeffs_def [symmetric] fields published_prices_def
    using pc c read [of "js ''cache_read_unit_cost''" "js ''cr''" "vt_cache_read_unit_cost t"]
      read [of "js ''cache_create_unit_cost''" "js ''cc''" "vt_cache_create_unit_cost t"]
      read [of "js ''cache_create_1h_unit_cost''" "js ''cc1h''" "vt_cache_create_1h_unit_cost t"]
      read [of "js ''image_unit_cost''" "js ''img''" "vt_image_unit_cost t"]
      read [of "js ''image_output_unit_cost''" "js ''img_o''" "vt_image_output_unit_cost t"]
      read [of "js ''audio_input_unit_cost''" "js ''ai''" "vt_audio_input_unit_cost t"]
      read [of "js ''audio_output_unit_cost''" "js ''ao''" "vt_audio_output_unit_cost t"]
    by (simp add: tier_field_def)
qed

text \<open>What the page reads for a tier of the editor.\<close>

definition published_condition :: "TierConditionInput \<Rightarrow> TierCondition" where
  "published_condition c = \<lparr>tc_var = ti_var c, tc_op = ti_op c, tc_value = (case ti_value c of TierNumber x \<Rightarrow> x | _ \<Rightarrow> None)\<rparr>"

definition published_tier :: "VisualTier \<Rightarrow> ParsedTier" where
  "published_tier t = \<lparr>pt_label = vt_label t, pt_conditions = map published_condition (vt_conditions t), pt_prices = published_prices t\<rparr>"

lemma published_conditions:
  assumes "good_tier t"
  shows "parse_tier_conditions (case guard_of (map cond_of (vt_conditions t)) of None \<Rightarrow> [] | Some g \<Rightarrow> g) =
    map published_condition (vt_conditions t)"
proof -
  have "(case guard_of (map cond_of (vt_conditions t)) of None \<Rightarrow> [] | Some g \<Rightarrow> g) = conds_text (map cond_of (vt_conditions t))"
    by (simp add: guard_of_def)
  moreover have "(\<lambda>(v, op, n). \<lparr>tc_var = v, tc_op = op, tc_value = js_number n\<rparr>) (cond_of c) = published_condition c"
    if "c \<in> set (vt_conditions t)" for c
  proof -
    have "good_condition c" using assms that by (simp add: good_tier_def list_all_iff)
    then show ?thesis
      by (auto simp: cond_of_def published_condition_def good_condition_def readable_text js_num_str_def
          split: tier_value.splits option.splits)
  qed
  ultimately show ?thesis using parse_conditions_read [OF good_tier_conds [OF assms]] by simp
qed

lemma search_published:
  assumes "list_all good_tier tiers" "tiers \<noteq> []" "rx_search (\<lambda>_. tier_rx) None rest = []"
  shows "map (\<lambda>(g, label, body). \<lparr>pt_label = label, pt_conditions = parse_tier_conditions (case g of None \<Rightarrow> [] | Some t \<Rightarrow> t),
      pt_prices = parseTierBody body\<rparr>) (rx_search (\<lambda>_. tier_rx) None (join (js '' : '') (map part_of tiers) @ rest)) =
    map published_tier tiers"
proof -
  let ?ps = "map (\<lambda>t. (map cond_of (vt_conditions t), match_of t)) tiers"
  have "list_all (\<lambda>(cs, m). list_all good_cond cs \<and> good_match m) ?ps" "?ps \<noteq> []"
    using assms(1,2) good_tier_conds match_of_good by (auto simp: list_all_iff)
  then have "rx_search (\<lambda>_. tier_rx) None (join (js '' : '') (map part_of tiers) @ rest) =
      map (\<lambda>t. (guard_of (map cond_of (vt_conditions t)), fst (match_of t), body_text (match_of t))) tiers"
    using page.guarded_search [of ?ps rest] assms(3)
    by (simp add: tier_rx_guarded part_of_def [abs_def] part_guard comp_def)
  moreover have "fst (match_of t) = vt_label t" for t by (simp add: match_of_def)
  ultimately show ?thesis
    using assms(1) published_conditions body_prices by (auto simp: published_tier_def list_all_iff)
qed

lemma zero_not_tier: "rx_search (\<lambda>_. tier_rx) None (js '' : '' @ ZERO_EXPR) = []" "rx_search (\<lambda>_. tier_rx) None [] = []"
  by code_simp+

lemma parse_published:
  assumes "good_config tiers"
  shows "parseTiersFromExpr (generateExprFromVisualConfig (Some tiers)) = map published_tier tiers"
proof -
  have g: "list_all good_tier tiers" "tiers \<noteq> []" using assms by (simp_all add: good_config_def)
  obtain rest where r: "generateExprFromVisualConfig (Some tiers) = join (js '' : '') (map part_of tiers) @ rest"
    "rx_search (\<lambda>_. tier_rx) None rest = []"
  proof (cases "length tiers = 1")
    case True
    then obtain t where "tiers = [t]" by (auto simp: length_Suc_conv)
    then show thesis using that generate_one [of t] g zero_not_tier by (cases "vt_conditions t = []") auto
  next
    case False
    then have "generateExprFromVisualConfig (Some tiers) = join (js '' : '') (map part_of tiers) @ []"
      using generate_many [OF g(1)] g(2) assms by (cases tiers; cases "tl tiers") (auto simp: good_config_def)
    then show thesis using that zero_not_tier(2) by blast
  qed
  obtain t ts where ts: "tiers = t # ts" using g(2) by (cases tiers) auto
  then obtain c s where "part_of t = c # s" "c \<noteq> 118" using part_hd [of t] g(1) by auto
  then obtain s' where "join (js '' : '') (map part_of tiers) @ rest = c # s'"
    unfolding ts by (cases ts) auto
  then have s': "generateExprFromVisualConfig (Some tiers) = c # s'" by (simp add: r(1))
  show ?thesis
    using search_published [OF g r(2)] no_version [OF \<open>c \<noteq> 118\<close>, of s'] s' r(1) by (simp add: parseTiersFromExpr_def)
qed



subsection \<open>Entries and totals of the summary\<close>

lemma entry_iff:
  "(\<exists>e\<in>set (price_entry t options variable). de_field e = fld \<and> de_value e = v) \<longleftrightarrow>
     bv_field variable = Some fld \<and> obj_get (pt_prices t) fld = Some v \<and> 0 < v"
  by (cases "bv_field variable"; cases "obj_get (pt_prices t) (the (bv_field variable))") (auto simp: price_entry_def)

lemma entries_iff:
  "(\<exists>e\<in>set (getDynamicPriceEntries tier options). de_field e = fld \<and> de_value e = v) \<longleftrightarrow>
     (\<exists>t variable. tier = Some t \<and> variable \<in> set BILLING_PRICING_VARS \<and> bv_field variable = Some fld \<and>
        obj_get (pt_prices t) fld = Some v \<and> 0 < v)"
proof (cases tier)
  case (Some t)
  then have "(\<exists>e\<in>set (getDynamicPriceEntries tier options). de_field e = fld \<and> de_value e = v) \<longleftrightarrow>
    (\<exists>variable\<in>set BILLING_PRICING_VARS. \<exists>e\<in>set (price_entry t options variable). de_field e = fld \<and> de_value e = v)"
    by (auto simp: getDynamicPriceEntries_def)
  then show ?thesis unfolding entry_iff using Some by auto
qed (simp add: getDynamicPriceEntries_def)

theorem summary_entries:
  assumes "getDynamicPricingSummary m options = Inr (Some s)"
  shows "dy_entries s = dy_primaryEntries s @ dy_secondaryEntries s \<and>
    (\<forall>fld v. (\<exists>e\<in>set (dy_entries s). de_field e = fld \<and> de_value e = v) =
      (\<exists>t variable. dy_tier s = Some t \<and> variable \<in> set BILLING_PRICING_VARS \<and> bv_field variable = Some fld \<and>
         obj_get (pt_prices t) fld = Some v \<and> 0 < v)) \<and>
    (dy_tier s = (case dy_tiers s of [] \<Rightarrow> None | t # _ \<Rightarrow> Some t))"
proof -
  obtain tiers where tiers: "getDynamicPricingTiers m = Inr tiers" "dy_tiers s = tiers"
    "dy_tier s = (case tiers of [] \<Rightarrow> None | t # _ \<Rightarrow> Some t)" "dy_entries s = getDynamicPriceEntries (dy_tier s) options"
    "dy_primaryEntries s = filter is_primary (dy_entries s)" "dy_secondaryEntries s = filter (\<lambda>e. \<not> is_primary e) (dy_entries s)"
    using assms by (auto simp: getDynamicPricingSummary_def Let_def split: if_splits sum.splits)
  have "dy_entries s = dy_primaryEntries s @ dy_secondaryEntries s"
    unfolding tiers(5,6) unfolding tiers(4) by (auto simp: getDynamicPriceEntries_def primary_first split: option.split)
  then show ?thesis using tiers(2,3) entries_iff [of "dy_tier s" options] unfolding tiers(4) by simp
qed

subsection \<open>The typed price on the page\<close>




end
