(* ===== verification/Navigation.thy ===== *)
theory Navigation
  imports Json
begin

section \<open>Navigation: header links, sidebar modules and route guards\<close>

text \<open>
  Administrators decide which pages the console offers.  Two options of the server hold the decision as JSON texts.
  \<^verbatim>\<open>features/system-settings/maintenance/config.ts\<close> reads and writes them for the settings forms;
  \<^verbatim>\<open>lib/nav-modules.ts\<close> and \<^verbatim>\<open>hooks/use-top-nav-links.ts\<close> read the first one for the header and the guards of the routes;
  \<^verbatim>\<open>hooks/use-sidebar-config.ts\<close> reads the second one for the sidebar, together with a text of the same shape in which a user
  hides entries (\<^verbatim>\<open>features/profile/components/sidebar-modules-card.tsx\<close>).  A configuration is an object with
  computed keys; keys that name properties of \<open>Object.prototype\<close> are not considered.
\<close>

subsection \<open>Entries and spreads\<close>

text \<open>\<open>Object.entries\<close>; \<open>None\<close> when it throws.\<close>

definition indexed :: "jsval list \<Rightarrow> (jsstring \<times> jsval) list" where
  "indexed vs = zip (map show_nat [0..<length vs]) vs"

definition js_entries :: "jsval \<Rightarrow> (jsstring \<times> jsval) list option" where
  "js_entries v =
     (case v of
        JNull \<Rightarrow> None
      | JObj ps \<Rightarrow> Some ps
      | JArr vs \<Rightarrow> Some (indexed vs)
      | JStr s \<Rightarrow> Some (indexed (map (\<lambda>c. JStr [c]) s))
      | _ \<Rightarrow> Some [])"

text \<open>\<open>{...a, ...v}\<close>.\<close>

definition spread_into :: "(jsstring \<times> jsval) list \<Rightarrow> jsval \<Rightarrow> (jsstring \<times> jsval) list" where
  "spread_into a v = foldl (\<lambda>ps (k, w). obj_put k w ps) a (nullish (js_entries v) [])"

text \<open>A loop over entries that assigns to the key of the entry, or not, depending on what the key has.\<close>

definition assign_entries ::
    "(jsstring \<Rightarrow> 'a \<Rightarrow> 'v option \<Rightarrow> 'v option) \<Rightarrow> (jsstring \<times> 'a) list \<Rightarrow> (jsstring \<times> 'v) list \<Rightarrow> (jsstring \<times> 'v) list" where
  "assign_entries f es base =
     foldl (\<lambda>r (k, v). case f k v (obj_get r k) of None \<Rightarrow> r | Some w \<Rightarrow> obj_put k w r) base es"

subsection \<open>The settings of the header\<close>

record HeaderNavAccessConfig =
  ac_enabled :: bool
  ac_requireAuth :: bool

type_synonym HeaderNavModulesConfig = "(jsstring \<times> jsval) list"

definition access_json :: "HeaderNavAccessConfig \<Rightarrow> jsval" where
  "access_json a = JObj [(js ''enabled'', JBool (ac_enabled a)), (js ''requireAuth'', JBool (ac_requireAuth a))]"

definition ACCESS_DEFAULT :: HeaderNavAccessConfig where
  "ACCESS_DEFAULT = \<lparr>ac_enabled = True, ac_requireAuth = False\<rparr>"

definition HEADER_NAV_DEFAULT :: HeaderNavModulesConfig where
  "HEADER_NAV_DEFAULT =
     [(js ''home'', JBool True), (js ''console'', JBool True), (js ''pricing'', access_json ACCESS_DEFAULT),
      (js ''rankings'', access_json ACCESS_DEFAULT), (js ''docs'', JBool True), (js ''about'', JBool True)]"

definition true_word :: "jsstring \<Rightarrow> bool" where
  "true_word s \<longleftrightarrow> ascii_lower (trim s) \<in> {js ''true'', js ''1''}"

definition false_word :: "jsstring \<Rightarrow> bool" where
  "false_word s \<longleftrightarrow> ascii_lower (trim s) \<in> {js ''false'', js ''0''}"

definition toBoolean :: "jsval option \<Rightarrow> bool \<Rightarrow> bool" where
  "toBoolean v fallback =
     (case v of
        Some (JBool b) \<Rightarrow> b
      | Some (JNum n) \<Rightarrow> n = 1
      | Some (JStr s) \<Rightarrow> if true_word s then True else if false_word s then False else fallback
      | _ \<Rightarrow> fallback)"

fun is_scalar :: "jsval \<Rightarrow> bool" where
  "is_scalar (JBool _) = True"
| "is_scalar (JStr _) = True"
| "is_scalar (JNum _) = True"
| "is_scalar _ = False"

fun is_object :: "jsval \<Rightarrow> bool" where
  "is_object (JObj _) = True"
| "is_object (JArr _) = True"
| "is_object _ = False"

definition parseAccessModule :: "jsval \<Rightarrow> HeaderNavAccessConfig \<Rightarrow> HeaderNavAccessConfig" where
  "parseAccessModule raw fallback =
     (if is_scalar raw
      then \<lparr>ac_enabled = toBoolean (Some raw) (ac_enabled fallback), ac_requireAuth = ac_requireAuth fallback\<rparr>
      else if is_object raw
      then \<lparr>ac_enabled = toBoolean (js_prop raw (js ''enabled'')) (ac_enabled fallback),
            ac_requireAuth = toBoolean (js_prop raw (js ''requireAuth'')) (ac_requireAuth fallback)\<rparr>
      else fallback)"

definition header_entry :: "jsstring \<Rightarrow> jsval \<Rightarrow> jsval option \<Rightarrow> jsval option" where
  "header_entry key raw old =
     (if key = js ''pricing'' \<or> key = js ''rankings'' then Some (access_json (parseAccessModule raw ACCESS_DEFAULT))
      else case raw of
             JBool b \<Rightarrow> Some (JBool b)
           | JStr _ \<Rightarrow> Some (JBool (toBoolean (Some raw) (truthy_opt (obj_get HEADER_NAV_DEFAULT key))))
           | JNum _ \<Rightarrow> Some (JBool (toBoolean (Some raw) (truthy_opt (obj_get HEADER_NAV_DEFAULT key))))
           | _ \<Rightarrow> None)"

definition parseHeaderNavModules :: "jsstring option \<Rightarrow> HeaderNavModulesConfig" where
  "parseHeaderNavModules v =
     (case v of
        None \<Rightarrow> HEADER_NAV_DEFAULT
      | Some s \<Rightarrow>
          if s = [] then HEADER_NAV_DEFAULT
          else case Option.bind (JSON_parse s) js_entries of
                 None \<Rightarrow> HEADER_NAV_DEFAULT
               | Some es \<Rightarrow> assign_entries header_entry es HEADER_NAV_DEFAULT)"

definition serializeHeaderNavModules :: "HeaderNavModulesConfig \<Rightarrow> jsstring" where
  "serializeHeaderNavModules config = JSON_stringify (JObj config)"

text \<open>The form of the header settings.\<close>

record HeaderNavFormValues =
  hf_home :: bool
  hf_console :: bool
  hf_pricingEnabled :: bool
  hf_pricingRequireAuth :: bool
  hf_rankingsEnabled :: bool
  hf_rankingsRequireAuth :: bool
  hf_docs :: bool
  hf_about :: bool

definition flag_value :: "jsval option \<Rightarrow> bool \<Rightarrow> bool" where
  "flag_value v dflt = (if v = None then dflt else truthy_opt v)"

definition access_value :: "jsval option \<Rightarrow> jsstring \<Rightarrow> bool \<Rightarrow> bool" where
  "access_value m k dflt = flag_value (case m of Some v \<Rightarrow> js_prop v k | None \<Rightarrow> None) dflt"

definition toFormValues :: "HeaderNavModulesConfig \<Rightarrow> HeaderNavFormValues" where
  "toFormValues config =
     \<lparr>hf_home = flag_value (obj_get config (js ''home'')) True,
      hf_console = flag_value (obj_get config (js ''console'')) True,
      hf_pricingEnabled = access_value (obj_get config (js ''pricing'')) (js ''enabled'') True,
      hf_pricingRequireAuth = access_value (obj_get config (js ''pricing'')) (js ''requireAuth'') False,
      hf_rankingsEnabled = access_value (obj_get config (js ''rankings'')) (js ''enabled'') True,
      hf_rankingsRequireAuth = access_value (obj_get config (js ''rankings'')) (js ''requireAuth'') False,
      hf_docs = flag_value (obj_get config (js ''docs'')) True,
      hf_about = flag_value (obj_get config (js ''about'')) True\<rparr>"

definition access_payload :: "jsval option \<Rightarrow> bool \<Rightarrow> bool \<Rightarrow> jsval" where
  "access_payload m enabled requireAuth =
     JObj (obj_put (js ''requireAuth'') (JBool requireAuth) (obj_put (js ''enabled'') (JBool enabled)
       (spread_into [] (nullish m (access_json ACCESS_DEFAULT)))))"

definition header_payload :: "HeaderNavModulesConfig \<Rightarrow> HeaderNavFormValues \<Rightarrow> HeaderNavModulesConfig" where
  "header_payload config values =
     obj_put (js ''rankings'')
       (access_payload (obj_get config (js ''rankings'')) (hf_rankingsEnabled values) (hf_rankingsRequireAuth values))
     (obj_put (js ''pricing'')
       (access_payload (obj_get config (js ''pricing'')) (hf_pricingEnabled values) (hf_pricingRequireAuth values))
     (obj_put (js ''about'') (JBool (hf_about values))
     (obj_put (js ''docs'') (JBool (hf_docs values))
     (obj_put (js ''console'') (JBool (hf_console values))
     (obj_put (js ''home'') (JBool (hf_home values)) config)))))"

text \<open>What the form sends for the option; \<open>None\<close> when nothing changed.\<close>

definition headerSubmit :: "jsstring option \<Rightarrow> HeaderNavFormValues \<Rightarrow> jsstring option" where
  "headerSubmit stored values =
     (let config = parseHeaderNavModules stored;
          serialized = serializeHeaderNavModules (header_payload config values)
      in if serialized = serializeHeaderNavModules config then None else Some serialized)"

subsection \<open>The header and the guards of its routes\<close>

definition DEFAULT_HEADER_NAV_MODULES :: HeaderNavModulesConfig where
  "DEFAULT_HEADER_NAV_MODULES =
     [(js ''home'', JBool True), (js ''console'', JBool True),
      (js ''pricing'', access_json \<lparr>ac_enabled = True, ac_requireAuth = False\<rparr>),
      (js ''rankings'', access_json \<lparr>ac_enabled = True, ac_requireAuth = False\<rparr>),
      (js ''docs'', JBool True), (js ''about'', JBool True)]"

definition parseHeaderNavBoolean :: "jsval option \<Rightarrow> bool \<Rightarrow> bool" where
  "parseHeaderNavBoolean raw fallback =
     (case raw of
        Some (JBool b) \<Rightarrow> b
      | Some (JNum n) \<Rightarrow> if n = 1 then True else if n = 0 then False else fallback
      | Some (JStr s) \<Rightarrow> if true_word s then True else if false_word s then False else fallback
      | _ \<Rightarrow> fallback)"

definition parseAccess :: "jsval \<Rightarrow> HeaderNavAccessConfig \<Rightarrow> HeaderNavAccessConfig" where
  "parseAccess raw fallback =
     (if is_scalar raw
      then \<lparr>ac_enabled = parseHeaderNavBoolean (Some raw) (ac_enabled fallback), ac_requireAuth = ac_requireAuth fallback\<rparr>
      else if is_object raw
      then \<lparr>ac_enabled = parseHeaderNavBoolean (js_prop raw (js ''enabled'')) (ac_enabled fallback),
            ac_requireAuth = parseHeaderNavBoolean (js_prop raw (js ''requireAuth'')) (ac_requireAuth fallback)\<rparr>
      else fallback)"

definition parseHeaderNavRecord :: "jsval option \<Rightarrow> jsval option" where
  "parseHeaderNavRecord raw =
     (case raw of
        None \<Rightarrow> None
      | Some v \<Rightarrow>
          if \<not> truthy v \<or> trim (to_str v) = [] then None
          else if is_object v then Some v
          else JSON_parse (to_str v))"

text \<open>The value a module has, as an access configuration.\<close>

definition access_of :: "jsval option \<Rightarrow> HeaderNavAccessConfig" where
  "access_of v =
     (case v of
        Some (JObj [(_, JBool e), (_, JBool r)]) \<Rightarrow> \<lparr>ac_enabled = e, ac_requireAuth = r\<rparr>
      | _ \<Rightarrow> ACCESS_DEFAULT)"

definition public_entry :: "jsstring \<Rightarrow> jsval \<Rightarrow> jsval option \<Rightarrow> jsval option" where
  "public_entry key v old =
     (if key = js ''pricing'' \<or> key = js ''rankings'' then Some (access_json (parseAccess v (access_of old)))
      else case old of
             Some (JBool b) \<Rightarrow> Some (JBool (parseHeaderNavBoolean (Some v) b))
           | _ \<Rightarrow> if is_scalar v then Some (JBool (parseHeaderNavBoolean (Some v) True)) else None)"

definition parseHeaderNavModules_public :: "jsval option \<Rightarrow> HeaderNavModulesConfig" where
  "parseHeaderNavModules_public raw =
     (case parseHeaderNavRecord raw of
        None \<Rightarrow> DEFAULT_HEADER_NAV_MODULES
      | Some parsed \<Rightarrow>
          if \<not> truthy parsed then DEFAULT_HEADER_NAV_MODULES
          else assign_entries public_entry (nullish (js_entries parsed) []) DEFAULT_HEADER_NAV_MODULES)"

text \<open>The status of the server, \<open>None\<close> for \<open>null\<close>.\<close>

definition parseHeaderNavModulesFromStatus :: "jsval option \<Rightarrow> HeaderNavModulesConfig" where
  "parseHeaderNavModulesFromStatus status =
     parseHeaderNavModules_public (case status of None \<Rightarrow> None | Some st \<Rightarrow> js_prop st (js ''HeaderNavModules''))"

definition getModuleAccessFromStatus :: "jsval option \<Rightarrow> jsstring \<Rightarrow> HeaderNavAccessConfig" where
  "getModuleAccessFromStatus status mdl = access_of (obj_get (parseHeaderNavModulesFromStatus status) mdl)"

text \<open>The status in the local storage; a text that cannot be read counts as none.\<close>

definition getCachedStatus :: "jsstring option \<Rightarrow> jsval option" where
  "getCachedStatus storage =
     (case storage of
        None \<Rightarrow> None
      | Some raw \<Rightarrow>
          if raw = [] then None
          else case JSON_parse raw of Some v \<Rightarrow> if v = JNull then None else Some v | None \<Rightarrow> None)"

definition cacheStatus :: "jsval option \<Rightarrow> jsstring option \<Rightarrow> jsstring option" where
  "cacheStatus status storage = (case status of Some st \<Rightarrow> Some (JSON_stringify st) | None \<Rightarrow> storage)"

definition getModuleAccess :: "jsstring option \<Rightarrow> jsstring \<Rightarrow> HeaderNavAccessConfig" where
  "getModuleAccess storage mdl = getModuleAccessFromStatus (getCachedStatus storage) mdl"

text \<open>The request for the status fails (\<open>None\<close>) or gives a status.\<close>

definition getFreshModuleAccess ::
    "jsval option option \<Rightarrow> jsstring \<Rightarrow> jsstring option \<Rightarrow> HeaderNavAccessConfig \<times> jsstring option" where
  "getFreshModuleAccess outcome mdl storage =
     (case outcome of
        None \<Rightarrow> (\<lparr>ac_enabled = False, ac_requireAuth = True\<rparr>, storage)
      | Some status \<Rightarrow> (getModuleAccessFromStatus status mdl, cacheStatus status storage))"

datatype guard_result = EnterPage | RedirectHome | RedirectSignIn

definition beforeLoad :: "HeaderNavAccessConfig \<Rightarrow> bool \<Rightarrow> guard_result" where
  "beforeLoad access isAuthed =
     (if \<not> ac_enabled access then RedirectHome
      else if ac_requireAuth access \<and> \<not> isAuthed then RedirectSignIn
      else EnterPage)"

record TopNavLink =
  tl_title :: jsstring
  tl_href :: jsstring
  tl_requiresAuth :: bool
  tl_external :: bool

definition plain_link :: "jsstring \<Rightarrow> string \<Rightarrow> TopNavLink" where
  "plain_link title href = \<lparr>tl_title = title, tl_href = js href, tl_requiresAuth = False, tl_external = False\<rparr>"

definition access_link :: "jsval option \<Rightarrow> bool \<Rightarrow> jsstring \<Rightarrow> string \<Rightarrow> TopNavLink list" where
  "access_link m isAuthed title href =
     (case m of
        Some v \<Rightarrow>
          if is_object v \<and> truthy_opt (js_prop v (js ''enabled''))
          then [(plain_link title href)
            \<lparr>tl_requiresAuth := truthy_opt (js_prop v (js ''requireAuth'')) \<and> \<not> isAuthed\<rparr>]
          else []
      | None \<Rightarrow> [])"

definition useTopNavLinks :: "(jsstring \<Rightarrow> jsstring) \<Rightarrow> jsval option \<Rightarrow> bool \<Rightarrow> TopNavLink list" where
  "useTopNavLinks t status isAuthed =
     (let modules = parseHeaderNavModulesFromStatus status;
          docsLink = (case status of None \<Rightarrow> None | Some st \<Rightarrow> js_prop st (js ''docs_link''));
          shown = (\<lambda>k link. if obj_get modules (js k) \<noteq> Some (JBool False) then [link] else [])
      in shown ''home'' (plain_link (t (js ''Home'')) ''/'') @
         shown ''console'' (plain_link (t (js ''Console'')) ''/dashboard'') @
         access_link (obj_get modules (js ''pricing'')) isAuthed (t (js ''Model Square'')) ''/pricing'' @
         access_link (obj_get modules (js ''rankings'')) isAuthed (t (js ''Rankings'')) ''/rankings'' @
         shown ''docs'' (if truthy_opt docsLink
           then \<lparr>tl_title = t (js ''Docs''), tl_href = to_str (nullish docsLink JNull), tl_requiresAuth = False, tl_external = True\<rparr>
           else plain_link (t (js ''Docs'')) ''/docs'') @
         shown ''about'' (plain_link (t (js ''About'')) ''/about''))"

subsection \<open>The settings of the sidebar\<close>

type_synonym SidebarSectionConfig = "(jsstring \<times> bool) list"
type_synonym SidebarModulesAdminConfig = "(jsstring \<times> SidebarSectionConfig) list"

definition all_on :: "string list \<Rightarrow> SidebarSectionConfig" where
  "all_on ks = map (\<lambda>k. (js k, True)) ks"

definition SIDEBAR_MODULES_DEFAULT :: SidebarModulesAdminConfig where
  "SIDEBAR_MODULES_DEFAULT =
     [(js ''chat'', all_on [''enabled'', ''playground'', ''chat'']),
      (js ''console'', all_on [''enabled'', ''detail'', ''token'', ''log'', ''midjourney'', ''task'']),
      (js ''personal'', all_on [''enabled'', ''topup'', ''personal'']),
      (js ''admin'', all_on [''enabled'', ''channel'', ''models'', ''redemption'', ''user'', ''setting'', ''subscription''])]"

text \<open>The flags of a section that the text has.\<close>

definition read_section :: "jsstring \<Rightarrow> jsval \<Rightarrow> SidebarSectionConfig" where
  "read_section sectionKey raw =
     (let defaultSection = nullish (obj_get SIDEBAR_MODULES_DEFAULT sectionKey) (all_on [''enabled''])
      in assign_entries
           (\<lambda>moduleKey moduleValue _. if moduleKey = js ''enabled'' then None
              else Some (toBoolean (Some moduleValue) (nullish (obj_get defaultSection moduleKey) True)))
           (nullish (js_entries raw) [])
           [(js ''enabled'', toBoolean (js_prop raw (js ''enabled'')) (nullish (obj_get defaultSection (js ''enabled'')) True))])"

text \<open>What a default section adds to what was read.\<close>

definition merge_section :: "SidebarSectionConfig \<Rightarrow> SidebarSectionConfig option \<Rightarrow> SidebarSectionConfig" where
  "merge_section config old =
     (case old of
        None \<Rightarrow> config
      | Some ms \<Rightarrow> assign_entries (\<lambda>_ b old. if old = None then Some b else None) config ms)"

definition parseSidebarModulesAdmin :: "jsstring option \<Rightarrow> SidebarModulesAdminConfig" where
  "parseSidebarModulesAdmin v =
     (case v of
        None \<Rightarrow> SIDEBAR_MODULES_DEFAULT
      | Some s \<Rightarrow>
          if trim s = [] then SIDEBAR_MODULES_DEFAULT
          else case Option.bind (JSON_parse s) js_entries of
                 None \<Rightarrow> SIDEBAR_MODULES_DEFAULT
               | Some es \<Rightarrow>
                   assign_entries (\<lambda>_ config old. Some (merge_section config old)) SIDEBAR_MODULES_DEFAULT
                     (assign_entries (\<lambda>k raw _. if is_object raw then Some (read_section k raw) else None) es []))"

definition section_json :: "SidebarSectionConfig \<Rightarrow> jsval" where
  "section_json ms = JObj (map (\<lambda>(k, b). (k, JBool b)) ms)"

definition sidebar_json :: "SidebarModulesAdminConfig \<Rightarrow> jsval" where
  "sidebar_json config = JObj (map (\<lambda>(k, ms). (k, section_json ms)) config)"

definition serializeSidebarModulesAdmin :: "SidebarModulesAdminConfig \<Rightarrow> jsstring" where
  "serializeSidebarModulesAdmin config = JSON_stringify (sidebar_json config)"

text \<open>The form edits the configuration in place.\<close>

definition sidebarSubmit :: "jsstring option \<Rightarrow> SidebarModulesAdminConfig \<Rightarrow> jsstring option" where
  "sidebarSubmit stored values =
     (let serialized = serializeSidebarModulesAdmin values
      in if serialized = serializeSidebarModulesAdmin (parseSidebarModulesAdmin stored) then None else Some serialized)"

definition isSidebarModuleEnabled :: "jsstring option \<Rightarrow> jsstring \<Rightarrow> jsstring \<Rightarrow> bool" where
  "isSidebarModuleEnabled storage section mdl =
     (case getCachedStatus storage of
        None \<Rightarrow> True
      | Some status \<Rightarrow>
          if \<not> truthy status then True
          else case js_prop status (js ''SidebarModulesAdmin'') of
                 None \<Rightarrow> True
               | Some raw \<Rightarrow>
                   if \<not> truthy raw \<or> trim (to_str raw) = [] then True
                   else case JSON_parse (to_str raw) of
                          None \<Rightarrow> True
                        | Some parsed \<Rightarrow>
                            (case js_prop parsed section of
                               None \<Rightarrow> True
                             | Some cfg \<Rightarrow>
                                 if \<not> truthy cfg then True
                                 else js_prop cfg (js ''enabled'') \<noteq> Some (JBool False) \<and>
                                      js_prop cfg mdl \<noteq> Some (JBool False)))"

subsection \<open>The sidebar\<close>

definition DEFAULT_SIDEBAR_MODULES :: "(jsstring \<times> jsval) list" where
  "DEFAULT_SIDEBAR_MODULES =
     map (\<lambda>(k, ms). (js k, section_json (all_on ms)))
       [(''chat'', [''enabled'', ''playground'', ''chat'']),
        (''console'', [''enabled'', ''detail'', ''token'', ''log'', ''midjourney'', ''task'']),
        (''personal'', [''enabled'', ''topup'', ''personal'']),
        (''admin'', [''enabled'', ''channel'', ''models'', ''redemption'', ''user'', ''setting'', ''subscription''])]"

text \<open>
  The default modules come first, and what the section has overrides them.  The loop that fills modules which are
  \<open>undefined\<close> finds none in a JSON value.
\<close>

definition mergeWithDefaultSidebarModules :: "jsval \<Rightarrow> (jsstring \<times> jsval) list" where
  "mergeWithDefaultSidebarModules config =
     assign_entries
       (\<lambda>_ defaultSection old.
          if truthy_opt old then Some (JObj (spread_into (spread_into [] defaultSection) (nullish old JNull)))
          else Some defaultSection)
       DEFAULT_SIDEBAR_MODULES (spread_into [] config)"

definition URL_TO_CONFIG_MAP :: "(jsstring \<times> jsstring \<times> jsstring) list" where
  "URL_TO_CONFIG_MAP = map (\<lambda>(u, s, m). (js u, js s, js m))
     [(''/playground'', ''chat'', ''playground''),
      (''/dashboard'', ''console'', ''detail''),
      (''/dashboard/overview'', ''console'', ''detail''),
      (''/dashboard/models'', ''console'', ''detail''),
      (''/dashboard/users'', ''console'', ''detail''),
      (''/keys'', ''console'', ''token''),
      (''/usage-logs'', ''console'', ''log''),
      (''/usage-logs/common'', ''console'', ''log''),
      (''/usage-logs/drawing'', ''console'', ''midjourney''),
      (''/usage-logs/task'', ''console'', ''task''),
      (''/wallet'', ''personal'', ''topup''),
      (''/profile'', ''personal'', ''personal''),
      (''/channels'', ''admin'', ''channel''),
      (''/models'', ''admin'', ''models''),
      (''/models/metadata'', ''admin'', ''models''),
      (''/models/deployments'', ''admin'', ''models''),
      (''/users'', ''admin'', ''user''),
      (''/redemption-codes'', ''admin'', ''redemption''),
      (''/subscriptions'', ''admin'', ''subscription''),
      (''/system-settings'', ''admin'', ''setting''),
      (''/system-settings/site'', ''admin'', ''setting'')]"

definition parseSidebarConfig :: "jsstring option \<Rightarrow> (jsstring \<times> jsval) list" where
  "parseSidebarConfig v =
     (case v of
        None \<Rightarrow> DEFAULT_SIDEBAR_MODULES
      | Some s \<Rightarrow>
          if trim s = [] then DEFAULT_SIDEBAR_MODULES
          else case JSON_parse s of
                 None \<Rightarrow> DEFAULT_SIDEBAR_MODULES
               | Some parsed \<Rightarrow> mergeWithDefaultSidebarModules parsed)"

definition parseUserSidebarConfig :: "jsstring option \<Rightarrow> jsval option" where
  "parseUserSidebarConfig v =
     (case v of
        None \<Rightarrow> None
      | Some s \<Rightarrow>
          if trim s = [] then None
          else case JSON_parse s of
                 None \<Rightarrow> None
               | Some parsed \<Rightarrow> if is_object parsed then Some parsed else None)"

text \<open>The two layers of a section and a module: what the administrator allows and what the user keeps.\<close>

definition adminAllowed :: "(jsstring \<times> jsval) list \<Rightarrow> jsstring \<Rightarrow> jsstring \<Rightarrow> bool" where
  "adminAllowed adminConfig section mdl =
     (case obj_get adminConfig section of
        None \<Rightarrow> False
      | Some s \<Rightarrow> truthy s \<and> truthy_opt (js_prop s (js ''enabled'')) \<and> js_prop s mdl = Some (JBool True))"

definition userKeeps :: "jsval option \<Rightarrow> jsstring \<Rightarrow> jsstring \<Rightarrow> bool" where
  "userKeeps userConfig section mdl =
     (case userConfig of
        None \<Rightarrow> True
      | Some u \<Rightarrow>
          (case js_prop u section of
             None \<Rightarrow> True
           | Some s \<Rightarrow>
               if \<not> truthy s then True
               else js_prop s (js ''enabled'') \<noteq> Some (JBool False) \<and> js_prop s mdl \<noteq> Some (JBool False)))"

definition isModuleEnabled :: "jsstring \<Rightarrow> (jsstring \<times> jsval) list \<Rightarrow> jsval option \<Rightarrow> bool" where
  "isModuleEnabled url adminConfig userConfig =
     (case obj_get URL_TO_CONFIG_MAP url of
        None \<Rightarrow> True
      | Some (section, mdl) \<Rightarrow>
          if \<not> adminAllowed adminConfig section mdl then False else userKeeps userConfig section mdl)"

record nav_link =
  nl_title :: jsstring
  nl_url :: jsstring

datatype NavItem =
    NavLink jsstring jsstring "jsstring list option"
  | NavCollapsible jsstring "nav_link list"
  | NavChatPresets jsstring

record NavGroup =
  ng_id :: "jsstring option"
  ng_title :: jsstring
  ng_items :: "NavItem list"

fun isNavItemVisible :: "NavItem \<Rightarrow> (jsstring \<times> jsval) list \<Rightarrow> jsval option \<Rightarrow> bool" where
  "isNavItemVisible (NavChatPresets _) adminConfig userConfig =
     (if \<not> adminAllowed adminConfig (js ''chat'') (js ''chat'') then False
      else userKeeps userConfig (js ''chat'') (js ''chat''))"
| "isNavItemVisible (NavLink _ url configUrls) adminConfig userConfig =
     (if url = [] then True
      else list_ex (\<lambda>u. isModuleEnabled u adminConfig userConfig) (nullish configUrls [url]))"
| "isNavItemVisible (NavCollapsible _ items) adminConfig userConfig =
     list_ex (\<lambda>i. isModuleEnabled (nl_url i) adminConfig userConfig) items"

fun filter_sub_items :: "(jsstring \<times> jsval) list \<Rightarrow> jsval option \<Rightarrow> NavItem \<Rightarrow> NavItem" where
  "filter_sub_items adminConfig userConfig (NavCollapsible title items) =
     NavCollapsible title (filter (\<lambda>i. isModuleEnabled (nl_url i) adminConfig userConfig) items)"
| "filter_sub_items adminConfig userConfig item = item"

definition filterNavItems :: "NavItem list \<Rightarrow> (jsstring \<times> jsval) list \<Rightarrow> jsval option \<Rightarrow> NavItem list" where
  "filterNavItems items adminConfig userConfig =
     filter (\<lambda>item. isNavItemVisible item adminConfig userConfig) (map (filter_sub_items adminConfig userConfig) items)"

text \<open>The text of the administrator, whether the user may configure the sidebar, and the user's own text.\<close>

definition useSidebarConfig ::
    "NavGroup list \<Rightarrow> jsstring option \<Rightarrow> bool option \<Rightarrow> jsstring option \<Rightarrow> NavGroup list" where
  "useSidebarConfig navGroups admin sidebar_settings user =
     (let adminConfig = parseSidebarConfig admin;
          userConfig = (if sidebar_settings = Some False then None else parseUserSidebarConfig user)
      in filter (\<lambda>g. ng_items g \<noteq> [])
           (map (\<lambda>g. g\<lparr>ng_items := filterNavItems (ng_items g) adminConfig userConfig\<rparr>) navGroups))"

definition ROLE_ADMIN :: int where "ROLE_ADMIN = 10"

definition rootNavGroups :: "NavGroup list \<Rightarrow> int option \<Rightarrow> NavGroup list" where
  "rootNavGroups configFilteredRoot userRole =
     filter (\<lambda>g. if ng_id g = Some (js ''admin'') then (case userRole of Some r \<Rightarrow> ROLE_ADMIN \<le> r | None \<Rightarrow> False) else True)
       configFilteredRoot"

subsection \<open>The card of a user\<close>

definition card_defaults :: "(jsstring \<times> jsval) list" where
  "card_defaults =
     map (\<lambda>(k, ms). (js k, section_json (all_on ms)))
       [(''chat'', [''enabled'', ''playground'', ''chat'']),
        (''console'', [''enabled'', ''detail'', ''token'', ''log'', ''midjourney'', ''task'']),
        (''personal'', [''enabled'', ''topup'', ''personal''])]"

text \<open>What the server has for the user: nothing, a text or an object; \<open>None\<close> keeps the state.\<close>

definition loadConfig :: "jsval option \<Rightarrow> jsval option" where
  "loadConfig raw =
     (if \<not> truthy_opt raw then Some (JObj card_defaults)
      else case raw of Some (JStr s) \<Rightarrow> JSON_parse s | _ \<Rightarrow> raw)"

definition toggleModule :: "jsstring \<Rightarrow> jsstring \<Rightarrow> bool \<Rightarrow> jsval \<Rightarrow> jsval" where
  "toggleModule sectionKey moduleKey v prev =
     JObj (obj_put sectionKey
       (JObj (obj_put moduleKey (JBool v) (spread_into [] (nullish (js_prop prev sectionKey) JNull)))) (spread_into [] prev))"

definition toggleSection :: "jsstring \<Rightarrow> bool \<Rightarrow> jsval \<Rightarrow> jsval" where
  "toggleSection sectionKey v prev = toggleModule sectionKey (js ''enabled'') v prev"

text \<open>The text that is sent and, when the server accepts it, kept for the user.\<close>

definition cardSave :: "jsval \<Rightarrow> jsstring" where
  "cardSave config = JSON_stringify config"

definition section_checked :: "jsval \<Rightarrow> jsstring \<Rightarrow> bool" where
  "section_checked config section =
     (case js_prop config section of None \<Rightarrow> True | Some s \<Rightarrow> js_prop s (js ''enabled'') \<noteq> Some (JBool False))"

definition module_checked :: "jsval \<Rightarrow> jsstring \<Rightarrow> jsstring \<Rightarrow> bool" where
  "module_checked config section mdl =
     (case js_prop config section of None \<Rightarrow> True | Some s \<Rightarrow> js_prop s mdl \<noteq> Some (JBool False))"

subsection \<open>Lookups\<close>

lemma assign_get:
  "distinct (map fst es) \<Longrightarrow> obj_get (assign_entries f es base) k =
     (case obj_get es k of
        None \<Rightarrow> obj_get base k
      | Some v \<Rightarrow> (case f k v (obj_get base k) of None \<Rightarrow> obj_get base k | Some w \<Rightarrow> Some w))"
proof (induction es arbitrary: base)
  case (Cons e es)
  obtain a v where e: "e = (a, v)" by (cases e)
  have "obj_get es a = None" using Cons.prems e by (simp add: obj_get_None)
  then show ?case using Cons by (auto simp: assign_entries_def e split: option.split)
qed (simp add: assign_entries_def)

lemma assign_keeps:
  assumes "\<And>r k v w. P r \<Longrightarrow> f k v (obj_get r k) = Some w \<Longrightarrow> P (obj_put k w r)"
  shows "P base \<Longrightarrow> P (assign_entries f es base)"
  unfolding assign_entries_def
proof (induction es arbitrary: base)
  case (Cons e es)
  then show ?case using assms by (auto split: prod.splits option.splits)
qed simp

lemma spread_get:
  "distinct (map fst (nullish (js_entries v) [])) \<Longrightarrow> obj_get (spread_into a v) k =
     (case obj_get (nullish (js_entries v) []) k of None \<Rightarrow> obj_get a k | Some w \<Rightarrow> Some w)"
  using assign_get [of "nullish (js_entries v) []" "\<lambda>_ w _. Some w" a k]
  by (simp add: spread_into_def assign_entries_def split: option.split)

lemma json_rt_distinct: "json_rt (JObj ps) \<Longrightarrow> distinct (map fst ps)"
  using distinct_obj_of [of ps] by simp

lemma entries_obj [simp]: "js_entries (JObj ps) = Some ps"
  by (simp add: js_entries_def)

lemma spread_obj_get: "json_rt (JObj ps) \<Longrightarrow> obj_get (spread_into a (JObj ps)) k =
    (case obj_get ps k of None \<Rightarrow> obj_get a k | Some w \<Rightarrow> Some w)"
  using json_rt_distinct by (subst spread_get) simp_all

lemma spread_self: "json_rt (JObj ps) \<Longrightarrow> spread_into [] (JObj ps) = ps"
  by (simp add: spread_into_def flip: obj_of_def)

lemma spread_null [simp]: "spread_into a JNull = a"
  by (simp add: spread_into_def js_entries_def)

lemma stringify_obj: "trim (JSON_stringify (JObj ps)) = JSON_stringify (JObj ps)" "JSON_stringify (JObj ps) \<noteq> []"
proof -
  show "trim (JSON_stringify (JObj ps)) = JSON_stringify (JObj ps)"
    by (rule trim_trimmed) (auto simp: trimmed_def is_ws_def js_lits)
  show "JSON_stringify (JObj ps) \<noteq> []" by simp
qed

subsection \<open>The header\<close>

text \<open>Both readers give the two access modules an access configuration and the four flags a flag.\<close>

definition typed_header :: "HeaderNavModulesConfig \<Rightarrow> bool" where
  "typed_header r \<longleftrightarrow>
     (\<forall>k\<in>{js ''pricing'', js ''rankings''}. \<exists>a. obj_get r k = Some (access_json a)) \<and>
     (\<forall>k\<in>{js ''home'', js ''console'', js ''docs'', js ''about''}. \<exists>b. obj_get r k = Some (JBool b))"

lemma access_of_json [simp]: "access_of (Some (access_json a)) = a"
  by (simp add: access_of_def access_json_def)

lemma same_defaults [simp]: "DEFAULT_HEADER_NAV_MODULES = HEADER_NAV_DEFAULT"
  by (simp add: DEFAULT_HEADER_NAV_MODULES_def HEADER_NAV_DEFAULT_def ACCESS_DEFAULT_def)

lemma typed_header_default: "typed_header HEADER_NAV_DEFAULT"
  by (simp add: typed_header_def HEADER_NAV_DEFAULT_def) blast

lemma typed_put:
  assumes "typed_header r" "k \<in> {js ''pricing'', js ''rankings''} \<Longrightarrow> \<exists>a. w = access_json a"
    and "k \<notin> {js ''pricing'', js ''rankings''} \<Longrightarrow> \<exists>b. w = JBool b"
  shows "typed_header (obj_put k w r)"
  using assms by (auto simp: typed_header_def)

lemma typed_parse: "typed_header (parseHeaderNavModules v)"
proof -
  have "typed_header (assign_entries header_entry es HEADER_NAV_DEFAULT)" for es
    by (rule assign_keeps [where P = typed_header])
      (auto simp: header_entry_def typed_header_default intro!: typed_put split: if_splits jsval.splits)
  then show ?thesis by (simp add: parseHeaderNavModules_def typed_header_default split: option.split)
qed

lemma typed_public: "typed_header (parseHeaderNavModules_public v)"
proof -
  have "typed_header (assign_entries public_entry es HEADER_NAV_DEFAULT)" for es
    by (rule assign_keeps [where P = typed_header])
      (auto simp: public_entry_def typed_header_default intro!: typed_put split: if_splits option.splits jsval.splits)
  then show ?thesis by (simp add: parseHeaderNavModules_public_def typed_header_default split: option.split)
qed


text \<open>What the form sends has its values, whatever the stored text was.\<close>

lemma access_payload_json: "access_payload (Some (access_json a)) e r = access_json \<lparr>ac_enabled = e, ac_requireAuth = r\<rparr>"
  by (simp add: access_payload_def access_json_def spread_into_def obj_put_def js_lits is_index_key_def all_digits_def is_digit_def)

lemma utf16_access: "json_rt (access_json a)"
  by (simp add: access_json_def obj_of_def obj_put_def js_lits is_index_key_def all_digits_def is_digit_def utf16_def)

lemma typed_access: "typed_header r \<Longrightarrow> \<exists>a. obj_get r (js ''pricing'') = Some (access_json a)"
  "typed_header r \<Longrightarrow> \<exists>a. obj_get r (js ''rankings'') = Some (access_json a)"
  by (simp_all add: typed_header_def)

lemma payload_get:
  assumes "typed_header config"
  shows "obj_get (header_payload config v) (js ''home'') = Some (JBool (hf_home v))"
    "obj_get (header_payload config v) (js ''console'') = Some (JBool (hf_console v))"
    "obj_get (header_payload config v) (js ''docs'') = Some (JBool (hf_docs v))"
    "obj_get (header_payload config v) (js ''about'') = Some (JBool (hf_about v))"
    "obj_get (header_payload config v) (js ''pricing'') =
       Some (access_json \<lparr>ac_enabled = hf_pricingEnabled v, ac_requireAuth = hf_pricingRequireAuth v\<rparr>)"
    "obj_get (header_payload config v) (js ''rankings'') =
       Some (access_json \<lparr>ac_enabled = hf_rankingsEnabled v, ac_requireAuth = hf_rankingsRequireAuth v\<rparr>)"
  using typed_access [OF assms] by (auto simp: header_payload_def access_payload_json)

lemma payload_rt:
  assumes "typed_header config" "json_rt (JObj config)"
  shows "json_rt (JObj (header_payload config v))"
  using typed_access [OF assms(1)] assms(2)
  by (auto simp: header_payload_def access_payload_json utf16_access simp del: json_rt.simps(6))

lemma access_reads [simp]: "parseAccess (access_json a) b = a" "parseAccessModule (access_json a) b = a"
  by (simp_all add: parseAccess_def parseAccessModule_def access_json_def js_prop_def toBoolean_def parseHeaderNavBoolean_def)

lemma public_reads:
  assumes "json_rt (JObj ps)"
  shows "obj_get (parseHeaderNavModules_public (Some (JStr (JSON_stringify (JObj ps))))) k =
    (case obj_get ps k of
       None \<Rightarrow> obj_get HEADER_NAV_DEFAULT k
     | Some v \<Rightarrow> (case public_entry k v (obj_get HEADER_NAV_DEFAULT k) of
         None \<Rightarrow> obj_get HEADER_NAV_DEFAULT k | Some w \<Rightarrow> Some w))"
  using stringify_obj [of ps] JSON_parse_stringify [OF assms] assign_get [OF json_rt_distinct [OF assms]]
  by (simp add: parseHeaderNavModules_public_def parseHeaderNavRecord_def truthy_def del: JSON_stringify.simps)

lemma settings_read:
  assumes "json_rt (JObj ps)"
  shows "obj_get (parseHeaderNavModules (Some (JSON_stringify (JObj ps)))) k =
    (case obj_get ps k of
       None \<Rightarrow> obj_get HEADER_NAV_DEFAULT k
     | Some v \<Rightarrow> (case header_entry k v (obj_get HEADER_NAV_DEFAULT k) of
         None \<Rightarrow> obj_get HEADER_NAV_DEFAULT k | Some w \<Rightarrow> Some w))"
  using stringify_obj [of ps] JSON_parse_stringify [OF assms] assign_get [OF json_rt_distinct [OF assms]]
  by (simp add: parseHeaderNavModules_def del: JSON_stringify.simps)

definition header_shows :: "HeaderNavModulesConfig \<Rightarrow> HeaderNavFormValues \<Rightarrow> bool" where
  "header_shows config v \<longleftrightarrow>
     obj_get config (js ''home'') = Some (JBool (hf_home v)) \<and> obj_get config (js ''console'') = Some (JBool (hf_console v)) \<and>
     obj_get config (js ''docs'') = Some (JBool (hf_docs v)) \<and> obj_get config (js ''about'') = Some (JBool (hf_about v)) \<and>
     obj_get config (js ''pricing'') = Some (access_json \<lparr>ac_enabled = hf_pricingEnabled v, ac_requireAuth = hf_pricingRequireAuth v\<rparr>) \<and>
     obj_get config (js ''rankings'') = Some (access_json \<lparr>ac_enabled = hf_rankingsEnabled v, ac_requireAuth = hf_rankingsRequireAuth v\<rparr>)"

lemma access_props [simp]: "js_prop (access_json a) (js ''enabled'') = Some (JBool (ac_enabled a))"
  "js_prop (access_json a) (js ''requireAuth'') = Some (JBool (ac_requireAuth a))" "is_object (access_json a)"
  by (simp_all add: access_json_def js_prop_def)

lemma js_prop_obj [simp]: "js_prop (JObj ps) k = obj_get ps k"
  by (simp add: js_prop_def)

lemma truthy_text [simp]: "truthy (JStr s) \<longleftrightarrow> s \<noteq> []"
  by (simp add: truthy_def)

lemma truthy_flag [simp]: "truthy_opt (Some (JBool b)) = b" "truthy (JBool b) = b" "truthy (JObj ps)"
  by (simp_all add: truthy_opt_def truthy_def)

text \<open>
  Claim C28.  What the settings form of the header sends is what visitors see and what the form shows when it is opened again, whatever
  text was stored before: every flag and both access configurations have the values of the form.
\<close>

theorem header_form_published:
  assumes "json_rt (JObj (parseHeaderNavModules stored))" "headerSubmit stored v = Some doc"
    and "js_prop status (js ''HeaderNavModules'') = Some (JStr doc)"
  shows "header_shows (parseHeaderNavModulesFromStatus (Some status)) v \<and>
    toFormValues (parseHeaderNavModules (Some doc)) = v"
proof
  let ?p = "header_payload (parseHeaderNavModules stored) v"
  have doc: "doc = JSON_stringify (JObj ?p)"
    using assms(2) by (simp add: headerSubmit_def serializeHeaderNavModules_def Let_def split: if_splits)
  note rt = payload_rt [OF typed_parse assms(1)] and get = payload_get [OF typed_parse, of stored v]
  show "header_shows (parseHeaderNavModulesFromStatus (Some status)) v"
    unfolding header_shows_def parseHeaderNavModulesFromStatus_def option.case assms(3) doc public_reads [OF rt] get
    by (simp add: public_entry_def parseHeaderNavBoolean_def HEADER_NAV_DEFAULT_def)
  show "toFormValues (parseHeaderNavModules (Some doc)) = v"
    unfolding toFormValues_def doc settings_read [OF rt] get
    by (simp add: header_entry_def flag_value_def access_value_def)
qed

text \<open>A form whose values were not changed sends nothing.\<close>

lemma put_same: "obj_get ps k = Some v \<Longrightarrow> obj_put k v ps = ps"
proof -
  have "obj_get ps k = Some v \<Longrightarrow> obj_replace k v ps = ps" by (induction k v ps rule: obj_replace.induct) auto
  then show "obj_get ps k = Some v \<Longrightarrow> obj_put k v ps = ps" by (simp add: obj_put_def)
qed

lemma unchanged_payload: "typed_header config \<Longrightarrow> header_payload config (toFormValues config) = config"
proof -
  assume typed: "typed_header config"
  then obtain p r where m: "obj_get config (js ''pricing'') = Some (access_json p)"
    "obj_get config (js ''rankings'') = Some (access_json r)" using typed_access by blast
  obtain h c d a where f: "obj_get config (js ''home'') = Some (JBool h)" "obj_get config (js ''console'') = Some (JBool c)"
    "obj_get config (js ''docs'') = Some (JBool d)" "obj_get config (js ''about'') = Some (JBool a)"
    using typed by (auto simp: typed_header_def)
  note same = put_same [OF m(1)] put_same [OF m(2)] put_same [OF f(1)] put_same [OF f(2)] put_same [OF f(3)] put_same [OF f(4)]
  have eta: "\<lparr>ac_enabled = ac_enabled x, ac_requireAuth = ac_requireAuth x\<rparr> = x" for x :: HeaderNavAccessConfig by simp
  show ?thesis
    by (simp add: header_payload_def toFormValues_def flag_value_def access_value_def m f access_payload_json same eta)
qed

text \<open>
  A defect: the two readers of the header settings disagree on numbers other than 0 and 1.  A flag stored as such
  a number is shown as off in the settings form and as on to visitors, and saving the form as it is sends nothing,
  because the form compares with what it would have written for its own reading.
\<close>

theorem numeric_flag_stuck:
  assumes "JSON_parse s = Some (JObj ps)" "json_rt (JObj ps)" "trim s \<noteq> []"
    and "obj_get ps (js ''home'') = Some (JNum n)" "n \<noteq> 0" "n \<noteq> 1"
  shows "\<not> hf_home (toFormValues (parseHeaderNavModules (Some s))) \<and>
    obj_get (parseHeaderNavModules_public (Some (JStr s))) (js ''home'') = Some (JBool True) \<and>
    headerSubmit (Some s) (toFormValues (parseHeaderNavModules (Some s))) = None"
proof -
  have "s \<noteq> []" using assms(3) by auto
  then have "obj_get (parseHeaderNavModules (Some s)) (js ''home'') = Some (JBool False)"
    using assms
    by (simp add: parseHeaderNavModules_def header_entry_def toBoolean_def assign_get [OF json_rt_distinct [OF assms(2)]])
  moreover have "obj_get (parseHeaderNavModules_public (Some (JStr s))) (js ''home'') = Some (JBool True)"
    using assms \<open>s \<noteq> []\<close>
    by (simp add: parseHeaderNavModules_public_def parseHeaderNavRecord_def truthy_def public_entry_def
        parseHeaderNavBoolean_def HEADER_NAV_DEFAULT_def assign_get [OF json_rt_distinct [OF assms(2)]])
  moreover have "headerSubmit (Some s) (toFormValues (parseHeaderNavModules (Some s))) = None"
    by (simp add: headerSubmit_def unchanged_payload [OF typed_parse])
  ultimately show ?thesis by (simp add: toFormValues_def flag_value_def)
qed

subsection \<open>Links and guards\<close>

definition links_to :: "string \<Rightarrow> TopNavLink list \<Rightarrow> TopNavLink list" where
  "links_to href links = filter (\<lambda>l. tl_href l = js href \<and> \<not> tl_external l) links"

definition guarded_link :: "guard_result \<Rightarrow> TopNavLink \<Rightarrow> TopNavLink list" where
  "guarded_link g link =
     (case g of
        RedirectHome \<Rightarrow> []
      | RedirectSignIn \<Rightarrow> [link\<lparr>tl_requiresAuth := True\<rparr>]
      | EnterPage \<Rightarrow> [link])"

lemma access_link_guard:
  "access_link (Some (access_json a)) isAuthed title href = guarded_link (beforeLoad a isAuthed) (plain_link title href)"
  by (simp add: access_link_def guarded_link_def beforeLoad_def plain_link_def)

lemma guarded_href: "links_to h (guarded_link g (plain_link title href)) =
    (if h = href then guarded_link g (plain_link title href) else [])"
  by (auto simp: links_to_def guarded_link_def plain_link_def split: guard_result.split)

lemma links_to_simps [simp]: "links_to h (a @ b) = links_to h a @ links_to h b" "links_to h [] = []"
  by (simp_all add: links_to_def)

lemma plain_href: "h \<noteq> href \<Longrightarrow> links_to h [plain_link title href] = []"
  by (simp add: links_to_def plain_link_def)

text \<open>
  Claim C31.  The header offers the catalogue and the rankings exactly as the guards of their routes decide for the same status
  and the same visitor: no link when the guard sends the visitor home, a link that asks for a login when the guard sends him to the
  login, a plain link when it lets him in.
\<close>

theorem header_links_follow_guards:
  "links_to ''/pricing'' (useTopNavLinks t status isAuthed) =
     guarded_link (beforeLoad (getModuleAccessFromStatus status (js ''pricing'')) isAuthed)
       (plain_link (t (js ''Model Square'')) ''/pricing'') \<and>
   links_to ''/rankings'' (useTopNavLinks t status isAuthed) =
     guarded_link (beforeLoad (getModuleAccessFromStatus status (js ''rankings'')) isAuthed)
       (plain_link (t (js ''Rankings'')) ''/rankings'')"
proof -
  have "typed_header (parseHeaderNavModulesFromStatus status)"
    by (simp add: parseHeaderNavModulesFromStatus_def typed_public)
  then obtain p r where m: "obj_get (parseHeaderNavModulesFromStatus status) (js ''pricing'') = Some (access_json p)"
    "obj_get (parseHeaderNavModulesFromStatus status) (js ''rankings'') = Some (access_json r)"
    using typed_access by blast
  then show ?thesis
    by (simp add: useTopNavLinks_def getModuleAccessFromStatus_def access_link_guard guarded_href plain_href Let_def)
      (simp add: links_to_def)
qed


subsection \<open>Sections and modules\<close>

text \<open>What a configuration of flags means: a module is off when its flag or the flag of its section is off.\<close>

definition allowed :: "SidebarModulesAdminConfig \<Rightarrow> jsstring \<Rightarrow> jsstring \<Rightarrow> bool" where
  "allowed config section mdl =
     (case obj_get config section of
        None \<Rightarrow> True
      | Some ms \<Rightarrow> obj_get ms (js ''enabled'') \<noteq> Some False \<and> obj_get ms mdl \<noteq> Some False)"

lemma get_map_values: "obj_get (map (\<lambda>(k, v). (k, f v)) ps) k = map_option f (obj_get ps k)"
  by (induction ps) auto

lemma sidebar_get: "js_prop (sidebar_json config) k = map_option section_json (obj_get config k)"
  by (simp add: js_prop_def sidebar_json_def get_map_values)

lemma section_get: "js_prop (section_json ms) k = map_option JBool (obj_get ms k)"
  by (simp add: js_prop_def section_json_def get_map_values)

lemma section_truthy [simp]: "truthy (section_json ms)" "is_object (section_json ms)"
  by (simp_all add: section_json_def)

lemma section_rt:
  assumes "json_rt (sidebar_json config)" "obj_get config k = Some ms"
  shows "json_rt (section_json ms)"
proof -
  have "(k, section_json ms) \<in> set (map (\<lambda>(k, ms). (k, section_json ms)) config)"
    using assms(2) map_of_SomeD by (force simp: obj_get_map_of)
  then show ?thesis using assms(1) by (auto simp: sidebar_json_def list_all_iff)
qed

lemma default_section: "obj_get DEFAULT_SIDEBAR_MODULES k = map_option section_json (obj_get SIDEBAR_MODULES_DEFAULT k)"
  by (simp add: DEFAULT_SIDEBAR_MODULES_def SIDEBAR_MODULES_DEFAULT_def)

lemma default_flags: "obj_get SIDEBAR_MODULES_DEFAULT s = Some ms \<Longrightarrow> obj_get ms (js ''enabled'') = Some True"
  "obj_get SIDEBAR_MODULES_DEFAULT s = Some ms \<Longrightarrow> obj_get ms m \<noteq> Some False"
  by (auto simp: SIDEBAR_MODULES_DEFAULT_def all_on_def split: if_splits)

text \<open>Every address of the table belongs to a module of a default section.\<close>

lemma url_default:
  assumes "obj_get URL_TO_CONFIG_MAP url = Some (s, m)"
  shows "\<exists>ms. obj_get SIDEBAR_MODULES_DEFAULT s = Some ms \<and> obj_get ms m = Some True \<and> m \<noteq> js ''enabled''"
proof -
  have "list_all (\<lambda>(u, s, m). (case obj_get SIDEBAR_MODULES_DEFAULT s of
      None \<Rightarrow> False | Some ms \<Rightarrow> obj_get ms m = Some True \<and> m \<noteq> js ''enabled'')) URL_TO_CONFIG_MAP" by code_simp
  moreover have "(url, s, m) \<in> set URL_TO_CONFIG_MAP" using assms map_of_SomeD by (force simp: obj_get_map_of)
  ultimately show ?thesis by (force simp: list_all_iff split: option.splits)
qed

lemma guard_allowed:
  assumes "json_rt (sidebar_json config)" "json_rt (JObj st)"
    and "obj_get st (js ''SidebarModulesAdmin'') = Some (JStr (serializeSidebarModulesAdmin config))"
  shows "isSidebarModuleEnabled (Some (JSON_stringify (JObj st))) s m = allowed config s m"
proof -
  have "JSON_parse (serializeSidebarModulesAdmin config) = Some (sidebar_json config)"
    using JSON_parse_stringify [OF assms(1)] by (simp add: serializeSidebarModulesAdmin_def)
  moreover have "trim (serializeSidebarModulesAdmin config) \<noteq> []" "serializeSidebarModulesAdmin config \<noteq> []"
    using stringify_obj unfolding serializeSidebarModulesAdmin_def sidebar_json_def by metis+
  moreover have "getCachedStatus (Some (JSON_stringify (JObj st))) = Some (JObj st)"
    using JSON_parse_stringify [OF assms(2)] stringify_obj(2) by (simp add: getCachedStatus_def del: JSON_stringify.simps)
  ultimately show ?thesis
    using assms(3)
    by (auto simp: isSidebarModuleEnabled_def allowed_def sidebar_get section_get
        simp del: JSON_stringify.simps split: option.splits)
qed


lemma serialized_sidebar:
  "JSON_parse (serializeSidebarModulesAdmin config) = Some (sidebar_json config)"
  "trim (serializeSidebarModulesAdmin config) \<noteq> []"
  if "json_rt (sidebar_json config)" for config
proof -
  show "JSON_parse (serializeSidebarModulesAdmin config) = Some (sidebar_json config)"
    using JSON_parse_stringify [OF that] by (simp add: serializeSidebarModulesAdmin_def)
  show "trim (serializeSidebarModulesAdmin config) \<noteq> []"
    using stringify_obj unfolding serializeSidebarModulesAdmin_def sidebar_json_def by metis
qed

lemma merged_section:
  assumes "json_rt (sidebar_json config)" "obj_get SIDEBAR_MODULES_DEFAULT s = Some ms"
  shows "obj_get (parseSidebarConfig (Some (serializeSidebarModulesAdmin config))) s =
    Some (case obj_get config s of
            None \<Rightarrow> section_json ms
          | Some own \<Rightarrow> JObj (spread_into (spread_into [] (section_json ms)) (section_json own)))"
proof -
  have d: "distinct (map fst DEFAULT_SIDEBAR_MODULES)" by code_simp
  have "obj_get (spread_into [] (sidebar_json config)) s = map_option section_json (obj_get config s)"
    using spread_self assms(1) sidebar_get [of config s] by (simp add: sidebar_json_def)
  then show ?thesis
    using serialized_sidebar [OF assms(1)] assms(2)
    by (simp add: parseSidebarConfig_def mergeWithDefaultSidebarModules_def assign_get [OF d] default_section
        truthy_opt_def split: option.split)
qed

lemma default_rt: "obj_get SIDEBAR_MODULES_DEFAULT s = Some ms \<Longrightarrow> json_rt (section_json ms)"
proof -
  assume "obj_get SIDEBAR_MODULES_DEFAULT s = Some ms"
  then have "(s, ms) \<in> set SIDEBAR_MODULES_DEFAULT" using map_of_SomeD by (force simp: obj_get_map_of)
  moreover have "list_all (\<lambda>(s, ms). json_rt (section_json ms)) SIDEBAR_MODULES_DEFAULT" by code_simp
  ultimately show ?thesis by (force simp: list_all_iff)
qed

lemma merged_get:
  assumes "json_rt (section_json own)" "json_rt (section_json ms)"
  shows "obj_get (spread_into (spread_into [] (section_json ms)) (section_json own)) k =
    (case obj_get own k of Some b \<Rightarrow> Some (JBool b) | None \<Rightarrow> map_option JBool (obj_get ms k))"
  using assms spread_obj_get spread_self
  by (simp add: section_json_def get_map_values del: json_rt.simps split: option.split)

lemma sidebar_allowed:
  assumes "json_rt (sidebar_json config)" "obj_get URL_TO_CONFIG_MAP url = Some (s, m)"
  shows "isModuleEnabled url (parseSidebarConfig (Some (serializeSidebarModulesAdmin config))) None = allowed config s m"
proof -
  obtain ms where ms: "obj_get SIDEBAR_MODULES_DEFAULT s = Some ms" "obj_get ms m = Some True"
    using url_default [OF assms(2)] by blast
  have e: "obj_get ms (js ''enabled'') = Some True" using default_flags(1) [OF ms(1)] .
  show ?thesis
  proof (cases "obj_get config s")
    case None
    then show ?thesis
      using assms(2) ms e
      by (auto simp: isModuleEnabled_def adminAllowed_def userKeeps_def allowed_def merged_section [OF assms(1) ms(1)] section_get)
  next
    case (Some own)
    note get = merged_get [OF section_rt [OF assms(1) Some] default_rt [OF ms(1)]]
    show ?thesis
      using assms(2) ms e Some
      by (auto simp: isModuleEnabled_def adminAllowed_def userKeeps_def allowed_def merged_section [OF assms(1) ms(1)] get
          split: option.split)
  qed
qed


lemma keys_map: "map fst (map (\<lambda>(k, v). (k, f v)) ps) = map fst ps"
  by (induction ps) auto

lemma read_section_get:
  assumes "json_rt (section_json own)"
  shows "obj_get (read_section s (section_json own)) k =
    (if k = js ''enabled'' then Some (nullish (obj_get own k) True) else obj_get own k)"
proof -
  have d: "distinct (map fst (map (\<lambda>(k, b). (k, JBool b)) own))"
    using assms json_rt_distinct unfolding section_json_def by blast
  have dflt: "nullish (obj_get (nullish (obj_get SIDEBAR_MODULES_DEFAULT s) (all_on [''enabled''])) (js ''enabled'')) True = True"
    using default_flags(1) [of s] by (cases "obj_get SIDEBAR_MODULES_DEFAULT s") (auto simp: all_on_def)
  have b: "toBoolean (map_option JBool (obj_get own (js ''enabled''))) True = nullish (obj_get own (js ''enabled'')) True"
    by (cases "obj_get own (js ''enabled'')") (simp_all add: toBoolean_def)
  show ?thesis
    unfolding read_section_def Let_def dflt section_get b
    by (auto simp: section_json_def assign_get [OF d] get_map_values toBoolean_def split: option.split)
qed

lemma settings_section:
  assumes "json_rt (sidebar_json config)" "obj_get SIDEBAR_MODULES_DEFAULT s = Some ms"
  shows "\<exists>r. obj_get (parseSidebarModulesAdmin (Some (serializeSidebarModulesAdmin config))) s = Some r \<and>
    (\<forall>k. obj_get r k = (case obj_get config s of
        None \<Rightarrow> obj_get ms k
      | Some own \<Rightarrow> (case obj_get own k of Some b \<Rightarrow> Some b | None \<Rightarrow> obj_get ms k)))"
proof -
  have d: "distinct (map fst SIDEBAR_MODULES_DEFAULT)" "distinct (map fst ms)"
    using assms(2) by (auto simp: SIDEBAR_MODULES_DEFAULT_def all_on_def js_lits split: if_splits)
  have dc: "distinct (map fst (map (\<lambda>(k, ms). (k, section_json ms)) config))"
    using assms(1) json_rt_distinct unfolding sidebar_json_def by blast
  let ?read = "assign_entries (\<lambda>k raw _. if is_object raw then Some (read_section k raw) else None)
      (map (\<lambda>(k, ms). (k, section_json ms)) config) []"
  have read: "obj_get ?read s = map_option (\<lambda>own. read_section s (section_json own)) (obj_get config s)"
    by (simp add: assign_get [OF dc] get_map_values split: option.split)
  have "obj_get (parseSidebarModulesAdmin (Some (serializeSidebarModulesAdmin config))) s =
      Some (merge_section ms (obj_get ?read s))"
    using serialized_sidebar [OF assms(1)] assms(2)
    by (simp add: parseSidebarModulesAdmin_def sidebar_json_def assign_get [OF d(1)])
  moreover have "obj_get (merge_section ms (Some (read_section s (section_json own)))) k =
      (case obj_get own k of Some b \<Rightarrow> Some b | None \<Rightarrow> obj_get ms k)" if "obj_get config s = Some own" for own k
    using read_section_get [OF section_rt [OF assms(1) that], of s k] default_flags(1) [OF assms(2)]
    by (auto simp: merge_section_def assign_get [OF d(2)] split: option.splits)
  ultimately show ?thesis unfolding read by (cases "obj_get config s") (auto simp: merge_section_def)
qed

text \<open>A switch of the settings form is on.\<close>

definition switch_on :: "SidebarModulesAdminConfig \<Rightarrow> jsstring \<Rightarrow> jsstring \<Rightarrow> bool" where
  "switch_on config section mdl = (case obj_get config section of None \<Rightarrow> False | Some ms \<Rightarrow> obj_get ms mdl = Some True)"

lemma settings_allowed:
  assumes "json_rt (sidebar_json config)" "obj_get URL_TO_CONFIG_MAP url = Some (s, m)"
  shows "(switch_on (parseSidebarModulesAdmin (Some (serializeSidebarModulesAdmin config))) s (js ''enabled'') \<and>
    switch_on (parseSidebarModulesAdmin (Some (serializeSidebarModulesAdmin config))) s m) = allowed config s m"
proof -
  obtain ms where ms: "obj_get SIDEBAR_MODULES_DEFAULT s = Some ms" "obj_get ms m = Some True"
    using url_default [OF assms(2)] by blast
  then show ?thesis
    using settings_section [OF assms(1) ms(1)] default_flags(1) [OF ms(1)]
    by (auto simp: switch_on_def allowed_def split: option.splits)
qed

text \<open>
  Claim C29.  The sidebar, the guard of the routes and the settings form read a configuration of sidebar modules that was
  saved in the same way, for every address with a module: it is on unless its flag or the flag of its section is off, sections and
  modules that the configuration lacks being on.
\<close>

theorem sidebar_readers_agree:
  assumes "json_rt (sidebar_json config)" "obj_get URL_TO_CONFIG_MAP url = Some (section, mdl)"
    and "json_rt (JObj st)" "obj_get st (js ''SidebarModulesAdmin'') = Some (JStr (serializeSidebarModulesAdmin config))"
  shows "(isModuleEnabled url (parseSidebarConfig (Some (serializeSidebarModulesAdmin config))) None \<longleftrightarrow> allowed config section mdl) \<and>
    (isSidebarModuleEnabled (Some (JSON_stringify (JObj st))) section mdl \<longleftrightarrow> allowed config section mdl) \<and>
    (switch_on (parseSidebarModulesAdmin (Some (serializeSidebarModulesAdmin config))) section (js ''enabled'') \<and>
     switch_on (parseSidebarModulesAdmin (Some (serializeSidebarModulesAdmin config))) section mdl \<longleftrightarrow> allowed config section mdl)"
  using sidebar_allowed [OF assms(1,2)] guard_allowed [OF assms(1,3,4)] settings_allowed [OF assms(1,2)] by blast

subsection \<open>The two layers\<close>

definition item_urls :: "NavItem \<Rightarrow> jsstring list" where
  "item_urls item = (case item of NavLink _ u _ \<Rightarrow> [u] | NavCollapsible _ subs \<Rightarrow> map nl_url subs | NavChatPresets _ \<Rightarrow> [])"

definition shown_urls :: "NavGroup list \<Rightarrow> jsstring set" where
  "shown_urls groups = (\<Union>g\<in>set groups. \<Union>item\<in>set (ng_items g). set (item_urls item))"

text \<open>An address of an item may be shown.\<close>

definition item_offers :: "(jsstring \<Rightarrow> bool) \<Rightarrow> NavItem \<Rightarrow> jsstring \<Rightarrow> bool" where
  "item_offers enabled item u =
     (case item of
        NavLink _ url configUrls \<Rightarrow> u = url \<and> (url = [] \<or> list_ex enabled (nullish configUrls [url]))
      | NavCollapsible _ subs \<Rightarrow> u \<in> nl_url ` set subs \<and> enabled u
      | NavChatPresets _ \<Rightarrow> False)"

lemma visible_urls:
  "(isNavItemVisible (filter_sub_items a c item) a c \<and> u \<in> set (item_urls (filter_sub_items a c item))) \<longleftrightarrow>
    item_offers (\<lambda>u. isModuleEnabled u a c) item u"
  by (cases item) (auto simp: item_urls_def item_offers_def list_ex_iff)

lemma shown_nonempty: "shown_urls (filter (\<lambda>g. ng_items g \<noteq> []) groups) = shown_urls groups"
proof -
  have "(\<Union>item\<in>set (ng_items g). set (item_urls item)) = {}" if "ng_items g = []" for g :: NavGroup using that by simp
  then show ?thesis unfolding shown_urls_def by force
qed

definition user_layer :: "bool option \<Rightarrow> jsstring option \<Rightarrow> jsval option" where
  "user_layer perm user = (if perm = Some False then None else parseUserSidebarConfig user)"

lemma sidebar_urls:
  "u \<in> shown_urls (useSidebarConfig groups admin perm user) \<longleftrightarrow>
     (\<exists>g\<in>set groups. \<exists>item\<in>set (ng_items g).
        item_offers (\<lambda>u. isModuleEnabled u (parseSidebarConfig admin) (user_layer perm user)) item u)"
  unfolding useSidebarConfig_def Let_def shown_nonempty user_layer_def [symmetric]
  by (simp add: shown_urls_def filterNavItems_def visible_urls [symmetric] Bex_def)

lemma user_narrows: "isModuleEnabled u a c \<Longrightarrow> isModuleEnabled u a None"
  by (auto simp: isModuleEnabled_def userKeeps_def split: option.splits if_splits)

lemma offers_mono: "item_offers p item u \<Longrightarrow> (\<And>u. p u \<Longrightarrow> q u) \<Longrightarrow> item_offers q item u"
  by (auto simp: item_offers_def list_ex_iff split: NavItem.splits)

lemma user_layer_hides:
  "shown_urls (useSidebarConfig groups admin perm user) \<subseteq> shown_urls (useSidebarConfig groups admin (Some False) user)"
proof
  fix u assume "u \<in> shown_urls (useSidebarConfig groups admin perm user)"
  moreover have "user_layer (Some False) user = None" by (simp add: user_layer_def)
  ultimately show "u \<in> shown_urls (useSidebarConfig groups admin (Some False) user)"
    unfolding sidebar_urls using offers_mono user_narrows by metis
qed

text \<open>An address stands for itself in the groups: no link to it names other addresses to decide for it.\<close>

definition decides_itself :: "jsstring \<Rightarrow> NavGroup list \<Rightarrow> bool" where
  "decides_itself url groups =
     list_all (\<lambda>g. list_all (\<lambda>item. case item of NavLink _ u (Some _) \<Rightarrow> u \<noteq> url | _ \<Rightarrow> True) (ng_items g)) groups"

lemma offers_itself:
  assumes "decides_itself url groups" "g \<in> set groups" "item \<in> set (ng_items g)" "url \<noteq> []"
  shows "item_offers p item url \<longleftrightarrow> url \<in> set (item_urls item) \<and> p url"
proof -
  have "case item of NavLink _ u (Some _) \<Rightarrow> u \<noteq> url | _ \<Rightarrow> True"
    using assms(1-3) by (auto simp: decides_itself_def list_all_iff)
  then show ?thesis using assms(4) by (auto simp: item_offers_def item_urls_def split: NavItem.splits option.splits)
qed

lemma itself_shown:
  assumes "decides_itself url groups" "url \<noteq> []"
  shows "url \<in> shown_urls (useSidebarConfig groups admin perm user) \<longleftrightarrow>
    url \<in> shown_urls groups \<and> isModuleEnabled url (parseSidebarConfig admin) (user_layer perm user)"
proof -
  have "url \<in> shown_urls groups \<longleftrightarrow> (\<exists>g\<in>set groups. \<exists>item\<in>set (ng_items g). url \<in> set (item_urls item))"
    by (simp add: shown_urls_def)
  moreover have "(\<exists>g\<in>set groups. \<exists>item\<in>set (ng_items g). item_offers p item url) \<longleftrightarrow>
      (\<exists>g\<in>set groups. \<exists>item\<in>set (ng_items g). url \<in> set (item_urls item) \<and> p url)" for p
    by (intro bex_cong refl offers_itself [OF assms(1) _ _ assms(2)])
  ultimately show ?thesis unfolding sidebar_urls by auto
qed


subsection \<open>The switches of a user\<close>

lemma toggle_get:
  assumes "json_rt (JObj ps)" "obj_get ps s = None \<or> (\<exists>ms. obj_get ps s = Some (JObj ms))"
  shows "js_prop (toggleModule s m v (JObj ps)) s' =
      (if s' = s then Some (JObj (obj_put m (JBool v) (case obj_get ps s of Some (JObj ms) \<Rightarrow> ms | _ \<Rightarrow> [])))
       else obj_get ps s')"
    "utf16 s \<Longrightarrow> utf16 m \<Longrightarrow> json_rt (toggleModule s m v (JObj ps))"
proof -
  have ms: "json_rt (JObj ms)" if "obj_get ps s = Some (JObj ms)" for ms
    using that assms(1) map_of_SomeD by (force simp: obj_get_map_of list_all_iff)
  have t: "toggleModule s m v (JObj ps) =
      JObj (obj_put s (JObj (obj_put m (JBool v) (case obj_get ps s of Some (JObj ms) \<Rightarrow> ms | _ \<Rightarrow> []))) ps)"
    using assms(2) ms spread_self spread_self [OF assms(1)] by (auto simp: toggleModule_def simp del: json_rt.simps)
  show "js_prop (toggleModule s m v (JObj ps)) s' =
      (if s' = s then Some (JObj (obj_put m (JBool v) (case obj_get ps s of Some (JObj ms) \<Rightarrow> ms | _ \<Rightarrow> [])))
       else obj_get ps s')"
    unfolding t by simp
  have "json_rt (JObj [])" by (simp add: obj_of_def)
  then show "json_rt (toggleModule s m v (JObj ps))" if "utf16 s" "utf16 m"
    unfolding t using that assms ms by (auto simp del: json_rt.simps simp: json_rt.simps(2) intro!: json_rt_put)
qed

text \<open>
  A switch of the user's card changes what the sidebar keeps for that module, as long as its section is on, and for no
  other module.
\<close>

theorem user_switch_takes_effect:
  assumes "json_rt (JObj ps)" "obj_get ps section = None \<or> (\<exists>ms. obj_get ps section = Some (JObj ms))"
    and "utf16 section" "utf16 mdl" "mdl \<noteq> js ''enabled''" "m \<noteq> js ''enabled''"
    and "parseUserSidebarConfig (Some (cardSave (toggleModule section mdl v (JObj ps)))) = layer"
  shows "userKeeps layer s m =
    (if s = section \<and> m = mdl then v \<and> section_checked (JObj ps) section
     else userKeeps (Some (JObj ps)) s m)"
proof -
  let ?t = "toggleModule section mdl v (JObj ps)"
  note get = toggle_get(1) [OF assms(1,2)] and rt = toggle_get(2) [OF assms(1-4)]
  obtain qs where t: "?t = JObj qs" by (simp add: toggleModule_def)
  have "trim (cardSave ?t) \<noteq> []" using stringify_obj [of qs] by (simp add: cardSave_def t del: JSON_stringify.simps)
  then have layer: "layer = Some ?t"
    using assms(7) JSON_parse_stringify [OF rt, of v] by (simp add: parseUserSidebarConfig_def cardSave_def t del: JSON_stringify.simps)
  show ?thesis
    using assms(2,5,6) unfolding layer userKeeps_def section_checked_def option.case get
    by (auto split: option.split)
qed

subsection \<open>Examples\<close>

definition demo_values :: HeaderNavFormValues where
  "demo_values = (toFormValues HEADER_NAV_DEFAULT)\<lparr>hf_home := False, hf_pricingRequireAuth := True\<rparr>"

theorem header_form_published_witness:
  "\<exists>doc. headerSubmit None demo_values = Some doc \<and>
    header_shows (parseHeaderNavModulesFromStatus (Some (JObj [(js ''HeaderNavModules'', JStr doc)]))) demo_values"
proof -
  have "headerSubmit None demo_values \<noteq> None" by code_simp
  then obtain doc where doc: "headerSubmit None demo_values = Some doc" by blast
  have "json_rt (JObj (parseHeaderNavModules None))" by code_simp
  then show ?thesis
    using header_form_published [OF _ doc, of "JObj [(js ''HeaderNavModules'', JStr doc)]"] doc by simp
qed

theorem numeric_flag_stuck_witness:
  "obj_get (parseHeaderNavModules_public (Some (JStr (js ''{\"home\":2}'')))) (js ''home'') = Some (JBool True) \<and>
   headerSubmit (Some (js ''{\"home\":2}'')) (toFormValues (parseHeaderNavModules (Some (js ''{\"home\":2}'')))) = None"
proof -
  have "JSON_parse (js ''{\"home\":2}'') = Some (JObj [(js ''home'', JNum 2)])" "json_rt (JObj [(js ''home'', JNum 2)])"
    "trim (js ''{\"home\":2}'') \<noteq> []" "obj_get [(js ''home'', JNum 2)] (js ''home'') = Some (JNum 2)" by code_simp+
  then show ?thesis using numeric_flag_stuck by simp
qed

definition demo_sidebar :: SidebarModulesAdminConfig where
  "demo_sidebar = [(js ''admin'', [(js ''enabled'', True), (js ''channel'', False)])]"

lemma demo_sidebar_facts: "json_rt (sidebar_json demo_sidebar)"
  "obj_get URL_TO_CONFIG_MAP (js ''/channels'') = Some (js ''admin'', js ''channel'')"
  "\<not> allowed demo_sidebar (js ''admin'') (js ''channel'')"
  by code_simp+

theorem sidebar_readers_agree_witness:
  "\<not> isModuleEnabled (js ''/channels'') (parseSidebarConfig (Some (serializeSidebarModulesAdmin demo_sidebar))) None \<and>
   \<not> isSidebarModuleEnabled (Some (JSON_stringify (JObj [(js ''SidebarModulesAdmin'',
       JStr (serializeSidebarModulesAdmin demo_sidebar))]))) (js ''admin'') (js ''channel'')"
proof -
  let ?st = "[(js ''SidebarModulesAdmin'', JStr (serializeSidebarModulesAdmin demo_sidebar))]"
  have "json_rt (JObj ?st)" by code_simp
  moreover have "obj_get ?st (js ''SidebarModulesAdmin'') = Some (JStr (serializeSidebarModulesAdmin demo_sidebar))" by simp
  ultimately show ?thesis
    using sidebar_readers_agree [OF demo_sidebar_facts(1,2)] demo_sidebar_facts(3) by blast
qed

definition demo_groups :: "NavGroup list" where
  "demo_groups = [\<lparr>ng_id = Some (js ''admin''), ng_title = js ''Admin'',
     ng_items = [NavLink (js ''Channels'') (js ''/channels'') None, NavLink (js ''Users'') (js ''/users'') None]\<rparr>]"


theorem user_switch_takes_effect_witness:
  "\<not> userKeeps (parseUserSidebarConfig (Some (cardSave (toggleModule (js ''console'') (js ''log'') False (JObj [])))))
     (js ''console'') (js ''log'')"
proof -
  have "json_rt (JObj [])" "js ''log'' \<noteq> js ''enabled''" by code_simp+
  then show ?thesis
    using user_switch_takes_effect [of "[]" "js ''console''" "js ''log''" "js ''log''" False] by simp
qed

end
