(* ===== verification/Notifications.thy ===== *)
theory Notifications
  imports Json Machine "HOL-Library.Word"
begin

section \<open>Notifications\<close>

text \<open>
  \<^verbatim>\<open>hooks/use-notifications.ts\<close> shows a notice and up to twenty announcements and counts those not read yet;
  \<^verbatim>\<open>stores/notification-store.ts\<close> remembers what was read, in the local storage.  An announcement without an
  identifier is remembered by a hash of 32 bits of its contents.
\<close>

subsection \<open>The hash\<close>

text \<open>The bit operators of the language work on 32-bit integers, and \<open>hash |= 0\<close> wraps the sum.\<close>

definition hash_step :: "32 word \<Rightarrow> jschar \<Rightarrow> 32 word" where
  "hash_step hash chr = push_bit 5 hash - hash + of_int chr"

text \<open>\<open>toString(36)\<close> of a signed integer.\<close>

definition digit36 :: "nat \<Rightarrow> jschar" where
  "digit36 d = (if d < 10 then 48 + int d else 87 + int d)"

fun show36 :: "nat \<Rightarrow> jsstring" where
  "show36 n = (if n < 36 then [digit36 n] else show36 (n div 36) @ [digit36 (n mod 36)])"

declare show36.simps [simp del]

definition to_string36 :: "int \<Rightarrow> jsstring" where
  "to_string36 n = (if n < 0 then 45 # show36 (nat (- n)) else show36 (nat n))"

definition hash_word :: "jsstring \<Rightarrow> 32 word" where
  "hash_word input = foldl hash_step 0 input"

definition hashString :: "jsstring \<Rightarrow> jsstring" where
  "hashString input = (if input = [] then js ''0'' else to_string36 (sint (hash_word input)))"

subsection \<open>Keys of announcements\<close>

text \<open>A field that is trimmed must be missing, falsy or a string; otherwise the call throws.\<close>

definition trimmed_field :: "jsval \<Rightarrow> string \<Rightarrow> jsstring option" where
  "trimmed_field item k =
     (case js_prop item (js k) of
        None \<Rightarrow> Some []
      | Some (JStr s) \<Rightarrow> Some (trim s)
      | Some v \<Rightarrow> if truthy v then None else Some [])"

definition fingerprint :: "jsval \<Rightarrow> jsstring option" where
  "fingerprint item =
     (case (trimmed_field item ''content'', trimmed_field item ''extra'', trimmed_field item ''title'', trimmed_field item ''link'') of
        (Some content, Some extra, Some title, Some link) \<Rightarrow>
          Some (JSON_stringify (JObj
            [(js ''publishDate'', or_val (js_prop item (js ''publishDate'')) (JStr [])),
             (js ''content'', JStr content), (js ''extra'', JStr extra),
             (js ''type'', or_val (js_prop item (js ''type'')) (JStr [])),
             (js ''title'', JStr title), (js ''link'', JStr link)]))
      | _ \<Rightarrow> None)"

definition getAnnouncementKey :: "jsval \<Rightarrow> jsstring option" where
  "getAnnouncementKey item =
     (if \<not> truthy item then Some []
      else case js_prop item (js ''id'') of
             None \<Rightarrow> map_option (\<lambda>f. js ''hash:'' @ hashString f) (fingerprint item)
           | Some JNull \<Rightarrow> map_option (\<lambda>f. js ''hash:'' @ hashString f) (fingerprint item)
           | Some v \<Rightarrow> Some (js ''id:'' @ to_str v))"

subsection \<open>The store and the hook\<close>

record NotificationState =
  ns_lastReadNotice :: jsstring
  ns_readAnnouncementKeys :: "jsstring list"
  ns_closedUntilDate :: "jsstring option"

definition initialStore :: NotificationState where
  "initialStore = \<lparr>ns_lastReadNotice = [], ns_readAnnouncementKeys = [], ns_closedUntilDate = None\<rparr>"

definition markNoticeRead :: "jsstring \<Rightarrow> NotificationState \<Rightarrow> NotificationState" where
  "markNoticeRead noticeContent st = st\<lparr>ns_lastReadNotice := trim noticeContent\<rparr>"

definition markAnnouncementsRead :: "jsstring list \<Rightarrow> NotificationState \<Rightarrow> NotificationState" where
  "markAnnouncementsRead keys st = st\<lparr>ns_readAnnouncementKeys := set_of (ns_readAnnouncementKeys st @ keys)\<rparr>"

definition setClosedUntilDate :: "jsstring option \<Rightarrow> NotificationState \<Rightarrow> NotificationState" where
  "setClosedUntilDate date st = st\<lparr>ns_closedUntilDate := date\<rparr>"

definition isAnnouncementRead :: "jsstring \<Rightarrow> NotificationState \<Rightarrow> bool" where
  "isAnnouncementRead key st \<longleftrightarrow> key \<in> set (ns_readAnnouncementKeys st)"

text \<open>\<open>today\<close> is the date of the clock as a text.\<close>

definition isNoticeClosed :: "jsstring \<Rightarrow> NotificationState \<Rightarrow> bool" where
  "isNoticeClosed today st =
     (case ns_closedUntilDate st of None \<Rightarrow> False | Some d \<Rightarrow> if d = [] then False else d = today)"

datatype notice_tab = NoticeTab | AnnouncementsTab

text \<open>The responses of the server and the state of the hook, with the store.\<close>

record notifications =
  no_response :: "jsstring option"
  no_enabled :: bool
  no_items :: "jsval list"
  no_store :: NotificationState
  no_open :: bool
  no_tab :: notice_tab

text \<open>The notice of a successful response, and the announcements that are shown.\<close>

definition noticeContent :: "notifications \<Rightarrow> jsstring" where
  "noticeContent n = (case no_response n of None \<Rightarrow> [] | Some d \<Rightarrow> trim d)"

definition announcements :: "notifications \<Rightarrow> jsval list" where
  "announcements n = (if no_enabled n then take 20 (no_items n) else [])"

definition announcement_keys :: "notifications \<Rightarrow> jsstring list option" where
  "announcement_keys n = those (map getAnnouncementKey (announcements n))"

definition noticeUnread :: "notifications \<Rightarrow> nat" where
  "noticeUnread n = (if noticeContent n \<noteq> [] \<and> noticeContent n \<noteq> ns_lastReadNotice (no_store n) then 1 else 0)"

definition announcementsUnread :: "notifications \<Rightarrow> nat option" where
  "announcementsUnread n =
     map_option (\<lambda>keys. length (filter (\<lambda>key. \<not> isAnnouncementRead key (no_store n)) keys)) (announcement_keys n)"

definition unreadCount :: "notifications \<Rightarrow> nat option" where
  "unreadCount n = map_option (\<lambda>a. noticeUnread n + a) (announcementsUnread n)"

definition markAnnouncementsAsRead :: "notifications \<Rightarrow> notifications option" where
  "markAnnouncementsAsRead n =
     (if announcements n = [] then Some n
      else map_option (\<lambda>allKeys. n\<lparr>no_store := markAnnouncementsRead allKeys (no_store n)\<rparr>) (announcement_keys n))"

definition handleOpenPopover :: "notice_tab option \<Rightarrow> notifications \<Rightarrow> notifications option" where
  "handleOpenPopover tab n =
     (let nextTab = nullish tab (no_tab n);
          n1 = (if noticeContent n \<noteq> [] then n\<lparr>no_store := markNoticeRead (noticeContent n) (no_store n)\<rparr> else n)
      in map_option (\<lambda>n2. n2\<lparr>no_tab := nextTab, no_open := True\<rparr>)
           (if nextTab = AnnouncementsTab then markAnnouncementsAsRead n1 else Some n1))"

definition handlePopoverOpenChange :: "bool \<Rightarrow> notifications \<Rightarrow> notifications option" where
  "handlePopoverOpenChange open_now n =
     (if open_now then handleOpenPopover (Some (no_tab n)) n else Some (n\<lparr>no_open := False\<rparr>))"

definition handleTabChange :: "notice_tab \<Rightarrow> notifications \<Rightarrow> notifications option" where
  "handleTabChange tab n =
     (let n1 = n\<lparr>no_tab := tab\<rparr> in if tab = AnnouncementsTab then markAnnouncementsAsRead n1 else Some n1)"

subsection \<open>The hash as a polynomial\<close>

lemma hash_step_eq: "hash_step h c = 31 * h + of_int c"
proof -
  have "push_bit 5 h = 32 * h" by (simp add: push_bit_eq_mult mult.commute)
  then show ?thesis by (simp add: hash_step_def)
qed

fun poly31 :: "jsstring \<Rightarrow> int" where
  "poly31 [] = 0"
| "poly31 (c # s) = c * 31 ^ length s + poly31 s"

lemma hash_fold: "foldl hash_step h s = h * 31 ^ length s + of_int (poly31 s)"
  by (induction s arbitrary: h) (simp_all add: hash_step_eq algebra_simps)

lemma hash_word_poly: "hash_word s = of_int (poly31 s)"
  by (simp add: hash_word_def hash_fold)

lemma poly31_append: "poly31 (s @ t) = poly31 s * 31 ^ length t + poly31 t"
  by (induction s) (simp_all add: algebra_simps power_add)

lemma show36_length: "n < 36 ^ Suc k \<Longrightarrow> length (show36 n) \<le> Suc k"
proof (induction k arbitrary: n)
  case 0
  then show ?case by (subst show36.simps) simp
next
  case (Suc k)
  have "n div 36 < 36 ^ Suc k" using Suc.prems by (simp add: less_mult_imp_div_less mult.commute)
  then have "length (show36 (n div 36)) \<le> Suc k" by (rule Suc.IH)
  then show ?case by (subst show36.simps) simp
qed

lemma hash_length: "length (hashString s) \<le> 7"
proof -
  have r: "- 2147483648 \<le> sint (hash_word s)" "sint (hash_word s) < 2147483648"
    using sint_ge [of "hash_word s"] sint_lt [of "hash_word s"] by simp_all
  have "nat (- sint (hash_word s)) < 36 ^ Suc 5" "nat (sint (hash_word s)) < 36 ^ Suc 5"
    using r by (simp_all add: nat_less_iff)
  then have "length (show36 (nat (- sint (hash_word s)))) \<le> 6" "length (show36 (nat (sint (hash_word s)))) \<le> 6"
    using show36_length by fastforce+
  then show ?thesis by (simp add: hashString_def to_string36_def js_lits)
qed


definition val36 :: "jsstring \<Rightarrow> nat" where
  "val36 s = foldl (\<lambda>a c. a * 36 + nat (if c < 58 then c - 48 else c - 87)) 0 s"

lemma val36_show: "val36 (show36 n) = n"
proof (induction n rule: show36.induct)
  case (1 n)
  have d: "nat (if digit36 m < 58 then digit36 m - 48 else digit36 m - 87) = m" if "m < 36" for m
    using that by (simp add: digit36_def)
  show ?case
  proof (cases "n < 36")
    case True
    then show ?thesis using d [of n] by (subst show36.simps) (simp add: val36_def)
  next
    case False
    then have "val36 (show36 n) = val36 (show36 (n div 36)) * 36 + n mod 36"
      using d [of "n mod 36"] by (subst show36.simps) (simp add: val36_def)
    then show ?thesis using 1 False by simp
  qed
qed

lemma show36_no_minus: "\<exists>c t. show36 n = c # t \<and> c \<noteq> 45"
proof (induction n rule: show36.induct)
  case (1 n)
  then show ?case by (subst show36.simps) (auto simp: digit36_def)
qed

lemma to_string36_inject: "to_string36 a = to_string36 b \<longleftrightarrow> a = b"
proof
  assume e: "to_string36 a = to_string36 b"
  have inj: "show36 m = show36 n \<longleftrightarrow> m = n" for m n using val36_show by metis
  have "45 # show36 m \<noteq> show36 n" for m n using show36_no_minus [of n] by auto
  then have "(a < 0) = (b < 0)" using e by (metis to_string36_def)
  then show "a = b" using e inj by (auto simp: to_string36_def split: if_splits)
qed simp

lemma hashString_eq: "hashString s = to_string36 (sint (hash_word s))"
proof -
  have "show36 0 = js ''0''" by (subst show36.simps) (simp add: digit36_def js_lits)
  then show ?thesis by (simp add: hashString_def hash_word_def to_string36_def)
qed

lemma hashString_inject: "hashString s = hashString t \<longleftrightarrow> poly31 s mod 2 ^ 32 = poly31 t mod 2 ^ 32"
proof -
  have "hashString s = hashString t \<longleftrightarrow> hash_word s = hash_word t"
    unfolding hashString_eq to_string36_inject using word_eq_iff_signed [of "hash_word s" "hash_word t"] by blast
  also have "\<dots> \<longleftrightarrow> take_bit 32 (poly31 s) = take_bit 32 (poly31 t)"
    using word_of_int_eq_iff [where ?'a = 32, of "poly31 s" "poly31 t"] by (simp add: hash_word_poly)
  finally show ?thesis by (simp add: take_bit_eq_mod)
qed

text \<open>
  Claim C32. The hash computed by shifts on 32-bit integers is the polynomial hash with factor 31 modulo 2 to the 32, and the
  base-36 text loses nothing of it: two texts have the same hash exactly when their polynomials agree modulo 2 to the 32.
  The text of a hash has at most seven characters.
\<close>

theorem hash_equivalence:
  "(hashString s = hashString t \<longleftrightarrow> poly31 s mod 2 ^ 32 = poly31 t mod 2 ^ 32) \<and> length (hashString s) \<le> 7"
  using hashString_inject hash_length by blast

subsection \<open>Different announcements with one key\<close>

lemma quote_chars_Cons: "\<not> high_surrogate c \<Longrightarrow> \<not> low_surrogate c \<Longrightarrow> quote_chars (c # s) = escape_char c @ quote_chars s"
  by (cases s) simp_all

lemma quote_chars_split: "\<not> low_surrogate c \<Longrightarrow> quote_chars (p @ c # s) = quote_chars p @ quote_chars (c # s)"
  by (induction p rule: quote_chars.induct) auto

lemma quote_around:
  assumes "32 < c" "c < 92" "c \<noteq> 34" "32 < d" "d < 127" "d \<noteq> 92" "d \<noteq> 34"
  shows "quote (p @ c # d # r) = (34 # quote_chars p) @ c # d # (quote_chars r @ [34])"
proof -
  have "\<not> high_surrogate c" "\<not> low_surrogate c" "\<not> high_surrogate d" "\<not> low_surrogate d"
    using assms by (simp_all add: high_surrogate_def low_surrogate_def)
  then have "quote_chars (c # d # r) = c # d # quote_chars r" "\<not> low_surrogate c"
    using assms by (simp_all add: quote_chars_Cons escape_char_def)
  then show ?thesis by (simp add: quote_def quote_chars_split)
qed

lemma hash_swap: "hashString (a @ 65 # 97 # b) = hashString (a @ 66 # 66 # b)"
  unfolding hashString_inject by (simp add: poly31_append)

text \<open>Two announcements that have the same fields, the contents excepted.\<close>

definition same_but_content :: "jsval \<Rightarrow> jsval \<Rightarrow> bool" where
  "same_but_content a b \<longleftrightarrow>
     truthy a \<and> truthy b \<and> (\<forall>k\<in>{''id'', ''extra'', ''title'', ''link'', ''publishDate'', ''type''}. js_prop a (js k) = js_prop b (js k))"

definition fingerprint_head :: "jsval \<Rightarrow> jsstring" where
  "fingerprint_head item =
     123 # quote (js ''publishDate'') @ 58 # JSON_stringify (or_val (js_prop item (js ''publishDate'')) (JStr [])) @
     44 # quote (js ''content'') @ [58]"

definition fingerprint_tail :: "jsval \<Rightarrow> jsstring \<Rightarrow> jsstring \<Rightarrow> jsstring \<Rightarrow> jsstring" where
  "fingerprint_tail item x t l =
     44 # quote (js ''extra'') @ 58 # quote x @ 44 # quote (js ''type'') @
     58 # JSON_stringify (or_val (js_prop item (js ''type'')) (JStr [])) @
     44 # quote (js ''title'') @ 58 # quote t @ 44 # quote (js ''link'') @ 58 # quote l @ [125]"

lemma fingerprint_text:
  "fingerprint item =
     (case (trimmed_field item ''content'', trimmed_field item ''extra'', trimmed_field item ''title'', trimmed_field item ''link'') of
        (Some c, Some x, Some t, Some l) \<Rightarrow> Some (fingerprint_head item @ quote c @ fingerprint_tail item x t l)
      | _ \<Rightarrow> None)"
  by (simp add: fingerprint_def fingerprint_head_def fingerprint_tail_def split: option.split)

lemma same_ends:
  assumes "same_but_content a b"
  shows "fingerprint_head a = fingerprint_head b" "fingerprint_tail a x t l = fingerprint_tail b x t l"
    "k \<in> {''extra'', ''title'', ''link''} \<Longrightarrow> trimmed_field a k = trimmed_field b k"
  using assms by (auto simp: same_but_content_def fingerprint_head_def fingerprint_tail_def trimmed_field_def)

lemma key_collision:
  assumes "same_but_content a b" "js_prop a (js ''id'') = None"
    and "js_prop a (js ''content'') = Some (JStr (p @ 65 # 97 # r))"
    and "js_prop b (js ''content'') = Some (JStr (p @ 66 # 66 # r))"
    and "trim (p @ 65 # 97 # r) = p @ 65 # 97 # r" "trim (p @ 66 # 66 # r) = p @ 66 # 66 # r"
  shows "getAnnouncementKey a = getAnnouncementKey b"
proof -
  have q: "quote (p @ 65 # 97 # r) = (34 # quote_chars p) @ 65 # 97 # (quote_chars r @ [34])"
    "quote (p @ 66 # 66 # r) = (34 # quote_chars p) @ 66 # 66 # (quote_chars r @ [34])"
    by (rule quote_around; simp)+
  have c: "trimmed_field a ''content'' = Some (p @ 65 # 97 # r)" "trimmed_field b ''content'' = Some (p @ 66 # 66 # r)"
    using assms(3-6) by (simp_all add: trimmed_field_def)
  have "hashString (h @ quote (p @ 65 # 97 # r) @ e) = hashString (h @ quote (p @ 66 # 66 # r) @ e)" for h e
    using hash_swap [of "h @ 34 # quote_chars p" "quote_chars r @ 34 # e"] unfolding q by simp
  then have "map_option hashString (fingerprint a) = map_option hashString (fingerprint b)"
    unfolding fingerprint_text c same_ends(1) [OF assms(1)] same_ends(2) [OF assms(1)]
    using same_ends(3) [OF assms(1)] by (simp split: option.split)
  then have "map_option (\<lambda>f. js ''hash:'' @ hashString f) (fingerprint a) = map_option (\<lambda>f. js ''hash:'' @ hashString f) (fingerprint b)"
    by (cases "fingerprint a"; cases "fingerprint b") simp_all
  moreover have "js_prop b (js ''id'') = None" "truthy a" "truthy b" using assms(1,2) by (auto simp: same_but_content_def)
  ultimately show ?thesis using assms(2) by (simp add: getAnnouncementKey_def)
qed

subsection \<open>Reading\<close>

lemma marked_read: "isAnnouncementRead k (markAnnouncementsRead keys st) \<longleftrightarrow> k \<in> set keys \<or> isAnnouncementRead k st"
  by (auto simp: isAnnouncementRead_def markAnnouncementsRead_def)

lemma notice_read [simp]: "isAnnouncementRead k (markNoticeRead c st) = isAnnouncementRead k st"
  by (simp add: isAnnouncementRead_def markNoticeRead_def)

lemma view_store [simp]: "announcements (n\<lparr>no_store := st\<rparr>) = announcements n"
  "announcements (n\<lparr>no_tab := tab\<rparr>) = announcements n" "announcements (n\<lparr>no_open := b\<rparr>) = announcements n"
  "noticeContent (n\<lparr>no_store := st\<rparr>) = noticeContent n" "noticeContent (n\<lparr>no_tab := tab\<rparr>) = noticeContent n"
  "noticeContent (n\<lparr>no_open := b\<rparr>) = noticeContent n"
  "announcement_keys (n\<lparr>no_store := st\<rparr>) = announcement_keys n" "announcement_keys (n\<lparr>no_tab := tab\<rparr>) = announcement_keys n"
  "announcement_keys (n\<lparr>no_open := b\<rparr>) = announcement_keys n"
  by (simp_all add: announcements_def noticeContent_def announcement_keys_def)

lemma marked_store:
  assumes "markAnnouncementsAsRead n = Some n'"
  obtains keys where "announcement_keys n = Some keys" "n' = n\<lparr>no_store := markAnnouncementsRead keys (no_store n)\<rparr>"
  | "announcements n = []" "n' = n"
proof (cases "announcements n = []")
  case True
  then have "n' = n" using assms by (simp add: markAnnouncementsAsRead_def)
  with True show thesis by (rule that(2))
next
  case False
  then obtain keys where "announcement_keys n = Some keys" "n' = n\<lparr>no_store := markAnnouncementsRead keys (no_store n)\<rparr>"
    using assms unfolding markAnnouncementsAsRead_def by (simp only: if_False map_option_eq_Some) blast
  then show thesis by (rule that(1))
qed

lemma marked_unread:
  assumes "markAnnouncementsAsRead n = Some n'"
  shows "announcementsUnread n' = Some 0" "noticeUnread n' = noticeUnread n"
    "isAnnouncementRead k (no_store n) \<Longrightarrow> isAnnouncementRead k (no_store n')"
proof -
  show "announcementsUnread n' = Some 0"
    using assms by (rule marked_store)
      (simp_all add: announcementsUnread_def marked_read filter_empty_conv announcement_keys_def)
  show "noticeUnread n' = noticeUnread n"
    using assms by (rule marked_store) (simp_all add: noticeUnread_def markAnnouncementsRead_def)
  show "isAnnouncementRead k (no_store n) \<Longrightarrow> isAnnouncementRead k (no_store n')"
    using assms by (rule marked_store) (simp_all add: marked_read)
qed

lemma unread_frame [simp]: "announcementsUnread (n\<lparr>no_tab := tab\<rparr>) = announcementsUnread n"
  "announcementsUnread (n\<lparr>no_open := b\<rparr>) = announcementsUnread n" "noticeUnread (n\<lparr>no_tab := tab\<rparr>) = noticeUnread n"
  "noticeUnread (n\<lparr>no_open := b\<rparr>) = noticeUnread n"
  by (simp_all add: announcementsUnread_def noticeUnread_def)

lemma notice_marked: "noticeUnread (n\<lparr>no_store := markNoticeRead (noticeContent n) (no_store n)\<rparr>) = 0"
  "noticeContent n = [] \<Longrightarrow> noticeUnread n = 0"
  "announcementsUnread (n\<lparr>no_store := markNoticeRead c (no_store n)\<rparr>) = announcementsUnread n"
  by (auto simp: noticeUnread_def markNoticeRead_def announcementsUnread_def isAnnouncementRead_def noticeContent_def
      split: option.split)

text \<open>
  Opening the notification centre on the announcements leaves nothing unread; switching to the announcements clears
  their count and leaves the notice's; opening it on the notice clears the notice and leaves the announcements.
\<close>

theorem reading_clears_counts:
  "(handleOpenPopover (Some AnnouncementsTab) n = Some n' \<longrightarrow> unreadCount n' = Some 0) \<and>
   (handleTabChange AnnouncementsTab n = Some n' \<longrightarrow> announcementsUnread n' = Some 0 \<and> noticeUnread n' = noticeUnread n) \<and>
   (handleOpenPopover (Some NoticeTab) n = Some n' \<longrightarrow> noticeUnread n' = 0 \<and> announcementsUnread n' = announcementsUnread n)"
proof (intro conjI impI)
  let ?n1 = "if noticeContent n \<noteq> [] then n\<lparr>no_store := markNoticeRead (noticeContent n) (no_store n)\<rparr> else n"
  have n1: "noticeUnread ?n1 = 0" "announcementsUnread ?n1 = announcementsUnread n" using notice_marked [where n = n] by simp_all
  show "unreadCount n' = Some 0" if opened: "handleOpenPopover (Some AnnouncementsTab) n = Some n'"
  proof -
    obtain n2 where "markAnnouncementsAsRead ?n1 = Some n2" "n' = n2\<lparr>no_tab := AnnouncementsTab, no_open := True\<rparr>"
      using opened unfolding handleOpenPopover_def Let_def by (simp only: nullish_simps simp_thms if_True map_option_eq_Some) blast
    then show ?thesis using marked_unread [of ?n1 n2] n1(1) by (simp add: unreadCount_def)
  qed
  show "noticeUnread n' = 0" "announcementsUnread n' = announcementsUnread n"
    if "handleOpenPopover (Some NoticeTab) n = Some n'"
    using that n1 by (auto simp: handleOpenPopover_def Let_def)
  show "announcementsUnread n' = Some 0" "noticeUnread n' = noticeUnread n"
    if "handleTabChange AnnouncementsTab n = Some n'"
    using that marked_unread(1,2) by (auto simp: handleTabChange_def)
qed

text \<open>
  The key of an announcement without identifier is not unique, whatever the comment above it says: when two
  announcements differ only in that the contents of one have ``Aa'' where those of the other have ``BB'', reading the first
  makes the second count as read.
\<close>

theorem announcement_read_by_another:
  assumes "same_but_content a b" "js_prop a (js ''id'') = None"
    and "js_prop a (js ''content'') = Some (JStr (p @ js ''Aa'' @ r))"
    and "js_prop b (js ''content'') = Some (JStr (p @ js ''BB'' @ r))"
    and "trim (p @ js ''Aa'' @ r) = p @ js ''Aa'' @ r" "trim (p @ js ''BB'' @ r) = p @ js ''BB'' @ r"
    and "announcements n = [a]" "handleTabChange AnnouncementsTab n = Some n'"
  shows "announcementsUnread (n'\<lparr>no_enabled := True, no_items := [b]\<rparr>) = Some 0"
proof -
  have eq: "getAnnouncementKey a = getAnnouncementKey b"
    using key_collision [OF assms(1,2), of p r] assms(3-6) by (simp add: js_lits)
  obtain key where key: "getAnnouncementKey a = Some key" "no_store n' = markAnnouncementsRead [key] (no_store n)"
    using assms(7,8)
    by (auto simp: handleTabChange_def markAnnouncementsAsRead_def announcement_keys_def split: option.splits)
  then show ?thesis
    using eq by (simp add: announcementsUnread_def announcement_keys_def announcements_def marked_read)
qed

datatype notice_event =
    PopoverOpened "notice_tab option" | PopoverChanged bool | TabChanged notice_tab
  | NoticeArrived "jsstring option" | StatusArrived bool "jsval list" | ClosedToday "jsstring option"

fun notice_handle :: "notice_event \<Rightarrow> notifications \<Rightarrow> notifications option" where
  "notice_handle (PopoverOpened tab) n = handleOpenPopover tab n"
| "notice_handle (PopoverChanged b) n = handlePopoverOpenChange b n"
| "notice_handle (TabChanged tab) n = handleTabChange tab n"
| "notice_handle (NoticeArrived r) n = Some (n\<lparr>no_response := r\<rparr>)"
| "notice_handle (StatusArrived en items) n = Some (n\<lparr>no_enabled := en, no_items := items\<rparr>)"
| "notice_handle (ClosedToday d) n = Some (n\<lparr>no_store := setClosedUntilDate d (no_store n)\<rparr>)"

definition notice_step :: "notifications \<Rightarrow> notice_event \<Rightarrow> notifications \<Rightarrow> bool" where
  "notice_step n e n' \<longleftrightarrow> notice_handle e n = Some n'"

text \<open>The store keeps each key once and a trimmed notice.\<close>

definition store_inv :: "notifications \<Rightarrow> bool" where
  "store_inv n \<longleftrightarrow> distinct (ns_readAnnouncementKeys (no_store n)) \<and>
     trim (ns_lastReadNotice (no_store n)) = ns_lastReadNotice (no_store n)"

definition fresh_notifications :: "notifications \<Rightarrow> bool" where
  "fresh_notifications n \<longleftrightarrow> no_store n = initialStore"

lemma mark_inv: "store_inv n \<Longrightarrow> markAnnouncementsAsRead n = Some n' \<Longrightarrow> store_inv n'"
  by (auto simp: markAnnouncementsAsRead_def store_inv_def markAnnouncementsRead_def split: if_splits)

lemma inv_frame [simp]: "store_inv (n\<lparr>no_tab := tab\<rparr>) = store_inv n" "store_inv (n\<lparr>no_open := b\<rparr>) = store_inv n"
  "store_inv (n\<lparr>no_response := r\<rparr>) = store_inv n" "store_inv (n\<lparr>no_enabled := en\<rparr>) = store_inv n"
  "store_inv (n\<lparr>no_items := items\<rparr>) = store_inv n"
  by (simp_all add: store_inv_def)

text \<open>What opening the popover does to the store: the notice is marked, then perhaps the announcements.\<close>

lemma opened:
  assumes "handleOpenPopover tab n = Some n'"
  obtains n1 n2 where "n1 = n \<or> n1 = n\<lparr>no_store := markNoticeRead (noticeContent n) (no_store n)\<rparr>"
    "n2 = n1 \<or> markAnnouncementsAsRead n1 = Some n2" "n' = n2\<lparr>no_tab := nullish tab (no_tab n), no_open := True\<rparr>"
proof -
  define n1 where "n1 = (if noticeContent n \<noteq> [] then n\<lparr>no_store := markNoticeRead (noticeContent n) (no_store n)\<rparr> else n)"
  obtain n2 where n2: "(if nullish tab (no_tab n) = AnnouncementsTab then markAnnouncementsAsRead n1 else Some n1) = Some n2"
    "n' = n2\<lparr>no_tab := nullish tab (no_tab n), no_open := True\<rparr>"
    using assms unfolding handleOpenPopover_def Let_def n1_def [symmetric] by blast
  have "n1 = n \<or> n1 = n\<lparr>no_store := markNoticeRead (noticeContent n) (no_store n)\<rparr>" by (simp add: n1_def)
  moreover have "n2 = n1 \<or> markAnnouncementsAsRead n1 = Some n2" using n2(1) by (simp split: if_splits)
  ultimately show thesis using n2(2) by (rule that)
qed

lemma open_inv:
  assumes "store_inv n" "handleOpenPopover tab n = Some n'"
  shows "store_inv n'"
  using assms(2)
proof (rule opened)
  fix n1 n2
  assume s: "n1 = n \<or> n1 = n\<lparr>no_store := markNoticeRead (noticeContent n) (no_store n)\<rparr>"
    "n2 = n1 \<or> markAnnouncementsAsRead n1 = Some n2" "n' = n2\<lparr>no_tab := nullish tab (no_tab n), no_open := True\<rparr>"
  have "store_inv (n\<lparr>no_store := markNoticeRead c (no_store n)\<rparr>)" for c
    using assms(1) by (simp add: store_inv_def markNoticeRead_def)
  then have "store_inv n1" using s(1) assms(1) by blast
  then have "store_inv n2" using s(2) mark_inv by blast
  then show ?thesis using s(3) by simp
qed

lemma open_keeps:
  assumes "handleOpenPopover tab n = Some n'" "isAnnouncementRead k (no_store n)"
  shows "isAnnouncementRead k (no_store n')"
  using assms(1)
proof (rule opened)
  fix n1 n2
  assume s: "n1 = n \<or> n1 = n\<lparr>no_store := markNoticeRead (noticeContent n) (no_store n)\<rparr>"
    "n2 = n1 \<or> markAnnouncementsAsRead n1 = Some n2" "n' = n2\<lparr>no_tab := nullish tab (no_tab n), no_open := True\<rparr>"
  have "isAnnouncementRead k (no_store n1)" using s(1) assms(2) by auto
  then have "isAnnouncementRead k (no_store n2)" using s(2) marked_unread(3) by blast
  then show ?thesis using s(3) by simp
qed

lemma tab_effect:
  assumes "handleTabChange tab n = Some n'"
  shows "n' = n\<lparr>no_tab := tab\<rparr> \<or> markAnnouncementsAsRead (n\<lparr>no_tab := tab\<rparr>) = Some n'"
  using assms by (simp add: handleTabChange_def Let_def split: if_splits)

lemma popover_effect:
  assumes "handlePopoverOpenChange b n = Some n'"
  shows "handleOpenPopover (Some (no_tab n)) n = Some n' \<or> n' = n\<lparr>no_open := False\<rparr>"
  using assms by (auto simp: handlePopoverOpenChange_def split: if_splits)

lemma notice_step_inv: "store_inv n \<Longrightarrow> notice_step n e n' \<Longrightarrow> store_inv n'"
proof (cases e)
  case (PopoverOpened tab)
  then show "store_inv n \<Longrightarrow> notice_step n e n' \<Longrightarrow> store_inv n'" using open_inv by (simp add: notice_step_def)
next
  case (PopoverChanged b)
  then show "store_inv n \<Longrightarrow> notice_step n e n' \<Longrightarrow> store_inv n'"
    using open_inv [of n "Some (no_tab n)" n'] popover_effect [of b n n'] by (auto simp: notice_step_def)
next
  case (TabChanged tab)
  then show "store_inv n \<Longrightarrow> notice_step n e n' \<Longrightarrow> store_inv n'"
    using mark_inv [of "n\<lparr>no_tab := tab\<rparr>" n'] tab_effect [of tab n n'] by (auto simp: notice_step_def)
qed (auto simp: notice_step_def store_inv_def setClosedUntilDate_def)

lemma notice_step_keeps:
  "isAnnouncementRead k (no_store n) \<Longrightarrow> notice_step n e n' \<Longrightarrow> isAnnouncementRead k (no_store n')"
proof (cases e)
  case (PopoverOpened tab)
  then show "isAnnouncementRead k (no_store n) \<Longrightarrow> notice_step n e n' \<Longrightarrow> isAnnouncementRead k (no_store n')"
    using open_keeps by (simp add: notice_step_def)
next
  case (PopoverChanged b)
  then show "isAnnouncementRead k (no_store n) \<Longrightarrow> notice_step n e n' \<Longrightarrow> isAnnouncementRead k (no_store n')"
    using open_keeps [of "Some (no_tab n)" n n'] popover_effect [of b n n'] by (auto simp: notice_step_def)
next
  case (TabChanged tab)
  then show "isAnnouncementRead k (no_store n) \<Longrightarrow> notice_step n e n' \<Longrightarrow> isAnnouncementRead k (no_store n')"
    using marked_unread(3) [of "n\<lparr>no_tab := tab\<rparr>" n'] tab_effect [of tab n n'] by (auto simp: notice_step_def)
qed (auto simp: notice_step_def setClosedUntilDate_def isAnnouncementRead_def)

interpretation notices: machine_invariant fresh_notifications notice_step store_inv
proof
  show "fresh_notifications n \<Longrightarrow> store_inv n" for n
    by (simp add: fresh_notifications_def initialStore_def store_inv_def trim_def)
qed (rule notice_step_inv)

text \<open>
  What is read stays read: after the announcements were shown, each of their keys is counted as read whatever happens
  afterwards, new responses and new announcements included.
\<close>

lemma run_keeps:
  "run notice_step n es n' \<Longrightarrow> isAnnouncementRead k (no_store n) \<Longrightarrow> isAnnouncementRead k (no_store n')"
  by (induction rule: run.induct) (auto intro: notice_step_keeps)

lemma shown_keys_read:
  assumes "handleTabChange AnnouncementsTab n = Some n1" "announcement_keys n = Some keys" "k \<in> set keys"
  shows "isAnnouncementRead k (no_store n1)"
proof -
  have "markAnnouncementsAsRead (n\<lparr>no_tab := AnnouncementsTab\<rparr>) = Some n1"
    using assms(1) by (simp add: handleTabChange_def Let_def)
  then show ?thesis
    by (rule marked_store) (use assms(2,3) in \<open>auto simp: marked_read announcement_keys_def\<close>)
qed


lemmas item_eval = truthy_def js_prop_def js_lits

definition shown_example :: notifications where
  "shown_example = \<lparr>no_response = None, no_enabled = True, no_items = [JObj [(js ''id'', JBool True)]],
     no_store = initialStore, no_open = True, no_tab = NoticeTab\<rparr>"

definition shown_example_after :: notifications where
  "shown_example_after = shown_example\<lparr>no_tab := AnnouncementsTab, no_store := markAnnouncementsRead [js ''id:true''] initialStore\<rparr>"


lemma reading_clears_counts_witness: "unreadCount (shown_example_after) = Some 0"
proof -
  have "getAnnouncementKey (JObj [(js ''id'', JBool True)]) = Some (js ''id:true'')"
    by (simp_all add: getAnnouncementKey_def item_eval)
  then have "handleOpenPopover (Some AnnouncementsTab) shown_example = Some shown_example_after"
    by (simp add: handleOpenPopover_def markAnnouncementsAsRead_def announcement_keys_def announcements_def
      shown_example_def shown_example_after_def noticeContent_def)
  then show ?thesis using reading_clears_counts by blast
qed

definition one_item :: "string \<Rightarrow> jsval" where
  "one_item c = JObj [(js ''content'', JStr (js c))]"

lemma announcement_read_by_another_witness:
  "\<exists>n'. handleTabChange AnnouncementsTab (shown_example\<lparr>no_items := [one_item ''Aa'']\<rparr>) = Some n' \<and>
     announcementsUnread (n'\<lparr>no_enabled := True, no_items := [one_item ''BB'']\<rparr>) = Some 0"
proof -
  let ?n = "shown_example\<lparr>no_items := [one_item ''Aa'']\<rparr>"
  have "\<exists>k. getAnnouncementKey (one_item ''Aa'') = Some k"
    by (simp add: getAnnouncementKey_def one_item_def fingerprint_def trimmed_field_def item_eval)
  then obtain n' where n': "handleTabChange AnnouncementsTab ?n = Some n'"
    by (auto simp: handleTabChange_def markAnnouncementsAsRead_def announcement_keys_def announcements_def shown_example_def)
  have "announcementsUnread (n'\<lparr>no_enabled := True, no_items := [one_item ''BB'']\<rparr>) = Some 0"
  proof (rule announcement_read_by_another [where p = "[]" and r = "[]" and a = "one_item ''Aa''", OF _ _ _ _ _ _ _ n'])
    show "same_but_content (one_item ''Aa'') (one_item ''BB'')" by (simp add: same_but_content_def one_item_def item_eval)
    show "announcements ?n = [one_item ''Aa'']" by (simp add: announcements_def shown_example_def)
  qed (simp_all add: one_item_def item_eval trim_def is_ws_def)
  then show ?thesis using n' by blast
qed

end
