(* ===== verification/ChatLinks.thy ===== *)
theory ChatLinks
  imports JsNumber
begin

section \<open>Links to chat clients\<close>

text \<open>
  \<^verbatim>\<open>features/chat/lib/chat-links.ts\<close> turns the configured list of chat clients into presets and fills the address of the
  gateway and a key into their link; \<^verbatim>\<open>features/chat/hooks\<close> read the list and fetch a key; the page
  \<^verbatim>\<open>routes/_authenticated/chat/$chatId.tsx\<close>, the page \<^verbatim>\<open>chat2link.tsx\<close> and the entry
  \<^verbatim>\<open>components/layout/components/chat-presets-item.tsx\<close> of the sidebar open the links.  The conversion to lower case is a parameter.
\<close>

subsection \<open>Encodings of the language\<close>

text \<open>\<open>btoa\<close> throws on code units above 255; otherwise the base 64 text of the bytes.\<close>

definition b64_char :: "int \<Rightarrow> jschar" where
  "b64_char n = (if n < 26 then 65 + n else if n < 52 then 71 + n else if n < 62 then n - 4 else if n = 62 then 43 else 47)"

fun encode64 :: "jsstring \<Rightarrow> jsstring" where
  "encode64 [] = []"
| "encode64 [a] = [b64_char (a div 4), b64_char (a mod 4 * 16), 61, 61]"
| "encode64 [a, b] = [b64_char (a div 4), b64_char (a mod 4 * 16 + b div 16), b64_char (b mod 16 * 4), 61]"
| "encode64 (a # b # c # s) =
     b64_char (a div 4) # b64_char (a mod 4 * 16 + b div 16) # b64_char (b mod 16 * 4 + c div 64) # b64_char (c mod 64) # encode64 s"

definition btoa :: "jsstring \<Rightarrow> jsstring option" where
  "btoa s = (if \<exists>c\<in>set s. 255 < c then None else Some (encode64 s))"

text \<open>\<open>encodeURIComponent\<close>: the UTF-8 bytes of what is not unreserved; it throws on a lone surrogate.\<close>

definition unreserved :: "jschar \<Rightarrow> bool" where
  "unreserved c \<longleftrightarrow> is_digit c \<or> (65 \<le> c \<and> c \<le> 90) \<or> (97 \<le> c \<and> c \<le> 122) \<or> c \<in> set (js ''-_.!~*()'') \<or> c = 39"

definition utf8 :: "int \<Rightarrow> int list" where
  "utf8 c =
     (if c < 128 then [c]
      else if c < 2048 then [192 + c div 64, 128 + c mod 64]
      else if c < 65536 then [224 + c div 4096, 128 + c div 64 mod 64, 128 + c mod 64]
      else [240 + c div 262144, 128 + c div 4096 mod 64, 128 + c div 64 mod 64, 128 + c mod 64])"

definition hex_upper :: "int \<Rightarrow> jschar" where
  "hex_upper d = (if d < 10 then 48 + d else 55 + d)"

definition percent :: "int \<Rightarrow> jsstring" where
  "percent b = [37, hex_upper (b div 16), hex_upper (b mod 16)]"

definition percents :: "int \<Rightarrow> jsstring" where
  "percents c = concat (map percent (utf8 c))"

fun encodeURIComponent :: "jsstring \<Rightarrow> jsstring option" where
  "encodeURIComponent [] = Some []"
| "encodeURIComponent (c # s) =
     (if unreserved c then map_option ((#) c) (encodeURIComponent s)
      else if low_surrogate c then None
      else if high_surrogate c
      then (case s of
              [] \<Rightarrow> None
            | d # s' \<Rightarrow>
                if low_surrogate d
                then map_option ((@) (percents (65536 + (c - 55296) * 1024 + (d - 56320)))) (encodeURIComponent s')
                else None)
      else map_option ((@) (percents c)) (encodeURIComponent s))"

text \<open>\<open>split\<close> at a token.\<close>

function split_str :: "'a list \<Rightarrow> 'a list \<Rightarrow> 'a list list" where
  "split_str token s =
     (if token = [] then [s]
      else case find_sub token s of
             None \<Rightarrow> [s]
           | Some k \<Rightarrow> take k s # split_str token (drop (k + length token) s))"
  by auto
termination
proof (relation "measure (\<lambda>(token, s). length s)")
  fix token s :: "'a list" and k
  assume "token \<noteq> []" "find_sub token s = Some k"
  then have "0 < length token" "k + length token \<le> length s" using find_sub_Some [of token s k] by (cases token; force)+
  then show "((token, drop (k + length token) s), token, s) \<in> measure (\<lambda>(token, s). length s)" by (simp del: length_greater_0_conv)
qed simp

declare split_str.simps [simp del]

subsection \<open>Presets\<close>

datatype ChatLinkType = WebLink | CustomProtocol | FluentLink

record ChatPreset =
  cp_id :: jsstring
  cp_name :: jsstring
  cp_url :: jsstring
  cp_type :: ChatLinkType

definition HTTP_REGEX :: "jsstring \<Rightarrow> bool" where
  "HTTP_REGEX url \<longleftrightarrow> prefix (js ''http://'') (ascii_lower url) \<or> prefix (js ''https://'') (ascii_lower url)"

definition detectChatLinkType :: "(jsstring \<Rightarrow> jsstring) \<Rightarrow> jsstring \<Rightarrow> ChatLinkType" where
  "detectChatLinkType lower url =
     (if HTTP_REGEX url then WebLink else if prefix (js ''fluent'') (lower url) then FluentLink else CustomProtocol)"

definition CHERRY :: jsstring where "CHERRY = js ''{cherryConfig}''"
definition AIONUI :: jsstring where "AIONUI = js ''{aionuiConfig}''"
definition DEEPCHAT :: jsstring where "DEEPCHAT = js ''{deepchatConfig}''"
definition ADDRESS :: jsstring where "ADDRESS = js ''{address}''"
definition KEY :: jsstring where "KEY = js ''{key}''"

definition chatLinkRequiresApiKey :: "jsstring \<Rightarrow> bool" where
  "chatLinkRequiresApiKey url \<longleftrightarrow>
     str_includes url KEY \<or> str_includes url CHERRY \<or> str_includes url AIONUI \<or> str_includes url DEEPCHAT"

definition preset_entry :: "(jsstring \<Rightarrow> jsstring) \<Rightarrow> nat \<Rightarrow> jsval \<Rightarrow> ChatPreset option" where
  "preset_entry lower index entry =
     (case entry of
        JObj [(name, JStr v)] \<Rightarrow>
          (let url = trim v in
           if url = [] then None
           else Some \<lparr>cp_id = show_nat index, cp_name = name, cp_url = url, cp_type = detectChatLinkType lower url\<rparr>)
      | _ \<Rightarrow> None)"

definition config_entries :: "jsval option \<Rightarrow> jsval list option" where
  "config_entries raw =
     (case (case raw of Some (JStr s) \<Rightarrow> JSON_parse s | v \<Rightarrow> v) of Some (JArr es) \<Rightarrow> Some es | _ \<Rightarrow> None)"

definition parseChatConfig :: "(jsstring \<Rightarrow> jsstring) \<Rightarrow> jsval option \<Rightarrow> ChatPreset list" where
  "parseChatConfig lower raw =
     (case config_entries raw of
        None \<Rightarrow> []
      | Some es \<Rightarrow> List.map_filter (\<lambda>i. preset_entry lower i (es ! i)) [0..<length es])"

subsection \<open>Links\<close>

definition replaceToken :: "jsstring \<Rightarrow> jsstring \<Rightarrow> jsstring \<Rightarrow> jsstring" where
  "replaceToken source token v = join v (split_str token source)"

definition normalizeApiKey :: "jsstring \<Rightarrow> jsstring" where
  "normalizeApiKey apiKey =
     (let trimmed = trim apiKey in
      if trimmed = [] then [] else if prefix (js ''sk-'') trimmed then trimmed else js ''sk-'' @ trimmed)"

text \<open>The encoded payload of a client; \<open>None\<close> when a conversion throws.\<close>

definition client_payload :: "string \<Rightarrow> jsstring \<Rightarrow> jsstring \<Rightarrow> jsval" where
  "client_payload tag address key =
     JObj [(js tag, JStr (js ''new-api'')), (js ''baseUrl'', JStr address), (js ''apiKey'', JStr key)]"

definition encoded_payload :: "jsval \<Rightarrow> jsstring option" where
  "encoded_payload payload = Option.bind (btoa (JSON_stringify payload)) encodeURIComponent"

definition resolveChatUrl :: "jsstring \<Rightarrow> jsstring option \<Rightarrow> jsstring \<Rightarrow> jsstring option" where
  "resolveChatUrl template apiKey serverAddress =
     (let safeApiKey = normalizeApiKey (nullish apiKey [])
      in if str_includes template CHERRY
         then map_option (replaceToken template CHERRY) (encoded_payload (client_payload ''id'' serverAddress safeApiKey))
         else if str_includes template AIONUI
         then map_option (replaceToken template AIONUI) (encoded_payload (client_payload ''platform'' serverAddress safeApiKey))
         else if str_includes template DEEPCHAT
         then map_option (replaceToken template DEEPCHAT) (encoded_payload (client_payload ''id'' serverAddress safeApiKey))
         else map_option (\<lambda>url. if safeApiKey \<noteq> [] then replaceToken url KEY safeApiKey else url)
                (if serverAddress \<noteq> [] then map_option (replaceToken template ADDRESS) (encodeURIComponent serverAddress)
                 else Some template))"

record ActiveApiKey =
  ak_key :: jsstring
  ak_status :: rat

definition getFirstActiveKey :: "ActiveApiKey list option \<Rightarrow> ActiveApiKey option" where
  "getFirstActiveKey keys = Option.bind keys (List.find (\<lambda>item. ak_status item = 1))"

subsection \<open>Where presets and keys come from\<close>

text \<open>A property that is neither missing nor \<open>null\<close>.\<close>

definition prop_set :: "jsval option \<Rightarrow> string \<Rightarrow> jsval option" where
  "prop_set v k = (case Option.bind v (\<lambda>w. js_prop w (js k)) of Some JNull \<Rightarrow> None | x \<Rightarrow> x)"

fun first_set :: "jsval option list \<Rightarrow> jsval option" where
  "first_set [] = None"
| "first_set (v # vs) = (case v of None \<Rightarrow> first_set vs | Some w \<Rightarrow> Some w)"

definition getStoredStatusChats :: "jsstring option \<Rightarrow> jsval option" where
  "getStoredStatusChats storage =
     (case storage of
        None \<Rightarrow> None
      | Some raw \<Rightarrow> if raw = [] then None
                    else let parsed = JSON_parse raw in first_set [prop_set parsed ''chats'', prop_set parsed ''Chats''])"

definition extractServerAddress :: "jsstring \<Rightarrow> jsval option \<Rightarrow> jsstring" where
  "extractServerAddress origin status =
     (case first_set [prop_set status ''server_address'', prop_set status ''serverAddress'',
          prop_set (prop_set status ''data'') ''server_address'', prop_set (prop_set status ''data'') ''serverAddress''] of
        Some (JStr s) \<Rightarrow> if s \<noteq> [] then s else origin
      | _ \<Rightarrow> origin)"

definition extractChats :: "jsstring option \<Rightarrow> jsval option \<Rightarrow> jsval option" where
  "extractChats storage status =
     first_set [prop_set status ''Chats'', prop_set status ''chats'', prop_set (prop_set status ''data'') ''Chats'',
       prop_set (prop_set status ''data'') ''chats'', getStoredStatusChats storage]"

definition chatPresets :: "(jsstring \<Rightarrow> jsstring) \<Rightarrow> jsstring option \<Rightarrow> jsval option \<Rightarrow> ChatPreset list" where
  "chatPresets lower storage status = parseChatConfig lower (extractChats storage status)"

record keys_response =
  kr_success :: bool
  kr_message :: "jsstring option"
  kr_items :: "(rat \<times> rat) list option"

record key_response =
  ky_success :: bool
  ky_message :: "jsstring option"
  ky_key :: "jsstring option"

definition message_or :: "jsstring option \<Rightarrow> string \<Rightarrow> jsstring" where
  "message_or m d = (if nullish m [] = [] then js d else nullish m [])"

text \<open>The identifiers and states of the keys, then the key of the first enabled one; an error is its message.\<close>

definition fetchActiveChatKey :: "keys_response \<Rightarrow> (rat \<Rightarrow> key_response) \<Rightarrow> jsstring + jsstring" where
  "fetchActiveChatKey result fetchTokenKey =
     (if \<not> kr_success result then Inl (message_or (kr_message result) ''Failed to load API keys'')
      else case List.find (\<lambda>(i, status). status = 1) (nullish (kr_items result) []) of
             None \<Rightarrow> Inl (js ''No enabled API keys found. Create or enable one first.'')
           | Some (i, _) \<Rightarrow>
               (let keyResult = fetchTokenKey i in
                if \<not> ky_success keyResult \<or> nullish (ky_key keyResult) [] = []
                then Inl (message_or (ky_message keyResult) ''Failed to load API key'')
                else Inr (js ''sk-'' @ nullish (ky_key keyResult) [])))"

subsection \<open>Opening a preset\<close>

definition route_preset :: "jsstring \<Rightarrow> ChatPreset list \<Rightarrow> ChatPreset option" where
  "route_preset chatId presets =
     (case to_number_str chatId of
        None \<Rightarrow> None
      | Some x \<Rightarrow> if x = of_int \<lfloor>x\<rfloor> \<and> 0 \<le> x \<and> nat \<lfloor>x\<rfloor> < length presets then Some (presets ! nat \<lfloor>x\<rfloor>) else None)"

record key_query =
  kq_data :: "jsstring option"
  kq_pending :: bool
  kq_error :: bool

datatype chat_view =
  ToDashboard | PresetNotFound | UseShortcut jsstring | PreparingLink | LinkFailed | ChatFrame jsstring | PageThrows

definition chat_frame :: "ChatPreset \<Rightarrow> jsstring \<Rightarrow> key_query \<Rightarrow> jsstring option" where
  "chat_frame preset serverAddress query =
     (let requiresActiveKey = chatLinkRequiresApiKey (cp_url preset) in
      if requiresActiveKey \<and> nullish (kq_data query) [] = [] then Some []
      else resolveChatUrl (cp_url preset) (if requiresActiveKey then kq_data query else None) serverAddress)"

definition ChatRouteComponent :: "jsstring \<Rightarrow> ChatPreset list \<Rightarrow> jsstring \<Rightarrow> key_query \<Rightarrow> chat_view" where
  "ChatRouteComponent chatId presets serverAddress query =
     (if \<not> is_integer (to_number_str chatId) then ToDashboard
      else case route_preset chatId presets of
             None \<Rightarrow> PresetNotFound
           | Some preset \<Rightarrow>
               if cp_type preset \<noteq> WebLink then UseShortcut (cp_name preset)
               else case chat_frame preset serverAddress query of
                      None \<Rightarrow> PageThrows
                    | Some src \<Rightarrow>
                        (let requiresActiveKey = chatLinkRequiresApiKey (cp_url preset) in
                         if requiresActiveKey \<and> kq_pending query then PreparingLink
                         else if requiresActiveKey \<and> (kq_error query \<or> nullish (kq_data query) [] = [] \<or> src = []) then LinkFailed
                         else if \<not> requiresActiveKey \<and> src = [] then LinkFailed
                         else ChatFrame src))"

text \<open>The entries of the sidebar, and the link of an entry for a web client.\<close>

definition visiblePresets :: "ChatPreset list \<Rightarrow> ChatPreset list" where
  "visiblePresets presets = filter (\<lambda>preset. cp_type preset \<noteq> FluentLink) presets"

definition menu_link :: "ChatPreset \<Rightarrow> jsstring option" where
  "menu_link preset = (if cp_type preset = WebLink then Some (cp_id preset) else None)"

datatype external_outcome = NothingOpened | BusyNotice | KeyError jsstring | InvalidLink | WindowOpened jsstring | OpenThrows

definition handleOpenExternal :: "bool \<Rightarrow> jsstring + jsstring \<Rightarrow> jsstring \<Rightarrow> ChatPreset \<Rightarrow> external_outcome" where
  "handleOpenExternal loading keyResult serverAddress preset =
     (if cp_type preset = WebLink then NothingOpened
      else
        let needsKey = chatLinkRequiresApiKey (cp_url preset);
            finish = (\<lambda>activeKey. case resolveChatUrl (cp_url preset) activeKey serverAddress of
                        None \<Rightarrow> OpenThrows | Some url \<Rightarrow> if url = [] then InvalidLink else WindowOpened url)
        in if \<not> needsKey then finish None
           else if loading then BusyNotice
           else case keyResult of Inl message \<Rightarrow> KeyError message | Inr key \<Rightarrow> finish (Some key))"

text \<open>Without a web client there is a notice unless the list is empty.\<close>

datatype chat2link_outcome = NoWebPreset bool | NothingYet | KeysPage | GoesTo jsstring | NoTarget | LinkThrows

definition Chat2LinkPage :: "ChatPreset list \<Rightarrow> jsstring \<Rightarrow> key_query \<Rightarrow> chat2link_outcome" where
  "Chat2LinkPage presets serverAddress query =
     (case List.find (\<lambda>p. cp_type p = WebLink) presets of
        None \<Rightarrow> NoWebPreset (presets \<noteq> [])
      | Some firstWebPreset \<Rightarrow>
          if kq_data query = None \<and> \<not> kq_error query then NothingYet
          else if kq_error query \<or> nullish (kq_data query) [] = [] then KeysPage
          else case resolveChatUrl (cp_url firstWebPreset) (kq_data query) serverAddress of
                 None \<Rightarrow> LinkThrows
               | Some url \<Rightarrow> if url = [] then NoTarget else GoesTo url)"

subsection \<open>Base 64\<close>

text \<open>A decoder, written independently of the encoder, as the client has one.\<close>

definition b64_val :: "jschar \<Rightarrow> int option" where
  "b64_val c =
     (if 65 \<le> c \<and> c \<le> 90 then Some (c - 65) else if 97 \<le> c \<and> c \<le> 122 then Some (c - 71)
      else if is_digit c then Some (c + 4) else if c = 43 then Some 62 else if c = 47 then Some 63 else None)"

fun decode64 :: "jsstring \<Rightarrow> jsstring option" where
  "decode64 (p # q # r # t # s) =
     (case (b64_val p, b64_val q) of
        (Some x, Some y) \<Rightarrow>
          if r = 61 \<and> t = 61 \<and> s = [] then Some [4 * x + y div 16]
          else (case b64_val r of
                  None \<Rightarrow> None
                | Some z \<Rightarrow>
                    if t = 61 \<and> s = [] then Some [4 * x + y div 16, y mod 16 * 16 + z div 4]
                    else (case (b64_val t, decode64 s) of
                            (Some w, Some bs) \<Rightarrow> Some ((4 * x + y div 16) # (y mod 16 * 16 + z div 4) # (z mod 4 * 64 + w) # bs)
                          | _ \<Rightarrow> None))
      | _ \<Rightarrow> None)"
| "decode64 s = (if s = [] then Some [] else None)"

fun decode_percent :: "jsstring \<Rightarrow> jsstring option" where
  "decode_percent [] = Some []"
| "decode_percent (c # s) =
     (if c \<noteq> 37 then map_option ((#) c) (decode_percent s)
      else case s of
             h # l # s' \<Rightarrow>
               (case (hex_digit h, hex_digit l) of
                  (Some x, Some y) \<Rightarrow> map_option ((#) (16 * x + y)) (decode_percent s')
                | _ \<Rightarrow> None)
           | _ \<Rightarrow> None)"

definition decode_payload :: "jsstring \<Rightarrow> jsval option" where
  "decode_payload e = Option.bind (Option.bind (decode_percent e) decode64) JSON_parse"

lemma b64_val_char: "0 \<le> n \<Longrightarrow> n < 64 \<Longrightarrow> b64_val (b64_char n) = Some n"
  by (auto simp: b64_val_def b64_char_def is_digit_def)

lemma b64_char_ascii: "0 \<le> n \<Longrightarrow> n < 64 \<Longrightarrow> 0 \<le> b64_char n \<and> b64_char n < 128 \<and> b64_char n \<noteq> 61"
  by (auto simp: b64_char_def)

lemma sextets:
  fixes a b c :: int
  assumes "0 \<le> a" "a < 256" "0 \<le> b" "b < 256" "0 \<le> c" "c < 256"
  shows "0 \<le> a div 4" "a div 4 < 64" "0 \<le> a mod 4 * 16" "a mod 4 * 16 < 64" "0 \<le> a mod 4 * 16 + b div 16"
    "a mod 4 * 16 + b div 16 < 64" "0 \<le> b mod 16 * 4" "b mod 16 * 4 < 64" "0 \<le> b mod 16 * 4 + c div 64" "b mod 16 * 4 + c div 64 < 64"
    "0 \<le> c mod 64" "c mod 64 < 64"
  using assms by linarith+

lemma octets:
  fixes a b c :: int
  assumes "0 \<le> a" "a < 256" "0 \<le> b" "b < 256" "0 \<le> c" "c < 256"
  shows "4 * (a div 4) + (a mod 4 * 16) div 16 = a" "4 * (a div 4) + (a mod 4 * 16 + b div 16) div 16 = a"
    "(a mod 4 * 16 + b div 16) mod 16 * 16 + (b mod 16 * 4) div 4 = b"
    "(a mod 4 * 16 + b div 16) mod 16 * 16 + (b mod 16 * 4 + c div 64) div 4 = b"
    "(b mod 16 * 4 + c div 64) mod 4 * 64 + c mod 64 = c"
proof -
  have q: "0 \<le> b div 16" "b div 16 < 16" "0 \<le> c div 64" "c div 64 < 4" using assms by linarith+
  show "4 * (a div 4) + (a mod 4 * 16) div 16 = a" by simp
  show "4 * (a div 4) + (a mod 4 * 16 + b div 16) div 16 = a" by (simp add: div_pos_pos_trivial [OF q(1,2)])
  show "(a mod 4 * 16 + b div 16) mod 16 * 16 + (b mod 16 * 4) div 4 = b" by (simp add: mod_pos_pos_trivial [OF q(1,2)])
  show "(a mod 4 * 16 + b div 16) mod 16 * 16 + (b mod 16 * 4 + c div 64) div 4 = b"
    by (simp add: mod_pos_pos_trivial [OF q(1,2)] div_pos_pos_trivial [OF q(3,4)])
  show "(b mod 16 * 4 + c div 64) mod 4 * 64 + c mod 64 = c" by (simp add: mod_pos_pos_trivial [OF q(3,4)])
qed

lemma decode_step:
  assumes "0 \<le> x" "x < 64" "0 \<le> y" "y < 64" "0 \<le> z" "z < 64" "0 \<le> w" "w < 64"
  shows "decode64 [b64_char x, b64_char y, 61, 61] = Some [4 * x + y div 16]"
    "decode64 [b64_char x, b64_char y, b64_char z, 61] = Some [4 * x + y div 16, y mod 16 * 16 + z div 4]"
    "decode64 (b64_char x # b64_char y # b64_char z # b64_char w # s) =
       map_option (\<lambda>bs. (4 * x + y div 16) # (y mod 16 * 16 + z div 4) # (z mod 4 * 64 + w) # bs) (decode64 s)"
proof -
  note v = b64_val_char [OF assms(1,2)] b64_val_char [OF assms(3,4)] b64_val_char [OF assms(5,6)] b64_val_char [OF assms(7,8)]
  have n: "b64_char z \<noteq> 61" "b64_char w \<noteq> 61" using b64_char_ascii assms by blast+
  show "decode64 [b64_char x, b64_char y, 61, 61] = Some [4 * x + y div 16]" by (simp add: v)
  show "decode64 [b64_char x, b64_char y, b64_char z, 61] = Some [4 * x + y div 16, y mod 16 * 16 + z div 4]"
    by (simp add: v n)
  show "decode64 (b64_char x # b64_char y # b64_char z # b64_char w # s) =
       map_option (\<lambda>bs. (4 * x + y div 16) # (y mod 16 * 16 + z div 4) # (z mod 4 * 64 + w) # bs) (decode64 s)"
    by (simp add: v n split: option.split)
qed

lemma decode_encode64: "\<forall>c\<in>set s. 0 \<le> c \<and> c < 256 \<Longrightarrow> decode64 (encode64 s) = Some s"
proof (induction s rule: encode64.induct)
  case (2 a)
  then have a: "0 \<le> a" "a < 256" by auto
  show ?case
    unfolding encode64.simps decode_step(1) [OF sextets(1-4) [OF a a a] sextets(1-4) [OF a a a]] by (simp only: octets [OF a a a])
next
  case (3 a b)
  then have ab: "0 \<le> a" "a < 256" "0 \<le> b" "b < 256" by auto
  note six = sextets [OF ab ab(1,2)]
  show ?case
    unfolding encode64.simps decode_step(2) [OF six(1,2,5-8) six(1,2)] by (simp only: octets [OF ab ab(1,2)])
next
  case (4 a b c s)
  then have abc: "0 \<le> a" "a < 256" "0 \<le> b" "b < 256" "0 \<le> c" "c < 256" and IH: "decode64 (encode64 s) = Some s" by auto
  show ?case
    unfolding encode64.simps decode_step(3) [OF sextets(1,2,5,6,9-12) [OF abc]] IH by (simp only: octets [OF abc] option.map)
qed simp

lemma encode64_ascii: "\<forall>c\<in>set s. 0 \<le> c \<and> c < 256 \<Longrightarrow> \<forall>c\<in>set (encode64 s). 0 \<le> c \<and> c < 128"
proof (induction s rule: encode64.induct)
  case (2 a)
  then have a: "0 \<le> a" "a < 256" by auto
  have "0 \<le> b64_char n \<and> b64_char n < 128" if "0 \<le> n" "n < 64" for n using b64_char_ascii that by blast
  from this [OF sextets(1,2) [OF a a a]] this [OF sextets(3,4) [OF a a a]] show ?case unfolding encode64.simps by simp
next
  case (3 a b)
  then have ab: "0 \<le> a" "a < 256" "0 \<le> b" "b < 256" by auto
  have "0 \<le> b64_char n \<and> b64_char n < 128" if "0 \<le> n" "n < 64" for n using b64_char_ascii that by blast
  from this [OF sextets(1,2) [OF ab ab(1,2)]] this [OF sextets(5,6) [OF ab ab(1,2)]] this [OF sextets(7,8) [OF ab ab(1,2)]]
  show ?case unfolding encode64.simps by simp
next
  case (4 a b c s)
  then have abc: "0 \<le> a" "a < 256" "0 \<le> b" "b < 256" "0 \<le> c" "c < 256" and IH: "\<forall>c\<in>set (encode64 s). 0 \<le> c \<and> c < 128" by auto
  have "0 \<le> b64_char n \<and> b64_char n < 128" if "0 \<le> n" "n < 64" for n using b64_char_ascii that by blast
  from this [OF sextets(1,2) [OF abc]] this [OF sextets(5,6) [OF abc]] this [OF sextets(9,10) [OF abc]] this [OF sextets(11,12) [OF abc]] IH
  show ?case unfolding encode64.simps by simp
qed simp

subsection \<open>Percent encoding\<close>

lemma hex_upper_digit: "0 \<le> d \<Longrightarrow> d < 16 \<Longrightarrow> hex_digit (hex_upper d) = Some d"
  by (auto simp: hex_digit_def hex_upper_def)

lemma ascii_percent: "0 \<le> c \<Longrightarrow> c < 128 \<Longrightarrow> decode_percent (percents c @ s) = map_option ((#) c) (decode_percent s)"
  by (simp add: percents_def utf8_def percent_def hex_upper_digit)

lemma encode_ascii:
  "\<forall>c\<in>set s. 0 \<le> c \<and> c < 128 \<Longrightarrow> \<exists>e. encodeURIComponent s = Some e \<and> decode_percent e = Some s"
proof (induction s)
  case (Cons c s)
  then obtain e where e: "encodeURIComponent s = Some e" "decode_percent e = Some s" by auto
  have "c \<noteq> 37 \<or> \<not> unreserved c" by (auto simp: unreserved_def is_digit_def js_lits)
  then show ?case
    using Cons.prems e ascii_percent [of c e] by (auto simp: low_surrogate_def high_surrogate_def)
qed simp

subsection \<open>Payloads of clients\<close>

lemma quote_latin: "\<forall>c\<in>set s. 0 \<le> c \<and> c < 256 \<Longrightarrow> \<forall>c\<in>set (quote_chars s). 0 \<le> c \<and> c < 256"
proof (induction s rule: quote_chars.induct)
  case (2 c)
  then show ?case by (auto simp: high_surrogate_def low_surrogate_def escape_char_def escape_u_def hex_char_def)
next
  case (3 c d s)
  then show ?case by (auto simp: high_surrogate_def low_surrogate_def escape_char_def escape_u_def hex_char_def)
qed simp

lemma js_latin: "\<forall>c\<in>set (js s). 0 \<le> c \<and> c < 256"
  by (auto simp: js_def of_char_def)

definition latin1 :: "jsstring \<Rightarrow> bool" where
  "latin1 s \<longleftrightarrow> (\<forall>c\<in>set s. 0 \<le> c \<and> c < 256)"

lemma payload_text:
  assumes "latin1 address" "latin1 key"
  shows "\<forall>c\<in>set (JSON_stringify (client_payload tag address key)). 0 \<le> c \<and> c < 256"
proof -
  have "\<forall>c\<in>set (quote s). 0 \<le> c \<and> c < 256" if "latin1 s" for s
    using quote_latin [of s] that by (simp add: quote_def latin1_def)
  moreover have "latin1 (js s)" for s using js_latin by (simp add: latin1_def)
  ultimately show ?thesis using assms by (auto simp: client_payload_def)
qed

lemma client_payload_rt:
  assumes "latin1 address" "latin1 key" "tag \<in> {''id'', ''platform''}"
  shows "json_rt (client_payload tag address key)"
proof -
  have "utf16 s" if "latin1 s" for s using that by (auto simp: latin1_def utf16_def)
  moreover have "latin1 (js s)" for s using js_latin by (simp add: latin1_def)
  moreover have "obj_of [(js ''id'', x), (js ''baseUrl'', y), (js ''apiKey'', z)] = [(js ''id'', x), (js ''baseUrl'', y), (js ''apiKey'', z)]"
    "obj_of [(js ''platform'', x), (js ''baseUrl'', y), (js ''apiKey'', z)] = [(js ''platform'', x), (js ''baseUrl'', y), (js ''apiKey'', z)]"
    for x y z :: jsval by (simp_all add: obj_of_def obj_put_def is_index_key_def all_digits_def is_digit_def js_lits)
  ultimately show ?thesis using assms by (auto simp: client_payload_def)
qed

lemma payload_decodes:
  assumes "latin1 address" "latin1 key" "tag \<in> {''id'', ''platform''}"
  shows "\<exists>e. encoded_payload (client_payload tag address key) = Some e \<and> decode_payload e = Some (client_payload tag address key)"
proof -
  let ?t = "JSON_stringify (client_payload tag address key)"
  note t = payload_text [OF assms(1,2), of tag]
  have "btoa ?t = Some (encode64 ?t)" using t by (auto simp: btoa_def)
  moreover obtain e where "encodeURIComponent (encode64 ?t) = Some e" "decode_percent e = Some (encode64 ?t)"
    using encode_ascii [OF encode64_ascii [OF t]] by blast
  ultimately show ?thesis
    using decode_encode64 [OF t] JSON_parse_stringify [OF client_payload_rt [OF assms]] by (simp add: encoded_payload_def decode_payload_def)
qed

lemma split_once:
  assumes "border_free token" "\<not> str_includes u token" "\<not> str_includes v token"
  shows "split_str token (u @ token @ v) = [u, v]"
proof -
  have n: "find_sub token u = None" "find_sub token v = None" using assms(2,3) by (simp_all add: str_includes_def)
  have "token \<noteq> []" using assms(1) by (simp add: border_free_def)
  then have "split_str token v = [v]" using n(2) by (subst split_str.simps) simp
  then show ?thesis
    using border_free_first [OF assms(1) n(1), of v] \<open>token \<noteq> []\<close> by (subst split_str.simps) simp
qed

lemma normalized_latin: "latin1 k \<Longrightarrow> latin1 (normalizeApiKey k)"
proof -
  assume "latin1 k"
  then have "latin1 (trim k)" using set_trim_subset [of k] by (auto simp: latin1_def)
  then show ?thesis using js_latin [of "''sk-''"] by (auto simp: normalizeApiKey_def latin1_def Let_def)
qed

definition client_tokens :: "(jsstring \<times> string) list" where
  "client_tokens = [(CHERRY, ''id''), (AIONUI, ''platform''), (DEEPCHAT, ''id'')]"

lemma client_url:
  assumes "(token, tag) \<in> set client_tokens" "str_includes template token"
    and "\<forall>(t, _)\<in>set client_tokens. t \<noteq> token \<longrightarrow> \<not> str_includes template t"
  shows "resolveChatUrl template (Some key) address =
    map_option (replaceToken template token) (encoded_payload (client_payload tag address (normalizeApiKey key)))"
proof -
  have "CHERRY \<noteq> AIONUI" "CHERRY \<noteq> DEEPCHAT" "AIONUI \<noteq> DEEPCHAT" by (code_simp)+
  then show ?thesis using assms unfolding client_tokens_def resolveChatUrl_def Let_def by auto
qed



text \<open>A character beyond Latin-1 in the address makes the call throw.\<close>

lemma wide_quoted:
  assumes "c \<in> set s" "255 < c" "\<not> high_surrogate c" "\<not> low_surrogate c"
  shows "c \<in> set (quote_chars s)"
  using assms by (induction s rule: quote_chars.induct) (auto simp: escape_char_def)

theorem wide_address_throws:
  assumes "str_includes template (js ''{cherryConfig}'')" "c \<in> set address" "255 < c" "\<not> high_surrogate c" "\<not> low_surrogate c"
  shows "resolveChatUrl template key address = None"
proof -
  have "c \<in> set (JSON_stringify (client_payload ''id'' address (normalizeApiKey (nullish key []))))"
    using wide_quoted [OF assms(2-5)] by (simp add: client_payload_def quote_def)
  then have "encoded_payload (client_payload ''id'' address (normalizeApiKey (nullish key []))) = None"
    using assms(3) by (auto simp: encoded_payload_def btoa_def)
  then show ?thesis using assms(1) by (simp add: resolveChatUrl_def CHERRY_def Let_def)
qed

subsection \<open>Where the key goes\<close>

text \<open>The characters of an encoded text.\<close>

lemma percent_chars: "c \<in> set (percents n) \<Longrightarrow> 0 \<le> n \<Longrightarrow> n < 1114112 \<Longrightarrow> c = 37 \<or> unreserved c"
proof -
  have hex: "0 \<le> d \<Longrightarrow> d < 16 \<Longrightarrow> unreserved (hex_upper d)" for d by (simp add: unreserved_def hex_upper_def is_digit_def)
  have "\<forall>b\<in>set (utf8 n). 0 \<le> b \<and> b < 256" if "0 \<le> n" "n < 1114112"
    using that by (auto simp: utf8_def)
  moreover have "d = 37 \<or> unreserved d" if "0 \<le> b" "b < 256" "d \<in> set (percent b)" for b d
  proof -
    have "0 \<le> b div 16" "b div 16 < 16" "0 \<le> b mod 16" "b mod 16 < 16" using that(1,2) by linarith+
    then show ?thesis using that(3) hex by (auto simp: percent_def)
  qed
  ultimately show "c \<in> set (percents n) \<Longrightarrow> 0 \<le> n \<Longrightarrow> n < 1114112 \<Longrightarrow> c = 37 \<or> unreserved c"
    unfolding percents_def by auto
qed

lemma encoded_chars:
  "encodeURIComponent s = Some e \<Longrightarrow> utf16 s \<Longrightarrow> \<forall>c\<in>set e. c = 37 \<or> unreserved c"
proof (induction s arbitrary: e rule: encodeURIComponent.induct)
  case (2 c s)
  show ?case
  proof (cases "unreserved c \<or> low_surrogate c \<or> \<not> high_surrogate c")
    case True
    have "\<forall>d\<in>set (percents c). d = 37 \<or> unreserved d" using percent_chars [of _ c] 2(5) by (auto simp: utf16_def)
    then show ?thesis using 2 True by (auto simp: utf16_def split: if_splits)
  next
    case False
    then obtain d s' where s: "s = d # s'" "low_surrogate d" "high_surrogate c" "\<not> unreserved c" "\<not> low_surrogate c"
      using 2(4) by (auto split: if_splits list.splits)
    let ?n = "65536 + (c - 55296) * 1024 + (d - 56320)"
    have "0 \<le> ?n" "?n < 1114112" using s(2,3) by (auto simp: low_surrogate_def high_surrogate_def)
    then have "\<forall>d\<in>set (percents ?n). d = 37 \<or> unreserved d" using percent_chars by blast
    then show ?thesis using 2(2) [OF s(4,5,3,1,2)] 2(4,5) s by (auto simp: utf16_def)
  qed
qed simp

lemma encoded_percent:
  "encodeURIComponent s = Some e \<Longrightarrow> c \<in> set s \<Longrightarrow> \<not> unreserved c \<Longrightarrow> 37 \<in> set e"
proof (induction s arbitrary: e rule: encodeURIComponent.induct)
  case (2 d s)
  have "37 \<in> set (percents n)" for n by (simp add: percents_def utf8_def percent_def)
  then show ?case using 2 by (auto split: if_splits list.splits)
qed simp

lemma occurs_around:
  assumes "w \<noteq> []" "hd w \<notin> set e" "last w \<notin> set e" "\<exists>c\<in>set e. c \<notin> set w" "str_includes (u @ e @ v) w"
  shows "str_includes u w \<or> str_includes v w"
proof -
  obtain a b where eq: "u @ e @ v = a @ w @ b" using assms(5) by (auto simp: str_includes_iff)
  have w: "(u @ e @ v) ! (length a + i) = w ! i" if "i < length w" for i
    using that unfolding eq by (simp add: nth_append)
  have e: "(u @ e @ v) ! (length u + j) = e ! j" if "j < length e" for j using that by (simp add: nth_append)
  consider "length u + length e \<le> length a" | "length a + length w \<le> length u" | "length u \<le> length a" "length a < length u + length e"
    | "length u < length a + length w" "length a + length w \<le> length u + length e"
    | "length a < length u" "length u + length e < length a + length w" by linarith
  then show ?thesis
  proof cases
    case 1
    then obtain a' where "a = (u @ e) @ a'" using eq by (metis append_assoc append_eq_append_conv_if append_take_drop_id length_append)
    then have "v = a' @ w @ b" using eq by simp
    then show ?thesis by (auto simp: str_includes_iff)
  next
    case 2
    then obtain b' where "u = (a @ w) @ b'" using eq by (metis append_assoc append_eq_append_conv_if append_take_drop_id length_append)
    then show ?thesis by (auto simp: str_includes_iff)
  next
    case 3
    then have "hd w = e ! (length a - length u)" using w [of 0] e [of "length a - length u"] assms(1) by (simp add: hd_conv_nth)
    then show ?thesis using 3 assms(2) by (simp add: nth_mem)
  next
    case 4
    let ?k = "length a + (length w - 1)"
    have k: "?k - length u < length e" "length u \<le> ?k" "length w - 1 < length w" using 4 assms(1) by (cases w; auto)+
    then have "last w = e ! (?k - length u)" using w [OF k(3)] e [OF k(1)] assms(1) by (simp add: last_conv_nth)
    then show ?thesis using assms(3) k(1) by (simp add: nth_mem)
  next
    case 5
    have "e ! j \<in> set w" if "j < length e" for j
      using that 5 w [of "length u + j - length a"] e [OF that] by (auto simp: in_set_conv_nth intro!: exI [of _ "length u + j - length a"])
    then have "set e \<subseteq> set w" unfolding set_conv_nth [of e] by blast
    then show ?thesis using assms(4) by blast
  qed
qed

lemma join_includes:
  assumes "w \<noteq> []" "hd w \<notin> set e" "last w \<notin> set e" "\<exists>c\<in>set e. c \<notin> set w" "\<forall>p\<in>set ps. \<not> str_includes p w"
  shows "\<not> str_includes (join e ps) w"
  using assms(5)
proof (induction ps)
  case Nil
  then show ?case using assms(1) by (auto simp: str_includes_iff)
next
  case (Cons p ps)
  then show ?case using occurs_around [OF assms(1-4), of p "join e ps"] by (cases ps) auto
qed

lemma split_str_pieces: "p \<in> set (split_str token s) \<Longrightarrow> \<exists>u v. s = u @ p @ v"
proof (induction token s rule: split_str.induct)
  case (1 token s)
  show ?case
  proof (cases "token = [] \<or> find_sub token s = None")
    case True
    then have "split_str token s = [s]" by (subst split_str.simps) auto
    then have "p = s" using 1(2) by simp
    then show ?thesis by (metis append_Nil append_Nil2)
  next
    case False
    then obtain k where k: "find_sub token s = Some k" by auto
    then have "split_str token s = take k s # split_str token (drop (k + length token) s)"
      using False by (subst split_str.simps) simp
    then have "p = take k s \<or> p \<in> set (split_str token (drop (k + length token) s))" using 1(2) by simp
    then show ?thesis
    proof
      assume "p = take k s"
      then show ?thesis by (metis append_Nil append_take_drop_id)
    next
      assume "p \<in> set (split_str token (drop (k + length token) s))"
      then obtain u v where "drop (k + length token) s = u @ p @ v" using 1(1) False k by blast
      then show ?thesis by (metis append_assoc append_take_drop_id)
    qed
  qed
qed

lemma replace_absent: "\<not> str_includes s token \<Longrightarrow> replaceToken s token v = s"
  unfolding replaceToken_def by (subst split_str.simps) (simp add: str_includes_def)

lemma address_no_key:
  assumes "\<not> str_includes template KEY" "encodeURIComponent address = Some enc" "utf16 address" "58 \<in> set address"
  shows "\<not> str_includes (replaceToken template ADDRESS enc) KEY"
  unfolding replaceToken_def
proof (rule join_includes)
  have chars: "\<forall>c\<in>set enc. c = 37 \<or> unreserved c" by (rule encoded_chars [OF assms(2,3)])
  have "\<not> unreserved 123" "\<not> unreserved 125" "\<not> unreserved 58" by (simp_all add: unreserved_def is_digit_def js_lits)
  then show "hd KEY \<notin> set enc" "last KEY \<notin> set enc" using chars by (auto simp: KEY_def js_lits)
  show "\<exists>c\<in>set enc. c \<notin> set KEY"
    using encoded_percent [OF assms(2,4) \<open>\<not> unreserved 58\<close>] by (intro bexI [of _ 37]) (simp_all add: KEY_def js_lits)
  show "\<forall>p\<in>set (split_str ADDRESS template). \<not> str_includes p KEY"
  proof
    fix p assume "p \<in> set (split_str ADDRESS template)"
    then obtain u v where "template = u @ p @ v" using split_str_pieces by blast
    then show "\<not> str_includes p KEY" using assms(1) by (auto simp: str_includes_iff) (metis append_assoc)
  qed
qed (simp add: KEY_def js_lits)

text \<open>
  Claim C35.  A template that asks for no key gets none: the link is the same with every key and without one, whatever the address of the
  gateway encodes to.
\<close>

theorem key_only_where_asked:
  assumes "\<not> chatLinkRequiresApiKey template" "utf16 address" "str_includes address (js ''://'')"
  shows "resolveChatUrl template key address = resolveChatUrl template None address"
proof -
  have no: "\<not> str_includes template KEY" "\<not> str_includes template CHERRY" "\<not> str_includes template AIONUI" "\<not> str_includes template DEEPCHAT"
    using assms(1) by (simp_all add: chatLinkRequiresApiKey_def)
  have colon: "58 \<in> set address" "address \<noteq> []" using assms(3) by (auto simp: str_includes_iff js_lits)
  show ?thesis
  proof (cases "encodeURIComponent address")
    case (Some enc)
    then have "replaceToken (replaceToken template ADDRESS enc) KEY k = replaceToken template ADDRESS enc" for k
      using address_no_key [OF no(1) Some assms(2) colon(1)] by (rule_tac replace_absent)
    then show ?thesis using no colon Some by (simp add: resolveChatUrl_def Let_def)
  qed (use no colon in \<open>simp add: resolveChatUrl_def Let_def\<close>)
qed

theorem key_only_where_asked_witness:
  "resolveChatUrl (js ''x?{address}'') (Some (js ''k'')) (js ''a://b'') = resolveChatUrl (js ''x?{address}'') None (js ''a://b'')"
proof (rule key_only_where_asked)
  show "\<not> chatLinkRequiresApiKey (js ''x?{address}'')" by code_simp
  show "utf16 (js ''a://b'')" by code_simp
  show "str_includes (js ''a://b'') (js ''://'')" by code_simp
qed

subsection \<open>The link of a preset\<close>

lemma entry_id: "preset_entry lower i e = Some p \<Longrightarrow> cp_id p = show_nat i"
  by (auto simp: preset_entry_def Let_def split: jsval.splits list.splits if_splits prod.splits)

lemma route_index:
  assumes "i < 10 ^ 21"
  shows "route_preset (show_nat i) presets = (if i < length presets then Some (presets ! i) else None)"
proof -
  have "decimal (of_nat i)" using decimal_shift(2) [of i 0] by simp
  then have "to_number_str (show_nat i) = Some (of_nat i)"
    using to_number_num_str [of "of_nat i"] num_str_nat [OF assms] by simp
  then show ?thesis by (simp add: route_preset_def)
qed

lemma map_filter_length:
  "length (List.map_filter f xs) \<le> length xs"
  "length (List.map_filter f xs) = length xs \<longleftrightarrow> (\<forall>x\<in>set xs. f x \<noteq> None)"
proof -
  show le: "length (List.map_filter f xs) \<le> length xs" for xs
    by (induction xs) (auto simp: List.map_filter_simps split: option.split)
  show "length (List.map_filter f xs) = length xs \<longleftrightarrow> (\<forall>x\<in>set xs. f x \<noteq> None)"
  proof (induction xs)
    case (Cons x xs)
    then show ?case using le [of xs] by (cases "f x") (auto simp: List.map_filter_simps)
  qed (simp add: List.map_filter_simps)
qed

lemma map_filter_append: "List.map_filter f (xs @ ys) = List.map_filter f xs @ List.map_filter f ys"
  by (induction xs) (auto simp: List.map_filter_simps split: option.split)

text \<open>
  Claim C36.  The entry of the sidebar for a web client opens that client exactly when every entry of the configuration before it is valid: the
  identifier in the link counts all entries, the page looks it up in the list of the valid ones.  So one unreadable entry makes
  every later link open another client or none.
\<close>

theorem preset_link_opens:
  assumes "config_entries raw = Some es" "i < length es" "preset_entry lower i (es ! i) = Some p" "i < 10 ^ 21"
  shows "p \<in> set (parseChatConfig lower raw) \<and>
    (route_preset (cp_id p) (parseChatConfig lower raw) = Some p \<longleftrightarrow> (\<forall>j<i. preset_entry lower j (es ! j) \<noteq> None))"
proof -
  let ?g = "\<lambda>j. preset_entry lower j (es ! j)"
  let ?A = "List.map_filter ?g [0..<i]" and ?B = "List.map_filter ?g [Suc i..<length es]"
  have "[0..<length es] = [0..<i] @ i # [Suc i..<length es]" using upt_add_eq_append [of 0 i "length es - i"] upt_conv_Cons [OF assms(2)] assms(2) by simp
  then have presets: "parseChatConfig lower raw = ?A @ p # ?B"
    using assms(1,3) by (simp add: parseChatConfig_def map_filter_append List.map_filter_simps)
  have B: "q \<noteq> p" if q: "q \<in> set ?B" for q
  proof -
    obtain j where "i < j" "?g j = Some q" using q by (auto simp: map_filter_set Suc_le_eq)
    then have "cp_id q = show_nat j" "cp_id p = show_nat i" using entry_id assms(3) by blast+
    then show ?thesis using \<open>i < j\<close> by (metis digits_val_show_nat nat_neq_iff)
  qed
  have len: "length ?A \<le> i" "length ?A = i \<longleftrightarrow> (\<forall>j<i. ?g j \<noteq> None)"
    using map_filter_length [of ?g "[0..<i]"] by auto
  have id: "cp_id p = show_nat i" by (rule entry_id [OF assms(3)])
  have "route_preset (cp_id p) (?A @ p # ?B) = Some p \<longleftrightarrow> length ?A = i"
  proof
    assume "route_preset (cp_id p) (?A @ p # ?B) = Some p"
    then have i: "i < length (?A @ p # ?B)" "(?A @ p # ?B) ! i = p"
      by (auto simp: id route_index [OF assms(4)] split: if_splits)
    show "length ?A = i"
    proof (rule ccontr)
      assume "length ?A \<noteq> i"
      then have "length ?A < i" using len(1) by simp
      then have "(?A @ p # ?B) ! i = ?B ! (i - Suc (length ?A))" "i - Suc (length ?A) < length ?B"
        using i(1) by (auto simp: nth_append nth_Cons')
      then show False using i(2) B by (metis nth_mem)
    qed
  next
    assume "length ?A = i"
    then show "route_preset (cp_id p) (?A @ p # ?B) = Some p"
      unfolding id route_index [OF assms(4)] using nth_append_length [of ?A p ?B] by simp
  qed
  then show ?thesis using len(2) unfolding presets by simp
qed

theorem preset_link_opens_witness:
  "\<lparr>cp_id = js ''1'', cp_name = js ''A'', cp_url = js ''http://a'', cp_type = WebLink\<rparr>
     \<in> set (parseChatConfig id (Some (JArr [JNull, JObj [(js ''A'', JStr (js ''http://a''))]]))) \<and>
   route_preset (js ''1'') (parseChatConfig id (Some (JArr [JNull, JObj [(js ''A'', JStr (js ''http://a''))]]))) = None"
proof -
  let ?p = "\<lparr>cp_id = js ''1'', cp_name = js ''A'', cp_url = js ''http://a'', cp_type = WebLink\<rparr>"
  let ?es = "[JNull, JObj [(js ''A'', JStr (js ''http://a''))]]"
  have "config_entries (Some (JArr ?es)) = Some ?es" by (simp add: config_entries_def)
  moreover have p: "preset_entry id 1 (?es ! 1) = Some ?p" by code_simp
  ultimately have "?p \<in> set (parseChatConfig id (Some (JArr ?es)))"
    using preset_link_opens [of "Some (JArr ?es)" ?es 1 id ?p] by simp
  moreover have "route_preset (js ''1'') (parseChatConfig id (Some (JArr ?es))) = None" by code_simp
  ultimately show ?thesis by blast
qed

end
