(* ===== verification/Spec2Isabelle.thy ===== *)
theory Spec2Isabelle
  imports StatusCodes StatusRisk ModelMapping ChatMachine ModelPricing Channels Upstream TableUrl OverrideEditor
    PublishedPrices Navigation Notifications ChatLinks
begin

text \<open>
  \<^bold>\<open>The client-side logic of the administration console of an AI gateway\<close>

  The repository is a gateway for AI services.  A server written in Go relays requests to upstream
  providers; administrators configure its channels, prices and rules in a web console, and
  users try models in a playground.  This development is about the console in
  \<^verbatim>\<open>src/web/default/src\<close>, written in TypeScript, and there about the code that has logic
  of its own: the small languages administrators type (status code rules, model mappings, billing
  expressions, parameter overrides), the editors that show such a text as a form and print the
  form again, the documents and payloads built for the server, and the playground's chat, a state
  machine driven by a stream of events.

  \<^bold>\<open>Parts and theories\<close>

  The language.  \<^verbatim>\<open>JsPrelude\<close> has strings as lists of UTF-16 code units, with \<open>trim\<close>,
  \<open>split\<close>, \<open>join\<close>, \<open>indexOf\<close>, sets that keep their insertion order and the stable sort with a
  comparator.  \<^verbatim>\<open>Json\<close> has JSON values, objects with JavaScript's property order, the
  parser and both printers (compact and indented by two), and proves the round trips that the
  editors rest on.  \<^verbatim>\<open>JsNumber\<close> has the conversions \<open>Number\<close> and \<open>parseFloat\<close>; numbers are exact
  rationals, and printed decimal numbers are read back.
  \<^verbatim>\<open>Regex\<close> has backtracking patterns as the list of all matches in the order in which the
  matcher tries them.  \<^verbatim>\<open>Machine\<close> has reachable states and runs of a step relation and the
  locale \<open>machine_invariant\<close>, which every state machine below interprets.

  Status codes.  \<^verbatim>\<open>StatusCodes\<close> models \<^verbatim>\<open>lib/http-status-code-rules.ts\<close>: tokens,
  merging of ranges, the normalised text.  The lemmas show that the result is canonical, covers
  exactly what the tokens cover and is a fixed point.  \<^verbatim>\<open>StatusRisk\<close> models
  \<^verbatim>\<open>features/channels/lib/status-code-risk-guard.ts\<close> and shows which redirects it reports.

  Models and mappings.  \<^verbatim>\<open>ModelMapping\<close> models
  \<^verbatim>\<open>features/channels/lib/model-mapping-validation.ts\<close> and the list parsers that share its
  text format; the locale \<open>comma_codec\<close> is their common contract.

  Playground.  \<^verbatim>\<open>ThinkTags\<close> and \<^verbatim>\<open>Playground\<close> model
  \<^verbatim>\<open>features/playground/lib\<close>: think tags against a grammar of replies, messages and their
  versions, streaming and final content, repair on load, the request payload.
  \<^verbatim>\<open>ChatMachine\<close> models the two hooks \<^verbatim>\<open>use-stream-request.ts\<close> and
  \<^verbatim>\<open>use-chat-handler.ts\<close> and the handlers of \<^verbatim>\<open>index.tsx\<close> as a step relation over
  user actions, stream events and reloads; its invariant says that nothing stays in progress once
  the stream is closed.

  Billing.  \<^verbatim>\<open>BillingExpr\<close> models \<^verbatim>\<open>features/pricing/lib/billing-expr.ts\<close>, the
  request rules with their printer, their splitter that respects quotes and parentheses, and their
  parser made of patterns; \<^verbatim>\<open>BillingRules\<close> proves the round trips and the one case in which
  the parser does not read what the printer prints.

  Prices.  \<^verbatim>\<open>TierExpr\<close> models \<^verbatim>\<open>features/pricing/lib/tier-expr.ts\<close>: tiers of prices, their printer and the parser
  made of two patterns; \<^verbatim>\<open>TierConfig\<close> proves that printed configurations are read back.  \<^verbatim>\<open>TierEditor\<close> models
  \<^verbatim>\<open>features/system-settings/models/tiered-pricing-editor.tsx\<close>: number fields, tier cards, rule rows and the editor,
  whose four effects run after every commit until nothing changes.  The lemmas say what the parent has
  when the editor has come to rest: for prices the editor printed, for every change of the tiers, and for prices and rules it
  cannot read, which it destroys.  \<^verbatim>\<open>ModelPricing\<close> models the rest of that page, \<^verbatim>\<open>pricing-format.ts\<close>,
  \<^verbatim>\<open>model-pricing-sheet.tsx\<close>, \<^verbatim>\<open>model-ratio-visual-editor.tsx\<close> and \<^verbatim>\<open>safeJsonParse\<close>: the number printer with its
  correction of rounding errors, the panel in which a model is edited, with the tier editor inside it, and the ten
  documents that are saved.  Two machine invariants (ratios follow prices, disabled lanes have no
  ratio) give the accuracy of what is saved.

  The price page.  \<^verbatim>\<open>PriceCatalogue\<close> models the public page of models and prices in \<^verbatim>\<open>features/pricing\<close>
  (\<^verbatim>\<open>lib/filters.ts\<close>, \<^verbatim>\<open>lib/price.ts\<close>, \<^verbatim>\<open>lib/dynamic-price.ts\<close>, \<^verbatim>\<open>hooks/use-filters.ts\<close>, \<^verbatim>\<open>hooks/use-pricing-data.ts\<close>): its
  list refines a stable arrangement of the models that match, its prices are accurate to their last decimal, and
  one table shows free groups at full price.  \<^verbatim>\<open>PublishedPrices\<close> joins it with the editors: the tiers that
  the tier editor prints are the tiers that the page shows, and the price typed in the panel is the price that
  visitors see.  The locale \<open>tier_pattern\<close> of \<^verbatim>\<open>TierExpr\<close> is the contract of the two patterns that read printed tiers, the editor's
  and the page's; it is interpreted for both.

  Channels.  \<^verbatim>\<open>Channels\<close> models the types and constants of \<^verbatim>\<open>features/channels\<close> and
  \<^verbatim>\<open>lib/channel-utils.ts\<close>; aggregation by tag refines grouping by tag.
  \<^verbatim>\<open>ChannelForm\<close> models \<^verbatim>\<open>lib/channel-form.ts\<close>: checks, default values, the two
  setting documents, and the payloads for creating and updating a channel.  \<^verbatim>\<open>Upstream\<close> models the updates of
  the models of a channel (\<^verbatim>\<open>lib/upstream-update-utils.ts\<close>, \<^verbatim>\<open>hooks/use-channel-upstream-updates.ts\<close> and the dialog): four
  asynchronous calls, cut at their awaits, interleave with clicks; its lemmas are that no call runs twice, that all settle,
  and what a confirmation sends.

  Tables.  \<^verbatim>\<open>TableUrl\<close> models \<^verbatim>\<open>hooks/use-table-url-state.ts\<close>, which keeps the page, the filters and the search text of a
  table in the URL, with the options of the six tables that search, as a state machine over the handlers and navigation.

  Navigation.  \<^verbatim>\<open>Navigation\<close> models the settings of the header and of the sidebar and everything that reads them: the forms of
  the administrator (\<^verbatim>\<open>features/system-settings/maintenance\<close>), the public reader \<^verbatim>\<open>lib/nav-modules.ts\<close> with the guards of
  the routes, the links of the header, the sidebar with its two layers (\<^verbatim>\<open>hooks/use-sidebar-config.ts\<close>) and the card in which
  users switch modules off.  The lemmas show that the readers agree with the forms and with each other, except on numbers.

  Notifications.  \<^verbatim>\<open>Notifications\<close> models \<^verbatim>\<open>hooks/use-notifications.ts\<close> and \<^verbatim>\<open>stores/notification-store.ts\<close> as a state machine;
  the hash of announcements is computed on 32-bit words, and a lemma gives the polynomial that it equals modulo \<open>2 ^ 32\<close>.

  Chat links.  \<^verbatim>\<open>ChatLinks\<close> models \<^verbatim>\<open>features/chat/lib/chat-links.ts\<close> with the hooks, the two pages and the entry of the sidebar
  that use it, down to base 64 and percent encoding.  The lemmas show that a client reads from its link what was put there, that a
  link gets a key only where its template asks for one, and when the link of a preset opens that preset.

  Parameter overrides.  \<^verbatim>\<open>ParamOverride\<close> has the data, tables, templates and functions of
  \<^verbatim>\<open>components/dialogs/param-override-editor-dialog.tsx\<close>, \<^verbatim>\<open>OverrideText\<close> what
  survives being printed and read again, and \<^verbatim>\<open>OverrideEditor\<close> the dialog itself, its state,
  effects and handlers as a state machine.

  \<^bold>\<open>How code is represented\<close>

  An object is a record, a union of constants a datatype or the constant's text, \<open>undefined\<close>
  and \<open>null\<close> an option, a JavaScript object with computed keys an association list in property
  order.  A function that can throw returns an option or a sum.  React state is a record;
  a handler maps it to its successor, and the events that the view can raise are a datatype.
  Local identifiers come from a counter that is threaded through the calls and a clock that is a
  parameter of the definitions; so are the translation function \<open>t\<close>, \<open>nanoid\<close>, the
  comparison of strings by locale and, where it matters, the conversion to lower case.  Bit operations of the language are
  operations on 32-bit words.

  \<^bold>\<open>Bounds and fuel\<close>

  The JSON parser takes fuel because its three functions call each other: twice the length of
  the text plus two, and \<open>parse_fuel_enough\<close> shows that more makes no difference.  Loops over positions
  (\<open>think_loop\<close>, \<open>rx_search\<close>, the stripping of parentheses) have a measure and no fuel.  Round trips
  of JSON are proved for the values that \<open>json_rt\<close> describes: decimal numbers, strings of 16-bit code units, objects in
  property order.  The tier editor commits until nothing changes, at most as often as the number that \<open>settle\<close> takes;
  each theorem about it gives a number that suffices (1 to 5) and shows that the editor comes to rest.
  Prices of at most eight decimals and five millions are printed exactly; all others up to \<open>10 ^ 20\<close> within \<open>price_tolerance\<close>.

  \<^bold>\<open>Not modelled\<close>

  The cost estimate of a price expression, which hands the text to the interpreter of the language; the list of price
  presets and the prompt for language models, which are data; the metadata and statistics of models that the price page
  infers or makes up; the rounding of binary floating-point numbers.  The drawing of the views, the generated route tree, styles and translations, because they have
  no logic beyond the libraries they call; the HTTP client and the query cache, which are input
  and output; the display of dates, balances and charts, which rests on \<open>Intl\<close>, \<open>dayjs\<close> and
  floating-point rounding; the previous console in \<^verbatim>\<open>src/web/classic\<close>, the documentation site and the
  desktop shell; the Go server, a program of its own that the console reaches through HTTP only.
\<close>

section \<open>Properties that span components\<close>

text \<open>
  Claim C14.  The form and the update page agree: from the settings document that the form of a channel with
  fetchable models builds, the page reads that checks are enabled exactly when the form enabled them, as
  pending models to add those detected before (none when checks are off), as pending models to remove
  those recorded before, and as many ignored models as the form lists.
\<close>

theorem saved_settings_updates:
  assumes "existing_settings d = JObj ps" "json_rt (JObj ps)" "printable_settings d"
    and "fv_type d \<in> set MODEL_FETCHABLE_TYPES"
    and "normalizeModelList (obj_get ps (js ''upstream_model_update_last_removed_models'')) = Some removed"
  shows "\<exists>s. buildSettingsJSON d = Some s \<and>
    parseUpstreamUpdateMeta (Some (JStr s)) = Some
      \<lparr>um_enabled = (fv_upstream_check_enabled d = Some True),
       um_pendingAddModels =
         (case obj_get ps (js ''upstream_model_update_last_detected_models'') of
            Some (JArr vs) \<Rightarrow> if fv_upstream_check_enabled d = Some True then normalize_models vs else []
          | _ \<Rightarrow> []),
       um_pendingRemoveModels = removed\<rparr> \<and>
    getManualIgnoredModelCount (Some (JStr s)) = Some (length (ignored_models d))"
proof -
  obtain s qs where s: "buildSettingsJSON d = Some s" "JSON_parse s = Some (JObj qs)"
    and get: "\<And>k. obj_get qs k = (case map_of (type_table d @ upstream_table d ps) k of
                           Some r \<Rightarrow> r | None \<Rightarrow> obj_get ps k)"
    using settings_document_lookup [OF assms(1-3)] by metis
  have nil: "normalize_models [] = []" by code_simp
  have q: "obj_get qs (js ''upstream_model_update_check_enabled'') = Some (JBool (fv_upstream_check_enabled d = Some True))"
    "obj_get qs (js ''upstream_model_update_last_removed_models'') =
       obj_get ps (js ''upstream_model_update_last_removed_models'')"
    "obj_get qs (js ''upstream_model_update_ignored_models'') = Some (JArr (map JStr (ignored_models d)))"
    "obj_get qs (js ''upstream_model_update_last_detected_models'') =
       (let v = obj_get ps (js ''upstream_model_update_last_detected_models'')
        in if fv_upstream_check_enabled d = Some True \<and> is_array v then v else Some (JArr []))"
    using assms(4) by (simp_all add: get type_table_def upstream_table_def Let_def)
  show ?thesis
    using s(1) assms(5)
    by (auto simp: parseUpstreamUpdateMeta_def getManualIgnoredModelCount_def parsed_settings_def s(2) js_prop_def q
        normalizeModelList_def or_val_def truthy_opt_def truthy_def nil normalize_ignored is_array_def
        split: option.splits jsval.splits if_splits)
qed

theorem saved_settings_updates_witness:
  "\<exists>s. buildSettingsJSON anthropic_form = Some s \<and>
     getManualIgnoredModelCount (Some (JStr s)) = Some (length (ignored_models anthropic_form))"
proof -
  have "fv_type anthropic_form \<in> set MODEL_FETCHABLE_TYPES"
    by (simp add: anthropic_form_def CHANNEL_FORM_DEFAULT_VALUES_def MODEL_FETCHABLE_TYPES_def)
  moreover have "normalizeModelList (obj_get [(js ''disable_store'', JBool True), (js ''x'', JNum 7)]
      (js ''upstream_model_update_last_removed_models'')) = Some []" by code_simp
  ultimately show ?thesis
    using saved_settings_updates [OF anthropic_existing anthropic_printable] by blast
qed

end
